(* ===== verification/Prelude.thy ===== *)
theory Prelude
  imports Main "HOL-Library.Word" "HOL-Library.Monad_Syntax"
begin

text \<open>
  Shared vocabulary of the development: the integer types of the C code, the C operations
  that can have no defined result, and the generic lemmas about them.

  A C computation that fails an \<open>assert\<close>, reads or writes outside an array, follows a null
  pointer or never returns has no result. Such a computation is \<open>None\<close> here; a computation
  that returns is \<open>Some\<close>. The do-notation of the option monad sequences computations, so
  one undefined step makes the whole call undefined. A theorem that a function \<^emph>\<open>is\<close>
  \<open>Some\<close> is therefore a theorem of memory safety, of the absence of assertion failures and
  of termination at once.
\<close>

unbundle bit_operations_syntax

section \<open>Integer types\<close>

type_synonym byte = "8 word"
type_synonym ushort = "16 word"

text \<open>
  \<open>size_t\<close> values are natural numbers, \<open>long\<close> and \<open>int\<close> values are integers. Where the
  code relies on conversions or on unsigned wrap-around, the width (64 bits) is written out.
\<close>

definition size_of_long :: "int \<Rightarrow> nat" where
  "size_of_long x = nat (x mod 2 ^ 64)"

definition size_sub :: "nat \<Rightarrow> nat \<Rightarrow> nat" where
  "size_sub a b = (if b \<le> a then a - b else 2 ^ 64 - (b - a))"

lemma size_sub_le [simp]: "b \<le> a \<Longrightarrow> size_sub a b = a - b"
  by (simp add: size_sub_def)

lemma size_of_long_nonneg [simp]: "0 \<le> x \<Longrightarrow> x < 2 ^ 64 \<Longrightarrow> size_of_long x = nat x"
  by (simp add: size_of_long_def)

section \<open>Assertions\<close>

definition c_assert :: "bool \<Rightarrow> unit option" where
  "c_assert b = (if b then Some () else None)"

lemma c_assert_True [simp]: "c_assert True = Some ()"
  by (simp add: c_assert_def)

lemma c_assert_False [simp]: "c_assert False = None"
  by (simp add: c_assert_def)

lemma c_assert_eq_Some [simp]: "c_assert b = Some u \<longleftrightarrow> b"
  by (simp add: c_assert_def)

lemma c_assert_bind: "c_assert b \<bind> f = (if b then f () else None)"
  by (simp add: c_assert_def)

section \<open>Arrays\<close>

text \<open>
  An array is the list of the cells its memory holds. Every access is checked: outside the
  list there is no result. \<open>arr_move\<close> is \<open>memmove\<close> inside one array, in elements.
\<close>

named_theorems arr_simps

definition arr_get :: "'a list \<Rightarrow> nat \<Rightarrow> 'a option" where
  "arr_get xs i = (if i < length xs then Some (xs ! i) else None)"

definition arr_set :: "'a list \<Rightarrow> nat \<Rightarrow> 'a \<Rightarrow> 'a list option" where
  "arr_set xs i v = (if i < length xs then Some (xs[i := v]) else None)"

definition arr_slice :: "'a list \<Rightarrow> nat \<Rightarrow> nat \<Rightarrow> 'a list option" where
  "arr_slice xs i n = (if i + n \<le> length xs then Some (take n (drop i xs)) else None)"

definition arr_write :: "'a list \<Rightarrow> nat \<Rightarrow> 'a list \<Rightarrow> 'a list option" where
  "arr_write xs i ys =
     (if i + length ys \<le> length xs
      then Some (take i xs @ ys @ drop (i + length ys) xs) else None)"

definition arr_move :: "'a list \<Rightarrow> nat \<Rightarrow> nat \<Rightarrow> nat \<Rightarrow> 'a list option" where
  "arr_move xs dst src n = do { ys \<leftarrow> arr_slice xs src n; arr_write xs dst ys }"

lemma arr_get_in [arr_simps]: "i < length xs \<Longrightarrow> arr_get xs i = Some (xs ! i)"
  by (simp add: arr_get_def)

lemma arr_set_in [arr_simps]: "i < length xs \<Longrightarrow> arr_set xs i v = Some (xs[i := v])"
  by (simp add: arr_set_def)

lemma arr_slice_in [arr_simps]:
  "i + n \<le> length xs \<Longrightarrow> arr_slice xs i n = Some (take n (drop i xs))"
  by (simp add: arr_slice_def)

lemma arr_write_in [arr_simps]:
  "i + length ys \<le> length xs \<Longrightarrow>
     arr_write xs i ys = Some (take i xs @ ys @ drop (i + length ys) xs)"
  by (simp add: arr_write_def)

lemma arr_get_eq_Some [simp]: "arr_get xs i = Some v \<longleftrightarrow> i < length xs \<and> v = xs ! i"
  by (auto simp: arr_get_def)

lemma arr_set_eq_Some [simp]: "arr_set xs i v = Some ys \<longleftrightarrow> i < length xs \<and> ys = xs[i := v]"
  by (auto simp: arr_set_def)

lemma arr_slice_eq_Some [simp]:
  "arr_slice xs i n = Some ys \<longleftrightarrow> i + n \<le> length xs \<and> ys = take n (drop i xs)"
  by (auto simp: arr_slice_def)

lemma arr_write_eq_Some [simp]:
  "arr_write xs i ys = Some zs \<longleftrightarrow>
     i + length ys \<le> length xs \<and> zs = take i xs @ ys @ drop (i + length ys) xs"
  by (auto simp: arr_write_def)

lemmas arr_iffs = arr_get_eq_Some arr_set_eq_Some arr_slice_eq_Some arr_write_eq_Some

lemma length_arr_write: "arr_write xs i ys = Some zs \<Longrightarrow> length zs = length xs"
  by auto

lemma length_arr_set: "arr_set xs i v = Some zs \<Longrightarrow> length zs = length xs"
  by auto

lemma length_arr_move: "arr_move xs d s n = Some zs \<Longrightarrow> length zs = length xs"
  by (auto simp: arr_move_def bind_eq_Some_conv)

text \<open>Closing a gap at index \<open>p\<close> by moving the rest of the array down one cell.\<close>

definition remove_nth :: "nat \<Rightarrow> 'a list \<Rightarrow> 'a list" where
  "remove_nth i xs = take i xs @ drop (Suc i) xs"

lemma length_remove_nth [simp]: "i < length xs \<Longrightarrow> length (remove_nth i xs) = length xs - 1"
  by (simp add: remove_nth_def)

lemma remove_nth_0 [simp]: "remove_nth 0 xs = tl xs"
  by (simp add: remove_nth_def drop_Suc)

lemma remove_nth_append:
  "remove_nth i (xs @ ys) =
     (if i < length xs then remove_nth i xs @ ys else xs @ remove_nth (i - length xs) ys)"
  by (simp add: remove_nth_def Suc_diff_le)

lemma take_remove_nth_before:
  assumes "p < n" and "n \<le> length xs"
  shows "take (n - Suc 0) (remove_nth p xs) = remove_nth p (take n xs)"
proof -
  obtain k where n: "n = p + Suc k" using assms(1) less_iff_Suc_add by auto
  show ?thesis
    using assms(2) by (simp add: n remove_nth_def drop_take min_def)
qed

lemma take_remove_nth_after:
  "n \<le> p \<Longrightarrow> p < length xs \<Longrightarrow> take n (remove_nth p xs) = take n xs"
  by (simp add: remove_nth_def min_def)

lemma drop_remove_nth_before:
  assumes "p < n" and "n \<le> length xs"
  shows "drop (n - Suc 0) (remove_nth p xs) = drop n xs"
proof -
  obtain k where n: "n = p + Suc k" using assms(1) less_iff_Suc_add by auto
  show ?thesis
    using assms(2) by (simp add: n remove_nth_def add.commute)
qed

lemma drop_remove_nth_after:
  "n \<le> p \<Longrightarrow> p < length xs \<Longrightarrow> drop n (remove_nth p xs) = remove_nth (p - n) (drop n xs)"
  by (simp add: remove_nth_def drop_take Suc_diff_le)

lemma set_remove_nth_subset: "set (remove_nth i xs) \<subseteq> set xs"
  by (auto simp: remove_nth_def dest: in_set_takeD in_set_dropD)

lemma distinct_remove_nth [simp]: "distinct xs \<Longrightarrow> distinct (remove_nth i xs)"
  unfolding remove_nth_def
  by (metis (no_types, lifting) Suc_n_not_le_n distinct_append distinct_drop distinct_take
      linorder_le_cases set_take_disj_set_drop_if_distinct)

lemma set_remove_nth_distinct:
  assumes "distinct xs" and "i < length xs"
  shows "set (remove_nth i xs) = set xs - {xs ! i}"
proof -
  have split: "xs = take i xs @ xs ! i # drop (Suc i) xs"
    using assms(2) by (rule id_take_nth_drop)
  have dist: "distinct (take i xs @ xs ! i # drop (Suc i) xs)"
    using assms(1) split by simp
  have "set xs = insert (xs ! i) (set (remove_nth i xs))"
    by (subst split) (simp add: remove_nth_def)
  moreover have "xs ! i \<notin> set (remove_nth i xs)"
    using dist by (simp add: remove_nth_def)
  ultimately show ?thesis by simp
qed

lemma take_arr_move_gap:
  assumes "p < c" and "c \<le> m" and "m \<le> length xs"
  shows "\<exists>zs. arr_move xs p (p + 1) (m - p - 1) = Some zs \<and> length zs = length xs \<and>
    take (c - 1) zs = remove_nth p (take c xs)"
proof -
  let ?ys = "take (m - p - 1) (drop (p + 1) xs)"
  let ?zs = "take p xs @ ?ys @ drop (p + length ?ys) xs"
  have "arr_move xs p (p + 1) (m - p - 1) = Some ?zs"
    using assms by (simp add: arr_move_def arr_simps)
  moreover have "length ?zs = length xs"
    using assms by simp
  moreover have "take (c - 1) ?zs = remove_nth p (take c xs)"
  proof -
    obtain k where c: "c = p + Suc k" using assms(1) less_iff_Suc_add by auto
    obtain j where m: "m = p + Suc (k + j)" using assms(2) c by (auto simp: le_iff_add)
    show ?thesis
      using assms(3) by (simp add: c m remove_nth_def drop_take min_def) arith
  qed
  ultimately show ?thesis by blast
qed

text \<open>Taking an array apart around two cells, and writing behind its first cell.\<close>

lemma split_at_2:
  assumes "Suc n + 2 \<le> length buf"
  obtains x ys p q zs where "buf = x # ys @ p # q # zs" and "length ys = n"
proof -
  obtain x rest where buf: "buf = x # rest" using assms by (cases buf) auto
  have "drop n rest \<noteq> []" "tl (drop n rest) \<noteq> []" using assms buf by (auto simp: tl_drop drop_Suc [symmetric])
  then obtain p q zs where "drop n rest = p # q # zs" by (metis list.collapse)
  then have "rest = take n rest @ p # q # zs" by (metis append_take_drop_id)
  moreover have "length (take n rest) = n" using assms buf by simp
  ultimately show ?thesis using that buf by metis
qed

lemma builder_fixed_spec:
  assumes "length ls + 1 \<le> length buf"
  shows "\<exists>buf1. arr_write buf 1 ls = Some buf1 \<and> length buf1 = length buf \<and>
    0 < length buf1 \<and> take (1 + length ls) (buf1[0 := b]) = b # ls"
proof -
  obtain x ys where "buf = x # ys" using assms by (cases buf) auto
  then show ?thesis using assms by (simp add: arr_simps)
qed

section \<open>Big-endian 16-bit fields\<close>

text \<open>\<open>STRING_LEN_BYTE(val, num)\<close>: byte number \<open>num\<close> of an integer, counted from the low end.\<close>

definition string_len_byte :: "int \<Rightarrow> nat \<Rightarrow> byte" where
  "string_len_byte val num = word_of_int (drop_bit (num * 8) val AND 0xff)"

definition be16 :: "int \<Rightarrow> byte list" where
  "be16 v = [string_len_byte v 1, string_len_byte v 0]"

lemma length_be16 [simp]: "length (be16 v) = 2"
  by (simp add: be16_def)


section \<open>Bytes\<close>

lemma uint_small_byte: "m < 256 \<Longrightarrow> uint (word_of_nat m :: byte) = int m"
  by (simp add: unsigned_of_nat take_bit_eq_mod)

lemma byte_and_127: "uint ((b::byte) AND 127) = uint b mod 128"
proof -
  have "b AND 127 = take_bit 7 b" unfolding take_bit_eq_mask by (simp add: mask_eq_exp_minus_1)
  then have "uint (b AND 127) = take_bit 7 (uint b)" by (simp only: unsigned_take_bit_eq)
  then show ?thesis by (simp add: take_bit_eq_mod)
qed

lemma byte_and_128: "(b::byte) AND 128 = 0 \<longleftrightarrow> uint b < 128"
proof -
  have r: "0 \<le> uint b" "uint b < 256" using uint_lt2p [of b] by simp_all
  have "b AND 128 = 0 \<longleftrightarrow> \<not> bit (uint b) 7"
    using and_exp_eq_0_iff_not_bit [of b 7] by (simp add: bit_uint_iff)
  also have "bit (uint b) 7 \<longleftrightarrow> odd (uint b div 128)" by (simp add: bit_iff_odd)
  also have "odd (uint b div 128) \<longleftrightarrow> 128 \<le> uint b" using r by presburger
  finally show ?thesis by linarith
qed

lemma byte_or_128:
  assumes "m < 128"
  shows "(word_of_nat m OR 0x80 :: byte) = word_of_nat (m + 128)"
proof -
  have "(word_of_nat m :: byte) AND 0x80 = 0"
    unfolding byte_and_128 using assms by (simp only: uint_small_byte)
  from disjunctive_add_eq_or [OF this] show ?thesis by (simp only: of_nat_add of_nat_numeral)
qed

lemma uint_or_128: "m < 128 \<Longrightarrow> uint (word_of_nat m OR 0x80 :: byte) = int m + 128"
  by (simp only: byte_or_128 uint_small_byte)

lemma byte_bounds: "0 \<le> uint (b::byte)" "uint (b::byte) < 256"
  using uint_lt2p [of b] by simp_all

text \<open>A 16-bit identifier is put together again from its two bytes.\<close>

lemma be16_join: "push_bit 8 (ucast (string_len_byte (uint p) 1)) OR ucast (string_len_byte (uint p) 0) = (p::ushort)"
proof (rule bit_word_eqI)
  fix n assume "n < LENGTH(16)"
  then have n: "n < 16" by simp
  have ff: "bit (255::int) m \<longleftrightarrow> m < 8" for m
  proof -
    have "(255::int) = mask 8" by (simp add: mask_eq_exp_minus_1)
    then show ?thesis by (simp only: bit_mask_iff) simp
  qed
  show "bit (push_bit 8 (ucast (string_len_byte (uint p) 1)) OR ucast (string_len_byte (uint p) 0) :: ushort) n = bit p n"
    using n by (auto simp: bit_simps string_len_byte_def ff)
qed

end
