(* ===== verification/Core_Types.thy ===== *)
theory Core_Types
  imports Prelude
begin

text \<open>
  The enumerations and the small structs that every component shares: \<open>core.h\<close>, \<open>types.h\<close>,
  the enumerations of \<open>packet.h\<close>, \<open>lmqtt_string_t\<close>, and the time value of \<open>time.h\<close>.

  Pointers are addresses: a user object that a request refers to lives in a heap at an
  \<open>addr\<close>, a function pointer is a number (\<open>fnptr\<close>) whose code is looked up in the
  environment, and a null pointer is \<open>None\<close>.
\<close>

type_synonym addr = nat
type_synonym fnptr = nat
type_synonym packet_id = ushort

section \<open>Results of input, output, encoding and decoding\<close>

datatype io_result = IO_SUCCESS | IO_WOULD_BLOCK | IO_ERROR

datatype io_status = STATUS_READY | STATUS_BLOCK_CONN | STATUS_BLOCK_DATA | STATUS_ERROR

datatype encode_result =
  ENCODE_FINISHED | ENCODE_CONTINUE | ENCODE_WOULD_BLOCK | ENCODE_ERROR

datatype decode_result =
  DECODE_FINISHED | DECODE_CONTINUE | DECODE_WOULD_BLOCK | DECODE_ERROR

datatype allocate_result = ALLOCATE_SUCCESS | ALLOCATE_IGNORE | ALLOCATE_ERROR

datatype string_result =
  STRING_SUCCESS | STRING_WOULD_BLOCK | STRING_OS_ERROR | STRING_INVALID_OBJECT

section \<open>Error codes\<close>

text \<open>\<open>NO_ERROR\<close> is the value 0, which the code stores in \<open>lmqtt_error_t\<close> fields for "no error".\<close>

datatype lmqtt_error =
    NO_ERROR
  | ERROR_ENCODE_STRING
  | ERROR_DECODE_FIXED_HEADER_INVALID_TYPE
  | ERROR_DECODE_FIXED_HEADER_INVALID_FLAGS
  | ERROR_DECODE_FIXED_HEADER_INVALID_REMAINING_LENGTH
  | ERROR_DECODE_FIXED_HEADER_SERVER_SPECIFIC
  | ERROR_DECODE_NONZERO_REMAINING_LENGTH
  | ERROR_DECODE_NO_CORRESPONDING_REQUEST
  | ERROR_DECODE_RESPONSE_TOO_SHORT
  | ERROR_DECODE_CONNACK_INVALID_ACKNOWLEDGE_FLAGS
  | ERROR_DECODE_CONNACK_INVALID_RETURN_CODE
  | ERROR_DECODE_CONNACK_INVALID_LENGTH
  | ERROR_DECODE_SUBACK_COUNT_MISMATCH
  | ERROR_DECODE_SUBACK_INVALID_RETURN_CODE
  | ERROR_DECODE_PUBLISH_INVALID_LENGTH
  | ERROR_DECODE_PUBLISH_ID_SET_FULL
  | ERROR_DECODE_PUBLISH_TOPIC_ALLOCATE_FAILED
  | ERROR_DECODE_PUBLISH_TOPIC_WRITE_FAILED
  | ERROR_DECODE_PUBLISH_PAYLOAD_ALLOCATE_FAILED
  | ERROR_DECODE_PUBLISH_PAYLOAD_WRITE_FAILED
  | ERROR_DECODE_PUBLISH_MESSAGE_CALLBACK_FAILED
  | ERROR_DECODE_PUBREL_ID_SET_FULL
  | ERROR_CONNECTION_READ
  | ERROR_CONNECTION_WRITE
  | ERROR_TIMEOUT
  | ERROR_CLOSED
  | ERROR_CONNACK_UNACCEPTABLE_PROTOCOL_VERSION
  | ERROR_CONNACK_IDENTIFIER_REJECTED
  | ERROR_CONNACK_SERVER_UNAVAILABLE
  | ERROR_CONNACK_BAD_USER_NAME_OR_PASSWORD
  | ERROR_CONNACK_NOT_AUTHORIZED
  | ERROR_CALLBACK_CONNACK
  | ERROR_CALLBACK_SUBACK
  | ERROR_CALLBACK_UNSUBACK
  | ERROR_CALLBACK_PUBLISH

text \<open>The numeric values of the enumeration, in the order of its declaration, and back.\<close>

definition lmqtt_errors :: "lmqtt_error list" where
  "lmqtt_errors =
    [NO_ERROR, ERROR_ENCODE_STRING, ERROR_DECODE_FIXED_HEADER_INVALID_TYPE,
     ERROR_DECODE_FIXED_HEADER_INVALID_FLAGS,
     ERROR_DECODE_FIXED_HEADER_INVALID_REMAINING_LENGTH,
     ERROR_DECODE_FIXED_HEADER_SERVER_SPECIFIC, ERROR_DECODE_NONZERO_REMAINING_LENGTH,
     ERROR_DECODE_NO_CORRESPONDING_REQUEST, ERROR_DECODE_RESPONSE_TOO_SHORT,
     ERROR_DECODE_CONNACK_INVALID_ACKNOWLEDGE_FLAGS,
     ERROR_DECODE_CONNACK_INVALID_RETURN_CODE, ERROR_DECODE_CONNACK_INVALID_LENGTH,
     ERROR_DECODE_SUBACK_COUNT_MISMATCH, ERROR_DECODE_SUBACK_INVALID_RETURN_CODE,
     ERROR_DECODE_PUBLISH_INVALID_LENGTH, ERROR_DECODE_PUBLISH_ID_SET_FULL,
     ERROR_DECODE_PUBLISH_TOPIC_ALLOCATE_FAILED, ERROR_DECODE_PUBLISH_TOPIC_WRITE_FAILED,
     ERROR_DECODE_PUBLISH_PAYLOAD_ALLOCATE_FAILED,
     ERROR_DECODE_PUBLISH_PAYLOAD_WRITE_FAILED,
     ERROR_DECODE_PUBLISH_MESSAGE_CALLBACK_FAILED, ERROR_DECODE_PUBREL_ID_SET_FULL,
     ERROR_CONNECTION_READ, ERROR_CONNECTION_WRITE, ERROR_TIMEOUT, ERROR_CLOSED,
     ERROR_CONNACK_UNACCEPTABLE_PROTOCOL_VERSION, ERROR_CONNACK_IDENTIFIER_REJECTED,
     ERROR_CONNACK_SERVER_UNAVAILABLE, ERROR_CONNACK_BAD_USER_NAME_OR_PASSWORD,
     ERROR_CONNACK_NOT_AUTHORIZED, ERROR_CALLBACK_CONNACK, ERROR_CALLBACK_SUBACK,
     ERROR_CALLBACK_UNSUBACK, ERROR_CALLBACK_PUBLISH]"

fun index_from :: "nat \<Rightarrow> 'a \<Rightarrow> 'a list \<Rightarrow> nat" where
  "index_from n x [] = n"
| "index_from n x (y # ys) = (if x = y then n else index_from (Suc n) x ys)"

definition error_code :: "lmqtt_error \<Rightarrow> nat" where
  "error_code e = index_from 0 e lmqtt_errors"

lemma error_code_nth: "lmqtt_errors ! error_code e = e \<and> error_code e < length lmqtt_errors"
  by (cases e) (simp_all add: error_code_def lmqtt_errors_def)

lemma error_code_zero_iff [simp]: "error_code e = 0 \<longleftrightarrow> e = NO_ERROR"
  by (cases e) (simp_all add: error_code_def lmqtt_errors_def)

lemma error_code_less: "error_code e < 256"
  using error_code_nth [of e] by (simp add: lmqtt_errors_def)

section \<open>Kinds of requests, quality of service, packet types\<close>

text \<open>\<open>KIND_NONE\<close> is the value 0 of an \<open>int kind\<close>, which is no enumerator.\<close>

datatype kind =
    KIND_NONE
  | KIND_CONNECT
  | KIND_PUBLISH_0
  | KIND_PUBLISH_1
  | KIND_PUBLISH_2
  | KIND_PUBACK
  | KIND_PUBREC
  | KIND_PUBREL
  | KIND_PUBCOMP
  | KIND_SUBSCRIBE
  | KIND_UNSUBSCRIBE
  | KIND_PINGREQ
  | KIND_DISCONNECT

type_synonym qos = int

definition QOS_0 :: qos where [simp]: "QOS_0 = 0"
definition QOS_1 :: qos where [simp]: "QOS_1 = 1"
definition QOS_2 :: qos where [simp]: "QOS_2 = 2"

definition is_valid_qos :: "qos \<Rightarrow> bool" where
  "is_valid_qos x \<longleftrightarrow> x \<ge> QOS_0 \<and> x \<le> QOS_2"

definition TYPE_MIN :: int where [simp]: "TYPE_MIN = 1"
definition TYPE_CONNECT :: int where [simp]: "TYPE_CONNECT = 1"
definition TYPE_CONNACK :: int where [simp]: "TYPE_CONNACK = 2"
definition TYPE_PUBLISH :: int where [simp]: "TYPE_PUBLISH = 3"
definition TYPE_PUBACK :: int where [simp]: "TYPE_PUBACK = 4"
definition TYPE_PUBREC :: int where [simp]: "TYPE_PUBREC = 5"
definition TYPE_PUBREL :: int where [simp]: "TYPE_PUBREL = 6"
definition TYPE_PUBCOMP :: int where [simp]: "TYPE_PUBCOMP = 7"
definition TYPE_SUBSCRIBE :: int where [simp]: "TYPE_SUBSCRIBE = 8"
definition TYPE_SUBACK :: int where [simp]: "TYPE_SUBACK = 9"
definition TYPE_UNSUBSCRIBE :: int where [simp]: "TYPE_UNSUBSCRIBE = 10"
definition TYPE_UNSUBACK :: int where [simp]: "TYPE_UNSUBACK = 11"
definition TYPE_PINGREQ :: int where [simp]: "TYPE_PINGREQ = 12"
definition TYPE_PINGRESP :: int where [simp]: "TYPE_PINGRESP = 13"
definition TYPE_DISCONNECT :: int where [simp]: "TYPE_DISCONNECT = 14"
definition TYPE_MAX :: int where [simp]: "TYPE_MAX = 14"

text \<open>The functions of the client that a request's \<open>callback\<close> field can point to.\<close>

datatype entry_callback = ON_CONNACK | ON_SUBACK | ON_UNSUBACK | ON_PUBLISH | ON_PINGRESP

text \<open>The untyped \<open>callback_data\<close> of a request: null, or the client that queued it.\<close>

datatype cb_data = DATA_NULL | DATA_CLIENT

section \<open>Strings\<close>

text \<open>
  \<open>lmqtt_string_t\<close>. The buffer behind \<open>buf\<close> is part of the string: two strings of the
  model never share a buffer. \<open>read\<close> and \<open>write\<close> are function pointers, called with \<open>data\<close>.
\<close>

record lstring =
  str_len :: int
  str_buf :: "byte list option"
  str_data :: nat
  str_read :: "fnptr option"
  str_write :: "fnptr option"
  str_pos :: int

definition lstring_zero :: lstring where
  "lstring_zero = \<lparr>str_len = 0, str_buf = None, str_data = 0, str_read = None,
     str_write = None, str_pos = 0\<rparr>"

section \<open>Time\<close>

record time =
  tm_secs :: int
  tm_nsecs :: int

text \<open>
  \<open>lmqtt_get_time_t\<close>: a user function that stores a reading of the clock. Its result code
  is ignored by every caller, so the model keeps the reading and the new state of the
  world only.
\<close>

type_synonym 'w get_time = "'w \<Rightarrow> time \<times> 'w"

end
