(* ===== verification/Timeouts.thy ===== *)
theory Timeouts
  imports Core_Types
begin

text \<open>
  \<open>src/lmqtt_time.c\<close>: the time left until a deadline, and the time of the last activity.
  The out-parameters \<open>secs\<close> and \<open>nsecs\<close> are part of the result.
\<close>

definition lmqtt_time_get_timeout_to ::
    "time \<Rightarrow> 'w get_time \<Rightarrow> ushort \<Rightarrow> 'w \<Rightarrow> bool \<times> int \<times> int \<times> 'w" where
  "lmqtt_time_get_timeout_to tm get_time when w =
     (if when = 0 then (False, 0, 0, w)
      else
        (let tmo_secs = tm_secs tm + uint when;
             tmo_nsecs = tm_nsecs tm;
             (cur, w') = get_time w;
             (tmo_nsecs, tmo_secs) =
               (if tmo_nsecs < tm_nsecs cur then (tmo_nsecs + 1000000000, tmo_secs - 1)
                else (tmo_nsecs, tmo_secs))
         in if tm_secs cur \<le> tmo_secs
            then (True, tmo_secs - tm_secs cur, tmo_nsecs - tm_nsecs cur, w')
            else (True, 0, 0, w')))"

definition lmqtt_time_touch :: "time \<Rightarrow> 'w get_time \<Rightarrow> 'w \<Rightarrow> time \<times> 'w" where
  "lmqtt_time_touch tm get_time w = get_time w"

section \<open>The specification: nanoseconds on one axis\<close>

definition total_ns :: "time \<Rightarrow> int" where
  "total_ns tm = tm_secs tm * 1000000000 + tm_nsecs tm"

definition normal_time :: "time \<Rightarrow> bool" where
  "normal_time tm \<longleftrightarrow> 0 \<le> tm_nsecs tm \<and> tm_nsecs tm < 1000000000"

lemma timeout_to_exact:
  assumes "when \<noteq> 0" and "get_time w = (cur, w')" and "normal_time tm" and "normal_time cur"
  shows "\<exists>s ns. lmqtt_time_get_timeout_to tm get_time when w = (True, s, ns, w') \<and>
     normal_time \<lparr>tm_secs = s, tm_nsecs = ns\<rparr> \<and> 0 \<le> s \<and>
     total_ns \<lparr>tm_secs = s, tm_nsecs = ns\<rparr> =
       max 0 (total_ns tm + uint when * 1000000000 - total_ns cur)"
  using assms
  by (cases "tm_nsecs tm < tm_nsecs cur")
    (auto simp: lmqtt_time_get_timeout_to_def total_ns_def normal_time_def Let_def)

text \<open>
  For clock readings whose nanosecond part is normalised, the result is the exact
  distance from now to the deadline \<open>tm + when\<close>, cut off at zero, again normalised:
  the borrow of the code never loses or invents time.
\<close>

theorem get_timeout_to_exact:
  assumes "when \<noteq> 0" and "get_time w = (cur, w')" and "normal_time tm" and "normal_time cur"
  shows "\<exists>s ns. lmqtt_time_get_timeout_to tm get_time when w = (True, s, ns, w') \<and>
     normal_time \<lparr>tm_secs = s, tm_nsecs = ns\<rparr> \<and> 0 \<le> s \<and>
     total_ns \<lparr>tm_secs = s, tm_nsecs = ns\<rparr> =
       max 0 (total_ns tm + uint when * 1000000000 - total_ns cur)"
  by (rule timeout_to_exact [where get_time = get_time and w = w]) fact+

theorem get_timeout_to_exact_witness:
  "\<exists>s ns. lmqtt_time_get_timeout_to \<lparr>tm_secs = 10, tm_nsecs = 500000000\<rparr>
        (\<lambda>w. (\<lparr>tm_secs = 14, tm_nsecs = 600000000\<rparr>, w)) 5 () = (True, s, ns, ()) \<and>
     normal_time \<lparr>tm_secs = s, tm_nsecs = ns\<rparr> \<and> 0 \<le> s \<and>
     total_ns \<lparr>tm_secs = s, tm_nsecs = ns\<rparr> = 900000000"
  using get_timeout_to_exact [of 5 "\<lambda>w. (\<lparr>tm_secs = 14, tm_nsecs = 600000000\<rparr>, w)" "()"
      "\<lparr>tm_secs = 14, tm_nsecs = 600000000\<rparr>" "()" "\<lparr>tm_secs = 10, tm_nsecs = 500000000\<rparr>"]
  by (simp add: normal_time_def total_ns_def)

text \<open>A zero interval means "no timeout": the clock is not even read.\<close>

lemma get_timeout_to_disabled [simp]:
  "lmqtt_time_get_timeout_to tm get_time 0 w = (False, 0, 0, w)"
  by (simp add: lmqtt_time_get_timeout_to_def)

end
