(* ===== verification/Packet_Store.thy ===== *)
theory Packet_Store
  imports Timeouts
begin

text \<open>
  \<open>src/lmqtt_store.c\<close>: the bounded queue of requests. The array \<open>entries\<close> holds \<open>count\<close>
  requests; the first \<open>pos\<close> of them have been sent and wait for a response (they are
  \<^emph>\<open>marked\<close>), the others are still to be sent, the one at \<open>pos\<close> being the current one.

  The operations work on the array as the code does, \<open>memmove\<close> included. The abstract
  view is a pair of lists, and the lemmas of the last sections say what each operation
  does to that view. The locale \<open>request_queue\<close> is the contract the encoder, the decoder
  and the client rely on; it is interpreted on the operations of this file.
\<close>

section \<open>The data\<close>

record store_value =
  sv_packet_id :: packet_id
  sv_value :: "addr option"
  sv_callback :: "entry_callback option"
  sv_callback_data :: cb_data

record store_entry =
  se_kind :: kind
  se_value :: store_value

record store =
  st_keep_alive :: ushort
  st_timeout :: ushort
  st_next_packet_id :: packet_id
  st_last_touch :: time
  st_count :: nat
  st_pos :: nat
  st_capacity :: nat
  st_entries :: "store_entry list"

definition store_value_zero :: store_value where
  "store_value_zero =
     \<lparr>sv_packet_id = 0, sv_value = None, sv_callback = None, sv_callback_data = DATA_NULL\<rparr>"

text \<open>
  A store as \<open>lmqtt_client_initialize\<close> leaves it: every field zeroed by \<open>memset\<close>, an
  array of \<open>n\<close> entries, the capacity set to \<open>n\<close>.
\<close>

definition store_entry_zero :: store_entry where
  "store_entry_zero = \<lparr>se_kind = KIND_NONE, se_value = store_value_zero\<rparr>"

definition fresh_store :: "nat \<Rightarrow> store" where
  "fresh_store n = \<lparr>st_keep_alive = 0, st_timeout = 0, st_next_packet_id = 0,
     st_last_touch = \<lparr>tm_secs = 0, tm_nsecs = 0\<rparr>, st_count = 0, st_pos = 0,
     st_capacity = n, st_entries = replicate n store_entry_zero\<rparr>"

section \<open>The operations\<close>

text \<open>The out-parameters \<open>kind\<close> and \<open>value\<close> are results; on failure they are zeroed.\<close>

definition lmqtt_store_get_at :: "store \<Rightarrow> nat \<Rightarrow> (bool \<times> kind \<times> store_value) option" where
  "lmqtt_store_get_at st pos =
     (if pos \<ge> st_count st then Some (False, KIND_NONE, store_value_zero)
      else do {
        entry \<leftarrow> arr_get (st_entries st) pos;
        Some (True, se_kind entry, se_value entry)
      })"

fun store_find_from :: "nat \<Rightarrow> store \<Rightarrow> kind \<Rightarrow> packet_id \<Rightarrow> nat \<Rightarrow> (bool \<times> nat) option" where
  "store_find_from 0 st k pid i = Some (False, 0)"
| "store_find_from (Suc n) st k pid i =
     do {
       entry \<leftarrow> arr_get (st_entries st) i;
       if se_kind entry = k \<and> sv_packet_id (se_value entry) = pid then Some (True, i)
       else store_find_from n st k pid (Suc i)
     }"

text \<open>The loop runs over the indices \<open>0..<pos\<close>: \<open>pos\<close> rounds are left at the start.\<close>

definition store_find :: "store \<Rightarrow> kind \<Rightarrow> packet_id \<Rightarrow> (bool \<times> nat) option" where
  "store_find st k pid = store_find_from (st_pos st) st k pid 0"

definition store_pop_at :: "store \<Rightarrow> nat \<Rightarrow> (bool \<times> kind \<times> store_value \<times> store) option" where
  "store_pop_at st pos =
     do {
       (ok, k, v) \<leftarrow> lmqtt_store_get_at st pos;
       if \<not> ok then Some (False, k, v, st)
       else do {
         let st1 = st\<lparr>st_count := st_count st - 1\<rparr>;
         let st2 = (if st_pos st1 > pos then st1\<lparr>st_pos := st_pos st1 - 1\<rparr> else st1);
         es \<leftarrow> arr_move (st_entries st2) pos (pos + 1) (size_sub (st_capacity st2) (pos + 1));
         Some (True, k, v, st2\<lparr>st_entries := es\<rparr>)
       }
     }"

definition lmqtt_store_get_id :: "store \<Rightarrow> packet_id \<times> store" where
  "lmqtt_store_get_id st =
     (st_next_packet_id st, st\<lparr>st_next_packet_id := st_next_packet_id st + 1\<rparr>)"

definition lmqtt_store_count :: "store \<Rightarrow> nat" where
  "lmqtt_store_count st = st_count st"

definition lmqtt_store_peek :: "store \<Rightarrow> (bool \<times> kind \<times> store_value) option" where
  "lmqtt_store_peek st = lmqtt_store_get_at st (st_pos st)"

definition lmqtt_store_has_current :: "store \<Rightarrow> bool option" where
  "lmqtt_store_has_current st = do { (ok, k, v) \<leftarrow> lmqtt_store_peek st; Some ok }"

definition lmqtt_store_is_queueable :: "store \<Rightarrow> bool" where
  "lmqtt_store_is_queueable st \<longleftrightarrow> st_count st < st_capacity st"

definition lmqtt_store_append ::
    "store \<Rightarrow> kind \<Rightarrow> store_value option \<Rightarrow> (bool \<times> store) option" where
  "lmqtt_store_append st k value =
     (if \<not> lmqtt_store_is_queueable st then Some (False, st)
      else do {
        let entry = \<lparr>se_kind = k,
          se_value = (case value of Some v \<Rightarrow> v | None \<Rightarrow> store_value_zero)\<rparr>;
        es \<leftarrow> arr_set (st_entries st) (st_count st) entry;
        Some (True, st\<lparr>st_count := st_count st + 1, st_entries := es\<rparr>)
      })"

definition lmqtt_store_delete_at :: "store \<Rightarrow> nat \<Rightarrow> (bool \<times> store) option" where
  "lmqtt_store_delete_at st pos =
     do { (ok, k, v, st') \<leftarrow> store_pop_at st pos; Some (ok, st') }"

definition lmqtt_store_mark_current :: "store \<Rightarrow> bool \<times> store" where
  "lmqtt_store_mark_current st =
     (if st_pos st < st_count st then (True, st\<lparr>st_pos := st_pos st + 1\<rparr>) else (False, st))"

definition lmqtt_store_drop_current :: "store \<Rightarrow> (bool \<times> store) option" where
  "lmqtt_store_drop_current st =
     do { (ok, k, v, st') \<leftarrow> store_pop_at st (st_pos st); Some (ok, st') }"

definition lmqtt_store_pop_marked_by ::
    "store \<Rightarrow> kind \<Rightarrow> packet_id \<Rightarrow> (bool \<times> store_value \<times> store) option" where
  "lmqtt_store_pop_marked_by st k pid =
     do {
       (found, pos) \<leftarrow> store_find st k pid;
       if found then do {
         (ok, _, v, st') \<leftarrow> store_pop_at st pos;
         Some (ok, v, st')
       }
       else Some (False, store_value_zero, st)
     }"

definition lmqtt_store_shift ::
    "store \<Rightarrow> (bool \<times> kind \<times> store_value \<times> store) option" where
  "lmqtt_store_shift st = store_pop_at st 0"

definition lmqtt_store_unmark_all :: "store \<Rightarrow> store" where
  "lmqtt_store_unmark_all st = st\<lparr>st_pos := 0\<rparr>"

text \<open>\<open>count\<close>, \<open>secs\<close> and \<open>nsecs\<close> are out-parameters of the code, results here.\<close>

definition lmqtt_store_get_timeout ::
    "'w get_time \<Rightarrow> store \<Rightarrow> 'w \<Rightarrow> bool \<times> nat \<times> int \<times> int \<times> 'w" where
  "lmqtt_store_get_timeout get_time st w =
     (let tm = st_last_touch st;
          when = (if st_count st > 0 then st_timeout st else st_keep_alive st)
      in if when = 0 \<or> (tm_secs tm = 0 \<and> tm_nsecs tm = 0) then (False, 0, 0, 0, w)
         else (let (r, secs, nsecs, w') = lmqtt_time_get_timeout_to tm get_time when w
               in (r, st_count st, secs, nsecs, w')))"

definition lmqtt_store_touch :: "'w get_time \<Rightarrow> store \<Rightarrow> 'w \<Rightarrow> store \<times> 'w" where
  "lmqtt_store_touch get_time st w =
     (let (tm, w') = lmqtt_time_touch (st_last_touch st) get_time w
      in (st\<lparr>st_last_touch := tm\<rparr>, w'))"

section \<open>The invariant and the abstract view\<close>

definition store_inv :: "store \<Rightarrow> bool" where
  "store_inv st \<longleftrightarrow> st_pos st \<le> st_count st \<and> st_count st \<le> st_capacity st \<and>
     st_capacity st \<le> length (st_entries st)"

definition store_live :: "store \<Rightarrow> store_entry list" where
  "store_live st = take (st_count st) (st_entries st)"

definition store_marked :: "store \<Rightarrow> store_entry list" where
  "store_marked st = take (st_pos st) (store_live st)"

definition store_pending :: "store \<Rightarrow> store_entry list" where
  "store_pending st = drop (st_pos st) (store_live st)"

text \<open>The parts of the store that no queue operation changes.\<close>

definition store_settings :: "store \<Rightarrow> nat \<times> ushort \<times> ushort \<times> packet_id \<times> time" where
  "store_settings st = (st_capacity st, st_keep_alive st, st_timeout st,
     st_next_packet_id st, st_last_touch st)"


lemma length_store_live [simp]: "store_inv st \<Longrightarrow> length (store_live st) = st_count st"
  by (simp add: store_inv_def store_live_def)

lemma length_store_marked [simp]: "store_inv st \<Longrightarrow> length (store_marked st) = st_pos st"
  by (simp add: store_inv_def store_marked_def store_live_def)

lemma length_store_pending [simp]:
  "store_inv st \<Longrightarrow> length (store_pending st) = st_count st - st_pos st"
  by (simp add: store_pending_def)

lemma store_live_split: "store_live st = store_marked st @ store_pending st"
  by (simp add: store_marked_def store_pending_def)

lemma store_live_nth:
  "store_inv st \<Longrightarrow> p < st_count st \<Longrightarrow> store_live st ! p = st_entries st ! p"
  by (simp add: store_inv_def store_live_def)

lemma store_inv_bounds:
  assumes "store_inv st"
  shows "st_pos st \<le> st_count st" and "st_count st \<le> st_capacity st"
    and "st_capacity st \<le> length (st_entries st)"
  using assms by (simp_all add: store_inv_def)

lemma store_is_queueable_iff:
  "store_inv st \<Longrightarrow>
     lmqtt_store_is_queueable st \<longleftrightarrow>
       length (store_marked st) + length (store_pending st) < st_capacity st"
  by (simp add: lmqtt_store_is_queueable_def store_inv_def)

lemma store_count_eq: "store_inv st \<Longrightarrow> lmqtt_store_count st = length (store_live st)"
  by (simp add: lmqtt_store_count_def)

lemma fresh_store_simps [simp]:
  "store_inv (fresh_store n)" "store_marked (fresh_store n) = []"
  "store_pending (fresh_store n) = []" "st_capacity (fresh_store n) = n"
  "st_next_packet_id (fresh_store n) = 0"
  by (simp_all add: fresh_store_def store_inv_def store_marked_def store_pending_def
      store_live_def)

section \<open>What each operation does to the abstract view\<close>

lemma store_get_at_spec:
  "store_inv st \<Longrightarrow> lmqtt_store_get_at st p =
     (if p < st_count st
      then Some (True, se_kind (store_live st ! p), se_value (store_live st ! p))
      else Some (False, KIND_NONE, store_value_zero))"
  using store_inv_bounds [of st]
  by (simp add: lmqtt_store_get_at_def arr_simps store_live_nth)

lemma store_peek_spec:
  "store_inv st \<Longrightarrow> lmqtt_store_peek st =
     Some (case store_pending st of
         [] \<Rightarrow> (False, KIND_NONE, store_value_zero)
       | e # es \<Rightarrow> (True, se_kind e, se_value e))"
  by (auto simp: lmqtt_store_peek_def store_get_at_spec store_pending_def Cons_nth_drop_Suc [symmetric]
      split: list.splits)

lemma store_has_current_spec:
  "store_inv st \<Longrightarrow> lmqtt_store_has_current st = Some (store_pending st \<noteq> [])"
  by (simp add: lmqtt_store_has_current_def store_peek_spec split: list.splits)

lemma store_pop_at_spec:
  assumes inv: "store_inv st" and p: "p < st_count st"
  shows "\<exists>st'. store_pop_at st p =
        Some (True, se_kind (store_live st ! p), se_value (store_live st ! p), st') \<and>
      store_inv st' \<and> store_live st' = remove_nth p (store_live st) \<and>
      st_pos st' = (if p < st_pos st then st_pos st - 1 else st_pos st) \<and>
      store_settings st' = store_settings st"
proof -
  note b = store_inv_bounds [OF inv]
  obtain zs where zs: "arr_move (st_entries st) p (p + 1) (st_capacity st - p - 1) = Some zs"
    and len: "length zs = length (st_entries st)"
    and live: "take (st_count st - 1) zs = remove_nth p (take (st_count st) (st_entries st))"
    using take_arr_move_gap [OF p b(2,3)] by blast
  have sub: "size_sub (st_capacity st) (Suc p) = st_capacity st - Suc p"
    using p b by simp
  show ?thesis
    using zs len live p b
    by (auto simp: store_pop_at_def store_get_at_spec [OF inv] sub store_inv_def
        store_live_def store_settings_def)
qed

lemma store_pop_at_out: "store_inv st \<Longrightarrow> st_count st \<le> p \<Longrightarrow>
    store_pop_at st p = Some (False, KIND_NONE, store_value_zero, st)"
  by (simp add: store_pop_at_def store_get_at_spec)

lemma marked_pending_remove:
  assumes "store_inv st" and "store_inv st'" and p: "p < st_count st"
    and live: "store_live st' = remove_nth p (store_live st)"
    and pos: "st_pos st' = (if p < st_pos st then st_pos st - 1 else st_pos st)"
  shows "store_marked st' =
      (if p < st_pos st then remove_nth p (store_marked st) else store_marked st)"
    and "store_pending st' =
      (if p < st_pos st then store_pending st else remove_nth (p - st_pos st) (store_pending st))"
  using assms(1) p
  by (simp_all add: store_marked_def store_pending_def live pos store_inv_bounds
      take_remove_nth_before take_remove_nth_after drop_remove_nth_before drop_remove_nth_after)

lemma store_append_spec:
  assumes inv: "store_inv st"
  shows "st_capacity st \<le> st_count st \<Longrightarrow> lmqtt_store_append st k v = Some (False, st)"
    and "st_count st < st_capacity st \<Longrightarrow> \<exists>st'. lmqtt_store_append st k v = Some (True, st') \<and>
      store_inv st' \<and> store_marked st' = store_marked st \<and>
      store_pending st' = store_pending st @
        [\<lparr>se_kind = k, se_value = (case v of Some x \<Rightarrow> x | None \<Rightarrow> store_value_zero)\<rparr>] \<and>
      store_settings st' = store_settings st"
  using store_inv_bounds [OF inv]
  by (auto simp: lmqtt_store_append_def lmqtt_store_is_queueable_def arr_simps store_inv_def
      store_marked_def store_pending_def store_live_def store_settings_def take_Suc_conv_app_nth
      Let_def)

lemma store_mark_current_spec:
  assumes inv: "store_inv st"
  shows "store_pending st = [] \<Longrightarrow> lmqtt_store_mark_current st = (False, st)"
    and "store_pending st = e # es \<Longrightarrow> \<exists>st'. lmqtt_store_mark_current st = (True, st') \<and>
      store_inv st' \<and> store_marked st' = store_marked st @ [e] \<and> store_pending st' = es \<and>
      store_settings st' = store_settings st"
proof -
  assume "store_pending st = []"
  then show "lmqtt_store_mark_current st = (False, st)"
    using inv by (simp add: store_pending_def lmqtt_store_mark_current_def store_inv_def)
next
  assume pend: "store_pending st = e # es"
  then have lt: "st_pos st < st_count st"
    using length_store_pending [OF inv] by simp
  have "e = store_live st ! st_pos st" and "es = drop (Suc (st_pos st)) (store_live st)"
    using pend lt inv Cons_nth_drop_Suc [of "st_pos st" "store_live st"]
    by (simp_all add: store_pending_def)
  moreover have "take (Suc (st_pos st)) (store_live st) =
      take (st_pos st) (store_live st) @ [store_live st ! st_pos st]"
    using lt inv by (simp add: take_Suc_conv_app_nth)
  ultimately show "\<exists>st'. lmqtt_store_mark_current st = (True, st') \<and>
      store_inv st' \<and> store_marked st' = store_marked st @ [e] \<and> store_pending st' = es \<and>
      store_settings st' = store_settings st"
    using lt inv
    by (simp add: lmqtt_store_mark_current_def store_inv_def store_marked_def store_pending_def
        store_live_def store_settings_def)
qed


lemma store_drop_current_spec:
  assumes inv: "store_inv st"
  shows "store_pending st = [] \<Longrightarrow> lmqtt_store_drop_current st = Some (False, st)"
    and "store_pending st = e # es \<Longrightarrow> \<exists>st'. lmqtt_store_drop_current st = Some (True, st') \<and>
      store_inv st' \<and> store_marked st' = store_marked st \<and> store_pending st' = es \<and>
      store_settings st' = store_settings st"
proof -
  assume "store_pending st = []"
  then have "st_count st \<le> st_pos st"
    using length_store_pending [OF inv] by simp
  then show "lmqtt_store_drop_current st = Some (False, st)"
    using inv by (simp add: lmqtt_store_drop_current_def store_pop_at_out)
next
  assume pend: "store_pending st = e # es"
  then have lt: "st_pos st < st_count st"
    using length_store_pending [OF inv] by simp
  obtain st' where st': "store_pop_at st (st_pos st) =
        Some (True, se_kind (store_live st ! st_pos st), se_value (store_live st ! st_pos st), st')"
      "store_inv st'" "store_live st' = remove_nth (st_pos st) (store_live st)"
      "st_pos st' = st_pos st" "store_settings st' = store_settings st"
    using store_pop_at_spec [OF inv lt] by auto
  have "store_marked st' = store_marked st" and "store_pending st' = es"
    using marked_pending_remove [OF inv st'(2) lt st'(3)] st'(4) pend by simp_all
  then show "\<exists>st'. lmqtt_store_drop_current st = Some (True, st') \<and>
      store_inv st' \<and> store_marked st' = store_marked st \<and> store_pending st' = es \<and>
      store_settings st' = store_settings st"
    using st' by (simp add: lmqtt_store_drop_current_def)
qed

lemma store_shift_spec:
  assumes inv: "store_inv st"
  shows "store_live st = [] \<Longrightarrow>
      lmqtt_store_shift st = Some (False, KIND_NONE, store_value_zero, st)"
    and "store_live st = e # es \<Longrightarrow> \<exists>st'.
      lmqtt_store_shift st = Some (True, se_kind e, se_value e, st') \<and>
      store_inv st' \<and> store_live st' = es \<and> store_marked st' = tl (store_marked st) \<and>
      store_settings st' = store_settings st"
proof -
  assume "store_live st = []"
  then have "st_count st = 0" using length_store_live [OF inv] by simp
  then show "lmqtt_store_shift st = Some (False, KIND_NONE, store_value_zero, st)"
    using inv by (simp add: lmqtt_store_shift_def store_pop_at_out)
next
  assume live: "store_live st = e # es"
  then have lt: "0 < st_count st" using length_store_live [OF inv] by simp
  obtain st' where st': "store_pop_at st 0 = Some (True, se_kind e, se_value e, st')"
      "store_inv st'" "store_live st' = es"
      "st_pos st' = (if 0 < st_pos st then st_pos st - 1 else st_pos st)"
      "store_settings st' = store_settings st"
    using store_pop_at_spec [OF inv lt] live by auto
  have "store_marked st' = tl (store_marked st)"
    using marked_pending_remove(1) [OF inv st'(2) lt _ st'(4)] st'(3) live
    by (auto simp: store_marked_def)
  then show "\<exists>st'. lmqtt_store_shift st = Some (True, se_kind e, se_value e, st') \<and>
      store_inv st' \<and> store_live st' = es \<and> store_marked st' = tl (store_marked st) \<and>
      store_settings st' = store_settings st"
    using st' by (simp add: lmqtt_store_shift_def)
qed

lemma store_unmark_all_spec:
  assumes "store_inv st"
  shows "store_inv (lmqtt_store_unmark_all st)"
    and "store_marked (lmqtt_store_unmark_all st) = []"
    and "store_pending (lmqtt_store_unmark_all st) = store_marked st @ store_pending st"
    and "store_settings (lmqtt_store_unmark_all st) = store_settings st"
proof -
  have live: "store_live (lmqtt_store_unmark_all st) = store_live st"
    by (simp add: lmqtt_store_unmark_all_def store_live_def)
  show "store_inv (lmqtt_store_unmark_all st)"
      and "store_settings (lmqtt_store_unmark_all st) = store_settings st"
    using assms by (simp_all add: lmqtt_store_unmark_all_def store_inv_def store_settings_def)
  show "store_marked (lmqtt_store_unmark_all st) = []"
    by (simp add: store_marked_def lmqtt_store_unmark_all_def)
  have "store_pending (lmqtt_store_unmark_all st) = store_live st"
    by (simp add: store_pending_def live) (simp add: lmqtt_store_unmark_all_def)
  then show "store_pending (lmqtt_store_unmark_all st) = store_marked st @ store_pending st"
    by (simp add: store_live_split)
qed

subsection \<open>Finding and removing a marked request\<close>

definition has_key :: "kind \<Rightarrow> packet_id \<Rightarrow> store_entry \<Rightarrow> bool" where
  "has_key k pid e \<longleftrightarrow> se_kind e = k \<and> sv_packet_id (se_value e) = pid"

lemma store_find_from_extract:
  "i + n \<le> length (st_entries st) \<Longrightarrow>
     store_find_from n st k pid i =
       Some (case List.extract (has_key k pid) (take n (drop i (st_entries st))) of
           None \<Rightarrow> (False, 0) | Some (ys, y, zs) \<Rightarrow> (True, i + length ys))"
proof (induction n arbitrary: i)
  case 0
  then show ?case by (simp add: extract_Nil_code)
next
  case (Suc n)
  then have split: "take (Suc n) (drop i (st_entries st)) =
      st_entries st ! i # take n (drop (Suc i) (st_entries st))"
    by (simp add: Cons_nth_drop_Suc [symmetric])
  show ?case
    using Suc.prems Suc.IH [of "Suc i"]
    by (auto simp: split extract_Cons_code has_key_def arr_simps split: option.splits)
qed

lemma store_find_spec:
  assumes "store_inv st"
  shows "store_find st k pid =
     Some (case List.extract (has_key k pid) (store_marked st) of
         None \<Rightarrow> (False, 0) | Some (ys, y, zs) \<Rightarrow> (True, length ys))"
proof -
  have "store_marked st = take (st_pos st) (drop 0 (st_entries st))"
    using assms by (simp add: store_marked_def store_live_def store_inv_def min_def)
  then show ?thesis
    using assms store_find_from_extract [of 0 "st_pos st" st k pid]
    by (auto simp: store_find_def store_inv_def simp del: drop_0 split: option.splits)
qed

lemma store_pop_marked_by_spec:
  assumes inv: "store_inv st"
  shows "List.extract (has_key k pid) (store_marked st) = None \<Longrightarrow>
      lmqtt_store_pop_marked_by st k pid = Some (False, store_value_zero, st)"
    and "List.extract (has_key k pid) (store_marked st) = Some (ys, e, zs) \<Longrightarrow>
      \<exists>st'. lmqtt_store_pop_marked_by st k pid = Some (True, se_value e, st') \<and>
        store_inv st' \<and> store_marked st' = ys @ zs \<and> store_pending st' = store_pending st \<and>
        store_settings st' = store_settings st"
proof -
  assume "List.extract (has_key k pid) (store_marked st) = None"
  then show "lmqtt_store_pop_marked_by st k pid = Some (False, store_value_zero, st)"
    by (simp add: lmqtt_store_pop_marked_by_def store_find_spec [OF inv])
next
  assume ex: "List.extract (has_key k pid) (store_marked st) = Some (ys, e, zs)"
  then have m: "store_marked st = ys @ e # zs"
    using extract_SomeE [OF ex] by simp
  then have lt: "length ys < st_pos st" and lt': "length ys < st_count st"
    using length_store_marked [OF inv] store_inv_bounds [OF inv] by auto
  have nth: "store_live st ! length ys = e"
    by (simp add: store_live_split m nth_append)
  obtain st' where st': "store_pop_at st (length ys) = Some (True, se_kind e, se_value e, st')"
      "store_inv st'" "store_live st' = remove_nth (length ys) (store_live st)"
      "st_pos st' = (if length ys < st_pos st then st_pos st - 1 else st_pos st)"
      "store_settings st' = store_settings st"
    using store_pop_at_spec [OF inv lt'] nth by auto
  have "store_marked st' = ys @ zs" and "store_pending st' = store_pending st"
    using marked_pending_remove [OF inv st'(2) lt' st'(3,4)] lt m
    by (simp_all add: remove_nth_def)
  then show "\<exists>st'. lmqtt_store_pop_marked_by st k pid = Some (True, se_value e, st') \<and>
        store_inv st' \<and> store_marked st' = ys @ zs \<and> store_pending st' = store_pending st \<and>
        store_settings st' = store_settings st"
    using st' ex by (simp add: lmqtt_store_pop_marked_by_def store_find_spec [OF inv])
qed


section \<open>The contract of a request queue\<close>

text \<open>
  What the encoder, the decoder and the client rely on. The laws mention the abstract view
  only; the lemmas of the locale are the facts its clients need.
\<close>

locale request_queue =
  fixes inv :: "'q \<Rightarrow> bool"
    and marked :: "'q \<Rightarrow> store_entry list"
    and pending :: "'q \<Rightarrow> store_entry list"
    and bound :: "'q \<Rightarrow> nat"
    and peek :: "'q \<Rightarrow> (bool \<times> kind \<times> store_value) option"
    and append :: "'q \<Rightarrow> kind \<Rightarrow> store_value option \<Rightarrow> (bool \<times> 'q) option"
    and mark :: "'q \<Rightarrow> bool \<times> 'q"
    and drop_cur :: "'q \<Rightarrow> (bool \<times> 'q) option"
    and pop :: "'q \<Rightarrow> kind \<Rightarrow> packet_id \<Rightarrow> (bool \<times> store_value \<times> 'q) option"
  assumes bounded: "inv q \<Longrightarrow> length (marked q) + length (pending q) \<le> bound q"
    and peek_law: "inv q \<Longrightarrow> peek q = Some (case pending q of
        [] \<Rightarrow> (False, KIND_NONE, store_value_zero) | e # es \<Rightarrow> (True, se_kind e, se_value e))"
    and append_full: "inv q \<Longrightarrow> length (marked q) + length (pending q) = bound q \<Longrightarrow>
        append q k v = Some (False, q)"
    and append_room: "inv q \<Longrightarrow> length (marked q) + length (pending q) < bound q \<Longrightarrow>
        \<exists>q'. append q k v = Some (True, q') \<and> inv q' \<and> bound q' = bound q \<and>
          marked q' = marked q \<and> pending q' = pending q @
            [\<lparr>se_kind = k, se_value = (case v of Some x \<Rightarrow> x | None \<Rightarrow> store_value_zero)\<rparr>]"
    and mark_law: "inv q \<Longrightarrow> pending q = e # es \<Longrightarrow>
        \<exists>q'. mark q = (True, q') \<and> inv q' \<and> bound q' = bound q \<and>
          marked q' = marked q @ [e] \<and> pending q' = es"
    and drop_law: "inv q \<Longrightarrow> pending q = e # es \<Longrightarrow>
        \<exists>q'. drop_cur q = Some (True, q') \<and> inv q' \<and> bound q' = bound q \<and>
          marked q' = marked q \<and> pending q' = es"
    and pop_none: "inv q \<Longrightarrow> List.extract (has_key k pid) (marked q) = None \<Longrightarrow>
        pop q k pid = Some (False, store_value_zero, q)"
    and pop_some: "inv q \<Longrightarrow> List.extract (has_key k pid) (marked q) = Some (ys, e, zs) \<Longrightarrow>
        \<exists>q'. pop q k pid = Some (True, se_value e, q') \<and> inv q' \<and> bound q' = bound q \<and>
          marked q' = ys @ zs \<and> pending q' = pending q"
begin

lemma append_cases:
  assumes "inv q"
  obtains "append q k v = Some (False, q)" and "length (marked q) + length (pending q) = bound q"
  | q' where "append q k v = Some (True, q')" "inv q'" "bound q' = bound q"
      "marked q' = marked q" "length (marked q) + length (pending q) < bound q"
      "pending q' = pending q @
         [\<lparr>se_kind = k, se_value = (case v of Some x \<Rightarrow> x | None \<Rightarrow> store_value_zero)\<rparr>]"
proof (cases "length (marked q) + length (pending q) < bound q")
  case True
  with append_room [OF assms, of k v] that(2) show ?thesis by blast
next
  case False
  with bounded [OF assms] have "length (marked q) + length (pending q) = bound q" by simp
  with append_full [OF assms] that(1) show ?thesis by blast
qed

lemma pop_cases:
  assumes "inv q"
  obtains "pop q k pid = Some (False, store_value_zero, q)" "\<forall>e \<in> set (marked q). \<not> has_key k pid e"
  | ys e zs q' where "pop q k pid = Some (True, se_value e, q')" "inv q'" "bound q' = bound q"
      "marked q = ys @ e # zs" "has_key k pid e" "\<forall>y \<in> set ys. \<not> has_key k pid y"
      "marked q' = ys @ zs" "pending q' = pending q"
proof (cases "List.extract (has_key k pid) (marked q)")
  case None
  with pop_none [OF assms] that(1) show ?thesis by (simp add: extract_None_iff)
next
  case (Some r)
  then obtain ys e zs where r: "List.extract (has_key k pid) (marked q) = Some (ys, e, zs)"
    by (cases r) auto
  from pop_some [OF assms r] extract_SomeE [OF r] that(2) show ?thesis by blast
qed

lemma pop_then_append:
  assumes "inv q" and "pop q k pid = Some (True, v, q1)"
  shows "\<exists>q2. append q1 k' v' = Some (True, q2) \<and> inv q2 \<and> bound q2 = bound q \<and>
    pending q2 = pending q @
      [\<lparr>se_kind = k', se_value = (case v' of Some x \<Rightarrow> x | None \<Rightarrow> store_value_zero)\<rparr>]"
proof (rule pop_cases [OF assms(1), of k pid])
  assume "pop q k pid = Some (False, store_value_zero, q)"
  with assms(2) show ?thesis by simp
next
  fix ys e zs q'
  assume q': "pop q k pid = Some (True, se_value e, q')" "inv q'" "bound q' = bound q"
      "marked q = ys @ e # zs" "marked q' = ys @ zs" "pending q' = pending q"
  then have "q1 = q'" using assms(2) by simp
  moreover have "length (marked q') + length (pending q') < bound q'"
    using bounded [OF assms(1)] q' by simp
  ultimately show ?thesis using append_room [OF q'(2), of k' v'] q'(3,6) by auto
qed

lemma send_then_respond:
  assumes "inv q" and "pending q = e # es" and "\<forall>x \<in> set (marked q). \<not> has_key k pid x"
    and "has_key k pid e"
  shows "\<exists>q1 q2. mark q = (True, q1) \<and> pop q1 k pid = Some (True, se_value e, q2) \<and> inv q2 \<and>
    marked q2 = marked q \<and> pending q2 = es"
proof -
  obtain q1 where q1: "mark q = (True, q1)" "inv q1" "marked q1 = marked q @ [e]" "pending q1 = es"
    using mark_law [OF assms(1,2)] by blast
  have "List.extract (has_key k pid) (marked q1) = Some (marked q, e, [])"
    using assms(3,4) by (simp add: q1 extract_Some_iff)
  from pop_some [OF q1(2) this] q1 show ?thesis by auto
qed

lemma pop_other_unchanged:
  assumes "inv q" and "\<forall>x \<in> set (marked q). \<not> has_key k pid x"
  shows "pop q k pid = Some (False, store_value_zero, q)"
  using pop_none [OF assms(1)] assms(2) by (simp add: extract_None_iff)

end

lemma store_settings_capacity:
  "store_settings st' = store_settings st \<Longrightarrow> st_capacity st' = st_capacity st"
  by (simp add: store_settings_def)

interpretation pq: request_queue store_inv store_marked store_pending st_capacity
  lmqtt_store_peek lmqtt_store_append lmqtt_store_mark_current lmqtt_store_drop_current
  lmqtt_store_pop_marked_by
proof (unfold_locales, goal_cases)
  case (1 q)
  then show ?case using store_inv_bounds [OF 1] by simp
next
  case (2 q)
  then show ?case by (rule store_peek_spec)
next
  case (3 q k v)
  then show ?case using store_append_spec(1) store_inv_bounds [OF 3(1)] by simp
next
  case (4 q k v)
  then show ?case
    using store_append_spec(2) [OF 4(1), of k v] store_inv_bounds [OF 4(1)]
    by (auto dest!: store_settings_capacity)
next
  case (5 q e es)
  then show ?case
    using store_mark_current_spec(2) [OF 5] by (auto dest!: store_settings_capacity)
next
  case (6 q e es)
  then show ?case
    using store_drop_current_spec(2) [OF 6] by (auto dest!: store_settings_capacity)
next
  case (7 q k pid)
  then show ?case by (rule store_pop_marked_by_spec(1))
next
  case (8 q k pid ys e zs)
  then show ?case
    using store_pop_marked_by_spec(2) [OF 8] by (auto dest!: store_settings_capacity)
qed

lemma store_append_room:
  assumes "store_inv st" and "st_count st < st_capacity st"
  shows "\<exists>st'. lmqtt_store_append st k (Some v) = Some (True, st') \<and> store_inv st' \<and>
    st_count st' = Suc (st_count st) \<and> st_capacity st' = st_capacity st \<and>
    store_marked st' = store_marked st \<and>
    store_pending st' = store_pending st @ [\<lparr>se_kind = k, se_value = v\<rparr>]"
proof -
  obtain st' where st': "lmqtt_store_append st k (Some v) = Some (True, st')" "store_inv st'"
     "store_marked st' = store_marked st" "store_pending st' = store_pending st @ [\<lparr>se_kind = k, se_value = v\<rparr>]"
     "st_capacity st' = st_capacity st"
    using pq.append_room [OF assms(1), of k "Some v"] assms store_inv_bounds(1) [OF assms(1)] by auto
  have "st_count st' = length (store_live st')" using st'(2) by simp
  also have "\<dots> = Suc (length (store_live st))" unfolding store_live_split [of st'] store_live_split [of st] st' by simp
  finally show ?thesis using st' assms(1) by simp
qed

end
