(* ===== verification/Store_Refinement.thy ===== *)
theory Store_Refinement
  imports Packet_Store
begin

text \<open>
  The promise of \<open>src/lmqtt_store.c\<close> as a whole: against any sequence of calls, the array
  with its two counters answers exactly like a bounded pair of lists (the sent requests and
  the requests to send), and no call ever leaves its array.
\<close>

section \<open>The abstract queue\<close>

record abs_queue =
  aq_bound :: nat
  aq_marked :: "store_entry list"
  aq_pending :: "store_entry list"
  aq_next :: packet_id

datatype store_op =
    OpAppend kind "store_value option"
  | OpPeek
  | OpMark
  | OpDrop
  | OpPop kind packet_id
  | OpShift
  | OpUnmarkAll
  | OpDeleteAt nat
  | OpGetAt nat
  | OpQueueable
  | OpCount
  | OpGetId

datatype store_reply =
  RBool bool | RItem bool kind store_value | RPopped bool store_value | RCount nat | RId packet_id | RUnit

definition no_item :: store_reply where
  "no_item = RItem False KIND_NONE store_value_zero"

definition item :: "store_entry \<Rightarrow> store_reply" where
  "item e = RItem True (se_kind e) (se_value e)"

fun abs_step :: "store_op \<Rightarrow> abs_queue \<Rightarrow> store_reply \<times> abs_queue" where
  "abs_step (OpAppend k v) q =
     (if length (aq_marked q) + length (aq_pending q) < aq_bound q
      then (RBool True, q\<lparr>aq_pending := aq_pending q @
        [\<lparr>se_kind = k, se_value = (case v of Some x \<Rightarrow> x | None \<Rightarrow> store_value_zero)\<rparr>]\<rparr>)
      else (RBool False, q))"
| "abs_step OpPeek q =
     (case aq_pending q of [] \<Rightarrow> (no_item, q) | e # _ \<Rightarrow> (item e, q))"
| "abs_step OpMark q =
     (case aq_pending q of [] \<Rightarrow> (RBool False, q)
      | e # es \<Rightarrow> (RBool True, q\<lparr>aq_marked := aq_marked q @ [e], aq_pending := es\<rparr>))"
| "abs_step OpDrop q =
     (case aq_pending q of [] \<Rightarrow> (RBool False, q) | e # es \<Rightarrow> (RBool True, q\<lparr>aq_pending := es\<rparr>))"
| "abs_step (OpPop k pid) q =
     (case List.extract (has_key k pid) (aq_marked q) of
        None \<Rightarrow> (RPopped False store_value_zero, q)
      | Some (ys, e, zs) \<Rightarrow> (RPopped True (se_value e), q\<lparr>aq_marked := ys @ zs\<rparr>))"
| "abs_step OpShift q =
     (case aq_marked q of
        e # es \<Rightarrow> (item e, q\<lparr>aq_marked := es\<rparr>)
      | [] \<Rightarrow> (case aq_pending q of [] \<Rightarrow> (no_item, q)
          | e # es \<Rightarrow> (item e, q\<lparr>aq_pending := es\<rparr>)))"
| "abs_step OpUnmarkAll q = (RUnit, q\<lparr>aq_marked := [], aq_pending := aq_marked q @ aq_pending q\<rparr>)"
| "abs_step (OpDeleteAt p) q =
     (if p < length (aq_marked q) then (RBool True, q\<lparr>aq_marked := remove_nth p (aq_marked q)\<rparr>)
      else if p < length (aq_marked q) + length (aq_pending q)
      then (RBool True,
        q\<lparr>aq_pending := remove_nth (p - length (aq_marked q)) (aq_pending q)\<rparr>)
      else (RBool False, q))"
| "abs_step (OpGetAt p) q =
     (if p < length (aq_marked q) + length (aq_pending q)
      then (item ((aq_marked q @ aq_pending q) ! p), q) else (no_item, q))"
| "abs_step OpQueueable q =
     (RBool (length (aq_marked q) + length (aq_pending q) < aq_bound q), q)"
| "abs_step OpCount q = (RCount (length (aq_marked q) + length (aq_pending q)), q)"
| "abs_step OpGetId q = (RId (aq_next q), q\<lparr>aq_next := aq_next q + 1\<rparr>)"

fun abs_run :: "store_op list \<Rightarrow> abs_queue \<Rightarrow> store_reply list \<times> abs_queue" where
  "abs_run [] q = ([], q)"
| "abs_run (op # ops) q =
     (let (r, q1) = abs_step op q; (rs, q2) = abs_run ops q1 in (r # rs, q2))"

section \<open>The same calls on the array\<close>

fun store_step :: "store_op \<Rightarrow> store \<Rightarrow> (store_reply \<times> store) option" where
  "store_step (OpAppend k v) st = do { (b, st') \<leftarrow> lmqtt_store_append st k v; Some (RBool b, st') }"
| "store_step OpPeek st = do { (b, k, v) \<leftarrow> lmqtt_store_peek st; Some (RItem b k v, st) }"
| "store_step OpMark st = (let (b, st') = lmqtt_store_mark_current st in Some (RBool b, st'))"
| "store_step OpDrop st = do { (b, st') \<leftarrow> lmqtt_store_drop_current st; Some (RBool b, st') }"
| "store_step (OpPop k pid) st =
     do { (b, v, st') \<leftarrow> lmqtt_store_pop_marked_by st k pid; Some (RPopped b v, st') }"
| "store_step OpShift st =
     do { (b, k, v, st') \<leftarrow> lmqtt_store_shift st; Some (RItem b k v, st') }"
| "store_step OpUnmarkAll st = Some (RUnit, lmqtt_store_unmark_all st)"
| "store_step (OpDeleteAt p) st =
     do { (b, st') \<leftarrow> lmqtt_store_delete_at st p; Some (RBool b, st') }"
| "store_step (OpGetAt p) st =
     do { (b, k, v) \<leftarrow> lmqtt_store_get_at st p; Some (RItem b k v, st) }"
| "store_step OpQueueable st = Some (RBool (lmqtt_store_is_queueable st), st)"
| "store_step OpCount st = Some (RCount (lmqtt_store_count st), st)"
| "store_step OpGetId st = (let (i, st') = lmqtt_store_get_id st in Some (RId i, st'))"

fun store_run :: "store_op list \<Rightarrow> store \<Rightarrow> (store_reply list \<times> store) option" where
  "store_run [] st = Some ([], st)"
| "store_run (op # ops) st =
     do { (r, st1) \<leftarrow> store_step op st; (rs, st2) \<leftarrow> store_run ops st1; Some (r # rs, st2) }"

definition store_abs :: "store \<Rightarrow> abs_queue" where
  "store_abs st = \<lparr>aq_bound = st_capacity st, aq_marked = store_marked st,
     aq_pending = store_pending st, aq_next = st_next_packet_id st\<rparr>"

section \<open>Refinement\<close>

text \<open>One step: the array answers like the lists, stays valid and follows them.\<close>

definition refines_step :: "store_op \<Rightarrow> store \<Rightarrow> bool" where
  "refines_step op st \<longleftrightarrow> (\<exists>r st'. store_step op st = Some (r, st') \<and> store_inv st' \<and>
     abs_step op (store_abs st) = (r, store_abs st'))"

lemma store_abs_eqI:
  assumes "store_settings st' = store_settings st"
  shows "store_abs st' = (store_abs st)\<lparr>aq_marked := store_marked st',
    aq_pending := store_pending st'\<rparr>"
  using assms by (simp add: store_abs_def store_settings_def)

lemma store_abs_sel [simp]:
  "aq_bound (store_abs st) = st_capacity st" "aq_marked (store_abs st) = store_marked st"
  "aq_pending (store_abs st) = store_pending st" "aq_next (store_abs st) = st_next_packet_id st"
  by (simp_all add: store_abs_def)

lemma store_abs_upd [simp]:
  "(store_abs st)\<lparr>aq_marked := store_marked st\<rparr> = store_abs st"
  "(store_abs st)\<lparr>aq_pending := store_pending st\<rparr> = store_abs st"
  by (simp_all add: store_abs_def)

lemma refines_append: "store_inv st \<Longrightarrow> refines_step (OpAppend k v) st"
  using store_append_spec [of st k v] store_inv_bounds [of st]
  by (cases "st_count st < st_capacity st")
    (auto simp: refines_step_def dest!: store_abs_eqI)

lemma refines_peek: "store_inv st \<Longrightarrow> refines_step OpPeek st"
  by (auto simp: refines_step_def store_peek_spec no_item_def item_def split: list.splits)

lemma refines_mark:
  assumes "store_inv st"
  shows "refines_step OpMark st"
proof (cases "store_pending st")
  case Nil
  then show ?thesis
    using assms store_mark_current_spec(1) [OF assms] by (simp add: refines_step_def)
next
  case (Cons e es)
  then show ?thesis
    using store_mark_current_spec(2) [OF assms Cons]
    by (auto simp: refines_step_def dest!: store_abs_eqI)
qed

lemma refines_drop:
  assumes "store_inv st"
  shows "refines_step OpDrop st"
proof (cases "store_pending st")
  case Nil
  then show ?thesis
    using assms store_drop_current_spec(1) [OF assms] by (simp add: refines_step_def)
next
  case (Cons e es)
  then show ?thesis
    using store_drop_current_spec(2) [OF assms Cons]
    by (auto simp: refines_step_def dest!: store_abs_eqI)
qed

lemma refines_pop:
  assumes "store_inv st"
  shows "refines_step (OpPop k pid) st"
proof (cases "List.extract (has_key k pid) (store_marked st)")
  case None
  then show ?thesis
    using assms store_pop_marked_by_spec(1) [OF assms None] by (simp add: refines_step_def)
next
  case (Some r)
  then obtain ys e zs where r: "List.extract (has_key k pid) (store_marked st) = Some (ys, e, zs)"
    by (cases r) auto
  then show ?thesis
    using store_pop_marked_by_spec(2) [OF assms r]
    by (auto simp: refines_step_def dest!: store_abs_eqI)
qed

lemma refines_shift:
  assumes "store_inv st"
  shows "refines_step OpShift st"
proof (cases "store_live st")
  case Nil
  then have "store_marked st = []" and "store_pending st = []"
    by (simp_all add: store_marked_def store_pending_def)
  then show ?thesis
    using assms store_shift_spec(1) [OF assms Nil] by (simp add: refines_step_def no_item_def)
next
  case (Cons e es)
  then obtain st' where st': "lmqtt_store_shift st = Some (True, se_kind e, se_value e, st')"
      "store_inv st'" "store_live st' = es" "store_marked st' = tl (store_marked st)"
      "store_settings st' = store_settings st"
    using store_shift_spec(2) [OF assms Cons] by blast
  then have "store_marked st @ store_pending st = e # tl (store_marked st) @ store_pending st'"
    using Cons by (simp add: store_live_split [symmetric]) (simp add: store_live_split)
  then show ?thesis
    using st' store_abs_eqI [OF st'(5)]
    by (cases "store_marked st") (auto simp: refines_step_def item_def)
qed

lemma refines_unmark_all: "store_inv st \<Longrightarrow> refines_step OpUnmarkAll st"
  using store_unmark_all_spec [of st] store_abs_eqI [of "lmqtt_store_unmark_all st" st]
  by (simp add: refines_step_def)

lemma refines_delete_at:
  assumes inv: "store_inv st"
  shows "refines_step (OpDeleteAt p) st"
proof (cases "p < st_count st")
  case True
  obtain st' where st': "store_pop_at st p =
        Some (True, se_kind (store_live st ! p), se_value (store_live st ! p), st')"
      "store_inv st'" "store_live st' = remove_nth p (store_live st)"
      "st_pos st' = (if p < st_pos st then st_pos st - 1 else st_pos st)"
      "store_settings st' = store_settings st"
    using store_pop_at_spec [OF inv True] by auto
  show ?thesis
    using st' True inv store_inv_bounds [OF inv]
      marked_pending_remove [OF inv st'(2) True st'(3,4)] store_abs_eqI [OF st'(5)]
    by (auto simp: refines_step_def lmqtt_store_delete_at_def)
next
  case False
  then show ?thesis
    using inv store_inv_bounds [OF inv]
    by (auto simp: refines_step_def lmqtt_store_delete_at_def store_pop_at_out)
qed

lemma refines_get_at:
  assumes "store_inv st"
  shows "refines_step (OpGetAt p) st"
  using assms store_inv_bounds [OF assms]
  by (auto simp: refines_step_def store_get_at_spec item_def no_item_def store_live_split)

lemma refines_observers:
  assumes "store_inv st"
  shows "refines_step OpQueueable st" and "refines_step OpCount st" and "refines_step OpGetId st"
  using assms store_inv_bounds [OF assms]
  by (auto simp: refines_step_def store_is_queueable_iff lmqtt_store_count_def
      lmqtt_store_get_id_def store_abs_def store_inv_def store_marked_def store_pending_def
      store_live_def)

lemmas refines_all = refines_append refines_peek refines_mark refines_drop refines_pop
  refines_shift refines_unmark_all refines_delete_at refines_get_at refines_observers

lemma refines_any: "store_inv st \<Longrightarrow> refines_step op st"
  by (cases op) (simp_all add: refines_all)


section \<open>Properties\<close>

text \<open>
  C3. Every sequence of store calls on a valid store returns (no access outside the array),
  keeps the store valid, and gives the replies of the bounded pair of lists.
\<close>

theorem store_run_refines:
  "store_inv st \<Longrightarrow> \<exists>rs st'. store_run ops st = Some (rs, st') \<and> store_inv st' \<and>
     abs_run ops (store_abs st) = (rs, store_abs st')"
proof (induction ops arbitrary: st)
  case Nil
  then show ?case by simp
next
  case (Cons op ops)
  obtain r st1 where st1: "store_step op st = Some (r, st1)" "store_inv st1"
      "abs_step op (store_abs st) = (r, store_abs st1)"
    using refines_any [OF Cons.prems, of op] by (auto simp: refines_step_def)
  from Cons.IH [OF st1(2)] show ?case by (auto simp: st1)
qed

theorem store_run_refines_witness:
  "\<exists>rs st'. store_run [OpAppend KIND_PINGREQ None, OpMark, OpPop KIND_PINGREQ 0, OpShift]
       (fresh_store 2) = Some (rs, st') \<and> store_inv st' \<and>
     rs = [RBool True, RBool True, RPopped True store_value_zero, no_item]"
proof -
  have "store_inv (fresh_store 2)" by simp
  from store_run_refines [OF this,
      of "[OpAppend KIND_PINGREQ None, OpMark, OpPop KIND_PINGREQ 0, OpShift]"]
  show ?thesis
    by (auto simp: store_abs_def has_key_def store_value_zero_def extract_Cons_code
        extract_Nil_code split: option.splits)
qed

text \<open>
  A response finds its request: once the current request \<open>e\<close> has been sent (marked), and
  no earlier sent request has its kind and packet id, popping that kind and id returns the
  value of \<open>e\<close> and leaves the requests sent before and the requests still to send as they were.
\<close>

theorem store_send_then_respond:
  assumes "store_inv st" and "store_pending st = e # es"
    and "\<forall>x \<in> set (store_marked st). \<not> has_key (se_kind e) (sv_packet_id (se_value e)) x"
  shows "\<exists>st1 st2. lmqtt_store_mark_current st = (True, st1) \<and>
    lmqtt_store_pop_marked_by st1 (se_kind e) (sv_packet_id (se_value e)) =
      Some (True, se_value e, st2) \<and> store_inv st2 \<and>
    store_marked st2 = store_marked st \<and> store_pending st2 = es"
  by (rule pq.send_then_respond [OF assms]) (simp add: has_key_def)

definition example_store :: store where
  "example_store = (fresh_store 3)\<lparr>st_count := 2, st_pos := 1, st_entries :=
     [\<lparr>se_kind = KIND_PUBLISH_2, se_value = store_value_zero\<lparr>sv_packet_id := 7\<rparr>\<rparr>,
      \<lparr>se_kind = KIND_PUBLISH_1, se_value = store_value_zero\<lparr>sv_packet_id := 7\<rparr>\<rparr>,
      store_entry_zero]\<rparr>"

lemma example_store_simps:
  "store_inv example_store"
  "store_marked example_store =
     [\<lparr>se_kind = KIND_PUBLISH_2, se_value = store_value_zero\<lparr>sv_packet_id := 7\<rparr>\<rparr>]"
  "store_pending example_store =
     [\<lparr>se_kind = KIND_PUBLISH_1, se_value = store_value_zero\<lparr>sv_packet_id := 7\<rparr>\<rparr>]"
  "st_capacity example_store = 3"
  by (simp_all add: example_store_def fresh_store_def store_inv_def store_marked_def
      store_pending_def store_live_def)

theorem store_send_then_respond_witness:
  "\<exists>st1 st2. lmqtt_store_mark_current example_store = (True, st1) \<and>
    lmqtt_store_pop_marked_by st1 KIND_PUBLISH_1 7 =
      Some (True, store_value_zero\<lparr>sv_packet_id := 7\<rparr>, st2) \<and> store_inv st2 \<and>
    store_marked st2 = store_marked example_store \<and> store_pending st2 = []"
  using store_send_then_respond [OF example_store_simps(1,3)]
  by (simp add: example_store_simps(2) has_key_def)

text \<open>
  There is always room for the follow-up of a response: when a sent request has just been
  popped, an append to the same store succeeds and queues the new request last. The decoder
  asserts exactly this when it answers a PUBREC with a PUBREL.
\<close>

theorem store_pop_leaves_room:
  assumes "store_inv st" and "lmqtt_store_pop_marked_by st k pid = Some (True, v, st1)"
  shows "\<exists>st2. lmqtt_store_append st1 k' (Some v) = Some (True, st2) \<and> store_inv st2 \<and>
    store_pending st2 = store_pending st @ [\<lparr>se_kind = k', se_value = v\<rparr>]"
  using pq.pop_then_append [OF assms, of k' "Some v"] by auto

theorem store_pop_leaves_room_witness:
  "\<exists>st1 st2. lmqtt_store_pop_marked_by example_store KIND_PUBLISH_2 7 =
      Some (True, store_value_zero\<lparr>sv_packet_id := 7\<rparr>, st1) \<and>
    lmqtt_store_append st1 KIND_PUBREL (Some (store_value_zero\<lparr>sv_packet_id := 7\<rparr>)) =
      Some (True, st2) \<and> length (store_pending st2) = 2"
proof -
  have "List.extract (has_key KIND_PUBLISH_2 7) (store_marked example_store) =
      Some ([], \<lparr>se_kind = KIND_PUBLISH_2, se_value = store_value_zero\<lparr>sv_packet_id := 7\<rparr>\<rparr>, [])"
    by (simp add: example_store_simps has_key_def extract_Cons_code)
  from store_pop_marked_by_spec(2) [OF example_store_simps(1) this]
  obtain st1 where st1: "lmqtt_store_pop_marked_by example_store KIND_PUBLISH_2 7 =
      Some (True, store_value_zero\<lparr>sv_packet_id := 7\<rparr>, st1)" by auto
  from store_pop_leaves_room [OF example_store_simps(1) st1, of KIND_PUBREL] st1
  show ?thesis by (auto simp: example_store_simps)
qed

text \<open>
  Packet identifiers: the first one a fresh store hands out is 0, they count upwards
  modulo 65536, and no identifier is handed out twice within 65536 calls.
\<close>

fun take_ids :: "nat \<Rightarrow> store \<Rightarrow> packet_id list" where
  "take_ids 0 st = []"
| "take_ids (Suc n) st = (let (i, st') = lmqtt_store_get_id st in i # take_ids n st')"

lemma take_ids_eq: "take_ids n st = map (\<lambda>i. st_next_packet_id st + of_nat i) [0..<n]"
proof (induction n arbitrary: st)
  case 0
  then show ?case by simp
next
  case (Suc n)
  have "[0..<Suc n] = 0 # map Suc [0..<n]"
    by (simp add: map_Suc_upt upt_conv_Cons)
  then show ?case
    by (simp add: Suc.IH lmqtt_store_get_id_def add.assoc del: upt_Suc)
qed

theorem store_ids_distinct:
  assumes "n \<le> 65536"
  shows "distinct (take_ids n st) \<and>
    (0 < n \<longrightarrow> hd (take_ids n (fresh_store c)) = 0) \<and>
    take_ids 65537 st ! 65536 = take_ids 65537 st ! 0"
proof -
  have "inj_on (\<lambda>i. st_next_packet_id st + of_nat i) {0..<n}"
  proof (rule inj_onI)
    fix i j assume ij: "i \<in> {0..<n}" "j \<in> {0..<n}"
      and "st_next_packet_id st + of_nat i = st_next_packet_id st + (of_nat j :: packet_id)"
    then have "unat (of_nat i :: packet_id) = unat (of_nat j :: packet_id)" by simp
    then show "i = j" using ij assms by (simp add: unat_of_nat)
  qed
  moreover have "(of_nat 65536 :: packet_id) = 0" by simp
  ultimately show ?thesis
    by (simp add: take_ids_eq distinct_map hd_map nth_upt del: upt_Suc of_nat_numeral)
qed

theorem store_ids_distinct_witness:
  "distinct (take_ids 3 (fresh_store 1)) \<and> take_ids 3 (fresh_store 1) = [0, 1, 2]"
proof
  show "distinct (take_ids 3 (fresh_store 1))"
    using store_ids_distinct [of 3 "fresh_store 1"] by simp
  show "take_ids 3 (fresh_store 1) = [0, 1, 2]"
    by (simp add: numeral_3_eq_3 lmqtt_store_get_id_def)
qed

end
