(* ===== verification/Id_Set.thy ===== *)
theory Id_Set
  imports Core_Types
begin

text \<open>
  The set of packet identifiers of QoS 2 messages that have been received and not yet
  released (\<open>lmqtt_id_set_t\<close> in \<open>src/lmqtt_packet.c\<close>), an array with a count.

  \<open>lmqtt_id_set_remove\<close> computes the number of bytes to move with
  \<open>sizeof(&id_set->items[0])\<close>, the size of a \<^emph>\<open>pointer\<close>, where an element is a
  16-bit integer. The model keeps that: four elements are moved for each one that should be.
  The laws of a set of identifiers hold as long as the array's memory is large enough for
  the oversized move (\<open>id_set_roomy\<close>); where it is not, the call has no defined result.
\<close>

section \<open>The data and the operations\<close>

record id_set =
  ids_items :: "packet_id list"
  ids_capacity :: nat
  ids_count :: nat

definition sizeof_pointer :: nat where "sizeof_pointer = 8"
definition sizeof_packet_id :: nat where "sizeof_packet_id = 2"

text \<open>The search loop the three operations share: the first index \<open>i < count\<close> that holds \<open>id\<close>.\<close>

fun id_set_scan :: "nat \<Rightarrow> packet_id list \<Rightarrow> packet_id \<Rightarrow> nat \<Rightarrow> nat option option" where
  "id_set_scan 0 items pid i = Some None"
| "id_set_scan (Suc n) items pid i =
     do {
       x \<leftarrow> arr_get items i;
       if x = pid then Some (Some i) else id_set_scan n items pid (Suc i)
     }"

definition lmqtt_id_set_clear :: "id_set \<Rightarrow> id_set" where
  "lmqtt_id_set_clear s = s\<lparr>ids_count := 0\<rparr>"

definition lmqtt_id_set_contains :: "id_set \<Rightarrow> packet_id \<Rightarrow> bool option" where
  "lmqtt_id_set_contains s pid =
     do { r \<leftarrow> id_set_scan (ids_count s) (ids_items s) pid 0; Some (r \<noteq> None) }"

definition lmqtt_id_set_put :: "id_set \<Rightarrow> packet_id \<Rightarrow> (bool \<times> id_set) option" where
  "lmqtt_id_set_put s pid =
     (if ids_count s \<ge> ids_capacity s then Some (False, s)
      else do {
        r \<leftarrow> id_set_scan (ids_count s) (ids_items s) pid 0;
        if r \<noteq> None then Some (False, s)
        else do {
          items \<leftarrow> arr_set (ids_items s) (ids_count s) pid;
          Some (True, s\<lparr>ids_items := items, ids_count := ids_count s + 1\<rparr>)
        }
      })"

definition lmqtt_id_set_remove :: "id_set \<Rightarrow> packet_id \<Rightarrow> (bool \<times> id_set) option" where
  "lmqtt_id_set_remove s pid =
     do {
       r \<leftarrow> id_set_scan (ids_count s) (ids_items s) pid 0;
       case r of
         None \<Rightarrow> Some (False, s)
       | Some i \<Rightarrow> do {
           items \<leftarrow> arr_move (ids_items s) i (i + 1)
             (sizeof_pointer * size_sub (ids_count s) (i + 1) div sizeof_packet_id);
           Some (True, s\<lparr>ids_items := items, ids_count := ids_count s - 1\<rparr>)
         }
     }"

section \<open>Invariants and the abstract view\<close>

definition ids_list :: "id_set \<Rightarrow> packet_id list" where
  "ids_list s = take (ids_count s) (ids_items s)"

definition ids_members :: "id_set \<Rightarrow> packet_id set" where
  "ids_members s = set (ids_list s)"

definition id_set_inv :: "id_set \<Rightarrow> bool" where
  "id_set_inv s \<longleftrightarrow> ids_count s \<le> ids_capacity s \<and> ids_count s \<le> length (ids_items s) \<and>
     distinct (ids_list s)"

text \<open>Memory for the oversized move: about four times the capacity.\<close>

definition id_set_roomy :: "id_set \<Rightarrow> bool" where
  "id_set_roomy s \<longleftrightarrow> id_set_inv s \<and> 4 * ids_capacity s \<le> length (ids_items s) + 3"

lemma id_set_roomy_inv: "id_set_roomy s \<Longrightarrow> id_set_inv s"
  by (simp add: id_set_roomy_def)

lemma length_ids_list [simp]: "id_set_inv s \<Longrightarrow> length (ids_list s) = ids_count s"
  by (simp add: id_set_inv_def ids_list_def)

text \<open>The index of the first occurrence, as a specification of the search.\<close>

definition first_index :: "'a \<Rightarrow> 'a list \<Rightarrow> nat option" where
  "first_index x xs = (if x \<in> set xs then Some (length (takeWhile (\<lambda>y. y \<noteq> x) xs)) else None)"

lemma first_index_Cons [simp]:
  "first_index x (y # ys) = (if y = x then Some 0 else map_option Suc (first_index x ys))"
  by (simp add: first_index_def)

lemma first_index_Nil [simp]: "first_index x [] = None"
  by (simp add: first_index_def)

lemma first_index_nth:
  "first_index x xs = Some i \<Longrightarrow> i < length xs \<and> xs ! i = x"
  by (induction xs arbitrary: i) (auto split: if_splits)

lemma first_index_absent [simp]: "x \<notin> set xs \<Longrightarrow> first_index x xs = None"
  by (simp add: first_index_def)

lemma first_index_present: "x \<in> set xs \<Longrightarrow> \<exists>i. first_index x xs = Some i"
  by (simp add: first_index_def)

lemma first_index_ex_iff [simp]: "(\<exists>i. first_index x xs = Some i) \<longleftrightarrow> x \<in> set xs"
  by (simp add: first_index_def)

lemma id_set_scan_eq:
  "i + n \<le> length items \<Longrightarrow>
     id_set_scan n items pid i =
       Some (map_option (\<lambda>j. i + j) (first_index pid (take n (drop i items))))"
proof (induction n arbitrary: i)
  case 0
  then show ?case by simp
next
  case (Suc n)
  then have "take (Suc n) (drop i items) = items ! i # take n (drop (Suc i) items)"
    by (simp add: Cons_nth_drop_Suc [symmetric])
  then show ?case
    using Suc by (simp add: arr_simps option.map_comp comp_def)
qed

lemma id_set_scan_spec:
  "id_set_inv s \<Longrightarrow>
     id_set_scan (ids_count s) (ids_items s) pid 0 = Some (first_index pid (ids_list s))"
  using id_set_scan_eq [of 0 "ids_count s" "ids_items s" pid]
  by (simp add: id_set_inv_def ids_list_def option.map_ident)

section \<open>What the operations do\<close>

lemma id_set_clear_spec:
  "id_set_inv s \<Longrightarrow> id_set_inv (lmqtt_id_set_clear s) \<and> ids_members (lmqtt_id_set_clear s) = {}"
  by (simp add: lmqtt_id_set_clear_def id_set_inv_def ids_members_def ids_list_def)

lemma id_set_contains_spec:
  "id_set_inv s \<Longrightarrow> lmqtt_id_set_contains s pid = Some (pid \<in> ids_members s)"
  by (simp add: lmqtt_id_set_contains_def id_set_scan_spec ids_members_def)

lemma id_set_put_spec:
  assumes inv: "id_set_inv s"
  shows "ids_count s \<ge> ids_capacity s \<or> pid \<in> ids_members s \<Longrightarrow>
      lmqtt_id_set_put s pid = Some (False, s)"
    and "ids_count s < ids_capacity s \<Longrightarrow> pid \<notin> ids_members s \<Longrightarrow> ids_count s < length (ids_items s) \<Longrightarrow>
      \<exists>s'. lmqtt_id_set_put s pid = Some (True, s') \<and> id_set_inv s' \<and>
        ids_list s' = ids_list s @ [pid] \<and> ids_capacity s' = ids_capacity s \<and>
        length (ids_items s') = length (ids_items s)"
  using inv
  by (auto simp: lmqtt_id_set_put_def id_set_scan_spec ids_members_def id_set_inv_def
      ids_list_def arr_simps take_Suc_conv_app_nth)

text \<open>Putting an identifier behind the end of the array has no result.\<close>

lemma id_set_put_beyond:
  assumes "id_set_inv s" and "ids_count s < ids_capacity s" and "pid \<notin> ids_members s"
    and "length (ids_items s) \<le> ids_count s"
  shows "lmqtt_id_set_put s pid = None"
  using assms(2-4) id_set_scan_spec [OF assms(1), of pid]
  by (simp add: lmqtt_id_set_put_def ids_members_def arr_set_def)

text \<open>The exact condition under which the oversized move stays inside the array.\<close>

lemma id_set_remove_cases:
  assumes inv: "id_set_inv s"
  shows "pid \<notin> ids_members s \<Longrightarrow> lmqtt_id_set_remove s pid = Some (False, s)"
    and "first_index pid (ids_list s) = Some i \<Longrightarrow>
      i + 1 + 4 * (ids_count s - i - 1) > length (ids_items s) \<Longrightarrow>
      lmqtt_id_set_remove s pid = None"
    and "first_index pid (ids_list s) = Some i \<Longrightarrow>
      i + 1 + 4 * (ids_count s - i - 1) \<le> length (ids_items s) \<Longrightarrow>
      \<exists>s'. lmqtt_id_set_remove s pid = Some (True, s') \<and> id_set_inv s' \<and>
        ids_list s' = remove_nth i (ids_list s) \<and> ids_capacity s' = ids_capacity s \<and>
        length (ids_items s') = length (ids_items s)"
proof -
  assume "pid \<notin> ids_members s"
  then show "lmqtt_id_set_remove s pid = Some (False, s)"
    by (simp add: lmqtt_id_set_remove_def id_set_scan_spec [OF inv] ids_members_def)
next
  assume i: "first_index pid (ids_list s) = Some i"
  then have lt: "i < ids_count s"
    using first_index_nth [OF i] inv by simp
  have bytes: "sizeof_pointer * size_sub (ids_count s) (Suc i) div sizeof_packet_id =
      4 * (ids_count s - i - 1)"
    using lt by (simp add: sizeof_pointer_def sizeof_packet_id_def)
  note body = lmqtt_id_set_remove_def id_set_scan_spec [OF inv] i bytes
  show "i + 1 + 4 * (ids_count s - i - 1) > length (ids_items s) \<Longrightarrow>
      lmqtt_id_set_remove s pid = None"
    by (simp add: body arr_move_def arr_slice_def)
  assume room: "i + 1 + 4 * (ids_count s - i - 1) \<le> length (ids_items s)"
  let ?n = "4 * (ids_count s - i - 1)"
  have b: "ids_count s \<le> i + 1 + ?n" using lt by simp
  obtain zs where zs: "arr_move (ids_items s) i (i + 1) (i + 1 + ?n - i - 1) = Some zs"
      "length zs = length (ids_items s)"
      "take (ids_count s - 1) zs = remove_nth i (take (ids_count s) (ids_items s))"
    using take_arr_move_gap [OF lt b room] by blast
  have "lmqtt_id_set_remove s pid =
      Some (True, s\<lparr>ids_items := zs, ids_count := ids_count s - 1\<rparr>)"
    using zs(1) by (simp add: body)
  with zs(2,3) show "\<exists>s'. lmqtt_id_set_remove s pid = Some (True, s') \<and> id_set_inv s' \<and>
        ids_list s' = remove_nth i (ids_list s) \<and> ids_capacity s' = ids_capacity s \<and>
        length (ids_items s') = length (ids_items s)"
    using inv by (auto simp: id_set_inv_def ids_list_def)
qed


section \<open>The contract of a registry of identifiers\<close>

text \<open>
  What exactly-once delivery needs: an identifier that has been put is contained until it is
  removed, a second put of it is refused, and removing one leaves the others.
\<close>

locale id_registry =
  fixes inv :: "'s \<Rightarrow> bool"
    and members :: "'s \<Rightarrow> packet_id set"
    and full :: "'s \<Rightarrow> bool"
    and contains :: "'s \<Rightarrow> packet_id \<Rightarrow> bool option"
    and put :: "'s \<Rightarrow> packet_id \<Rightarrow> (bool \<times> 's) option"
    and remove :: "'s \<Rightarrow> packet_id \<Rightarrow> (bool \<times> 's) option"
  assumes contains_law: "inv s \<Longrightarrow> contains s x = Some (x \<in> members s)"
    and put_refused: "inv s \<Longrightarrow> full s \<or> x \<in> members s \<Longrightarrow> put s x = Some (False, s)"
    and put_accepted: "inv s \<Longrightarrow> \<not> full s \<Longrightarrow> x \<notin> members s \<Longrightarrow>
      \<exists>s'. put s x = Some (True, s') \<and> inv s' \<and> members s' = insert x (members s)"
    and remove_absent: "inv s \<Longrightarrow> x \<notin> members s \<Longrightarrow> remove s x = Some (False, s)"
    and remove_present: "inv s \<Longrightarrow> x \<in> members s \<Longrightarrow>
      \<exists>s'. remove s x = Some (True, s') \<and> inv s' \<and> members s' = members s - {x} \<and> \<not> full s'"
begin

lemma put_then_duplicate:
  assumes "inv s" and "put s x = Some (True, s1)"
  shows "contains s1 x = Some True \<and> put s1 x = Some (False, s1)"
proof -
  have "\<not> (full s \<or> x \<in> members s)" using put_refused [OF assms(1), of x] assms(2) by auto
  then obtain s' where "put s x = Some (True, s')" "inv s'" "members s' = insert x (members s)"
    using put_accepted [OF assms(1)] by blast
  then show ?thesis using assms(2) contains_law put_refused by simp
qed

lemma remove_then_put_again:
  assumes "inv s" and "x \<in> members s"
  shows "\<exists>s1 s2. remove s x = Some (True, s1) \<and> contains s1 x = Some False \<and>
    put s1 x = Some (True, s2) \<and> inv s2 \<and> members s2 = members s"
proof -
  obtain s1 where s1: "remove s x = Some (True, s1)" "inv s1" "members s1 = members s - {x}"
      "\<not> full s1"
    using remove_present [OF assms] by blast
  obtain s2 where s2: "put s1 x = Some (True, s2)" "inv s2" "members s2 = insert x (members s1)"
    using put_accepted [OF s1(2,4), of x] s1(3) by auto
  show ?thesis using s1 s2 contains_law [OF s1(2)] assms(2) by auto
qed

lemma remove_total:
  assumes "inv s"
  shows "\<exists>b s'. remove s x = Some (b, s') \<and> inv s' \<and> members s' = members s - {x} \<and>
    b = (x \<in> members s)"
proof (cases "x \<in> members s")
  case True
  then show ?thesis using remove_present [OF assms True] by blast
next
  case False
  then show ?thesis using remove_absent [OF assms False] assms by auto
qed

end

definition id_set_full :: "id_set \<Rightarrow> bool" where
  "id_set_full s \<longleftrightarrow> ids_count s \<ge> ids_capacity s"

lemma id_set_remove_roomy:
  assumes "id_set_roomy s" and "x \<in> ids_members s"
  shows "\<exists>s'. lmqtt_id_set_remove s x = Some (True, s') \<and> id_set_roomy s' \<and>
    ids_members s' = ids_members s - {x} \<and> \<not> id_set_full s'"
proof -
  have inv: "id_set_inv s" using assms(1) by (rule id_set_roomy_inv)
  obtain i where i: "first_index x (ids_list s) = Some i"
    using first_index_present [of x "ids_list s"] assms(2) unfolding ids_members_def by blast
  have lt: "i < ids_count s" and nth: "ids_list s ! i = x"
    using first_index_nth [OF i] inv by simp_all
  have "i + 1 + 4 * (ids_count s - i - 1) \<le> length (ids_items s)"
    using assms(1) inv lt by (simp add: id_set_roomy_def id_set_inv_def) arith
  from id_set_remove_cases(3) [OF inv i this]
  obtain s' where s': "lmqtt_id_set_remove s x = Some (True, s')" "id_set_inv s'"
      "ids_list s' = remove_nth i (ids_list s)" "ids_capacity s' = ids_capacity s"
      "length (ids_items s') = length (ids_items s)" by blast
  have "ids_members s' = ids_members s - {x}"
    using set_remove_nth_distinct [of "ids_list s" i] inv lt nth
    by (simp add: ids_members_def s'(3) id_set_inv_def)
  moreover have "ids_count s' < ids_capacity s'"
    using length_ids_list [OF s'(2)] s'(3,4) lt inv
    by (simp add: id_set_inv_def) arith
  ultimately show ?thesis
    using s' assms(1) by (auto simp: id_set_roomy_def id_set_full_def)
qed

lemma id_set_put_roomy:
  assumes "id_set_roomy s" and "ids_count s < ids_capacity s" and "pid \<notin> ids_members s"
  shows "\<exists>s'. lmqtt_id_set_put s pid = Some (True, s') \<and> id_set_roomy s' \<and>
    ids_members s' = insert pid (ids_members s) \<and> ids_capacity s' = ids_capacity s \<and>
    ids_count s' = Suc (ids_count s)"
proof -
  obtain s' where s': "lmqtt_id_set_put s pid = Some (True, s')" "id_set_inv s'"
      "ids_list s' = ids_list s @ [pid]" "ids_capacity s' = ids_capacity s"
      "length (ids_items s') = length (ids_items s)"
    using id_set_put_spec(2) [OF id_set_roomy_inv [OF assms(1)] assms(2,3)] assms(1,2)
    by (auto simp: id_set_roomy_def)
  then show ?thesis
    using assms(1) length_ids_list [OF s'(2)] length_ids_list [OF id_set_roomy_inv [OF assms(1)]]
    by (simp add: id_set_roomy_def ids_members_def)
qed

lemma id_set_remove_roomy_count:
  assumes "id_set_roomy s"
  shows "\<exists>b s'. lmqtt_id_set_remove s pid = Some (b, s') \<and> id_set_roomy s' \<and>
    ids_members s' = ids_members s - {pid} \<and> ids_capacity s' = ids_capacity s \<and>
    ids_count s' \<le> ids_count s"
proof (cases "pid \<in> ids_members s")
  case False
  then show ?thesis
    using id_set_remove_cases(1) [OF id_set_roomy_inv [OF assms], of pid] assms by auto
next
  case True
  then obtain i where i: "first_index pid (ids_list s) = Some i"
    using first_index_present [of pid "ids_list s"] unfolding ids_members_def by blast
  have inv: "id_set_inv s" using assms by (rule id_set_roomy_inv)
  have "i + 1 + 4 * (ids_count s - i - 1) \<le> length (ids_items s)"
    using assms inv first_index_nth [OF i] by (simp add: id_set_roomy_def id_set_inv_def) arith
  from id_set_remove_cases(3) [OF inv i this] obtain s' where s':
      "lmqtt_id_set_remove s pid = Some (True, s')" "id_set_inv s'"
      "ids_list s' = remove_nth i (ids_list s)" "ids_capacity s' = ids_capacity s" by blast
  then have "ids_count s' \<le> ids_count s"
    using length_ids_list [OF s'(2)] first_index_nth [OF i] length_ids_list [OF inv] by simp
  then show ?thesis using id_set_remove_roomy [OF assms True] s' by auto
qed

interpretation ids: id_registry id_set_roomy ids_members id_set_full lmqtt_id_set_contains
  lmqtt_id_set_put lmqtt_id_set_remove
proof (unfold_locales, goal_cases)
  case (1 s x)
  then show ?case by (simp add: id_set_contains_spec id_set_roomy_inv)
next
  case (2 s x)
  then show ?case
    using id_set_put_spec(1) [OF id_set_roomy_inv] by (auto simp: id_set_full_def)
next
  case (3 s x)
  then show ?case
    using id_set_put_spec(2) [OF id_set_roomy_inv [OF 3(1)], of x]
    by (auto simp: id_set_full_def id_set_roomy_def ids_members_def)
next
  case (4 s x)
  then show ?case using id_set_remove_cases(1) [OF id_set_roomy_inv] by simp
next
  case (5 s x)
  then show ?case using id_set_remove_roomy by simp
qed

section \<open>Properties\<close>

text \<open>An empty set over memory for \<open>m\<close> identifiers, with capacity \<open>c\<close>.\<close>

definition empty_id_set :: "nat \<Rightarrow> nat \<Rightarrow> id_set" where
  "empty_id_set m c = \<lparr>ids_items = replicate m 0, ids_capacity = c, ids_count = 0\<rparr>"

lemma empty_id_set_simps [simp]:
  "c \<le> m \<Longrightarrow> id_set_inv (empty_id_set m c)" "ids_members (empty_id_set m c) = {}"
  "ids_capacity (empty_id_set m c) = c" "ids_count (empty_id_set m c) = 0"
  "length (ids_items (empty_id_set m c)) = m"
  by (simp_all add: empty_id_set_def id_set_inv_def ids_list_def ids_members_def)

text \<open>
  A duplicate is recognised: once an identifier has been put, it is contained, and a
  second put of it is refused, whatever else the set holds.
\<close>

theorem id_set_put_once:
  assumes "id_set_roomy s" and "lmqtt_id_set_put s x = Some (True, s1)"
  shows "lmqtt_id_set_contains s1 x = Some True \<and> lmqtt_id_set_put s1 x = Some (False, s1)"
  by (rule ids.put_then_duplicate [OF assms])

theorem id_set_put_once_witness:
  "\<exists>s1. lmqtt_id_set_put (empty_id_set 8 2) 5 = Some (True, s1) \<and>
     lmqtt_id_set_contains s1 5 = Some True \<and> lmqtt_id_set_put s1 5 = Some (False, s1)"
proof -
  have room: "id_set_roomy (empty_id_set 8 2)" by (simp add: id_set_roomy_def)
  obtain s1 where s1: "lmqtt_id_set_put (empty_id_set 8 2) 5 = Some (True, s1)"
    using id_set_put_spec(2) [OF id_set_roomy_inv [OF room], of 5] by auto
  from id_set_put_once [OF room s1] s1 show ?thesis by blast
qed

text \<open>
  Releasing an identifier removes exactly it, provided the memory behind the array has
  room for the oversized \<open>memmove\<close>; the identifier can be put again afterwards.
\<close>

theorem id_set_remove_releases:
  assumes "id_set_roomy s" and "x \<in> ids_members s"
  shows "\<exists>s1 s2. lmqtt_id_set_remove s x = Some (True, s1) \<and>
    lmqtt_id_set_contains s1 x = Some False \<and>
    lmqtt_id_set_put s1 x = Some (True, s2) \<and> id_set_roomy s2 \<and> ids_members s2 = ids_members s"
  by (rule ids.remove_then_put_again [OF assms])

definition two_ids :: id_set where
  "two_ids = \<lparr>ids_items = [3, 6, 0, 0, 0, 0, 0, 0], ids_capacity = 2, ids_count = 2\<rparr>"

theorem id_set_remove_releases_witness:
  "\<exists>s1 s2. lmqtt_id_set_remove two_ids 3 = Some (True, s1) \<and>
    lmqtt_id_set_contains s1 3 = Some False \<and> lmqtt_id_set_put s1 3 = Some (True, s2) \<and>
    ids_members s2 = {3, 6}"
proof -
  have "id_set_roomy two_ids"
    by (simp add: two_ids_def id_set_roomy_def id_set_inv_def ids_list_def)
  moreover have "ids_members two_ids = {3, 6}"
    by (simp add: two_ids_def ids_members_def ids_list_def)
  ultimately show ?thesis using id_set_remove_releases [of two_ids 3] by auto
qed



end
