(* ===== verification/Fixed_Header.thy ===== *)
theory Fixed_Header
  imports Core_Types
begin

text \<open>
  The fixed header of a packet in \<open>src/lmqtt_packet.c\<close>: the variable-length encoding of the
  remaining length (\<open>encode_remaining_length\<close>) and the byte-wise decoder of incoming headers
  (\<open>fixed_header_decode\<close>). The lemmas show that the encoder is canonical and that the decoder
  accepts exactly its output.
\<close>

section \<open>Encoding the remaining length\<close>

text \<open>
  The \<open>do ... while\<close> loop. Once the assertion holds the numbers are non-negative, so
  \<open>%\<close> and \<open>/\<close> agree with \<open>mod\<close> and \<open>div\<close>; the loop is stated on naturals.
\<close>

fun encode_remaining_loop :: "nat \<Rightarrow> byte list" where
  "encode_remaining_loop len =
     (let b = word_of_nat (len mod 128); len' = len div 128
      in if len' > 0 then (b OR 0x80) # encode_remaining_loop len' else [b])"

declare encode_remaining_loop.simps [simp del]

definition encode_remaining_length :: "int \<Rightarrow> byte list option" where
  "encode_remaining_length len =
     do { c_assert (len \<ge> 0 \<and> len \<le> 0x0fffffff); Some (encode_remaining_loop (nat len)) }"

section \<open>Decoding a fixed header\<close>

record fixed_header =
  fh_type :: int
  fh_dup :: int
  fh_qos :: int
  fh_retain :: int
  fh_remaining_length :: int
  fh_bytes_read :: nat
  fh_error :: lmqtt_error
  fh_multiplier :: int
  fh_accumulator :: int
  fh_finished :: bool

definition fixed_header_zero :: fixed_header where
  "fixed_header_zero = \<lparr>fh_type = 0, fh_dup = 0, fh_qos = 0, fh_retain = 0,
     fh_remaining_length = 0, fh_bytes_read = 0, fh_error = NO_ERROR, fh_multiplier = 0,
     fh_accumulator = 0, fh_finished = False\<rparr>"

text \<open>The \<open>switch\<close> over the packet type that decides which flag nibbles are allowed.\<close>

definition header_bad_flags :: "int \<Rightarrow> int \<Rightarrow> bool" where
  "header_bad_flags ty flags =
     (if ty = TYPE_PUBREL \<or> ty = TYPE_SUBSCRIBE \<or> ty = TYPE_UNSUBSCRIBE then flags \<noteq> 2
      else if ty = TYPE_PUBLISH then flags AND 6 = 6 \<or> flags AND 14 = 8
      else flags \<noteq> 0)"

text \<open>The branch for the first byte and the branch for the bytes of the remaining length.\<close>

definition fixed_header_first_byte ::
    "fixed_header \<Rightarrow> byte \<Rightarrow> fixed_header \<times> decode_result \<times> lmqtt_error" where
  "fixed_header_first_byte header b =
     (let ty = uint (drop_bit 4 b); flags = uint (b AND 0x0f)
      in if ty < TYPE_MIN \<or> ty > TYPE_MAX
         then (header, DECODE_ERROR, ERROR_DECODE_FIXED_HEADER_INVALID_TYPE)
         else if header_bad_flags ty flags
         then (header, DECODE_ERROR, ERROR_DECODE_FIXED_HEADER_INVALID_FLAGS)
         else
           (let header1 = header\<lparr>fh_type := ty, fh_multiplier := 1, fh_accumulator := 0,
                  fh_finished := False\<rparr>;
                header2 =
                  (if ty = TYPE_PUBLISH
                   then header1\<lparr>fh_dup := drop_bit 3 (flags AND 8),
                          fh_qos := drop_bit 1 (flags AND 6), fh_retain := flags AND 1\<rparr>
                   else header1\<lparr>fh_dup := 0, fh_qos := 0, fh_retain := 0\<rparr>)
            in (header2, DECODE_CONTINUE, NO_ERROR)))"

definition fixed_header_length_byte ::
    "fixed_header \<Rightarrow> byte \<Rightarrow> fixed_header \<times> decode_result \<times> lmqtt_error" where
  "fixed_header_length_byte header b =
     (if fh_multiplier header > 128 * 128 \<and> b AND 128 \<noteq> 0 \<or>
         fh_multiplier header > 1 \<and> b = 0 \<or> fh_finished header
      then (header, DECODE_ERROR, ERROR_DECODE_FIXED_HEADER_INVALID_REMAINING_LENGTH)
      else
        (let header1 = header
               \<lparr>fh_accumulator := fh_accumulator header + uint (b AND 127) * fh_multiplier header,
                fh_multiplier := fh_multiplier header * 128\<rparr>
         in if b AND 128 \<noteq> 0 then (header1, DECODE_CONTINUE, NO_ERROR)
            else (header1\<lparr>fh_remaining_length := fh_accumulator header1, fh_finished := True\<rparr>,
                  DECODE_FINISHED, NO_ERROR)))"

definition fixed_header_decode ::
    "fixed_header \<Rightarrow> byte \<Rightarrow> fixed_header \<times> decode_result \<times> lmqtt_error" where
  "fixed_header_decode header b =
     (if fh_error header \<noteq> NO_ERROR then (header, DECODE_ERROR, fh_error header)
      else
        (let (header1, result, err) =
               (if fh_bytes_read header = 0 then fixed_header_first_byte header b
                else fixed_header_length_byte header b)
         in if result = DECODE_ERROR then (header1\<lparr>fh_error := err\<rparr>, result, err)
            else (header1\<lparr>fh_bytes_read := fh_bytes_read header1 + 1\<rparr>, result, err)))"

text \<open>
  Feeding bytes one at a time until the header is finished, as \<open>lmqtt_rx_buffer_decode\<close>
  does: the final header, its verdict and the bytes that are left.
\<close>

fun header_run :: "fixed_header \<Rightarrow> byte list \<Rightarrow> fixed_header \<times> decode_result \<times> byte list" where
  "header_run h [] = (h, DECODE_CONTINUE, [])"
| "header_run h (b # bs) =
     (let (h', res, err) = fixed_header_decode h b
      in if res = DECODE_CONTINUE then header_run h' bs else (h', res, bs))"

section \<open>Facts about the two loops\<close>

lemma encode_loop_small: "n < 128 \<Longrightarrow> encode_remaining_loop n = [word_of_nat n]"
  by (subst encode_remaining_loop.simps) (simp add: Let_def)

lemma encode_loop_big:
  "128 \<le> n \<Longrightarrow> encode_remaining_loop n =
     (word_of_nat (n mod 128) OR 0x80) # encode_remaining_loop (n div 128)"
  by (subst encode_remaining_loop.simps) (simp add: Let_def div_greater_zero_iff)

lemma encode_loop_not_Nil [simp]: "encode_remaining_loop n \<noteq> []"
  by (subst encode_remaining_loop.simps) (simp add: Let_def)

lemma length_encode_loop:
  "n < 128 ^ k \<Longrightarrow> 0 < k \<Longrightarrow> length (encode_remaining_loop n) \<le> k"
proof (induction k arbitrary: n)
  case 0
  then show ?case by simp
next
  case (Suc k)
  show ?case
  proof (cases "n < 128")
    case True
    then show ?thesis by (simp add: encode_loop_small)
  next
    case False
    have "n div 128 < 128 ^ k"
      using Suc.prems(1) by (simp add: less_mult_imp_div_less mult.commute)
    moreover have "0 < k"
      using False Suc.prems(1) by (cases k) auto
    ultimately show ?thesis
      using Suc.IH False by (simp add: encode_loop_big)
  qed
qed

text \<open>A header after its first byte and \<open>k\<close> further bytes that all announced another one.\<close>

definition header_at :: "nat \<Rightarrow> int \<Rightarrow> fixed_header \<Rightarrow> bool" where
  "header_at k a h \<longleftrightarrow> fh_bytes_read h > 0 \<and> fh_error h = NO_ERROR \<and>
     fh_multiplier h = 128 ^ k \<and> fh_accumulator h = a \<and> \<not> fh_finished h"

lemma power_128_less: "(16384::int) < 128 ^ k \<longleftrightarrow> 3 \<le> k"
proof -
  have "(16384::int) < 128 ^ k \<longleftrightarrow> (128::int) ^ 2 < 128 ^ k" by simp
  also have "\<dots> \<longleftrightarrow> 2 < k" by (rule power_strict_increasing_iff) simp
  finally show ?thesis by linarith
qed

lemma power_128_gt_1: "(1::int) < 128 ^ k \<longleftrightarrow> 0 < k"
  using power_strict_increasing_iff [of "128::int" 0 k] by simp

lemma header_length_byte:
  assumes h: "header_at k a h"
  shows "3 \<le> k \<and> 128 \<le> uint b \<or> 0 < k \<and> b = 0 \<Longrightarrow>
      fixed_header_decode h b =
        (h\<lparr>fh_error := ERROR_DECODE_FIXED_HEADER_INVALID_REMAINING_LENGTH\<rparr>, DECODE_ERROR,
         ERROR_DECODE_FIXED_HEADER_INVALID_REMAINING_LENGTH)"
    and "k < 3 \<Longrightarrow> 128 \<le> uint b \<Longrightarrow> \<exists>h'. fixed_header_decode h b = (h', DECODE_CONTINUE, NO_ERROR) \<and>
        header_at (Suc k) (a + (uint b - 128) * 128 ^ k) h' \<and> fh_type h' = fh_type h \<and>
        fh_dup h' = fh_dup h \<and> fh_qos h' = fh_qos h \<and> fh_retain h' = fh_retain h"
    and "uint b < 128 \<Longrightarrow> \<not> (0 < k \<and> b = 0) \<Longrightarrow>
      \<exists>h'. fixed_header_decode h b = (h', DECODE_FINISHED, NO_ERROR) \<and>
        fh_remaining_length h' = a + uint b * 128 ^ k \<and> fh_finished h' \<and> fh_type h' = fh_type h \<and>
        fh_dup h' = fh_dup h \<and> fh_qos h' = fh_qos h \<and> fh_retain h' = fh_retain h"
proof -
  have bits: "b AND 128 \<noteq> 0 \<longleftrightarrow> 128 \<le> uint b" "uint (b AND 127) = uint b mod 128"
    by (simp_all only: byte_and_128 byte_and_127 not_less)
  have zero: "b = 0 \<Longrightarrow> uint b = 0" by simp
  note body = fixed_header_decode_def fixed_header_length_byte_def header_at_def bits Let_def
    power_128_less power_128_gt_1
  show "3 \<le> k \<and> 128 \<le> uint b \<or> 0 < k \<and> b = 0 \<Longrightarrow>
      fixed_header_decode h b =
        (h\<lparr>fh_error := ERROR_DECODE_FIXED_HEADER_INVALID_REMAINING_LENGTH\<rparr>, DECODE_ERROR,
         ERROR_DECODE_FIXED_HEADER_INVALID_REMAINING_LENGTH)"
    using h zero by (auto simp: body)
  assume "k < 3" and big: "128 \<le> uint b"
  have "uint b mod 128 = uint b - 128"
    using big byte_bounds [of b] by presburger
  moreover have "b \<noteq> 0" using big zero by auto
  ultimately show "\<exists>h'. fixed_header_decode h b = (h', DECODE_CONTINUE, NO_ERROR) \<and>
        header_at (Suc k) (a + (uint b - 128) * 128 ^ k) h' \<and> fh_type h' = fh_type h \<and>
        fh_dup h' = fh_dup h \<and> fh_qos h' = fh_qos h \<and> fh_retain h' = fh_retain h"
    using h \<open>k < 3\<close> big by (simp add: body)
next
  assume "uint b < 128" and "\<not> (0 < k \<and> b = 0)"
  moreover have "uint b mod 128 = uint b"
    using \<open>uint b < 128\<close> byte_bounds [of b] by simp
  moreover have "b AND 128 \<noteq> 0 \<longleftrightarrow> 128 \<le> uint b" "uint (b AND 127) = uint b mod 128"
    by (simp_all only: byte_and_128 byte_and_127 not_less)
  ultimately show "\<exists>h'. fixed_header_decode h b = (h', DECODE_FINISHED, NO_ERROR) \<and>
        fh_remaining_length h' = a + uint b * 128 ^ k \<and> fh_finished h' \<and> fh_type h' = fh_type h \<and>
        fh_dup h' = fh_dup h \<and> fh_qos h' = fh_qos h \<and> fh_retain h' = fh_retain h"
    using h by (auto simp add: fixed_header_decode_def fixed_header_length_byte_def header_at_def
       Let_def power_128_less power_128_gt_1)
qed

section \<open>The decoder accepts exactly the encoder's output\<close>

definition same_first_byte :: "fixed_header \<Rightarrow> fixed_header \<Rightarrow> bool" where
  "same_first_byte h h' \<longleftrightarrow> fh_type h' = fh_type h \<and> fh_dup h' = fh_dup h \<and>
     fh_qos h' = fh_qos h \<and> fh_retain h' = fh_retain h"

lemma power_128_gap:
  assumes "k < 3"
  shows "(128::nat) ^ (4 - k) = 128 * 128 ^ (4 - Suc k)"
proof -
  have "4 - k = Suc (4 - Suc k)" using assms by arith
  then show ?thesis by (simp only: power_Suc)
qed

lemma header_run_encoded:
  "header_at k a h \<Longrightarrow> k \<le> 3 \<Longrightarrow> n < 128 ^ (4 - k) \<Longrightarrow> k = 0 \<or> 0 < n \<Longrightarrow>
     \<exists>h'. header_run h (encode_remaining_loop n @ rest) = (h', DECODE_FINISHED, rest) \<and>
       fh_remaining_length h' = a + int n * 128 ^ k \<and> fh_finished h' \<and> same_first_byte h h'"
proof (induction n arbitrary: k a h rule: encode_remaining_loop.induct)
  case (1 n)
  show ?case
  proof (cases "n < 128")
    case True
    obtain b :: byte where b: "encode_remaining_loop n = [b]" "uint b = int n"
    proof
      show "encode_remaining_loop n = [word_of_nat n]" using True by (rule encode_loop_small)
      show "uint (word_of_nat n :: byte) = int n" using True by (intro uint_small_byte) linarith
    qed
    then have "\<not> (0 < k \<and> b = 0)" using "1.prems"(4) by auto
    then show ?thesis
      using header_length_byte(3) [OF "1.prems"(1), of b] b True
      by (auto simp: same_first_byte_def)
  next
    case False
    obtain b :: byte where b: "uint b = int (n mod 128) + 128"
        "encode_remaining_loop n = b # encode_remaining_loop (n div 128)"
    proof
      show "uint (word_of_nat (n mod 128) OR 0x80 :: byte) = int (n mod 128) + 128"
        by (rule uint_or_128) (rule mod_less_divisor, rule zero_less_numeral)
      show "encode_remaining_loop n =
          (word_of_nat (n mod 128) OR 0x80) # encode_remaining_loop (n div 128)"
        using False by (intro encode_loop_big) linarith
    qed
    have k3: "k < 3"
    proof (rule ccontr)
      assume "\<not> k < 3"
      then have "k = 3" using "1.prems"(2) by simp
      then show False using "1.prems"(3) False by simp
    qed
    note pow = power_128_gap [OF k3]
    obtain h1 where h1: "fixed_header_decode h b = (h1, DECODE_CONTINUE, NO_ERROR)"
        "header_at (Suc k) (a + int (n mod 128) * 128 ^ k) h1" "same_first_byte h h1"
    proof -
      have big: "128 \<le> uint b" and eq: "uint b - 128 = int (n mod 128)" by (simp_all only: b(1))
      from header_length_byte(2) [OF "1.prems"(1) k3 big] that show ?thesis
        unfolding eq same_first_byte_def by blast
    qed
    have "n div 128 < 128 ^ (4 - Suc k)"
      using "1.prems"(3) pow by (simp add: less_mult_imp_div_less mult.commute)
    moreover have "0 < n div 128" using False by (simp add: div_greater_zero_iff)
    ultimately obtain h' where h': "header_run h1 (encode_remaining_loop (n div 128) @ rest) =
          (h', DECODE_FINISHED, rest)" "fh_finished h'" "same_first_byte h1 h'"
        "fh_remaining_length h' = a + int (n mod 128) * 128 ^ k + int (n div 128) * 128 ^ Suc k"
      using "1.IH" [OF refl refl _ h1(2)] Suc_leI [OF k3] by blast
    have "a + int (n mod 128) * 128 ^ k + int (n div 128) * 128 ^ Suc k = a + int n * 128 ^ k"
    proof -
      have "int n = int (n mod 128 + n div 128 * 128)"
        by (simp only: mod_div_mult_eq)
      then have "int n = int (n mod 128) + int (n div 128) * 128"
        by (simp only: of_nat_add of_nat_mult of_nat_numeral)
      then have "a + int n * 128 ^ k =
          a + (int (n mod 128) + int (n div 128) * 128) * 128 ^ k" by (simp only:)
      then show ?thesis by (simp only: algebra_simps power_Suc)
    qed
    with h'(4) have len: "fh_remaining_length h' = a + int n * 128 ^ k" by (simp only:)
    have run: "header_run h (encode_remaining_loop n @ rest) = (h', DECODE_FINISHED, rest)"
      by (simp add: b(2) h1(1) h'(1))
    have same: "same_first_byte h h'"
      using h1(3) h'(3) by (simp add: same_first_byte_def)
    show ?thesis using run len h'(2) same by blast
  qed
qed

lemma header_run_decoded:
  "header_at k a h \<Longrightarrow> k \<le> 3 \<Longrightarrow> header_run h bs = (h', DECODE_FINISHED, rest) \<Longrightarrow>
     \<exists>n. bs = encode_remaining_loop n @ rest \<and> n < 128 ^ (4 - k) \<and> (k = 0 \<or> 0 < n) \<and>
       fh_remaining_length h' = a + int n * 128 ^ k"
proof (induction bs arbitrary: k a h)
  case Nil
  then show ?case by simp
next
  case (Cons b bs)
  note step = header_length_byte [OF Cons.prems(1), of b]
  have bb: "b = word_of_nat (nat (uint b))" by simp
  consider (bad) "3 \<le> k \<and> 128 \<le> uint b \<or> 0 < k \<and> b = 0"
    | (more) "k < 3" "128 \<le> uint b" | (last) "uint b < 128" "\<not> (0 < k \<and> b = 0)"
    by linarith
  then show ?case
  proof cases
    case bad
    then show ?thesis using step(1) Cons.prems(3) by simp
  next
    case more
    obtain h1 where h1: "fixed_header_decode h b = (h1, DECODE_CONTINUE, NO_ERROR)"
        "header_at (Suc k) (a + (uint b - 128) * 128 ^ k) h1"
      using step(2) [OF more] by blast
    have "header_run h1 bs = (h', DECODE_FINISHED, rest)"
      using Cons.prems(3) h1(1) by simp
    from Cons.IH [OF h1(2) _ this] more(1)
    obtain n where n: "bs = encode_remaining_loop n @ rest" "n < 128 ^ (4 - Suc k)" "0 < n"
        "fh_remaining_length h' = a + (uint b - 128) * 128 ^ k + int n * 128 ^ Suc k" by auto
    let ?m = "nat (uint b - 128)"
    let ?n = "?m + 128 * n"
    have m: "?m < 128" "int ?m = uint b - 128" using byte_bounds [of b] more(2) by auto
    have "b = word_of_nat ?m OR 0x80"
    proof -
      have "nat (uint b) = ?m + 128" using more(2) by arith
      then show ?thesis using bb byte_or_128 [OF m(1)] by metis
    qed
    moreover have "?n mod 128 = ?m" and "?n div 128 = n" and "128 \<le> ?n"
      using m(1) n(3) by simp_all
    ultimately have enc: "b # bs = encode_remaining_loop ?n @ rest"
      using n(1) by (simp only: encode_loop_big append.simps)
    have lt: "?n < 128 ^ (4 - k)"
    proof -
      have "Suc n \<le> 128 ^ (4 - Suc k)" using n(2) by simp
      with power_128_gap [OF more(1)] show ?thesis using m(1) by linarith
    qed
    have len: "fh_remaining_length h' = a + int ?n * 128 ^ k"
    proof -
      have "int ?n = (uint b - 128) + 128 * int n" by (simp only: of_nat_add of_nat_mult m(2) of_nat_numeral)
      then show ?thesis by (simp only: n(4)) (simp only: algebra_simps power_Suc)
    qed
    have "0 < ?n" using n(3) by simp
    then show ?thesis
      by (intro exI [of _ ?n] conjI disjI2) (rule enc lt len, assumption?)+
  next
    case last
    obtain h3 where h3: "fixed_header_decode h b = (h3, DECODE_FINISHED, NO_ERROR)"
        "fh_remaining_length h3 = a + uint b * 128 ^ k"
      using step(3) [OF last] by blast
    with Cons.prems(3) have rest: "rest = bs" and h': "h' = h3" by simp_all
    have len: "fh_remaining_length h' = a + int (nat (uint b)) * 128 ^ k"
      by (simp only: h' h3(2) nat_0_le [OF byte_bounds(1)])
    have small: "nat (uint b) < 128" using last(1) by linarith
    have enc: "b # bs = encode_remaining_loop (nat (uint b)) @ rest"
      using encode_loop_small [OF small] bb rest by (simp only: append.simps)
    have "(128::nat) ^ 1 \<le> 128 ^ (4 - k)" using Cons.prems(2) by (intro power_increasing) auto
    with small have lt: "nat (uint b) < 128 ^ (4 - k)" by (simp only: power_one_right)
    have "b = 0" if "nat (uint b) = 0"
    proof -
      have "uint b = 0" using that byte_bounds(1) [of b] by linarith
      then show ?thesis by (simp only: uint_0_iff)
    qed
    with last(2) have "k = 0 \<or> 0 < nat (uint b)" using neq0_conv by blast
    with enc lt len show ?thesis by blast
  qed
qed

section \<open>The first byte\<close>

text \<open>What MQTT allows in the first byte: the type in the upper nibble, the flags in the lower.\<close>

definition allowed_first_byte :: "int \<Rightarrow> int \<Rightarrow> bool" where
  "allowed_first_byte ty flags \<longleftrightarrow> 1 \<le> ty \<and> ty \<le> 14 \<and>
     (if ty = 6 \<or> ty = 8 \<or> ty = 10 then flags = 2
      else if ty = 3
      then flags div 2 mod 4 \<noteq> 3 \<and> \<not> (flags div 8 = 1 \<and> flags div 2 mod 4 = 0)
      else flags = 0)"

lemma uint_upper_nibble: "uint (drop_bit 4 (b::byte)) = uint b div 16"
  by (simp add: drop_bit_eq_div uint_div_distrib)

lemma uint_lower_nibble: "uint ((b::byte) AND 0x0f) = uint b mod 16"
proof -
  have "b AND 0x0f = take_bit 4 b" unfolding take_bit_eq_mask by (simp add: mask_eq_exp_minus_1)
  then have "uint (b AND 0x0f) = take_bit 4 (uint b)" by (simp only: unsigned_take_bit_eq)
  then show ?thesis by (simp add: take_bit_eq_mod)
qed

lemma nibble_cases:
  assumes "0 \<le> x" and "x < (16::int)"
  shows "x = 0 \<or> x = 1 \<or> x = 2 \<or> x = 3 \<or> x = 4 \<or> x = 5 \<or> x = 6 \<or> x = 7 \<or> x = 8 \<or>
    x = 9 \<or> x = 10 \<or> x = 11 \<or> x = 12 \<or> x = 13 \<or> x = 14 \<or> x = 15"
  using assms by presburger

lemma publish_flags:
  assumes "0 \<le> flags" and "flags < 16"
  shows "(flags AND 6 = 6 \<or> flags AND 14 = 8) \<longleftrightarrow>
      \<not> (flags div 2 mod 4 \<noteq> 3 \<and> \<not> (flags div 8 = 1 \<and> flags div 2 mod 4 = 0))"
    and "drop_bit 3 (flags AND 8) = flags div 8" and "drop_bit 1 (flags AND 6) = flags div 2 mod 4"
    and "flags AND 1 = flags mod (2::int)"
  using nibble_cases [OF assms] by (elim disjE; simp)+

lemma bad_flags_iff:
  assumes "0 \<le> flags" and "flags < 16"
  shows "1 \<le> ty \<and> ty \<le> 14 \<and> \<not> header_bad_flags ty flags \<longleftrightarrow> allowed_first_byte ty flags"
  by (auto simp: header_bad_flags_def allowed_first_byte_def publish_flags [OF assms])

lemma first_byte_decode:
  fixes b :: byte
  defines "ty \<equiv> uint b div 16" and "flags \<equiv> uint b mod 16"
  shows "if allowed_first_byte ty flags
    then \<exists>h. fixed_header_decode fixed_header_zero b = (h, DECODE_CONTINUE, NO_ERROR) \<and>
      header_at 0 0 h \<and> fh_type h = ty \<and>
      (ty = 3 \<longrightarrow> fh_dup h = flags div 8 \<and> fh_qos h = flags div 2 mod 4 \<and> fh_retain h = flags mod 2) \<and>
      (ty \<noteq> 3 \<longrightarrow> fh_dup h = 0 \<and> fh_qos h = 0 \<and> fh_retain h = 0)
    else \<exists>h. fixed_header_decode fixed_header_zero b =
      (h, DECODE_ERROR, if 1 \<le> ty \<and> ty \<le> 14 then ERROR_DECODE_FIXED_HEADER_INVALID_FLAGS
        else ERROR_DECODE_FIXED_HEADER_INVALID_TYPE)"
proof -
  have fl: "0 \<le> flags" "flags < 16" by (simp_all add: flags_def)
  have dec: "fixed_header_first_byte fixed_header_zero b =
     (if ty < TYPE_MIN \<or> ty > TYPE_MAX
      then (fixed_header_zero, DECODE_ERROR, ERROR_DECODE_FIXED_HEADER_INVALID_TYPE)
      else if header_bad_flags ty flags
      then (fixed_header_zero, DECODE_ERROR, ERROR_DECODE_FIXED_HEADER_INVALID_FLAGS)
      else
        (let header1 = fixed_header_zero\<lparr>fh_type := ty, fh_multiplier := 1, fh_accumulator := 0,
               fh_finished := False\<rparr>;
             header2 =
               (if ty = TYPE_PUBLISH
                then header1\<lparr>fh_dup := flags div 8, fh_qos := flags div 2 mod 4,
                       fh_retain := flags mod 2\<rparr>
                else header1\<lparr>fh_dup := 0, fh_qos := 0, fh_retain := 0\<rparr>)
         in (header2, DECODE_CONTINUE, NO_ERROR)))"
    unfolding fixed_header_first_byte_def uint_upper_nibble uint_lower_nibble Let_def
      ty_def [symmetric] flags_def [symmetric] publish_flags [OF fl] by (rule refl)
  show ?thesis
    unfolding bad_flags_iff [OF fl, symmetric]
    by (auto simp: fixed_header_decode_def dec header_at_def Let_def)
      (auto simp: fixed_header_zero_def)
qed

text \<open>A whole header: the first byte and the bytes of the remaining length.\<close>

lemma header_run_packet:
  assumes "fixed_header_decode fixed_header_zero b = (h1, DECODE_CONTINUE, e)"
    and "0 \<le> len" and "len \<le> 268435455"
  shows "\<exists>ls h'. encode_remaining_length len = Some ls \<and> 1 \<le> length ls \<and> length ls \<le> 4 \<and>
    header_run fixed_header_zero (b # ls @ rest) = (h', DECODE_FINISHED, rest) \<and>
    fh_remaining_length h' = len \<and> same_first_byte h1 h'"
proof -
  let ?ls = "encode_remaining_loop (nat len)"
  have at: "header_at 0 0 h1"
    using first_byte_decode [of b] assms(1) by (auto split: if_splits)
  have lt: "nat len < 128 ^ (4 - 0)" using assms(2,3) by simp
  obtain h' where h': "header_run h1 (?ls @ rest) = (h', DECODE_FINISHED, rest)"
      "fh_remaining_length h' = 0 + int (nat len) * 128 ^ 0" "same_first_byte h1 h'"
    using header_run_encoded [OF at _ lt, of rest] by auto
  have "encode_remaining_length len = Some ?ls"
    using assms(2,3) by (simp add: encode_remaining_length_def)
  moreover have "1 \<le> length ?ls" using encode_loop_not_Nil [of "nat len"] by (simp add: Suc_leI)
  moreover have "length ?ls \<le> 4" using length_encode_loop [of "nat len" 4] lt by simp
  moreover have "header_run fixed_header_zero (b # ?ls @ rest) = (h', DECODE_FINISHED, rest)"
    by (simp add: assms(1) h'(1))
  ultimately show ?thesis using h'(2,3) assms(2) by auto
qed

lemma encode_remaining_length_ok:
  assumes "0 \<le> len" and "len \<le> 268435455"
  obtains ls where "encode_remaining_length len = Some ls" and "1 \<le> length ls" and "length ls \<le> 4"
proof -
  have "nat len < 128 ^ 4" using assms by simp
  then have "length (encode_remaining_loop (nat len)) \<le> 4" by (rule length_encode_loop) simp
  moreover have "1 \<le> length (encode_remaining_loop (nat len))"
    using encode_loop_not_Nil [of "nat len"] by (simp add: Suc_leI)
  ultimately show ?thesis using that assms by (simp add: encode_remaining_length_def)
qed

section \<open>Properties\<close>



text \<open>
  C24. The decoder is strict: a header is finished only after the canonical encoding of the
  length it reports. Padded encodings, a fifth length byte and lengths that the encoder could
  not produce are all rejected.
\<close>

theorem header_canonical:
  assumes "header_run fixed_header_zero (b # bs) = (h', DECODE_FINISHED, rest)"
  shows "\<exists>ls. encode_remaining_length (fh_remaining_length h') = Some ls \<and> bs = ls @ rest"
proof -
  obtain h1 e where h1: "fixed_header_decode fixed_header_zero b = (h1, DECODE_CONTINUE, e)"
    and run: "header_run h1 bs = (h', DECODE_FINISHED, rest)"
    using assms first_byte_decode [of b] by (auto split: if_splits)
  have at: "header_at 0 0 h1"
    using first_byte_decode [of b] h1 by (auto split: if_splits)
  obtain n where n: "bs = encode_remaining_loop n @ rest" "n < 128 ^ (4 - 0)"
      "fh_remaining_length h' = 0 + int n * 128 ^ 0"
    using header_run_decoded [OF at _ run] by auto
  then have "encode_remaining_length (fh_remaining_length h') = Some (encode_remaining_loop n)"
    by (simp add: encode_remaining_length_def)
  with n(1) show ?thesis by simp
qed

theorem header_canonical_witness:
  "\<exists>ls h'. header_run fixed_header_zero [0xD0, 0, 9] = (h', DECODE_FINISHED, [9]) \<and>
     encode_remaining_length (fh_remaining_length h') = Some ls \<and> [0, 9] = ls @ [9]"
proof -
  obtain h' where "header_run fixed_header_zero [0xD0, 0, 9] = (h', DECODE_FINISHED, [9])"
    by (simp add: fixed_header_decode_def fixed_header_zero_def fixed_header_first_byte_def
        fixed_header_length_byte_def header_bad_flags_def Let_def)
  from this header_canonical [OF this] show ?thesis by blast
qed

text \<open>
  The first byte is accepted exactly when MQTT 3.1.1 allows its type and flags; it then
  yields the type and, for a PUBLISH, the duplicate flag, the quality of service (never 3, and
  never 0 with the duplicate flag) and the retain flag; otherwise the error says which nibble
  is wrong.
\<close>

theorem header_first_byte:
  fixes b :: byte
  defines "ty \<equiv> uint b div 16" and "flags \<equiv> uint b mod 16"
  shows "if allowed_first_byte ty flags
    then \<exists>h. fixed_header_decode fixed_header_zero b = (h, DECODE_CONTINUE, NO_ERROR) \<and>
      fh_type h = ty \<and> fh_qos h \<noteq> 3 \<and> (fh_dup h = 1 \<longrightarrow> fh_qos h \<noteq> 0) \<and>
      fh_dup h = (if ty = 3 then flags div 8 else 0) \<and>
      fh_qos h = (if ty = 3 then flags div 2 mod 4 else 0) \<and>
      fh_retain h = (if ty = 3 then flags mod 2 else 0)
    else \<exists>h. fixed_header_decode fixed_header_zero b =
      (h, DECODE_ERROR, if 1 \<le> ty \<and> ty \<le> 14 then ERROR_DECODE_FIXED_HEADER_INVALID_FLAGS
        else ERROR_DECODE_FIXED_HEADER_INVALID_TYPE)"
  using first_byte_decode [of b, folded ty_def flags_def]
  by (auto simp: allowed_first_byte_def split: if_splits)

theorem header_first_byte_witness:
  "\<exists>h. fixed_header_decode fixed_header_zero 0x3B = (h, DECODE_CONTINUE, NO_ERROR) \<and>
     fh_type h = 3 \<and> fh_dup h = 1 \<and> fh_qos h = 1 \<and> fh_retain h = 1"
  using header_first_byte [of "0x3B"] by (auto simp: allowed_first_byte_def)


end
