(* ===== verification/Mqtt_Objects.thy ===== *)
theory Mqtt_Objects
  imports Core_Types
begin

text \<open>
  The objects the user hands to the library (\<open>lmqtt_connect_t\<close>, \<open>lmqtt_subscribe_t\<close>,
  \<open>lmqtt_publish_t\<close> of \<open>include/lightmqtt/packet.h\<close>), the heap they live in, and their
  validation in \<open>src/lmqtt_packet.c\<close>.

  A request in a store holds the address of its object. Following a null or dangling
  pointer, or one to an object of another type, has no defined result.
\<close>

section \<open>The records\<close>

record connect =
  cn_keep_alive :: ushort
  cn_clean_session :: byte
  cn_will_qos :: qos
  cn_will_retain :: byte
  cn_client_id :: lstring
  cn_will_topic :: lstring
  cn_will_message :: lstring
  cn_user_name :: lstring
  cn_password :: lstring
  cn_session_present :: byte

record subscription =
  sn_requested_qos :: qos
  sn_topic :: lstring
  sn_return_code :: byte

text \<open>\<open>subscriptions\<close> points to an array or is null; \<open>current\<close> points to one of its elements.\<close>

record subscribe =
  sb_count :: int
  sb_subscriptions :: "subscription list option"
  sb_current :: "nat option"

record publish =
  pb_qos :: qos
  pb_retain :: byte
  pb_topic :: lstring
  pb_payload :: lstring
  pb_encode_count :: int

definition publish_zero :: publish where
  "publish_zero = \<lparr>pb_qos = 0, pb_retain = 0, pb_topic = lstring_zero,
     pb_payload = lstring_zero, pb_encode_count = 0\<rparr>"

section \<open>The heap\<close>

datatype obj = OConnect connect | OSubscribe subscribe | OPublish publish

type_synonym heap = "addr \<Rightarrow> obj option"

text \<open>Following the \<open>void *\<close> of a request as a pointer to one of the three types.\<close>

definition get_connect :: "heap \<Rightarrow> addr option \<Rightarrow> (addr \<times> connect) option" where
  "get_connect hp p =
     do { a \<leftarrow> p; ob \<leftarrow> hp a; case ob of OConnect c \<Rightarrow> Some (a, c) | _ \<Rightarrow> None }"

definition get_subscribe :: "heap \<Rightarrow> addr option \<Rightarrow> (addr \<times> subscribe) option" where
  "get_subscribe hp p =
     do { a \<leftarrow> p; ob \<leftarrow> hp a; case ob of OSubscribe s \<Rightarrow> Some (a, s) | _ \<Rightarrow> None }"

definition get_publish :: "heap \<Rightarrow> addr option \<Rightarrow> (addr \<times> publish) option" where
  "get_publish hp p =
     do { a \<leftarrow> p; ob \<leftarrow> hp a; case ob of OPublish m \<Rightarrow> Some (a, m) | _ \<Rightarrow> None }"

lemma get_connect_Some [simp]:
  "get_connect hp p = Some (a, c) \<longleftrightarrow> p = Some a \<and> hp a = Some (OConnect c)"
  by (auto simp: get_connect_def split: Option.bind_splits obj.splits)

lemma get_subscribe_Some [simp]:
  "get_subscribe hp p = Some (a, s) \<longleftrightarrow> p = Some a \<and> hp a = Some (OSubscribe s)"
  by (auto simp: get_subscribe_def split: Option.bind_splits obj.splits)

lemma get_publish_Some [simp]:
  "get_publish hp p = Some (a, m) \<longleftrightarrow> p = Some a \<and> hp a = Some (OPublish m)"
  by (auto simp: get_publish_def split: Option.bind_splits obj.splits)

lemmas get_iffs = get_connect_Some get_subscribe_Some get_publish_Some

text \<open>Where a \<open>lmqtt_string_t *\<close> can point: a field of a user object, or of the PUBLISH under
  reception in the receive buffer.\<close>

datatype string_field =
    FIELD_CLIENT_ID | FIELD_WILL_TOPIC | FIELD_WILL_MESSAGE | FIELD_USER_NAME | FIELD_PASSWORD
  | FIELD_TOPIC | FIELD_PAYLOAD | FIELD_SUBSCRIPTION nat

datatype str_ref = HEAP_STR addr string_field | RX_STR string_field

section \<open>Lengths\<close>

abbreviation STRING_LEN_SIZE :: int where "STRING_LEN_SIZE \<equiv> 2"
abbreviation PACKET_ID_SIZE :: int where "PACKET_ID_SIZE \<equiv> 2"
abbreviation CONNECT_HEADER_SIZE :: int where "CONNECT_HEADER_SIZE \<equiv> 10"

definition string_calc_field_length :: "lstring \<Rightarrow> int" where
  "string_calc_field_length str = (if str_len str > 0 then 2 + str_len str else 0)"

definition string_validate_field_length :: "lstring \<Rightarrow> bool" where
  "string_validate_field_length str \<longleftrightarrow> str_len str \<ge> 0 \<and> str_len str \<le> 0xffff"

definition connect_calc_remaining_length :: "connect \<Rightarrow> int" where
  "connect_calc_remaining_length c =
     10 + 2 + str_len (cn_client_id c) +
     string_calc_field_length (cn_will_topic c) +
     string_calc_field_length (cn_will_message c) +
     string_calc_field_length (cn_user_name c) +
     string_calc_field_length (cn_password c)"

text \<open>The loop over the subscriptions: \<open>n\<close> rounds are left, \<open>i\<close> is the index.\<close>

fun subscribe_calc_loop :: "nat \<Rightarrow> subscription list option \<Rightarrow> bool \<Rightarrow> nat \<Rightarrow> int \<Rightarrow> int option" where
  "subscribe_calc_loop 0 subs include_qos i result = Some result"
| "subscribe_calc_loop (Suc n) subs include_qos i result =
     do {
       xs \<leftarrow> subs;
       sub \<leftarrow> arr_get xs i;
       subscribe_calc_loop n subs include_qos (Suc i)
         (result + (str_len (sn_topic sub) + 2 + (if include_qos then 1 else 0)))
     }"

definition subscribe_calc_remaining_length :: "subscribe \<Rightarrow> bool \<Rightarrow> int option" where
  "subscribe_calc_remaining_length s include_qos =
     subscribe_calc_loop (nat (sb_count s)) (sb_subscriptions s) include_qos 0 2"

definition publish_calc_remaining_length :: "publish \<Rightarrow> int" where
  "publish_calc_remaining_length m =
     2 + str_len (pb_topic m) + (if pb_qos m = QOS_0 then 0 else 2) + str_len (pb_payload m)"

section \<open>Validation\<close>

definition lmqtt_connect_validate :: "connect \<Rightarrow> bool" where
  "lmqtt_connect_validate c =
     (if \<not> string_validate_field_length (cn_client_id c) \<or>
         \<not> string_validate_field_length (cn_will_topic c) \<or>
         \<not> string_validate_field_length (cn_will_message c) \<or>
         \<not> string_validate_field_length (cn_user_name c) \<or>
         \<not> string_validate_field_length (cn_password c) then False
      else if (str_len (cn_will_topic c) = 0) \<noteq> (str_len (cn_will_message c) = 0) then False
      else if str_len (cn_will_topic c) = 0 \<and> cn_will_retain c \<noteq> 0 then False
      else if str_len (cn_client_id c) = 0 \<and> cn_clean_session c = 0 then False
      else if str_len (cn_user_name c) = 0 \<and> str_len (cn_password c) \<noteq> 0 then False
      else if \<not> is_valid_qos (cn_will_qos c) then False
      else True)"

fun subscribe_validate_loop :: "nat \<Rightarrow> subscription list \<Rightarrow> nat \<Rightarrow> bool option" where
  "subscribe_validate_loop 0 subs i = Some True"
| "subscribe_validate_loop (Suc n) subs i =
     do {
       sub \<leftarrow> arr_get subs i;
       if \<not> string_validate_field_length (sn_topic sub) then Some False
       else if str_len (sn_topic sub) = 0 \<or> \<not> is_valid_qos (sn_requested_qos sub) then Some False
       else subscribe_validate_loop n subs (Suc i)
     }"

definition lmqtt_subscribe_validate :: "subscribe \<Rightarrow> bool option" where
  "lmqtt_subscribe_validate s =
     (case sb_subscriptions s of
        None \<Rightarrow> Some False
      | Some subs \<Rightarrow>
          if sb_count s = 0 then Some False
          else subscribe_validate_loop (nat (sb_count s)) subs 0)"

definition lmqtt_publish_validate :: "publish \<Rightarrow> bool" where
  "lmqtt_publish_validate m \<longleftrightarrow> string_validate_field_length (pb_topic m) \<and>
     str_len (pb_topic m) > 0 \<and> is_valid_qos (pb_qos m) \<and>
     publish_calc_remaining_length m \<le> 0xfffffff"

section \<open>What validation means\<close>

definition valid_subscription :: "subscription \<Rightarrow> bool" where
  "valid_subscription sub \<longleftrightarrow> 0 < str_len (sn_topic sub) \<and> str_len (sn_topic sub) \<le> 65535 \<and>
     0 \<le> sn_requested_qos sub \<and> sn_requested_qos sub \<le> 2"

lemma subscribe_validate_loop_eq:
  "i + n \<le> length subs \<Longrightarrow>
     subscribe_validate_loop n subs i = Some (\<forall>sub \<in> set (take n (drop i subs)). valid_subscription sub)"
proof (induction n arbitrary: i)
  case 0
  then show ?case by simp
next
  case (Suc n)
  then have "take (Suc n) (drop i subs) = subs ! i # take n (drop (Suc i) subs)"
    by (simp add: Cons_nth_drop_Suc [symmetric])
  then show ?case
    using Suc by (auto simp: arr_simps valid_subscription_def string_validate_field_length_def
        is_valid_qos_def)
qed

lemma subscribe_validate_spec:
  assumes "sb_subscriptions s = Some subs" and "sb_count s = int (length subs)"
  shows "lmqtt_subscribe_validate s =
    Some (subs \<noteq> [] \<and> (\<forall>sub \<in> set subs. valid_subscription sub))"
  using assms subscribe_validate_loop_eq [of 0 "length subs" subs]
  by (auto simp: lmqtt_subscribe_validate_def)

lemma subscribe_calc_loop_eq:
  "i + n \<le> length subs \<Longrightarrow>
     subscribe_calc_loop n (Some subs) q i r =
       Some (r + (\<Sum>sub \<leftarrow> take n (drop i subs). str_len (sn_topic sub) + 2 + (if q then 1 else 0)))"
proof (induction n arbitrary: i r)
  case 0
  then show ?case by simp
next
  case (Suc n)
  then have "take (Suc n) (drop i subs) = subs ! i # take n (drop (Suc i) subs)"
    by (simp add: Cons_nth_drop_Suc [symmetric])
  then show ?case
    using Suc by (simp add: arr_simps algebra_simps)
qed

lemma subscribe_calc_spec:
  assumes "sb_subscriptions s = Some subs" and "sb_count s = int (length subs)"
  shows "subscribe_calc_remaining_length s q =
    Some (2 + (\<Sum>sub \<leftarrow> subs. str_len (sn_topic sub) + 2 + (if q then 1 else 0)))"
  using assms subscribe_calc_loop_eq [of 0 "length subs" subs q 2]
  by (simp add: subscribe_calc_remaining_length_def)

lemma publish_validate_bounds:
  "lmqtt_publish_validate m \<Longrightarrow> 0 \<le> str_len (pb_payload m) \<Longrightarrow>
     0 \<le> publish_calc_remaining_length m \<and> publish_calc_remaining_length m \<le> 268435455"
  by (auto simp: lmqtt_publish_validate_def publish_calc_remaining_length_def)

lemma connect_calc_bounds:
  assumes "lmqtt_connect_validate c"
  shows "12 \<le> connect_calc_remaining_length c \<and> connect_calc_remaining_length c \<le> 327695"
  using assms by (auto simp: lmqtt_connect_validate_def connect_calc_remaining_length_def
      string_validate_field_length_def string_calc_field_length_def split: if_splits)

end
