(* ===== verification/Encoding.thy ===== *)
theory Encoding
  imports Packet_Store Fixed_Header Mqtt_Objects
begin

text \<open>
  The encoders of \<open>src/lmqtt_packet.c\<close>: the small staging buffer for headers
  (\<open>lmqtt_encode_buffer_t\<close>), the movement of strings to and from user buffers or user
  callbacks (\<open>string_move\<close>), \<open>string_encode\<close>, and the functions that build and emit
  each part of an outgoing packet.

  An encoder of the code writes to \<open>buf\<close>, a region of \<open>buf_len\<close> bytes, and reports how
  many it wrote. The model returns the bytes it wrote.
\<close>

section \<open>User callbacks of strings\<close>

text \<open>
  \<open>lmqtt_io_callback_t\<close>: code of the user that fills a buffer, or takes bytes out of one, and
  returns a result code, the bytes moved (their number for a writer) and an error number. It
  acts on the state \<open>'w\<close> of the outside world. Function pointers are looked up in
  this environment and called with the string's \<open>data\<close>.
\<close>

record 'w io_env =
  cb_read :: "fnptr \<Rightarrow> nat \<Rightarrow> nat \<Rightarrow> 'w \<Rightarrow> io_result \<times> byte list \<times> int \<times> 'w"
  cb_write :: "fnptr \<Rightarrow> nat \<Rightarrow> byte list \<Rightarrow> 'w \<Rightarrow> io_result \<times> nat \<times> int \<times> 'w"

section \<open>The staging buffer\<close>

record encode_buffer =
  eb_encoded :: bool
  eb_buf_len :: nat
  eb_buf :: "byte list"
  eb_blocking_str :: "str_ref option"
  eb_error :: lmqtt_error
  eb_os_error :: int

definition encode_buffer_zero :: encode_buffer where
  "encode_buffer_zero = \<lparr>eb_encoded = False, eb_buf_len = 0, eb_buf = replicate 16 0,
     eb_blocking_str = None, eb_error = NO_ERROR, eb_os_error = 0\<rparr>"

type_synonym builder = "store_value \<Rightarrow> heap \<Rightarrow> encode_buffer \<Rightarrow> encode_buffer option"

definition encode_buffer_encode ::
    "encode_buffer \<Rightarrow> store_value \<Rightarrow> builder \<Rightarrow> nat \<Rightarrow> nat \<Rightarrow> heap \<Rightarrow>
       (encode_result \<times> byte list \<times> encode_buffer) option" where
  "encode_buffer_encode eb value builder offset buf_len hp =
     do {
       eb1 \<leftarrow> (if \<not> eb_encoded eb
              then do { b \<leftarrow> builder value hp eb; Some (b\<lparr>eb_encoded := True\<rparr>) }
              else Some eb);
       c_assert (eb_buf_len eb1 > 0 \<and> offset < eb_buf_len eb1);
       let cnt = eb_buf_len eb1 - offset;
       let (cnt, result) =
         (if cnt > buf_len then (buf_len, ENCODE_CONTINUE) else (cnt, ENCODE_FINISHED));
       out \<leftarrow> arr_slice (eb_buf eb1) offset cnt;
       Some (result, out, if result = ENCODE_FINISHED then encode_buffer_zero else eb1)
     }"

definition encode_buffer_encode_packet_id ::
    "encode_buffer \<Rightarrow> int \<Rightarrow> int \<Rightarrow> packet_id \<Rightarrow> encode_buffer option" where
  "encode_buffer_encode_packet_id eb ty remaining_length pid =
     do {
       ls \<leftarrow> encode_remaining_length remaining_length;
       buf1 \<leftarrow> arr_write (eb_buf eb) 1 ls;
       let v = length ls;
       c_assert (length buf1 \<ge> v + 2 + 1);
       buf2 \<leftarrow> arr_set buf1 0 (word_of_int ty);
       buf3 \<leftarrow> arr_set buf2 (v + 0 + 1) (string_len_byte (uint pid) 1);
       buf4 \<leftarrow> arr_set buf3 (v + 1 + 1) (string_len_byte (uint pid) 0);
       Some (eb\<lparr>eb_buf := buf4, eb_buf_len := v + 2 + 1\<rparr>)
     }"

section \<open>Moving strings\<close>

text \<open>
  \<open>string_move\<close> with its two uses. The callback has already been applied to the buffer it
  reads or fills; \<open>copy\<close> is the \<open>memcpy\<close> between that buffer and the string's own.
  \<open>'r\<close> is what has been moved: bytes for a read, a count for a write.
\<close>

definition string_move ::
    "lstring \<Rightarrow> nat \<Rightarrow> ('w \<Rightarrow> io_result \<times> 'r \<times> int \<times> 'w) option \<Rightarrow> 'r \<Rightarrow>
       (byte list \<Rightarrow> ('r \<times> byte list) option) \<Rightarrow> 'w \<Rightarrow>
       (string_result \<times> 'r \<times> int \<times> lstring \<times> 'w) option" where
  "string_move str buf_len callback nothing copy w =
     (if callback \<noteq> None \<and> str_buf str \<noteq> None
      then Some (STRING_INVALID_OBJECT, nothing, 0, str, w)
      else if buf_len = 0 then Some (STRING_SUCCESS, nothing, 0, str, w)
      else (case callback of
          Some call \<Rightarrow>
            (let (res, moved, os_error, w') = call w
             in Some (case res of IO_SUCCESS \<Rightarrow> STRING_SUCCESS | IO_WOULD_BLOCK \<Rightarrow> STRING_WOULD_BLOCK
                        | IO_ERROR \<Rightarrow> STRING_OS_ERROR, moved, os_error, str, w'))
        | None \<Rightarrow>
            (case str_buf str of
               Some b \<Rightarrow> do {
                 c_assert (str_pos str + int buf_len \<le> str_len str);
                 (moved, b') \<leftarrow> copy b;
                 Some (STRING_SUCCESS, moved, 0,
                   str\<lparr>str_buf := Some b', str_pos := str_pos str + int buf_len\<rparr>, w)
               }
             | None \<Rightarrow> Some (STRING_INVALID_OBJECT, nothing, 0, str, w))))"

text \<open>A reader that reports more bytes than it was given room for has overrun the buffer.\<close>

definition string_read ::
    "'w io_env \<Rightarrow> lstring \<Rightarrow> nat \<Rightarrow> 'w \<Rightarrow> (string_result \<times> byte list \<times> int \<times> lstring \<times> 'w) option"
  where
  "string_read io str buf_len w =
     do {
       (res, bytes, os_error, str', w') \<leftarrow> string_move str buf_len
         (case str_read str of None \<Rightarrow> None | Some f \<Rightarrow> Some (cb_read io f (str_data str) buf_len))
         []
         (\<lambda>b. if str_pos str < 0 then None
              else do { out \<leftarrow> arr_slice b (nat (str_pos str)) buf_len; Some (out, b) }) w;
       c_assert (length bytes \<le> buf_len);
       Some (res, bytes, os_error, str', w')
     }"

definition string_write ::
    "'w io_env \<Rightarrow> lstring \<Rightarrow> byte list \<Rightarrow> 'w \<Rightarrow> (string_result \<times> nat \<times> int \<times> lstring \<times> 'w) option"
  where
  "string_write io str bytes w =
     string_move str (length bytes)
       (case str_write str of None \<Rightarrow> None | Some f \<Rightarrow> Some (cb_write io f (str_data str) bytes))
       0
       (\<lambda>b. if str_pos str < 0 then None
            else do { b' \<leftarrow> arr_write b (nat (str_pos str)) bytes; Some (length bytes, b') }) w"

section \<open>Encoding a string\<close>

text \<open>
  The loop that writes the two length bytes. It ends early (\<open>Inl\<close>) when the output is full.
\<close>

fun string_len_loop ::
    "nat list \<Rightarrow> int \<Rightarrow> nat \<Rightarrow> nat \<Rightarrow> byte list \<Rightarrow> (encode_result \<times> byte list) + byte list" where
  "string_len_loop [] len offset buf_len out = Inr out"
| "string_len_loop (i # is) len offset buf_len out =
     (if offset \<le> i
      then
        (let out' = out @ [string_len_byte len (2 - i - 1)]
         in if length out' \<ge> buf_len
            then Inl (if length out' \<ge> 2 \<and> len = 0 then ENCODE_FINISHED else ENCODE_CONTINUE, out')
            else string_len_loop is len offset buf_len out')
      else string_len_loop is len offset buf_len out)"

definition string_encode ::
    "'w io_env \<Rightarrow> str_ref \<Rightarrow> lstring \<Rightarrow> bool \<Rightarrow> bool \<Rightarrow> nat \<Rightarrow> nat \<Rightarrow> encode_buffer \<Rightarrow> 'w \<Rightarrow>
       (encode_result \<times> byte list \<times> lstring \<times> encode_buffer \<times> 'w) option" where
  "string_encode io self str encode_len encode_if_empty offset buf_len eb w =
     (let eb1 = eb\<lparr>eb_blocking_str := None\<rparr>
      in if str_len str = 0 \<and> \<not> encode_if_empty then Some (ENCODE_FINISHED, [], str, eb1, w)
      else if buf_len = 0 then Some (ENCODE_CONTINUE, [], str, eb1, w)
      else do {
        c_assert (offset < size_of_long (str_len str + (if encode_len then 2 else 0)));
        case (if encode_len then string_len_loop [0, 1] (str_len str) offset buf_len [] else Inr [])
        of
          Inl (result, out) \<Rightarrow> Some (result, out, str, eb1, w)
        | Inr out \<Rightarrow> do {
            let pos = length out;
            let offset_str =
              (if encode_len then (if offset \<le> 2 then 0 else offset - 2) else offset);
            let remaining = str_len str - int offset_str;
            let len = (if remaining > int (buf_len - pos) then int (buf_len - pos) else remaining);
            let str1 = (if offset_str = 0 then str\<lparr>str_pos := 0\<rparr> else str);
            (read_res, bytes, os_error, str2, w') \<leftarrow> string_read io str1 (size_of_long len) w;
            c_assert (int (length bytes) \<le> remaining);
            let eb2 = eb1\<lparr>eb_os_error := os_error\<rparr>;
            Some (if read_res = STRING_WOULD_BLOCK
               then (ENCODE_WOULD_BLOCK, out @ bytes, str2, eb2\<lparr>eb_blocking_str := Some self\<rparr>, w')
               else if read_res = STRING_SUCCESS \<and> int (length bytes) \<ge> remaining
               then (ENCODE_FINISHED, out @ bytes, str2, eb2, w')
               else if read_res = STRING_SUCCESS \<and> length bytes > 0
               then (ENCODE_CONTINUE, out @ bytes, str2, eb2, w')
               else (ENCODE_ERROR, out @ bytes, str2, eb2\<lparr>eb_error := ERROR_ENCODE_STRING\<rparr>, w'))
          }
      })"

section \<open>Packets that are a header and an identifier\<close>

lemma encode_packet_id_spec:
  assumes "encode_remaining_length len = Some ls" and "length ls + 3 \<le> length (eb_buf eb)"
  shows "\<exists>buf. encode_buffer_encode_packet_id eb ty len pid =
      Some (eb\<lparr>eb_buf := buf, eb_buf_len := length ls + 3\<rparr>) \<and>
    take (length ls + 3) buf = word_of_int ty # ls @ be16 (uint pid) \<and>
    length buf = length (eb_buf eb)"
proof -
  obtain x ys p q zs where buf: "eb_buf eb = x # ys @ p # q # zs" "length ys = length ls"
    by (rule split_at_2 [of "length ls" "eb_buf eb"]) (use assms(2) in simp)
  have w: "arr_write (eb_buf eb) 1 ls = Some (x # ls @ p # q # zs)"
    using buf by (simp add: arr_simps)
  have "encode_buffer_encode_packet_id eb ty len pid =
      Some (eb\<lparr>eb_buf := word_of_int ty # ls @ be16 (uint pid) @ zs, eb_buf_len := length ls + 3\<rparr>)"
    using w buf by (simp add: encode_buffer_encode_packet_id_def assms(1) arr_simps be16_def Let_def
        list_update_append nth_append del: arr_iffs)
  then show ?thesis
    using buf by (intro exI [of _ "word_of_int ty # ls @ be16 (uint pid) @ zs"])
      (simp add: be16_def numeral_3_eq_3)
qed

end
