(* ===== verification/Packet_Encoders.thy ===== *)
theory Packet_Encoders
  imports Encoding
begin

text \<open>
  The parts of each outgoing packet, in \<open>src/lmqtt_packet.c\<close>: the functions that build a
  header in the staging buffer, and the encoders that emit one part of a packet, a header
  through \<open>encode_buffer_encode\<close> or a string through \<open>string_encode\<close>.
\<close>

section \<open>Encoders\<close>

text \<open>
  \<open>lmqtt_encoder_t\<close>. An encoder is given the room left in the output and returns the
  bytes it wrote there; it may change the staging buffer, the position of a string in the
  heap and, through a callback, the outside world.
\<close>

type_synonym 'w encoder =
  "'w io_env \<Rightarrow> store_value \<Rightarrow> encode_buffer \<Rightarrow> nat \<Rightarrow> nat \<Rightarrow> heap \<Rightarrow> 'w \<Rightarrow>
     (encode_result \<times> byte list \<times> encode_buffer \<times> heap \<times> 'w) option"

text \<open>The common body of the encoders that emit a header.\<close>

definition encode_built :: "builder \<Rightarrow> 'w encoder" where
  "encode_built builder io value eb offset buf_len hp w =
     do {
       (res, out, eb') \<leftarrow> encode_buffer_encode eb value builder offset buf_len hp;
       Some (res, out, eb', hp, w)
     }"

section \<open>CONNECT\<close>

definition connect_build_fixed_header :: builder where
  "connect_build_fixed_header value hp eb =
     do {
       (a, c) \<leftarrow> get_connect hp (sv_value value);
       c_assert (length (eb_buf eb) \<ge> 4 + 1);
       ls \<leftarrow> encode_remaining_length (connect_calc_remaining_length c);
       buf1 \<leftarrow> arr_write (eb_buf eb) 1 ls;
       buf2 \<leftarrow> arr_set buf1 0 (word_of_int (push_bit 4 TYPE_CONNECT));
       Some (eb\<lparr>eb_buf := buf2, eb_buf_len := 1 + length ls\<rparr>)
     }"

definition connect_encode_fixed_header :: "'w encoder" where
  "connect_encode_fixed_header = encode_built connect_build_fixed_header"

text \<open>The flags byte of the variable header.\<close>

definition connect_flags :: "connect \<Rightarrow> byte" where
  "connect_flags c =
     (let flags = word_of_int (push_bit 3 (cn_will_qos c));
          flags = (if cn_clean_session c \<noteq> 0 then flags OR 0x02 else flags);
          flags = (if cn_will_retain c \<noteq> 0 then flags OR 0x20 else flags);
          flags = (if str_len (cn_will_topic c) > 0 then flags OR 0x04 else flags);
          flags = (if str_len (cn_user_name c) > 0 then flags OR 0x80 else flags)
      in if str_len (cn_password c) > 0 then flags OR 0x40 else flags)"

definition connect_build_variable_header :: builder where
  "connect_build_variable_header value hp eb =
     do {
       (a, c) \<leftarrow> get_connect hp (sv_value value);
       c_assert (length (eb_buf eb) \<ge> 10);
       buf1 \<leftarrow> arr_write (eb_buf eb) 0 [0x00, 0x04, 0x4D, 0x51, 0x54, 0x54, 0x04];
       buf2 \<leftarrow> arr_set buf1 7 (connect_flags c);
       buf3 \<leftarrow> arr_set buf2 8 (string_len_byte (uint (cn_keep_alive c)) 1);
       buf4 \<leftarrow> arr_set buf3 9 (string_len_byte (uint (cn_keep_alive c)) 0);
       Some (eb\<lparr>eb_buf := buf4, eb_buf_len := 10\<rparr>)
     }"

definition connect_encode_variable_header :: "'w encoder" where
  "connect_encode_variable_header = encode_built connect_build_variable_header"

definition connect_encode_payload_client_id :: "'w encoder" where
  "connect_encode_payload_client_id io value eb offset buf_len hp w =
     do {
       (a, c) \<leftarrow> get_connect hp (sv_value value);
       (res, out, str, eb', w') \<leftarrow> string_encode io (HEAP_STR a FIELD_CLIENT_ID)
         (cn_client_id c) True True offset buf_len eb w;
       Some (res, out, eb', hp(a \<mapsto> OConnect (c\<lparr>cn_client_id := str\<rparr>)), w')
     }"

definition connect_encode_payload_will_topic :: "'w encoder" where
  "connect_encode_payload_will_topic io value eb offset buf_len hp w =
     do {
       (a, c) \<leftarrow> get_connect hp (sv_value value);
       (res, out, str, eb', w') \<leftarrow> string_encode io (HEAP_STR a FIELD_WILL_TOPIC)
         (cn_will_topic c) True False offset buf_len eb w;
       Some (res, out, eb', hp(a \<mapsto> OConnect (c\<lparr>cn_will_topic := str\<rparr>)), w')
     }"

definition connect_encode_payload_will_message :: "'w encoder" where
  "connect_encode_payload_will_message io value eb offset buf_len hp w =
     do {
       (a, c) \<leftarrow> get_connect hp (sv_value value);
       (res, out, str, eb', w') \<leftarrow> string_encode io (HEAP_STR a FIELD_WILL_MESSAGE)
         (cn_will_message c) True False offset buf_len eb w;
       Some (res, out, eb', hp(a \<mapsto> OConnect (c\<lparr>cn_will_message := str\<rparr>)), w')
     }"

definition connect_encode_payload_user_name :: "'w encoder" where
  "connect_encode_payload_user_name io value eb offset buf_len hp w =
     do {
       (a, c) \<leftarrow> get_connect hp (sv_value value);
       (res, out, str, eb', w') \<leftarrow> string_encode io (HEAP_STR a FIELD_USER_NAME)
         (cn_user_name c) True False offset buf_len eb w;
       Some (res, out, eb', hp(a \<mapsto> OConnect (c\<lparr>cn_user_name := str\<rparr>)), w')
     }"

definition connect_encode_payload_password :: "'w encoder" where
  "connect_encode_payload_password io value eb offset buf_len hp w =
     do {
       (a, c) \<leftarrow> get_connect hp (sv_value value);
       (res, out, str, eb', w') \<leftarrow> string_encode io (HEAP_STR a FIELD_PASSWORD)
         (cn_password c) True False offset buf_len eb w;
       Some (res, out, eb', hp(a \<mapsto> OConnect (c\<lparr>cn_password := str\<rparr>)), w')
     }"

section \<open>SUBSCRIBE and UNSUBSCRIBE\<close>

definition subscribe_build_header_subscribe :: builder where
  "subscribe_build_header_subscribe value hp eb =
     do {
       (a, s) \<leftarrow> get_subscribe hp (sv_value value);
       rem_len \<leftarrow> subscribe_calc_remaining_length s True;
       encode_buffer_encode_packet_id eb (push_bit 4 TYPE_SUBSCRIBE OR 0x02) rem_len
         (sv_packet_id value)
     }"

definition subscribe_encode_header_subscribe :: "'w encoder" where
  "subscribe_encode_header_subscribe = encode_built subscribe_build_header_subscribe"

definition subscribe_build_header_unsubscribe :: builder where
  "subscribe_build_header_unsubscribe value hp eb =
     do {
       (a, s) \<leftarrow> get_subscribe hp (sv_value value);
       rem_len \<leftarrow> subscribe_calc_remaining_length s False;
       encode_buffer_encode_packet_id eb (push_bit 4 TYPE_UNSUBSCRIBE OR 0x02) rem_len
         (sv_packet_id value)
     }"

definition subscribe_encode_header_unsubscribe :: "'w encoder" where
  "subscribe_encode_header_unsubscribe = encode_built subscribe_build_header_unsubscribe"

text \<open>Following \<open>subscribe->internal.current\<close>.\<close>

definition current_subscription :: "subscribe \<Rightarrow> (subscription list \<times> nat \<times> subscription) option"
  where
  "current_subscription s =
     do {
       subs \<leftarrow> sb_subscriptions s;
       i \<leftarrow> sb_current s;
       sub \<leftarrow> arr_get subs i;
       Some (subs, i, sub)
     }"

definition subscribe_encode_topic :: "'w encoder" where
  "subscribe_encode_topic io value eb offset buf_len hp w =
     do {
       (a, s) \<leftarrow> get_subscribe hp (sv_value value);
       (subs, i, sub) \<leftarrow> current_subscription s;
       (res, out, str, eb', w') \<leftarrow> string_encode io (HEAP_STR a (FIELD_SUBSCRIPTION i))
         (sn_topic sub) True True offset buf_len eb w;
       Some (res, out, eb',
         hp(a \<mapsto> OSubscribe (s\<lparr>sb_subscriptions := Some (subs[i := sub\<lparr>sn_topic := str\<rparr>])\<rparr>)), w')
     }"

definition subscribe_build_qos :: builder where
  "subscribe_build_qos value hp eb =
     do {
       (a, s) \<leftarrow> get_subscribe hp (sv_value value);
       (subs, i, sub) \<leftarrow> current_subscription s;
       buf1 \<leftarrow> arr_set (eb_buf eb) 0 (word_of_int (sn_requested_qos sub));
       Some (eb\<lparr>eb_buf := buf1, eb_buf_len := 1\<rparr>)
     }"

definition subscribe_encode_qos :: "'w encoder" where
  "subscribe_encode_qos = encode_built subscribe_build_qos"

section \<open>PUBLISH\<close>

definition publish_type_byte :: "publish \<Rightarrow> byte" where
  "publish_type_byte m =
     (let type = word_of_int (push_bit 4 TYPE_PUBLISH);
          type = type OR (if pb_retain m \<noteq> 0 then 0x01 else 0x00);
          type = type OR word_of_int (push_bit 1 (pb_qos m))
      in type OR (if pb_encode_count m > 0 then 0x08 else 0x00))"

definition publish_build_fixed_header :: builder where
  "publish_build_fixed_header value hp eb =
     do {
       (a, m) \<leftarrow> get_publish hp (sv_value value);
       c_assert (lmqtt_publish_validate m);
       ls \<leftarrow> encode_remaining_length (publish_calc_remaining_length m);
       buf1 \<leftarrow> arr_write (eb_buf eb) 1 ls;
       buf2 \<leftarrow> arr_set buf1 0 (publish_type_byte m);
       Some (eb\<lparr>eb_buf := buf2, eb_buf_len := 1 + length ls\<rparr>)
     }"

definition publish_encode_fixed_header :: "'w encoder" where
  "publish_encode_fixed_header = encode_built publish_build_fixed_header"

definition publish_encode_topic :: "'w encoder" where
  "publish_encode_topic io value eb offset buf_len hp w =
     do {
       (a, m) \<leftarrow> get_publish hp (sv_value value);
       (res, out, str, eb', w') \<leftarrow> string_encode io (HEAP_STR a FIELD_TOPIC)
         (pb_topic m) True True offset buf_len eb w;
       Some (res, out, eb', hp(a \<mapsto> OPublish (m\<lparr>pb_topic := str\<rparr>)), w')
     }"

definition publish_build_packet_id :: builder where
  "publish_build_packet_id value hp eb =
     do {
       buf1 \<leftarrow> arr_set (eb_buf eb) 0 (string_len_byte (uint (sv_packet_id value)) 1);
       buf2 \<leftarrow> arr_set buf1 1 (string_len_byte (uint (sv_packet_id value)) 0);
       Some (eb\<lparr>eb_buf := buf2, eb_buf_len := 2\<rparr>)
     }"

definition publish_encode_packet_id :: "'w encoder" where
  "publish_encode_packet_id = encode_built publish_build_packet_id"

definition publish_encode_payload :: "'w encoder" where
  "publish_encode_payload io value eb offset buf_len hp w =
     do {
       (a, m) \<leftarrow> get_publish hp (sv_value value);
       (res, out, str, eb', w') \<leftarrow> string_encode io (HEAP_STR a FIELD_PAYLOAD)
         (pb_payload m) False False offset buf_len eb w;
       Some (res, out, eb', hp(a \<mapsto> OPublish (m\<lparr>pb_payload := str\<rparr>)), w')
     }"

section \<open>PUBACK, PUBREC, PUBREL, PUBCOMP\<close>

definition puback_build :: builder where
  "puback_build value hp eb =
     encode_buffer_encode_packet_id eb (push_bit 4 TYPE_PUBACK) PACKET_ID_SIZE
       (sv_packet_id value)"

definition puback_encode_fixed_header :: "'w encoder" where
  "puback_encode_fixed_header = encode_built puback_build"

definition pubrec_build :: builder where
  "pubrec_build value hp eb =
     encode_buffer_encode_packet_id eb (push_bit 4 TYPE_PUBREC) PACKET_ID_SIZE
       (sv_packet_id value)"

definition pubrec_encode_fixed_header :: "'w encoder" where
  "pubrec_encode_fixed_header = encode_built pubrec_build"

definition pubrel_build :: builder where
  "pubrel_build value hp eb =
     encode_buffer_encode_packet_id eb (push_bit 4 TYPE_PUBREL OR 0x02) PACKET_ID_SIZE
       (sv_packet_id value)"

definition pubrel_encode_fixed_header :: "'w encoder" where
  "pubrel_encode_fixed_header = encode_built pubrel_build"

definition pubcomp_build :: builder where
  "pubcomp_build value hp eb =
     encode_buffer_encode_packet_id eb (push_bit 4 TYPE_PUBCOMP) PACKET_ID_SIZE
       (sv_packet_id value)"

definition pubcomp_encode_fixed_header :: "'w encoder" where
  "pubcomp_encode_fixed_header = encode_built pubcomp_build"

section \<open>PINGREQ and DISCONNECT\<close>

definition pingreq_build :: builder where
  "pingreq_build value hp eb =
     do {
       c_assert (length (eb_buf eb) \<ge> 2);
       buf1 \<leftarrow> arr_set (eb_buf eb) 0 (word_of_int (push_bit 4 TYPE_PINGREQ));
       buf2 \<leftarrow> arr_set buf1 1 0;
       Some (eb\<lparr>eb_buf := buf2, eb_buf_len := 2\<rparr>)
     }"

definition pingreq_encode_fixed_header :: "'w encoder" where
  "pingreq_encode_fixed_header = encode_built pingreq_build"

definition disconnect_build :: builder where
  "disconnect_build value hp eb =
     do {
       c_assert (length (eb_buf eb) \<ge> 2);
       buf1 \<leftarrow> arr_set (eb_buf eb) 0 (word_of_int (push_bit 4 TYPE_DISCONNECT));
       buf2 \<leftarrow> arr_set buf1 1 0;
       Some (eb\<lparr>eb_buf := buf2, eb_buf_len := 2\<rparr>)
     }"

definition disconnect_encode_fixed_header :: "'w encoder" where
  "disconnect_encode_fixed_header = encode_built disconnect_build"

end
