(* ===== verification/Client_State.thy ===== *)
theory Client_State
  imports Packet_Store Id_Set Fixed_Header Packet_Encoders
begin

text \<open>
  The state of a client: the structs \<open>lmqtt_rx_buffer_t\<close>, \<open>lmqtt_tx_buffer_t\<close>,
  \<open>lmqtt_message_callbacks_t\<close> (\<open>packet.h\<close>) and \<open>lmqtt_client_t\<close> (\<open>client.h\<close>), and the
  environment: everything the library calls and does not contain.

  The code passes pointers into one client around: the receive and the transmit buffer reach
  the stores of the client they are embedded in, callbacks reach the client through
  \<open>callback_data\<close>. The model has one state, the client together with the user's heap and the
  outside world (\<open>'w sys\<close>), which every operation takes and returns.
\<close>

section \<open>The receive buffer\<close>

text \<open>The nine decoder tables \<open>rx_buffer_decoder_*\<close>, by name.\<close>

datatype decoder =
    DECODER_CONNACK | DECODER_PUBLISH | DECODER_PUBACK | DECODER_PUBREC | DECODER_PUBREL
  | DECODER_PUBCOMP | DECODER_SUBACK | DECODER_UNSUBACK | DECODER_PINGRESP

text \<open>The client owns two stores; a \<open>lmqtt_store_t *\<close> points to one of them.\<close>

datatype store_ref = MAIN_STORE | CONNECT_STORE

record rx_internal =
  ri_header :: fixed_header
  ri_header_finished :: bool
  ri_decoder :: "decoder option"
  ri_remain_buf_pos :: int
  ri_topic_len :: ushort
  ri_packet_id :: packet_id
  ri_value :: store_value
  ri_publish :: publish
  ri_ignore_publish :: bool
  ri_blocking_str :: "str_ref option"
  ri_error :: lmqtt_error
  ri_os_error :: int

definition rx_internal_zero :: rx_internal where
  "rx_internal_zero = \<lparr>ri_header = fixed_header_zero, ri_header_finished = False,
     ri_decoder = None, ri_remain_buf_pos = 0, ri_topic_len = 0, ri_packet_id = 0,
     ri_value = store_value_zero, ri_publish = publish_zero, ri_ignore_publish = False,
     ri_blocking_str = None, ri_error = NO_ERROR, ri_os_error = 0\<rparr>"

record rx_buffer =
  rx_store :: store_ref
  rx_id_set :: id_set
  rx_internal :: rx_internal

section \<open>The transmit buffer\<close>

record tx_internal =
  ti_pos :: nat
  ti_offset :: nat
  ti_buffer :: encode_buffer
  ti_error :: lmqtt_error
  ti_os_error :: int

definition tx_internal_zero :: tx_internal where
  "tx_internal_zero = \<lparr>ti_pos = 0, ti_offset = 0, ti_buffer = encode_buffer_zero,
     ti_error = NO_ERROR, ti_os_error = 0\<rparr>"

record tx_buffer =
  tx_store :: store_ref
  tx_closed :: bool
  tx_internal :: tx_internal

section \<open>The client\<close>

record message_callbacks =
  mc_on_publish :: "fnptr option"
  mc_on_publish_allocate_topic :: "fnptr option"
  mc_on_publish_allocate_payload :: "fnptr option"
  mc_on_publish_deallocate :: "fnptr option"
  mc_on_publish_data :: nat

text \<open>
  The function pointers of \<open>client->internal\<close>: each is null, the real operation or the
  \<open>_fail\<close> version that always returns 0.
\<close>

datatype op_ptr = OP_NULL | OP_DO | OP_FAIL

record client =
  cl_on_connect :: "fnptr option"
  cl_on_connect_data :: nat
  cl_on_subscribe :: "fnptr option"
  cl_on_subscribe_data :: nat
  cl_on_unsubscribe :: "fnptr option"
  cl_on_unsubscribe_data :: nat
  cl_on_publish :: "fnptr option"
  cl_on_publish_data :: nat
  cl_closed :: bool
  cl_clean_session :: int
  cl_rx :: rx_buffer
  cl_tx :: tx_buffer
  cl_read_buf :: "byte list"
  cl_read_buf_pos :: nat
  cl_read_buf_capacity :: nat
  cl_write_buf :: "byte list"
  cl_write_buf_pos :: nat
  cl_write_buf_capacity :: nat
  cl_main_store :: store
  cl_connect_store :: store
  cl_current_store :: store_ref
  cl_message_callbacks :: message_callbacks
  cl_error :: lmqtt_error
  cl_os_error :: int
  cl_op_connect :: op_ptr
  cl_op_subscribe :: op_ptr
  cl_op_unsubscribe :: op_ptr
  cl_op_publish :: op_ptr
  cl_op_pingreq :: op_ptr
  cl_op_disconnect :: op_ptr

record 'w sys = client +
  sy_heap :: heap
  sy_world :: 'w

section \<open>The environment\<close>

text \<open>
  What the library calls: the string callbacks (\<open>en_io\<close>), the clock, the connection
  (\<open>client->callbacks\<close>), and the callbacks of the user, by function pointer. The last ones
  run on the whole state, because user code may call the library again; they may also fail
  to return (\<open>None\<close>). The flag of \<open>en_on_connect\<close>, \<open>en_on_subscribe\<close>,
  \<open>en_on_unsubscribe\<close> and \<open>en_on_publish\<close> is the \<open>succeeded\<close> argument. The
  message callbacks get the PUBLISH under reception: \<open>en_message\<close> finds it in the state,
  the allocation callbacks receive and return it.
\<close>

record 'w env =
  en_io :: "'w io_env"
  en_get_time :: "'w get_time"
  en_net_read :: "nat \<Rightarrow> 'w \<Rightarrow> io_result \<times> byte list \<times> int \<times> 'w"
  en_net_write :: "byte list \<Rightarrow> 'w \<Rightarrow> io_result \<times> nat \<times> int \<times> 'w"
  en_on_connect :: "fnptr \<Rightarrow> nat \<Rightarrow> addr option \<Rightarrow> bool \<Rightarrow> 'w sys \<Rightarrow> (bool \<times> 'w sys) option"
  en_on_subscribe :: "fnptr \<Rightarrow> nat \<Rightarrow> addr option \<Rightarrow> bool \<Rightarrow> 'w sys \<Rightarrow> (bool \<times> 'w sys) option"
  en_on_unsubscribe :: "fnptr \<Rightarrow> nat \<Rightarrow> addr option \<Rightarrow> bool \<Rightarrow> 'w sys \<Rightarrow> (bool \<times> 'w sys) option"
  en_on_publish :: "fnptr \<Rightarrow> nat \<Rightarrow> addr option \<Rightarrow> bool \<Rightarrow> 'w sys \<Rightarrow> (bool \<times> 'w sys) option"
  en_message :: "fnptr \<Rightarrow> nat \<Rightarrow> 'w sys \<Rightarrow> (bool \<times> 'w sys) option"
  en_allocate :: "fnptr \<Rightarrow> nat \<Rightarrow> publish \<Rightarrow> nat \<Rightarrow> 'w \<Rightarrow> allocate_result \<times> publish \<times> 'w"
  en_deallocate :: "fnptr \<Rightarrow> nat \<Rightarrow> publish \<Rightarrow> 'w \<Rightarrow> publish \<times> 'w"

section \<open>Access\<close>

definition get_store :: "store_ref \<Rightarrow> 'w sys \<Rightarrow> store" where
  "get_store r s = (case r of MAIN_STORE \<Rightarrow> cl_main_store s | CONNECT_STORE \<Rightarrow> cl_connect_store s)"

definition set_store :: "store_ref \<Rightarrow> store \<Rightarrow> 'w sys \<Rightarrow> 'w sys" where
  "set_store r st s = (case r of MAIN_STORE \<Rightarrow> s\<lparr>cl_main_store := st\<rparr>
     | CONNECT_STORE \<Rightarrow> s\<lparr>cl_connect_store := st\<rparr>)"

abbreviation ri :: "'w sys \<Rightarrow> rx_internal" where
  "ri s \<equiv> rx_internal (cl_rx s)"

abbreviation ti :: "'w sys \<Rightarrow> tx_internal" where
  "ti s \<equiv> tx_internal (cl_tx s)"

definition upd_ri :: "(rx_internal \<Rightarrow> rx_internal) \<Rightarrow> 'w sys \<Rightarrow> 'w sys" where
  "upd_ri f s = s\<lparr>cl_rx := (cl_rx s)\<lparr>rx_internal := f (ri s)\<rparr>\<rparr>"

definition upd_ti :: "(tx_internal \<Rightarrow> tx_internal) \<Rightarrow> 'w sys \<Rightarrow> 'w sys" where
  "upd_ti f s = s\<lparr>cl_tx := (cl_tx s)\<lparr>tx_internal := f (ti s)\<rparr>\<rparr>"

lemma get_set_store [simp]: "get_store r (set_store r st s) = st"
  by (simp add: get_store_def set_store_def split: store_ref.split)

lemma get_set_store_other: "r \<noteq> r' \<Longrightarrow> get_store r' (set_store r st s) = get_store r' s"
  by (cases r; cases r') (simp_all add: get_store_def set_store_def)

lemma set_get_store [simp]: "set_store r (get_store r s) s = s"
  by (simp add: get_store_def set_store_def split: store_ref.split)

lemma set_store_other_fields [simp]:
  "cl_rx (set_store r st s) = cl_rx s" "cl_tx (set_store r st s) = cl_tx s"
  "cl_error (set_store r st s) = cl_error s" "cl_closed (set_store r st s) = cl_closed s"
  "cl_current_store (set_store r st s) = cl_current_store s"
  "cl_message_callbacks (set_store r st s) = cl_message_callbacks s"
  "sy_heap (set_store r st s) = sy_heap s" "sy_world (set_store r st s) = sy_world s"
  by (simp_all add: set_store_def split: store_ref.split)

lemma upd_ri_fields [simp]:
  "cl_rx (upd_ri f s) = (cl_rx s)\<lparr>rx_internal := f (ri s)\<rparr>" "cl_tx (upd_ri f s) = cl_tx s"
  "get_store r (upd_ri f s) = get_store r s" "cl_error (upd_ri f s) = cl_error s"
  "cl_closed (upd_ri f s) = cl_closed s" "cl_current_store (upd_ri f s) = cl_current_store s"
  "cl_main_store (upd_ri f s) = cl_main_store s"
  "cl_connect_store (upd_ri f s) = cl_connect_store s"
  "cl_message_callbacks (upd_ri f s) = cl_message_callbacks s"
  "sy_heap (upd_ri f s) = sy_heap s" "sy_world (upd_ri f s) = sy_world s"
  by (simp_all add: upd_ri_def get_store_def split: store_ref.split)

lemma upd_ti_fields [simp]:
  "cl_tx (upd_ti f s) = (cl_tx s)\<lparr>tx_internal := f (ti s)\<rparr>" "cl_rx (upd_ti f s) = cl_rx s"
  "get_store r (upd_ti f s) = get_store r s" "cl_error (upd_ti f s) = cl_error s"
  "cl_closed (upd_ti f s) = cl_closed s" "cl_current_store (upd_ti f s) = cl_current_store s"
  "cl_main_store (upd_ti f s) = cl_main_store s"
  "cl_connect_store (upd_ti f s) = cl_connect_store s"
  "cl_message_callbacks (upd_ti f s) = cl_message_callbacks s"
  "sy_heap (upd_ti f s) = sy_heap s" "sy_world (upd_ti f s) = sy_world s"
  by (simp_all add: upd_ti_def get_store_def split: store_ref.split)

lemma upd_ri_twice [simp]: "upd_ri f (upd_ri g s) = upd_ri (f \<circ> g) s"
  by (simp add: upd_ri_def)

lemma upd_ri_cong: "f (ri s) = g (ri s) \<Longrightarrow> upd_ri f s = upd_ri g s"
  by (simp add: upd_ri_def)

lemma set_store_upd_ri: "set_store r st (upd_ri f s) = upd_ri f (set_store r st s)"
  by (cases r) (simp_all add: set_store_def upd_ri_def)

lemma upd_ri_same: "f (ri s) = ri s \<Longrightarrow> upd_ri f s = s"
  by (simp add: upd_ri_def)

lemma set_store_twice [simp]: "set_store r st (set_store r st' s) = set_store r st s"
  by (cases r) (simp_all add: set_store_def)

lemma get_store_updates [simp]:
  "get_store r (s\<lparr>cl_rx := x1\<rparr>) = get_store r s" "get_store r (s\<lparr>cl_tx := x2\<rparr>) = get_store r s"
  "get_store r (s\<lparr>cl_closed := x3\<rparr>) = get_store r s" "get_store r (s\<lparr>cl_error := x4\<rparr>) = get_store r s"
  "get_store r (s\<lparr>cl_os_error := x5\<rparr>) = get_store r s"
  "get_store r (s\<lparr>cl_current_store := x6\<rparr>) = get_store r s"
  "get_store r (s\<lparr>sy_heap := x7\<rparr>) = get_store r s" "get_store r (s\<lparr>sy_world := x8\<rparr>) = get_store r s"
  "get_store r (s\<lparr>cl_clean_session := x9\<rparr>) = get_store r s"
  "get_store r (s\<lparr>cl_read_buf := b1\<rparr>) = get_store r s"
  "get_store r (s\<lparr>cl_read_buf_pos := p1\<rparr>) = get_store r s"
  "get_store r (s\<lparr>cl_write_buf := b2\<rparr>) = get_store r s"
  "get_store r (s\<lparr>cl_write_buf_pos := p2\<rparr>) = get_store r s"
  by (simp_all add: get_store_def split: store_ref.split)

end
