(* ===== verification/Client_Callbacks.thy ===== *)
theory Client_Callbacks
  imports Client_State
begin

text \<open>
  The callbacks of requests and the emptying of the stores, in \<open>src/lmqtt_client.c\<close>. These
  functions call each other: flushing a store runs the callback of every request in it, and
  the callback of a CONNACK puts the client in the connected state, which flushes stores.
  User code called from here may queue new requests, so that a flush need not end.

  Loops and nested calls are therefore bounded by a number \<open>n\<close> that each of them decreases.
  When it is used up the result is \<open>None\<close>; \<open>flush_records\<close> in \<open>Client_Sessions\<close> shows that
  one more than the number of requests is enough when the callbacks queue nothing.
\<close>

section \<open>Small operations\<close>

definition client_set_current_store :: "store_ref \<Rightarrow> 'w sys \<Rightarrow> 'w sys" where
  "client_set_current_store r s =
     (let s1 = s\<lparr>cl_current_store := r\<rparr>;
          s2 = s1\<lparr>cl_rx := (cl_rx s1)\<lparr>rx_store := r\<rparr>\<rparr>
      in s2\<lparr>cl_tx := (cl_tx s2)\<lparr>tx_store := r\<rparr>\<rparr>)"

text \<open>
  The loop of \<open>client_cleanup_stores\<close> over the requests that outlive a connection. Every
  round passes or deletes one entry, so \<open>count + 1\<close> rounds are enough.
\<close>

fun cleanup_loop :: "nat \<Rightarrow> store \<Rightarrow> nat \<Rightarrow> store option" where
  "cleanup_loop 0 st i = None"
| "cleanup_loop (Suc n) st i =
     do {
       (ok, k, _) \<leftarrow> lmqtt_store_get_at st i;
       if \<not> ok then Some st
       else if k = KIND_PINGREQ \<or> k = KIND_DISCONNECT
       then do { (_, st') \<leftarrow> lmqtt_store_delete_at st i; cleanup_loop n st' i }
       else cleanup_loop n st (Suc i)
     }"

definition client_on_suback :: "'w env \<Rightarrow> addr option \<Rightarrow> 'w sys \<Rightarrow> (bool \<times> 'w sys) option" where
  "client_on_suback env v s =
     (case cl_on_subscribe s of
        Some f \<Rightarrow> en_on_subscribe env f (cl_on_subscribe_data s) v (\<not> cl_closed s) s
      | None \<Rightarrow> Some (True, s))"

definition client_on_unsuback :: "'w env \<Rightarrow> addr option \<Rightarrow> 'w sys \<Rightarrow> (bool \<times> 'w sys) option"
  where
  "client_on_unsuback env v s =
     (case cl_on_unsubscribe s of
        Some f \<Rightarrow> en_on_unsubscribe env f (cl_on_unsubscribe_data s) v (\<not> cl_closed s) s
      | None \<Rightarrow> Some (True, s))"

definition client_on_publish :: "'w env \<Rightarrow> addr option \<Rightarrow> 'w sys \<Rightarrow> (bool \<times> 'w sys) option" where
  "client_on_publish env v s =
     (case cl_on_publish s of
        Some f \<Rightarrow> en_on_publish env f (cl_on_publish_data s) v (\<not> cl_closed s) s
      | None \<Rightarrow> Some (True, s))"

definition client_on_pingresp :: "'w sys \<Rightarrow> (bool \<times> 'w sys) option" where
  "client_on_pingresp s = Some (True, s)"

section \<open>The functions that call each other\<close>

text \<open>
  \<open>entry_callback_call\<close> is the call \<open>value.callback(value.callback_data, value.value)\<close>.
  A callback that dereferences a null \<open>callback_data\<close> has no result. The functions
  between a flush and the flush it may call again get the latter as their first argument;
  \<open>client_flush_store\<close> passes itself, with one unit less.
\<close>

type_synonym 'w flusher = "store_ref \<Rightarrow> 'w sys \<Rightarrow> 'w sys option"

definition client_cleanup_stores :: "'w flusher \<Rightarrow> bool \<Rightarrow> 'w sys \<Rightarrow> 'w sys option" where
  "client_cleanup_stores flush keep_session s =
     do {
       s1 \<leftarrow> (if keep_session
         then do {
           st \<leftarrow> cleanup_loop (Suc (st_count (cl_main_store s))) (cl_main_store s) 0;
           Some (s\<lparr>cl_main_store := st\<rparr>)
         }
         else do {
           s' \<leftarrow> flush MAIN_STORE s;
           Some (s'\<lparr>cl_rx := (cl_rx s')\<lparr>rx_id_set := lmqtt_id_set_clear (rx_id_set (cl_rx s'))\<rparr>\<rparr>)
         });
       flush CONNECT_STORE s1
     }"

definition client_set_state_connected :: "'w flusher \<Rightarrow> 'w sys \<Rightarrow> 'w sys option" where
  "client_set_state_connected flush s =
     do {
       let s1 = s\<lparr>cl_error := NO_ERROR, cl_os_error := 0, cl_closed := False\<rparr>;
       let s2 = client_set_current_store MAIN_STORE s1;
       s3 \<leftarrow> client_cleanup_stores flush (cl_clean_session s2 = 0) s2;
       let s4 = s3\<lparr>cl_main_store := lmqtt_store_unmark_all (cl_main_store s3)\<rparr>;
       Some (s4\<lparr>cl_op_subscribe := OP_DO, cl_op_unsubscribe := OP_DO, cl_op_publish := OP_DO,
         cl_op_pingreq := OP_DO, cl_op_disconnect := OP_DO\<rparr>)
     }"

definition client_on_connack ::
    "'w flusher \<Rightarrow> 'w env \<Rightarrow> addr option \<Rightarrow> 'w sys \<Rightarrow> (bool \<times> 'w sys) option" where
  "client_on_connack flush env v s =
     (if cl_closed s
      then (case cl_on_connect s of
          Some f \<Rightarrow> en_on_connect env f (cl_on_connect_data s) v False s
        | None \<Rightarrow> Some (True, s))
      else do {
        (a, c) \<leftarrow> get_connect (sy_heap s) v;
        let s1 = s\<lparr>cl_clean_session := uint (cn_clean_session c),
          cl_main_store := (cl_main_store s)\<lparr>st_keep_alive := cn_keep_alive c\<rparr>\<rparr>;
        s2 \<leftarrow> client_set_state_connected flush s1;
        case cl_on_connect s2 of
          Some f \<Rightarrow> en_on_connect env f (cl_on_connect_data s2) v True s2
        | None \<Rightarrow> Some (True, s2)
      })"

definition entry_callback_call ::
    "'w flusher \<Rightarrow> 'w env \<Rightarrow> entry_callback \<Rightarrow> cb_data \<Rightarrow> addr option \<Rightarrow> 'w sys \<Rightarrow>
       (bool \<times> 'w sys) option" where
  "entry_callback_call flush env cb data v s =
     (if cb = ON_PINGRESP then client_on_pingresp s
      else if data = DATA_NULL then None
      else (case cb of
          ON_CONNACK \<Rightarrow> client_on_connack flush env v s
        | ON_SUBACK \<Rightarrow> client_on_suback env v s
        | ON_UNSUBACK \<Rightarrow> client_on_unsuback env v s
        | _ \<Rightarrow> client_on_publish env v s))"

text \<open>The call of the callback of a request, if it has one.\<close>

definition value_callback ::
    "'w flusher \<Rightarrow> 'w env \<Rightarrow> store_value \<Rightarrow> 'w sys \<Rightarrow> (bool \<times> 'w sys) option" where
  "value_callback flush env value s =
     (case sv_callback value of
        Some cb \<Rightarrow> entry_callback_call flush env cb (sv_callback_data value) (sv_value value) s
      | None \<Rightarrow> Some (True, s))"

primrec client_flush_store :: "nat \<Rightarrow> 'w env \<Rightarrow> store_ref \<Rightarrow> 'w sys \<Rightarrow> 'w sys option" where
  "client_flush_store 0 env r s = None"
| "client_flush_store (Suc n) env r s =
     do {
       (ok, k, value, st) \<leftarrow> lmqtt_store_shift (get_store r s);
       let s1 = set_store r st s;
       if \<not> ok then Some s1
       else do {
         (_, s2) \<leftarrow> value_callback (client_flush_store n env) env value s1;
         client_flush_store n env r s2
       }
     }"

end
