(* ===== verification/Tx_Buffer.thy ===== *)
theory Tx_Buffer
  imports Client_Callbacks
begin

text \<open>
  The transmit side of \<open>src/lmqtt_packet.c\<close>: which encoder comes next for a packet
  (\<open>tx_buffer_finder_*\<close>), and \<open>lmqtt_tx_buffer_encode\<close>, which turns the requests of the
  store into bytes, part by part, stops where the output is full or a string blocks,
  and goes on there at the next call.
\<close>

definition kind_expects_response :: "kind \<Rightarrow> bool" where
  "kind_expects_response k \<longleftrightarrow> k \<noteq> KIND_PUBLISH_0 \<and> k \<noteq> KIND_PUBACK \<and> k \<noteq> KIND_PUBREC \<and>
     k \<noteq> KIND_PUBCOMP \<and> k \<noteq> KIND_DISCONNECT"

section \<open>Finders\<close>

text \<open>
  \<open>lmqtt_encoder_finder_t\<close>: the encoder of part \<open>pos\<close> of the packet, none after the last one.
  A finder may change the object: the current subscription, the number of times a PUBLISH
  has been encoded.
\<close>

type_synonym 'w finder = "nat \<Rightarrow> store_value \<Rightarrow> heap \<Rightarrow> ('w encoder option \<times> heap) option"

definition tx_buffer_finder_connect :: "'w finder" where
  "tx_buffer_finder_connect pos value hp =
     Some (if pos = 0 then Some connect_encode_fixed_header
       else if pos = 1 then Some connect_encode_variable_header
       else if pos = 2 then Some connect_encode_payload_client_id
       else if pos = 3 then Some connect_encode_payload_will_topic
       else if pos = 4 then Some connect_encode_payload_will_message
       else if pos = 5 then Some connect_encode_payload_user_name
       else if pos = 6 then Some connect_encode_payload_password
       else None, hp)"

text \<open>A null or out-of-range \<open>&subscriptions[i]\<close> is harmless until it is followed.\<close>

definition tx_buffer_finder_subscribe :: "'w finder" where
  "tx_buffer_finder_subscribe pos value hp =
     do {
       (a, s) \<leftarrow> get_subscribe hp (sv_value value);
       if pos = 0
       then Some (Some subscribe_encode_header_subscribe,
         hp(a \<mapsto> OSubscribe (s\<lparr>sb_current := None\<rparr>)))
       else (let p = pos - 1 in
         if int p < sb_count s * 2
         then Some (Some (if p mod 2 = 0 then subscribe_encode_topic else subscribe_encode_qos),
           hp(a \<mapsto> OSubscribe (s\<lparr>sb_current := Some (p div 2)\<rparr>)))
         else Some (None, hp))
     }"

definition tx_buffer_finder_unsubscribe :: "'w finder" where
  "tx_buffer_finder_unsubscribe pos value hp =
     do {
       (a, s) \<leftarrow> get_subscribe hp (sv_value value);
       if pos = 0
       then Some (Some subscribe_encode_header_unsubscribe,
         hp(a \<mapsto> OSubscribe (s\<lparr>sb_current := None\<rparr>)))
       else (let p = pos - 1 in
         if int p < sb_count s
         then Some (Some subscribe_encode_topic, hp(a \<mapsto> OSubscribe (s\<lparr>sb_current := Some p\<rparr>)))
         else Some (None, hp))
     }"

definition tx_buffer_finder_publish :: "'w finder" where
  "tx_buffer_finder_publish pos value hp =
     do {
       (a, m) \<leftarrow> get_publish hp (sv_value value);
       let found =
         (if pb_qos m = QOS_0
          then (if pos = 0 then Some publish_encode_fixed_header
            else if pos = 1 then Some publish_encode_topic
            else if pos = 2 then Some publish_encode_payload
            else None)
          else (if pos = 0 then Some publish_encode_fixed_header
            else if pos = 1 then Some publish_encode_topic
            else if pos = 2 then Some publish_encode_packet_id
            else if pos = 3 then Some publish_encode_payload
            else None));
       Some (found, if found = None
         then hp(a \<mapsto> OPublish (m\<lparr>pb_encode_count := pb_encode_count m + 1\<rparr>)) else hp)
     }"

definition tx_buffer_finder_puback :: "'w finder" where
  "tx_buffer_finder_puback pos value hp =
     Some (if pos = 0 then Some puback_encode_fixed_header else None, hp)"

definition tx_buffer_finder_pubrec :: "'w finder" where
  "tx_buffer_finder_pubrec pos value hp =
     Some (if pos = 0 then Some pubrec_encode_fixed_header else None, hp)"

definition tx_buffer_finder_pubrel :: "'w finder" where
  "tx_buffer_finder_pubrel pos value hp =
     Some (if pos = 0 then Some pubrel_encode_fixed_header else None, hp)"

definition tx_buffer_finder_pubcomp :: "'w finder" where
  "tx_buffer_finder_pubcomp pos value hp =
     Some (if pos = 0 then Some pubcomp_encode_fixed_header else None, hp)"

definition tx_buffer_finder_pingreq :: "'w finder" where
  "tx_buffer_finder_pingreq pos value hp =
     Some (if pos = 0 then Some pingreq_encode_fixed_header else None, hp)"

definition tx_buffer_finder_disconnect :: "'w finder" where
  "tx_buffer_finder_disconnect pos value hp =
     Some (if pos = 0 then Some disconnect_encode_fixed_header else None, hp)"

fun tx_buffer_finder_by_kind :: "kind \<Rightarrow> 'w finder option" where
  "tx_buffer_finder_by_kind KIND_CONNECT = Some tx_buffer_finder_connect"
| "tx_buffer_finder_by_kind KIND_SUBSCRIBE = Some tx_buffer_finder_subscribe"
| "tx_buffer_finder_by_kind KIND_UNSUBSCRIBE = Some tx_buffer_finder_unsubscribe"
| "tx_buffer_finder_by_kind KIND_PUBLISH_0 = Some tx_buffer_finder_publish"
| "tx_buffer_finder_by_kind KIND_PUBLISH_1 = Some tx_buffer_finder_publish"
| "tx_buffer_finder_by_kind KIND_PUBLISH_2 = Some tx_buffer_finder_publish"
| "tx_buffer_finder_by_kind KIND_PUBACK = Some tx_buffer_finder_puback"
| "tx_buffer_finder_by_kind KIND_PUBREC = Some tx_buffer_finder_pubrec"
| "tx_buffer_finder_by_kind KIND_PUBREL = Some tx_buffer_finder_pubrel"
| "tx_buffer_finder_by_kind KIND_PUBCOMP = Some tx_buffer_finder_pubcomp"
| "tx_buffer_finder_by_kind KIND_PINGREQ = Some tx_buffer_finder_pingreq"
| "tx_buffer_finder_by_kind KIND_DISCONNECT = Some tx_buffer_finder_disconnect"
| "tx_buffer_finder_by_kind KIND_NONE = None"

section \<open>State changes\<close>

definition tx_buffer_fail :: "lmqtt_error \<Rightarrow> int \<Rightarrow> 'w sys \<Rightarrow> 'w sys" where
  "tx_buffer_fail err os_error = upd_ti (\<lambda>t. t\<lparr>ti_error := err, ti_os_error := os_error\<rparr>)"

definition lmqtt_tx_buffer_reset :: "'w sys \<Rightarrow> 'w sys" where
  "lmqtt_tx_buffer_reset s =
     s\<lparr>cl_tx := (cl_tx s)\<lparr>tx_closed := False, tx_internal := tx_internal_zero\<rparr>\<rparr>"

definition lmqtt_tx_buffer_finish :: "'w sys \<Rightarrow> 'w sys" where
  "lmqtt_tx_buffer_finish s = s\<lparr>cl_tx := (cl_tx s)\<lparr>tx_closed := True\<rparr>\<rparr>"

definition lmqtt_tx_buffer_get_error :: "'w sys \<Rightarrow> lmqtt_error \<times> int" where
  "lmqtt_tx_buffer_get_error s = (ti_error (ti s), ti_os_error (ti s))"

definition lmqtt_tx_buffer_get_blocking_str :: "'w sys \<Rightarrow> str_ref option" where
  "lmqtt_tx_buffer_get_blocking_str s = eb_blocking_str (ti_buffer (ti s))"

section \<open>Encoding\<close>

text \<open>
  What happens when a packet has no part left: it is dropped from the store, or marked when a
  response is expected. The first result tells the outer loop to go on.
\<close>

definition tx_buffer_packet_done ::
    "nat \<Rightarrow> 'w env \<Rightarrow> kind \<Rightarrow> store_value \<Rightarrow> 'w sys \<Rightarrow> (bool \<times> 'w sys) option" where
  "tx_buffer_packet_done n env k value s =
     (let r = tx_store (cl_tx s) in
      if \<not> kind_expects_response k
      then do {
        (_, st) \<leftarrow> lmqtt_store_drop_current (get_store r s);
        let s1 = set_store r st s;
        if k = KIND_DISCONNECT then Some (True, lmqtt_tx_buffer_finish s1)
        else do {
          (ok, s2) \<leftarrow> value_callback (client_flush_store n env) env value s1;
          if \<not> ok
          then do {
            c_assert (k = KIND_PUBLISH_0);
            Some (False, tx_buffer_fail ERROR_CALLBACK_PUBLISH 0 s2)
          }
          else Some (True, lmqtt_tx_buffer_reset s2)
        }
      }
      else Some (True, lmqtt_tx_buffer_reset
        (set_store r (snd (lmqtt_store_mark_current (get_store r s))) s)))"

text \<open>
  The inner loop, over the parts of one packet. \<open>out\<close> is what has been written to \<open>buf\<close>
  so far, \<open>Inl\<close> a return from the whole function and \<open>Inr\<close> a \<open>break\<close>.
\<close>

primrec tx_buffer_packet_loop ::
    "nat \<Rightarrow> 'w env \<Rightarrow> kind \<Rightarrow> 'w finder \<Rightarrow> store_value \<Rightarrow> nat \<Rightarrow> byte list \<Rightarrow> 'w sys \<Rightarrow>
       ((io_result \<times> byte list \<times> 'w sys) + (byte list \<times> 'w sys)) option" where
  "tx_buffer_packet_loop 0 env k finder value buf_len out s = None"
| "tx_buffer_packet_loop (Suc n) env k finder value buf_len out s =
     do {
       (encoder, hp) \<leftarrow> finder (ti_pos (ti s)) value (sy_heap s);
       let s1 = s\<lparr>sy_heap := hp\<rparr>;
       case encoder of
         None \<Rightarrow> do {
           (ok, s2) \<leftarrow> tx_buffer_packet_done n env k value s1;
           Some (if ok then Inr (out, s2) else Inl (IO_ERROR, out, s2))
         }
       | Some encode \<Rightarrow> do {
           (result, bytes, eb, hp', w') \<leftarrow> encode (en_io env) value (ti_buffer (ti s1))
             (ti_offset (ti s1)) (buf_len - length out) (sy_heap s1) (sy_world s1);
           let s2 = (upd_ti (\<lambda>t. t\<lparr>ti_buffer := eb\<rparr>) s1)\<lparr>sy_heap := hp', sy_world := w'\<rparr>;
           case result of
             ENCODE_WOULD_BLOCK \<Rightarrow> Some (Inl (IO_WOULD_BLOCK, out, s2))
           | ENCODE_CONTINUE \<Rightarrow> Some (Inl (IO_SUCCESS, out @ bytes,
               upd_ti (\<lambda>t. t\<lparr>ti_offset := ti_offset t + length bytes\<rparr>) s2))
           | ENCODE_ERROR \<Rightarrow> Some (Inl (IO_ERROR, out,
               tx_buffer_fail (eb_error (ti_buffer (ti s2))) (eb_os_error (ti_buffer (ti s2))) s2))
           | ENCODE_FINISHED \<Rightarrow> tx_buffer_packet_loop n env k finder value buf_len (out @ bytes)
               (upd_ti (\<lambda>t. t\<lparr>ti_pos := ti_pos t + 1, ti_offset := 0\<rparr>) s2)
         }
     }"

text \<open>The outer loop, over the requests of the store.\<close>

primrec tx_buffer_encode_loop ::
    "nat \<Rightarrow> 'w env \<Rightarrow> nat \<Rightarrow> byte list \<Rightarrow> 'w sys \<Rightarrow> (io_result \<times> byte list \<times> 'w sys) option" where
  "tx_buffer_encode_loop 0 env buf_len out s = None"
| "tx_buffer_encode_loop (Suc n) env buf_len out s =
     do {
       (ok, k, value) \<leftarrow> (if tx_closed (cl_tx s) then Some (False, KIND_NONE, store_value_zero)
         else lmqtt_store_peek (get_store (tx_store (cl_tx s)) s));
       if \<not> ok
       then Some (if length out > 0 \<or> tx_closed (cl_tx s) then IO_SUCCESS else IO_WOULD_BLOCK,
         out, s)
       else do {
         finder \<leftarrow> tx_buffer_finder_by_kind k;
         r \<leftarrow> tx_buffer_packet_loop n env k finder value buf_len out s;
         case r of
           Inl res \<Rightarrow> Some res
         | Inr (out', s') \<Rightarrow> tx_buffer_encode_loop n env buf_len out' s'
       }
     }"

definition lmqtt_tx_buffer_encode ::
    "nat \<Rightarrow> 'w env \<Rightarrow> nat \<Rightarrow> 'w sys \<Rightarrow> (io_result \<times> byte list \<times> 'w sys) option" where
  "lmqtt_tx_buffer_encode n env buf_len s =
     (if ti_error (ti s) \<noteq> NO_ERROR then Some (IO_ERROR, [], s)
      else tx_buffer_encode_loop n env buf_len [] s)"

end
