(* ===== verification/Rx_Buffer.thy ===== *)
theory Rx_Buffer
  imports Client_Callbacks
begin

text \<open>
  The receive side of \<open>src/lmqtt_packet.c\<close>: the decoders of the packets a server sends, their
  dispatch by packet type, and \<open>lmqtt_rx_buffer_decode\<close>, which consumes a chunk of input
  of any size and keeps in \<open>rx_internal\<close> what it needs to go on with the next chunk.

  A \<open>lmqtt_decode_bytes_t\<close> is the input from the current byte on; the number of bytes a
  decoder has taken (\<open>*bytes_written\<close>) is part of its result.
\<close>

section \<open>Failure, and the parts of an incoming PUBLISH\<close>

definition rx_buffer_fail :: "lmqtt_error \<Rightarrow> int \<Rightarrow> 'w sys \<Rightarrow> 'w sys" where
  "rx_buffer_fail err os_error = upd_ri (\<lambda>i. i\<lparr>ri_error := err, ri_os_error := os_error\<rparr>)"

datatype publish_part = PART_TOPIC | PART_PAYLOAD

fun part_get_allocate :: "publish_part \<Rightarrow> message_callbacks \<Rightarrow> fnptr option" where
  "part_get_allocate PART_TOPIC mc = mc_on_publish_allocate_topic mc"
| "part_get_allocate PART_PAYLOAD mc = mc_on_publish_allocate_payload mc"

fun part_get_string :: "publish_part \<Rightarrow> publish \<Rightarrow> lstring" where
  "part_get_string PART_TOPIC m = pb_topic m"
| "part_get_string PART_PAYLOAD m = pb_payload m"

fun part_set_string :: "publish_part \<Rightarrow> lstring \<Rightarrow> publish \<Rightarrow> publish" where
  "part_set_string PART_TOPIC str m = m\<lparr>pb_topic := str\<rparr>"
| "part_set_string PART_PAYLOAD str m = m\<lparr>pb_payload := str\<rparr>"

fun part_str_ref :: "publish_part \<Rightarrow> str_ref" where
  "part_str_ref PART_TOPIC = RX_STR FIELD_TOPIC"
| "part_str_ref PART_PAYLOAD = RX_STR FIELD_PAYLOAD"

fun part_allocate_error :: "publish_part \<Rightarrow> lmqtt_error" where
  "part_allocate_error PART_TOPIC = ERROR_DECODE_PUBLISH_TOPIC_ALLOCATE_FAILED"
| "part_allocate_error PART_PAYLOAD = ERROR_DECODE_PUBLISH_PAYLOAD_ALLOCATE_FAILED"

fun part_string_error :: "publish_part \<Rightarrow> lmqtt_error" where
  "part_string_error PART_TOPIC = ERROR_DECODE_PUBLISH_TOPIC_WRITE_FAILED"
| "part_string_error PART_PAYLOAD = ERROR_DECODE_PUBLISH_PAYLOAD_WRITE_FAILED"

text \<open>
  The allocation step: \<open>False\<close> when the callback refused. \<open>len\<close> is a \<open>size_t\<close>, as are
  \<open>max_len\<close> and \<open>buf_len\<close> below.
\<close>

definition rx_buffer_allocate :: "'w env \<Rightarrow> int \<Rightarrow> publish_part \<Rightarrow> nat \<Rightarrow> 'w sys \<Rightarrow> bool \<times> 'w sys"
  where
  "rx_buffer_allocate env when part len s =
     (let mc = cl_message_callbacks s in
      case part_get_allocate part mc of
        Some f \<Rightarrow>
          if \<not> ri_ignore_publish (ri s) \<and> ri_remain_buf_pos (ri s) + 1 = when
          then
            (let (res, m, w) = en_allocate env f (mc_on_publish_data mc) (ri_publish (ri s)) len
                   (sy_world s);
                 s1 = (upd_ri (\<lambda>i. i\<lparr>ri_publish := m\<rparr>) s)\<lparr>sy_world := w\<rparr>
             in (case res of
                   ALLOCATE_SUCCESS \<Rightarrow> (True, upd_ri (\<lambda>i. i\<lparr>ri_ignore_publish := False\<rparr>) s1)
                 | ALLOCATE_IGNORE \<Rightarrow> (True, upd_ri (\<lambda>i. i\<lparr>ri_ignore_publish := True\<rparr>) s1)
                 | ALLOCATE_ERROR \<Rightarrow> (False, rx_buffer_fail (part_allocate_error part) 0 s1)))
          else (True, s)
      | None \<Rightarrow> (True, s))"

definition rx_buffer_allocate_write ::
    "'w env \<Rightarrow> int \<Rightarrow> publish_part \<Rightarrow> nat \<Rightarrow> byte list \<Rightarrow> 'w sys \<Rightarrow>
       (bool \<times> nat \<times> 'w sys) option" where
  "rx_buffer_allocate_write env when part len bytes s =
     (let rem_pos = ri_remain_buf_pos (ri s) + 1;
          max_len = size_of_long (int len - (rem_pos - when));
          buf_len = (if length bytes > max_len then max_len else length bytes);
          (ok, s1) = rx_buffer_allocate env when part len s
      in if \<not> ok then Some (False, 0, s1)
         else if \<not> ri_ignore_publish (ri s1) then do {
           let s2 = upd_ri (\<lambda>i. i\<lparr>ri_blocking_str := None\<rparr>) s1;
           (res, cnt, os_error, str, w) \<leftarrow> string_write (en_io env)
             (part_get_string part (ri_publish (ri s2))) (take buf_len bytes) (sy_world s2);
           let s3 = (upd_ri (\<lambda>i. i\<lparr>ri_publish := part_set_string part str (ri_publish i)\<rparr>) s2)
             \<lparr>sy_world := w\<rparr>;
           Some (case res of
               STRING_SUCCESS \<Rightarrow> (True, cnt, s3)
             | STRING_WOULD_BLOCK \<Rightarrow>
                 (True, cnt, upd_ri (\<lambda>i. i\<lparr>ri_blocking_str := Some (part_str_ref part)\<rparr>) s3)
             | _ \<Rightarrow> (False, cnt, rx_buffer_fail (part_string_error part) os_error s3))
         }
         else Some (True, buf_len, s1))"

definition rx_buffer_deallocate_publish :: "'w env \<Rightarrow> 'w sys \<Rightarrow> 'w sys" where
  "rx_buffer_deallocate_publish env s =
     (let mc = cl_message_callbacks s in
      case mc_on_publish_deallocate mc of
        Some f \<Rightarrow>
          if \<not> ri_ignore_publish (ri s)
          then (let (m, w) = en_deallocate env f (mc_on_publish_data mc) (ri_publish (ri s))
                      (sy_world s)
                in (upd_ri (\<lambda>i. i\<lparr>ri_publish := m\<rparr>) s)\<lparr>sy_world := w\<rparr>)
          else s
      | None \<Rightarrow> s)"

section \<open>CONNACK\<close>

definition connack_return_code_max :: nat where "connack_return_code_max = 5"

definition error_connack_base :: nat where
  "error_connack_base = error_code ERROR_CONNACK_UNACCEPTABLE_PROTOCOL_VERSION - 1"

definition rx_buffer_decode_connack ::
    "byte list \<Rightarrow> 'w sys \<Rightarrow> (decode_result \<times> nat \<times> 'w sys) option" where
  "rx_buffer_decode_connack bytes s =
     do {
       c_assert (length bytes \<ge> 1);
       let b = bytes ! 0;
       if ri_remain_buf_pos (ri s) = 0
       then
         if b AND NOT 1 \<noteq> 0
         then Some (DECODE_ERROR, 0,
           rx_buffer_fail ERROR_DECODE_CONNACK_INVALID_ACKNOWLEDGE_FLAGS 0 s)
         else do {
           (a, c) \<leftarrow> get_connect (sy_heap s) (sv_value (ri_value (ri s)));
           Some (DECODE_CONTINUE, 1,
             s\<lparr>sy_heap := (sy_heap s)(a \<mapsto> OConnect (c\<lparr>cn_session_present := b\<rparr>))\<rparr>)
         }
       else if ri_remain_buf_pos (ri s) = 1
       then Some
         (if unat b > connack_return_code_max
          then (DECODE_ERROR, 0, rx_buffer_fail ERROR_DECODE_CONNACK_INVALID_RETURN_CODE 0 s)
          else if b \<noteq> 0
          then (DECODE_ERROR, 1, rx_buffer_fail (lmqtt_errors ! (error_connack_base + unat b)) 0 s)
          else (DECODE_FINISHED, 1, s))
       else Some (DECODE_ERROR, 0, rx_buffer_fail ERROR_DECODE_CONNACK_INVALID_LENGTH 0 s)
     }"

section \<open>PUBLISH\<close>

text \<open>The bytes before the end of the packet: topic length, topic, packet identifier, payload.\<close>

definition rx_buffer_publish_bytes ::
    "'w env \<Rightarrow> int \<Rightarrow> int \<Rightarrow> byte list \<Rightarrow> 'w sys \<Rightarrow> (bool \<times> nat \<times> 'w sys) option" where
  "rx_buffer_publish_bytes env rem_len p_len bytes s =
     (let rem_pos = ri_remain_buf_pos (ri s) + 1; s_len = STRING_LEN_SIZE; b = bytes ! 0
      in if rem_pos \<le> s_len
         then
           (let s1 = upd_ri (\<lambda>i. i\<lparr>ri_topic_len := ri_topic_len i OR
                  push_bit (nat ((s_len - rem_pos) * 8)) (ucast b)\<rparr>) s;
                t_len = uint (ri_topic_len (ri s1))
            in if rem_pos = s_len \<and> (t_len = 0 \<or> t_len + s_len + p_len > rem_len)
               then Some (False, 0, rx_buffer_fail ERROR_DECODE_PUBLISH_INVALID_LENGTH 0 s1)
               else Some (True, 1, s1))
         else
           (let t_len = uint (ri_topic_len (ri s));
                p_start = s_len + t_len;
                mc = cl_message_callbacks s;
                s1 = (if rem_pos = s_len + 1 \<and> (mc_on_publish mc = None \<or>
                          mc_on_publish_allocate_topic mc = None \<or>
                          mc_on_publish_allocate_payload mc = None)
                      then upd_ri (\<lambda>i. i\<lparr>ri_ignore_publish := True\<rparr>) s else s)
            in if rem_pos \<le> p_start then do {
                 (ok, cnt, s2) \<leftarrow> rx_buffer_allocate_write env (s_len + 1) PART_TOPIC (nat t_len)
                   bytes s1;
                 Some (ok, cnt, if ok then s2 else rx_buffer_deallocate_publish env s2)
               }
               else if rem_pos \<le> p_start + p_len
               then Some (True, 1, upd_ri (\<lambda>i. i\<lparr>ri_packet_id := ri_packet_id i OR
                 push_bit (nat ((p_len - rem_pos + p_start) * 8)) (ucast b)\<rparr>) s1)
               else do {
                 (ok, cnt, s2) \<leftarrow> rx_buffer_allocate_write env (p_start + p_len + 1) PART_PAYLOAD
                   (size_of_long (rem_len - p_len - p_start)) bytes s1;
                 Some (ok, cnt, if ok then s2 else rx_buffer_deallocate_publish env s2)
               }))"

text \<open>
  The end of the packet: queue the acknowledgement, remember a QoS 2 identifier, deliver the
  message unless it is a QoS 2 message that was already delivered.
\<close>

definition rx_buffer_publish_deliver ::
    "'w env \<Rightarrow> qos \<Rightarrow> 'w sys \<Rightarrow> (decode_result \<times> 'w sys) option" where
  "rx_buffer_publish_deliver env qos s =
     (let mc = cl_message_callbacks s;
          s1 = upd_ri (\<lambda>i. i\<lparr>ri_publish := (ri_publish i)\<lparr>pb_qos := qos,
            pb_retain := word_of_int (fh_retain (ri_header i))\<rparr>\<rparr>) s
      in do {
        (ok, s2) \<leftarrow> (case mc_on_publish mc of
            Some f \<Rightarrow>
              if \<not> ri_ignore_publish (ri s1) then en_message env f (mc_on_publish_data mc) s1
              else Some (True, s1)
          | None \<Rightarrow> Some (True, s1));
        if \<not> ok
        then Some (DECODE_ERROR, rx_buffer_fail ERROR_DECODE_PUBLISH_MESSAGE_CALLBACK_FAILED 0
          (rx_buffer_deallocate_publish env s2))
        else Some (DECODE_FINISHED, rx_buffer_deallocate_publish env s2)
      })"

definition rx_buffer_publish_finish ::
    "'w env \<Rightarrow> qos \<Rightarrow> 'w sys \<Rightarrow> (decode_result \<times> 'w sys) option" where
  "rx_buffer_publish_finish env qos s =
     (let packet_id = ri_packet_id (ri s); r = rx_store (cl_rx s) in
      do {
        s1 \<leftarrow> (if qos \<noteq> QOS_0
          then do {
            (_, st) \<leftarrow> lmqtt_store_append (get_store r s)
              (if qos = QOS_2 then KIND_PUBREC else KIND_PUBACK)
              (Some (store_value_zero\<lparr>sv_packet_id := packet_id\<rparr>));
            Some (set_store r st s)
          }
          else Some s);
        known \<leftarrow> (if qos \<noteq> QOS_2 then Some False
          else lmqtt_id_set_contains (rx_id_set (cl_rx s1)) packet_id);
        if known then Some (DECODE_FINISHED, rx_buffer_deallocate_publish env s1)
        else if qos = QOS_2
        then do {
          (ok, ids) \<leftarrow> lmqtt_id_set_put (rx_id_set (cl_rx s1)) packet_id;
          let s2 = s1\<lparr>cl_rx := (cl_rx s1)\<lparr>rx_id_set := ids\<rparr>\<rparr>;
          if \<not> ok
          then Some (DECODE_ERROR, rx_buffer_fail ERROR_DECODE_PUBLISH_ID_SET_FULL 0
            (rx_buffer_deallocate_publish env s2))
          else rx_buffer_publish_deliver env qos s2
        }
        else rx_buffer_publish_deliver env qos s1
      })"

definition rx_buffer_decode_publish ::
    "'w env \<Rightarrow> byte list \<Rightarrow> 'w sys \<Rightarrow> (decode_result \<times> nat \<times> 'w sys) option" where
  "rx_buffer_decode_publish env bytes s =
     (let rem_len = fh_remaining_length (ri_header (ri s));
          rem_pos = ri_remain_buf_pos (ri s) + 1;
          qos = fh_qos (ri_header (ri s));
          p_len = (if qos = QOS_0 then 0 else PACKET_ID_SIZE)
      in do {
        c_assert (length bytes \<ge> 1);
        (ok, cnt, s1) \<leftarrow> rx_buffer_publish_bytes env rem_len p_len bytes s;
        if \<not> ok then Some (DECODE_ERROR, cnt, s1)
        else if ri_blocking_str (ri s1) \<noteq> None then Some (DECODE_WOULD_BLOCK, cnt, s1)
        else if rem_len \<ge> rem_pos + int cnt then Some (DECODE_CONTINUE, cnt, s1)
        else do {
          (res, s2) \<leftarrow> rx_buffer_publish_finish env qos s1;
          Some (res, cnt, s2)
        }
      })"

section \<open>SUBACK\<close>

definition rx_buffer_decode_suback ::
    "byte list \<Rightarrow> 'w sys \<Rightarrow> (decode_result \<times> nat \<times> 'w sys) option" where
  "rx_buffer_decode_suback bytes s =
     (let pos = ri_remain_buf_pos (ri s) - PACKET_ID_SIZE;
          subscribe = get_subscribe (sy_heap s) (sv_value (ri_value (ri s)))
      in do {
        c_assert (length bytes \<ge> 1);
        let b = bytes ! 0;
        mismatch \<leftarrow> (if pos = 0
          then do {
            (a, sub) \<leftarrow> subscribe;
            Some (fh_remaining_length (ri_header (ri s)) - PACKET_ID_SIZE \<noteq> sb_count sub)
          }
          else Some False);
        if mismatch
        then Some (DECODE_ERROR, 0, rx_buffer_fail ERROR_DECODE_SUBACK_COUNT_MISMATCH 0 s)
        else if b > 2 \<and> b \<noteq> 0x80
        then Some (DECODE_ERROR, 0, rx_buffer_fail ERROR_DECODE_SUBACK_INVALID_RETURN_CODE 0 s)
        else do {
          (a, sub) \<leftarrow> subscribe;
          subs \<leftarrow> sb_subscriptions sub;
          c_assert (pos \<ge> 0);
          x \<leftarrow> arr_get subs (nat pos);
          Some (if pos + 1 \<ge> sb_count sub then DECODE_FINISHED else DECODE_CONTINUE, 1,
            s\<lparr>sy_heap := (sy_heap s)(a \<mapsto> OSubscribe (sub
              \<lparr>sb_subscriptions := Some (subs[nat pos := x\<lparr>sn_return_code := b\<rparr>])\<rparr>))\<rparr>)
        }
      })"

section \<open>The decoder tables\<close>

fun decoder_min_length :: "decoder \<Rightarrow> int" where
  "decoder_min_length DECODER_CONNACK = 2"
| "decoder_min_length DECODER_PUBLISH = 3"
| "decoder_min_length DECODER_PUBACK = 2"
| "decoder_min_length DECODER_PUBREC = 2"
| "decoder_min_length DECODER_PUBREL = 2"
| "decoder_min_length DECODER_PUBCOMP = 2"
| "decoder_min_length DECODER_SUBACK = 3"
| "decoder_min_length DECODER_UNSUBACK = 2"
| "decoder_min_length DECODER_PINGRESP = 0"

fun decoder_kind :: "decoder \<Rightarrow> kind" where
  "decoder_kind DECODER_CONNACK = KIND_CONNECT"
| "decoder_kind DECODER_PUBLISH = KIND_NONE"
| "decoder_kind DECODER_PUBACK = KIND_PUBLISH_1"
| "decoder_kind DECODER_PUBREC = KIND_PUBLISH_2"
| "decoder_kind DECODER_PUBREL = KIND_NONE"
| "decoder_kind DECODER_PUBCOMP = KIND_PUBREL"
| "decoder_kind DECODER_SUBACK = KIND_SUBSCRIBE"
| "decoder_kind DECODER_UNSUBACK = KIND_UNSUBSCRIBE"
| "decoder_kind DECODER_PINGRESP = KIND_PINGREQ"

datatype pop_packet = POP_WITHOUT_ID | POP_WITH_ID | POP_IGNORE | POP_PUBREL

fun decoder_pop_packet_without_id :: "decoder \<Rightarrow> pop_packet" where
  "decoder_pop_packet_without_id DECODER_CONNACK = POP_WITHOUT_ID"
| "decoder_pop_packet_without_id DECODER_PINGRESP = POP_WITHOUT_ID"
| "decoder_pop_packet_without_id _ = POP_IGNORE"

fun decoder_pop_packet_with_id :: "decoder \<Rightarrow> pop_packet" where
  "decoder_pop_packet_with_id DECODER_CONNACK = POP_IGNORE"
| "decoder_pop_packet_with_id DECODER_PUBLISH = POP_IGNORE"
| "decoder_pop_packet_with_id DECODER_PUBREL = POP_PUBREL"
| "decoder_pop_packet_with_id DECODER_PINGRESP = POP_IGNORE"
| "decoder_pop_packet_with_id _ = POP_WITH_ID"

text \<open>\<open>decode_remaining\<close>: with or without a packet identifier in front.\<close>

fun decoder_has_id :: "decoder \<Rightarrow> bool" where
  "decoder_has_id DECODER_CONNACK = False"
| "decoder_has_id DECODER_PUBLISH = False"
| "decoder_has_id DECODER_PINGRESP = False"
| "decoder_has_id _ = True"

fun decoder_decode_bytes ::
    "'w env \<Rightarrow> decoder \<Rightarrow> (byte list \<Rightarrow> 'w sys \<Rightarrow> (decode_result \<times> nat \<times> 'w sys) option) option"
  where
  "decoder_decode_bytes env DECODER_CONNACK = Some rx_buffer_decode_connack"
| "decoder_decode_bytes env DECODER_PUBLISH = Some (rx_buffer_decode_publish env)"
| "decoder_decode_bytes env DECODER_SUBACK = Some rx_buffer_decode_suback"
| "decoder_decode_bytes env _ = None"

fun decoder_callback_error :: "decoder \<Rightarrow> lmqtt_error" where
  "decoder_callback_error DECODER_CONNACK = ERROR_CALLBACK_CONNACK"
| "decoder_callback_error DECODER_PUBLISH = NO_ERROR"
| "decoder_callback_error DECODER_PUBACK = ERROR_CALLBACK_PUBLISH"
| "decoder_callback_error DECODER_PUBREC = NO_ERROR"
| "decoder_callback_error DECODER_PUBREL = NO_ERROR"
| "decoder_callback_error DECODER_PUBCOMP = ERROR_CALLBACK_PUBLISH"
| "decoder_callback_error DECODER_SUBACK = ERROR_CALLBACK_SUBACK"
| "decoder_callback_error DECODER_UNSUBACK = ERROR_CALLBACK_UNSUBACK"
| "decoder_callback_error DECODER_PINGRESP = NO_ERROR"

text \<open>\<open>rx_buffer_decoders\<close>, indexed by packet type.\<close>

definition rx_buffer_decoders :: "decoder option list" where
  "rx_buffer_decoders =
     [None, None, Some DECODER_CONNACK, Some DECODER_PUBLISH, Some DECODER_PUBACK,
      Some DECODER_PUBREC, Some DECODER_PUBREL, Some DECODER_PUBCOMP, None,
      Some DECODER_SUBACK, None, Some DECODER_UNSUBACK, None, Some DECODER_PINGRESP, None]"

section \<open>Matching responses with requests\<close>

definition lmqtt_rx_buffer_reset :: "'w sys \<Rightarrow> 'w sys" where
  "lmqtt_rx_buffer_reset = upd_ri (\<lambda>_. rx_internal_zero)"

definition rx_buffer_call_callback :: "nat \<Rightarrow> 'w env \<Rightarrow> 'w sys \<Rightarrow> (bool \<times> 'w sys) option" where
  "rx_buffer_call_callback n env s =
     value_callback (client_flush_store n env) env (ri_value (ri s)) s"

definition lmqtt_rx_buffer_finish :: "nat \<Rightarrow> 'w env \<Rightarrow> 'w sys \<Rightarrow> 'w sys option" where
  "lmqtt_rx_buffer_finish n env s = do { (_, s') \<leftarrow> rx_buffer_call_callback n env s; Some s' }"

definition rx_buffer_decode_type ::
    "'w env \<Rightarrow> decoder \<Rightarrow> byte list \<Rightarrow> 'w sys \<Rightarrow> (decode_result \<times> nat \<times> 'w sys) option" where
  "rx_buffer_decode_type env d bytes s =
     (case decoder_decode_bytes env d of
        None \<Rightarrow> Some (DECODE_ERROR, 0, rx_buffer_fail ERROR_DECODE_NONZERO_REMAINING_LENGTH 0 s)
      | Some decode \<Rightarrow> decode bytes s)"

definition rx_buffer_pop_packet :: "decoder \<Rightarrow> packet_id \<Rightarrow> 'w sys \<Rightarrow> (bool \<times> 'w sys) option" where
  "rx_buffer_pop_packet d pid s =
     (let r = rx_store (cl_rx s) in
      do {
        (ok, value, st) \<leftarrow> lmqtt_store_pop_marked_by (get_store r s) (decoder_kind d) pid;
        let s1 = upd_ri (\<lambda>i. i\<lparr>ri_value := value\<rparr>) (set_store r st s);
        Some (if ok then (True, s1)
          else (False, rx_buffer_fail ERROR_DECODE_NO_CORRESPONDING_REQUEST 0 s1))
      })"

definition rx_buffer_is_packet_finished :: "'w sys \<Rightarrow> bool" where
  "rx_buffer_is_packet_finished s \<longleftrightarrow> ri_header_finished (ri s) \<and>
     ri_remain_buf_pos (ri s) \<ge> fh_remaining_length (ri_header (ri s))"

definition rx_buffer_finish_packet :: "nat \<Rightarrow> 'w env \<Rightarrow> 'w sys \<Rightarrow> (bool \<times> 'w sys) option" where
  "rx_buffer_finish_packet n env s =
     do {
       d \<leftarrow> ri_decoder (ri s);
       if decoder_kind d = KIND_PUBLISH_2
       then (let r = rx_store (cl_rx s) in
         do {
           (ok, st) \<leftarrow> lmqtt_store_append (get_store r s) KIND_PUBREL (Some (ri_value (ri s)));
           c_assert ok;
           Some (True, lmqtt_rx_buffer_reset (set_store r st s))
         })
       else do {
         (ok, s1) \<leftarrow> rx_buffer_call_callback n env s;
         if \<not> ok
         then do {
           d1 \<leftarrow> ri_decoder (ri s1);
           c_assert (decoder_callback_error d1 \<noteq> NO_ERROR);
           Some (False, rx_buffer_fail (decoder_callback_error d1) 0 s1)
         }
         else Some (True, lmqtt_rx_buffer_reset s1)
       }
     }"

definition rx_buffer_pubrel :: "'w sys \<Rightarrow> (bool \<times> 'w sys) option" where
  "rx_buffer_pubrel s =
     (let packet_id = ri_packet_id (ri s); r = rx_store (cl_rx s) in
      do {
        (_, ids) \<leftarrow> lmqtt_id_set_remove (rx_id_set (cl_rx s)) packet_id;
        let s1 = s\<lparr>cl_rx := (cl_rx s)\<lparr>rx_id_set := ids\<rparr>\<rparr>;
        (ok, st) \<leftarrow> lmqtt_store_append (get_store r s1) KIND_PUBCOMP
          (Some (store_value_zero\<lparr>sv_packet_id := packet_id\<rparr>));
        let s2 = set_store r st s1;
        Some (if ok then (True, s2)
          else (False, rx_buffer_fail ERROR_DECODE_PUBREL_ID_SET_FULL 0 s2))
      })"

definition rx_buffer_pop :: "pop_packet \<Rightarrow> decoder \<Rightarrow> 'w sys \<Rightarrow> (bool \<times> 'w sys) option" where
  "rx_buffer_pop p d s =
     (case p of
        POP_WITHOUT_ID \<Rightarrow> rx_buffer_pop_packet d 0 s
      | POP_WITH_ID \<Rightarrow> rx_buffer_pop_packet d (ri_packet_id (ri s)) s
      | POP_IGNORE \<Rightarrow> Some (True, s)
      | POP_PUBREL \<Rightarrow> rx_buffer_pubrel s)"

section \<open>The rest of a packet after its header\<close>

definition rx_buffer_decode_remaining_without_id ::
    "'w env \<Rightarrow> decoder \<Rightarrow> byte list \<Rightarrow> 'w sys \<Rightarrow> (decode_result \<times> nat \<times> 'w sys) option" where
  "rx_buffer_decode_remaining_without_id env d bytes s =
     do {
       (res, cnt, s1) \<leftarrow> rx_buffer_decode_type env d bytes s;
       let rem_pos = ri_remain_buf_pos (ri s1) + int cnt;
       let rem_len = fh_remaining_length (ri_header (ri s1));
       if res = DECODE_ERROR then Some (DECODE_ERROR, cnt, s1)
       else do {
         c_assert (res \<noteq> DECODE_FINISHED \<and> rem_pos < rem_len \<or>
           res = DECODE_FINISHED \<and> rem_pos = rem_len);
         Some (res, cnt, s1)
       }
     }"

definition rx_buffer_decode_remaining_with_id ::
    "'w env \<Rightarrow> decoder \<Rightarrow> byte list \<Rightarrow> 'w sys \<Rightarrow> (decode_result \<times> nat \<times> 'w sys) option" where
  "rx_buffer_decode_remaining_with_id env d bytes s =
     (let rem_pos = ri_remain_buf_pos (ri s) + 1; p_len = PACKET_ID_SIZE
      in if rem_pos > p_len then rx_buffer_decode_remaining_without_id env d bytes s
         else do {
           c_assert (length bytes \<ge> 1);
           let s1 = upd_ri (\<lambda>i. i\<lparr>ri_packet_id := ri_packet_id i OR
             push_bit (nat ((p_len - rem_pos) * 8)) (ucast (bytes ! 0))\<rparr>) s;
           (ok, s2) \<leftarrow> (if rem_pos = p_len then rx_buffer_pop (decoder_pop_packet_with_id d) d s1
             else Some (True, s1));
           Some (if ok then DECODE_CONTINUE else DECODE_ERROR, 1, s2)
         })"

definition decoder_decode_remaining ::
    "'w env \<Rightarrow> decoder \<Rightarrow> byte list \<Rightarrow> 'w sys \<Rightarrow> (decode_result \<times> nat \<times> 'w sys) option" where
  "decoder_decode_remaining env d =
     (if decoder_has_id d then rx_buffer_decode_remaining_with_id env d
      else rx_buffer_decode_remaining_without_id env d)"

section \<open>Decoding\<close>

definition lmqtt_rx_buffer_get_error :: "'w sys \<Rightarrow> lmqtt_error \<times> int" where
  "lmqtt_rx_buffer_get_error s = (ri_error (ri s), ri_os_error (ri s))"

definition lmqtt_rx_buffer_get_blocking_str :: "'w sys \<Rightarrow> str_ref option" where
  "lmqtt_rx_buffer_get_blocking_str s = ri_blocking_str (ri s)"

text \<open>
  One round of the loop up to the check for the end of the packet. The round ends with the
  number of bytes taken and one of: the next round at once (\<open>continue\<close>), the check and then
  the next round, leaving the loop (\<open>break\<close>), returning an error.
\<close>

datatype rx_next = RX_CONTINUE | RX_CHECK | RX_BREAK | RX_ERROR

definition rx_buffer_header_byte :: "byte \<Rightarrow> 'w sys \<Rightarrow> (rx_next \<times> nat \<times> 'w sys) option" where
  "rx_buffer_header_byte b s =
     (let (header, res, err) = fixed_header_decode (ri_header (ri s)) b;
          s1 = upd_ri (\<lambda>i. i\<lparr>ri_header := header\<rparr>) s
      in if res = DECODE_ERROR then Some (RX_ERROR, 0, rx_buffer_fail err 0 s1)
         else if res \<noteq> DECODE_FINISHED then Some (RX_CONTINUE, 1, s1)
         else do {
           c_assert (0 \<le> fh_type header);
           decoder \<leftarrow> arr_get rx_buffer_decoders (nat (fh_type header));
           let s2 = upd_ri (\<lambda>i. i\<lparr>ri_header_finished := True, ri_decoder := decoder\<rparr>) s1;
           case decoder of
             None \<Rightarrow> Some (RX_ERROR, 1,
               rx_buffer_fail ERROR_DECODE_FIXED_HEADER_SERVER_SPECIFIC 0 s2)
           | Some d \<Rightarrow>
               if fh_remaining_length header < decoder_min_length d
               then Some (RX_ERROR, 1, rx_buffer_fail ERROR_DECODE_RESPONSE_TOO_SHORT 0 s2)
               else do {
                 (ok, s3) \<leftarrow> rx_buffer_pop (decoder_pop_packet_without_id d) d s2;
                 if ok then Some (RX_CHECK, 1, s3)
                 else do {
                   c_assert (ri_error (ri s3) \<noteq> NO_ERROR);
                   Some (RX_ERROR, 1, s3)
                 }
               }
         })"

definition rx_buffer_rest_bytes :: "'w env \<Rightarrow> byte list \<Rightarrow> 'w sys \<Rightarrow> (rx_next \<times> nat \<times> 'w sys) option"
  where
  "rx_buffer_rest_bytes env bytes s =
     do {
       d \<leftarrow> ri_decoder (ri s);
       (res, cnt, s1) \<leftarrow> decoder_decode_remaining env d bytes s;
       if res = DECODE_FINISHED \<or> res = DECODE_CONTINUE
       then Some (RX_CHECK, cnt,
         upd_ri (\<lambda>i. i\<lparr>ri_remain_buf_pos := ri_remain_buf_pos i + int cnt\<rparr>) s1)
       else if res = DECODE_WOULD_BLOCK
       then do { c_assert (cnt = 0); Some (RX_BREAK, 0, s1) }
       else do {
         c_assert (ri_error (ri s1) \<noteq> NO_ERROR);
         Some (RX_ERROR, 0, s1)
       }
     }"

text \<open>The loop: \<open>bytes\<close> is the input not yet taken, \<open>cnt\<close> is \<open>*bytes_read\<close>.\<close>

primrec rx_buffer_decode_loop ::
    "nat \<Rightarrow> 'w env \<Rightarrow> byte list \<Rightarrow> nat \<Rightarrow> 'w sys \<Rightarrow> (bool \<times> nat \<times> 'w sys) option" where
  "rx_buffer_decode_loop 0 env bytes cnt s = None"
| "rx_buffer_decode_loop (Suc n) env bytes cnt s =
     (if bytes = [] then Some (True, cnt, s)
      else do {
        (next, k, s1) \<leftarrow> (if \<not> ri_header_finished (ri s) then rx_buffer_header_byte (hd bytes) s
          else rx_buffer_rest_bytes env bytes s);
        if next = RX_ERROR then Some (False, cnt + k, s1)
        else if next = RX_BREAK then Some (True, cnt + k, s1)
        else if next = RX_CHECK \<and> rx_buffer_is_packet_finished s1
        then do {
          (ok, s2) \<leftarrow> rx_buffer_finish_packet n env s1;
          if ok then rx_buffer_decode_loop n env (drop k bytes) (cnt + k) s2
          else Some (False, cnt + k, s2)
        }
        else rx_buffer_decode_loop n env (drop k bytes) (cnt + k) s1
      })"

declare rx_buffer_decode_loop.simps(2) [simp del]

lemma decode_loop_empty [simp]: "rx_buffer_decode_loop (Suc n) env [] c s = Some (True, c, s)"
  by (simp add: rx_buffer_decode_loop.simps(2))

definition lmqtt_rx_buffer_decode ::
    "nat \<Rightarrow> 'w env \<Rightarrow> byte list \<Rightarrow> 'w sys \<Rightarrow> (io_result \<times> nat \<times> 'w sys) option" where
  "lmqtt_rx_buffer_decode n env bytes s =
     (if ri_error (ri s) \<noteq> NO_ERROR then Some (IO_ERROR, 0, s)
      else do {
        (ok, cnt, s1) \<leftarrow> rx_buffer_decode_loop n env bytes 0 s;
        Some (if \<not> ok then (IO_ERROR, cnt, s1)
          else if cnt > 0 then (IO_SUCCESS, cnt, upd_ri (\<lambda>i. i\<lparr>ri_blocking_str := None\<rparr>) s1)
          else if bytes = [] then (IO_SUCCESS, cnt, s1)
          else (IO_WOULD_BLOCK, cnt, s1))
      })"

end
