(* ===== verification/Client.thy ===== *)
theory Client
  imports Tx_Buffer Rx_Buffer
begin

text \<open>
  \<open>src/lmqtt_client.c\<close>: the state machine of the client (initial, connecting, connected,
  failed), its operations, the movement of bytes between the connection and the buffers, and
  \<open>lmqtt_client_run_once\<close>.

  Loops take a number \<open>n\<close> that bounds their rounds and the nesting of the calls below them,
  as in \<open>Client_Callbacks\<close>.
\<close>

section \<open>State transitions\<close>

definition set_ops_fail :: "'w sys \<Rightarrow> 'w sys" where
  "set_ops_fail s = s\<lparr>cl_op_subscribe := OP_FAIL, cl_op_unsubscribe := OP_FAIL,
     cl_op_publish := OP_FAIL, cl_op_pingreq := OP_FAIL, cl_op_disconnect := OP_FAIL\<rparr>"

definition client_set_state_initial :: "nat \<Rightarrow> 'w env \<Rightarrow> 'w sys \<Rightarrow> 'w sys option" where
  "client_set_state_initial n env s =
     do {
       let s1 = s\<lparr>cl_error := NO_ERROR, cl_os_error := 0, cl_closed := True\<rparr>;
       let (st, w) = lmqtt_store_touch (en_get_time env) (cl_connect_store s1) (sy_world s1);
       let s2 = s1\<lparr>cl_connect_store := st, sy_world := w\<rparr>;
       let s3 = client_set_current_store CONNECT_STORE s2;
       s4 \<leftarrow> client_cleanup_stores (client_flush_store n env) (cl_clean_session s3 = 0) s3;
       let s5 = lmqtt_tx_buffer_finish s4;
       Some (set_ops_fail (s5\<lparr>cl_op_connect := OP_DO\<rparr>))
     }"

definition client_set_state_connecting :: "'w sys \<Rightarrow> 'w sys" where
  "client_set_state_connecting s =
     (let s1 = s\<lparr>cl_error := NO_ERROR, cl_os_error := 0, cl_closed := False\<rparr>;
          s2 = lmqtt_tx_buffer_reset (lmqtt_rx_buffer_reset s1)
      in s2\<lparr>cl_read_buf_pos := 0, cl_write_buf_pos := 0, cl_op_connect := OP_FAIL\<rparr>)"

definition client_set_state_failed :: "'w sys \<Rightarrow> 'w sys option" where
  "client_set_state_failed s =
     do {
       c_assert (cl_error s \<noteq> NO_ERROR);
       Some (set_ops_fail (s\<lparr>cl_closed := True, cl_op_connect := OP_FAIL\<rparr>))
     }"

section \<open>Operations of the user\<close>

definition client_do_connect :: "addr \<Rightarrow> 'w sys \<Rightarrow> (bool \<times> 'w sys) option" where
  "client_do_connect a s =
     do {
       (_, c) \<leftarrow> get_connect (sy_heap s) (Some a);
       if \<not> lmqtt_connect_validate c then Some (False, s)
       else do {
         (ok, st) \<leftarrow> lmqtt_store_append (cl_connect_store s) KIND_CONNECT
           (Some \<lparr>sv_packet_id = 0, sv_value = Some a, sv_callback = Some ON_CONNACK,
              sv_callback_data = DATA_CLIENT\<rparr>);
         let s1 = s\<lparr>cl_connect_store := st\<rparr>;
         Some (if \<not> ok then (False, s1) else (True, client_set_state_connecting s1))
       }
     }"

definition client_subscribe_with_kind ::
    "addr \<Rightarrow> kind \<Rightarrow> entry_callback \<Rightarrow> 'w sys \<Rightarrow> (bool \<times> 'w sys) option" where
  "client_subscribe_with_kind a k cb s =
     do {
       (_, sub) \<leftarrow> get_subscribe (sy_heap s) (Some a);
       valid \<leftarrow> lmqtt_subscribe_validate sub;
       if \<not> valid then Some (False, s)
       else do {
         let (packet_id, st0) = lmqtt_store_get_id (cl_main_store s);
         (ok, st) \<leftarrow> lmqtt_store_append st0 k
           (Some \<lparr>sv_packet_id = packet_id, sv_value = Some a, sv_callback = Some cb,
              sv_callback_data = DATA_CLIENT\<rparr>);
         Some (ok, s\<lparr>cl_main_store := st\<rparr>)
       }
     }"

definition client_do_subscribe :: "addr \<Rightarrow> 'w sys \<Rightarrow> (bool \<times> 'w sys) option" where
  "client_do_subscribe a s = client_subscribe_with_kind a KIND_SUBSCRIBE ON_SUBACK s"

definition client_do_unsubscribe :: "addr \<Rightarrow> 'w sys \<Rightarrow> (bool \<times> 'w sys) option" where
  "client_do_unsubscribe a s = client_subscribe_with_kind a KIND_UNSUBSCRIBE ON_UNSUBACK s"

definition client_do_publish :: "addr \<Rightarrow> 'w sys \<Rightarrow> (bool \<times> 'w sys) option" where
  "client_do_publish a s =
     do {
       (_, m) \<leftarrow> get_publish (sy_heap s) (Some a);
       if \<not> lmqtt_publish_validate m then Some (False, s)
       else do {
         let (k, packet_id, st0) =
           (if pb_qos m = QOS_0 then (KIND_PUBLISH_0, 0, cl_main_store s)
            else (let (pid, st) = lmqtt_store_get_id (cl_main_store s)
                  in (if pb_qos m = QOS_1 then KIND_PUBLISH_1 else KIND_PUBLISH_2, pid, st)));
         (ok, st) \<leftarrow> lmqtt_store_append st0 k
           (Some \<lparr>sv_packet_id = packet_id, sv_value = Some a, sv_callback = Some ON_PUBLISH,
              sv_callback_data = DATA_CLIENT\<rparr>);
         Some (ok, s\<lparr>cl_main_store := st\<rparr>)
       }
     }"

definition client_do_pingreq :: "'w sys \<Rightarrow> (bool \<times> 'w sys) option" where
  "client_do_pingreq s =
     do {
       (ok, st) \<leftarrow> lmqtt_store_append (cl_main_store s) KIND_PINGREQ
         (Some \<lparr>sv_packet_id = 0, sv_value = None, sv_callback = Some ON_PINGRESP,
            sv_callback_data = DATA_CLIENT\<rparr>);
       Some (ok, s\<lparr>cl_main_store := st\<rparr>)
     }"

definition client_do_disconnect :: "'w sys \<Rightarrow> (bool \<times> 'w sys) option" where
  "client_do_disconnect s =
     do {
       (ok, st) \<leftarrow> lmqtt_store_append (cl_main_store s) KIND_DISCONNECT None;
       Some (ok, s\<lparr>cl_main_store := st\<rparr>)
     }"

text \<open>The call through one of the pointers in \<open>client->internal\<close>; a null pointer has no result.\<close>

definition call_op :: "op_ptr \<Rightarrow> ('w sys \<Rightarrow> (bool \<times> 'w sys) option) \<Rightarrow> 'w sys \<Rightarrow> (bool \<times> 'w sys) option"
  where
  "call_op p f s = (case p of OP_NULL \<Rightarrow> None | OP_DO \<Rightarrow> f s | OP_FAIL \<Rightarrow> Some (False, s))"

definition lmqtt_client_connect :: "addr \<Rightarrow> 'w sys \<Rightarrow> (bool \<times> 'w sys) option" where
  "lmqtt_client_connect a s = call_op (cl_op_connect s) (client_do_connect a) s"

definition lmqtt_client_subscribe :: "addr \<Rightarrow> 'w sys \<Rightarrow> (bool \<times> 'w sys) option" where
  "lmqtt_client_subscribe a s = call_op (cl_op_subscribe s) (client_do_subscribe a) s"

definition lmqtt_client_unsubscribe :: "addr \<Rightarrow> 'w sys \<Rightarrow> (bool \<times> 'w sys) option" where
  "lmqtt_client_unsubscribe a s = call_op (cl_op_unsubscribe s) (client_do_unsubscribe a) s"

definition lmqtt_client_publish :: "addr \<Rightarrow> 'w sys \<Rightarrow> (bool \<times> 'w sys) option" where
  "lmqtt_client_publish a s = call_op (cl_op_publish s) (client_do_publish a) s"

definition lmqtt_client_disconnect :: "'w sys \<Rightarrow> (bool \<times> 'w sys) option" where
  "lmqtt_client_disconnect s = call_op (cl_op_disconnect s) client_do_disconnect s"

section \<open>Transfers\<close>

text \<open>The two buffers of the client; a transfer works on one of them.\<close>

datatype buf_ref = READ_BUF | WRITE_BUF

fun get_buf :: "buf_ref \<Rightarrow> 'w sys \<Rightarrow> byte list" where
  "get_buf READ_BUF s = cl_read_buf s"
| "get_buf WRITE_BUF s = cl_write_buf s"

fun set_buf :: "buf_ref \<Rightarrow> byte list \<Rightarrow> 'w sys \<Rightarrow> 'w sys" where
  "set_buf READ_BUF b s = s\<lparr>cl_read_buf := b\<rparr>"
| "set_buf WRITE_BUF b s = s\<lparr>cl_write_buf := b\<rparr>"

fun get_buf_pos :: "buf_ref \<Rightarrow> 'w sys \<Rightarrow> nat" where
  "get_buf_pos READ_BUF s = cl_read_buf_pos s"
| "get_buf_pos WRITE_BUF s = cl_write_buf_pos s"

fun set_buf_pos :: "buf_ref \<Rightarrow> nat \<Rightarrow> 'w sys \<Rightarrow> 'w sys" where
  "set_buf_pos READ_BUF p s = s\<lparr>cl_read_buf_pos := p\<rparr>"
| "set_buf_pos WRITE_BUF p s = s\<lparr>cl_write_buf_pos := p\<rparr>"

fun get_buf_capacity :: "buf_ref \<Rightarrow> 'w sys \<Rightarrow> nat" where
  "get_buf_capacity READ_BUF s = cl_read_buf_capacity s"
| "get_buf_capacity WRITE_BUF s = cl_write_buf_capacity s"

text \<open>
  A wrapper gets the region of the buffer it may use. One that fills it returns the bytes it
  put there, one that empties it returns none; both return the count, the error and the
  error of the operating system to report should the result be \<open>IO_ERROR\<close>.
\<close>

type_synonym 'w transfer_wrapper =
  "byte list \<Rightarrow> 'w sys \<Rightarrow> (io_result \<times> byte list \<times> nat \<times> lmqtt_error \<times> int \<times> 'w sys) option"

record 'w transfer =
  tr_wrapper :: "'w transfer_wrapper"
  tr_block_status :: io_status
  tr_available :: bool
  tr_stale :: bool
  tr_result :: io_result
  tr_count :: nat

definition transfer_initialize :: "'w transfer_wrapper \<Rightarrow> io_status \<Rightarrow> 'w transfer" where
  "transfer_initialize wrapper block_status =
     \<lparr>tr_wrapper = wrapper, tr_block_status = block_status, tr_available = True,
      tr_stale = True, tr_result = IO_SUCCESS, tr_count = 2 ^ 64 - 1\<rparr>"

definition transfer_is_eof :: "'w transfer \<Rightarrow> bool" where
  "transfer_is_eof t \<longleftrightarrow> tr_result t = IO_SUCCESS \<and> tr_count t = 0"

definition transfer_append :: "'w transfer \<Rightarrow> buf_ref \<Rightarrow> 'w sys \<Rightarrow> 'w sys option" where
  "transfer_append t b s = Some (set_buf_pos b (get_buf_pos b s + tr_count t) s)"

definition transfer_shift :: "'w transfer \<Rightarrow> buf_ref \<Rightarrow> 'w sys \<Rightarrow> 'w sys option" where
  "transfer_shift t b s =
     do {
       buf \<leftarrow> arr_move (get_buf b s) 0 (tr_count t) (size_sub (get_buf_pos b s) (tr_count t));
       Some (set_buf_pos b (size_sub (get_buf_pos b s) (tr_count t)) (set_buf b buf s))
     }"

definition transfer_exec ::
    "'w transfer \<Rightarrow> buf_ref \<Rightarrow> ('w transfer \<Rightarrow> buf_ref \<Rightarrow> 'w sys \<Rightarrow> 'w sys option) \<Rightarrow> nat \<Rightarrow> nat \<Rightarrow>
       'w sys \<Rightarrow> (bool \<times> 'w transfer \<times> 'w sys) option" where
  "transfer_exec t b after_exec left right s =
     do {
       let t1 = t\<lparr>tr_available := tr_available t \<and> left < right\<rparr>;
       (t2, err, os_error, s2) \<leftarrow> (if tr_available t1
         then do {
           region \<leftarrow> arr_slice (get_buf b s) left (right - left);
           (result, bytes, cnt, err, os_error, s1) \<leftarrow> tr_wrapper t1 region s;
           buf \<leftarrow> arr_write (get_buf b s1) left bytes;
           let t2 = t1\<lparr>tr_result := result, tr_count := cnt\<rparr>;
           s2 \<leftarrow> after_exec t2 b (set_buf b buf s1);
           let t3 = t2\<lparr>tr_available := tr_result t2 = IO_SUCCESS \<and> tr_count t2 > 0\<rparr>;
           Some (if tr_available t3 then t3\<lparr>tr_stale := False\<rparr> else t3, err, os_error, s2)
         }
         else Some (t1, NO_ERROR, 0, s));
       Some (if tr_result t2 = IO_ERROR
         then (False, t2, s2\<lparr>cl_error := err, cl_os_error := os_error\<rparr>)
         else (True, t2, s2))
     }"

section \<open>Processing input and output\<close>

text \<open>
  The loop of \<open>client_buffer_transfer\<close>. The result says whether it ended without an error.
\<close>

primrec transfer_loop ::
    "nat \<Rightarrow> buf_ref \<Rightarrow> 'w transfer \<Rightarrow> 'w transfer \<Rightarrow> 'w sys \<Rightarrow>
       (bool \<times> 'w transfer \<times> 'w transfer \<times> 'w sys) option" where
  "transfer_loop 0 b input output s = None"
| "transfer_loop (Suc n) b input output s =
     (if \<not> tr_available input \<and> \<not> tr_available output then Some (True, input, output, s)
      else do {
        (ok, input1, s1) \<leftarrow> transfer_exec input b transfer_append (get_buf_pos b s)
          (get_buf_capacity b s) s;
        if \<not> ok then Some (False, input1, output, s1)
        else do {
          (ok', output1, s2) \<leftarrow> transfer_exec output b transfer_shift 0 (get_buf_pos b s1) s1;
          if \<not> ok' then Some (False, input1, output1, s2)
          else transfer_loop n b input1 output1 s2
        }
      })"

definition client_buffer_transfer ::
    "nat \<Rightarrow> 'w env \<Rightarrow> 'w transfer \<Rightarrow> 'w transfer \<Rightarrow> buf_ref \<Rightarrow> 'w sys \<Rightarrow> (io_status \<times> 'w sys) option"
  where
  "client_buffer_transfer n env input output b s =
     (if cl_error s \<noteq> NO_ERROR then Some (STATUS_ERROR, s)
      else do {
        (ok, input1, output1, s1) \<leftarrow> transfer_loop n b input output s;
        if \<not> ok then do { s2 \<leftarrow> client_set_state_failed s1; Some (STATUS_ERROR, s2) }
        else do {
          let s2 = (if \<not> tr_stale input1 \<or> \<not> tr_stale output1
            then (let r = cl_current_store s1;
                      (st, w) = lmqtt_store_touch (en_get_time env) (get_store r s1) (sy_world s1)
                  in (set_store r st s1)\<lparr>sy_world := w\<rparr>)
            else s1);
          if transfer_is_eof input1 \<or> transfer_is_eof output1
          then do { s3 \<leftarrow> client_set_state_initial n env s2; Some (STATUS_READY, s3) }
          else if tr_result input1 = IO_WOULD_BLOCK \<and> get_buf_pos b s2 = 0
          then Some (tr_block_status input1, s2)
          else Some (tr_block_status output1, s2)
        }
      })"

definition client_wrapper_decode :: "nat \<Rightarrow> 'w env \<Rightarrow> 'w transfer_wrapper" where
  "client_wrapper_decode n env region s =
     do {
       (result, cnt, s1) \<leftarrow> lmqtt_rx_buffer_decode n env region s;
       let (err, os_error) = lmqtt_rx_buffer_get_error s1;
       Some (result, [], cnt, err, os_error, s1)
     }"

definition client_wrapper_encode :: "nat \<Rightarrow> 'w env \<Rightarrow> 'w transfer_wrapper" where
  "client_wrapper_encode n env region s =
     do {
       (result, bytes, s1) \<leftarrow> lmqtt_tx_buffer_encode n env (length region) s;
       let (err, os_error) = lmqtt_tx_buffer_get_error s1;
       Some (result, bytes, length bytes, err, os_error, s1)
     }"

definition client_wrapper_read :: "'w env \<Rightarrow> 'w transfer_wrapper" where
  "client_wrapper_read env region s =
     (let (result, bytes, os_error, w) = en_net_read env (length region) (sy_world s)
      in do {
        c_assert (length bytes \<le> length region);
        Some (result, bytes, length bytes, ERROR_CONNECTION_READ, os_error, s\<lparr>sy_world := w\<rparr>)
      })"

definition client_wrapper_write :: "'w env \<Rightarrow> 'w transfer_wrapper" where
  "client_wrapper_write env region s =
     (let (result, cnt, os_error, w) = en_net_write env region (sy_world s)
      in Some (result, [], cnt, ERROR_CONNECTION_WRITE, os_error, s\<lparr>sy_world := w\<rparr>))"

definition client_process_input :: "nat \<Rightarrow> 'w env \<Rightarrow> 'w sys \<Rightarrow> (io_status \<times> 'w sys) option" where
  "client_process_input n env s =
     client_buffer_transfer n env
       (transfer_initialize (client_wrapper_read env) STATUS_BLOCK_CONN)
       (transfer_initialize (client_wrapper_decode n env) STATUS_BLOCK_DATA) READ_BUF s"

definition client_process_output :: "nat \<Rightarrow> 'w env \<Rightarrow> 'w sys \<Rightarrow> (io_status \<times> 'w sys) option" where
  "client_process_output n env s =
     client_buffer_transfer n env
       (transfer_initialize (client_wrapper_encode n env) STATUS_BLOCK_DATA)
       (transfer_initialize (client_wrapper_write env) STATUS_BLOCK_CONN) WRITE_BUF s"

section \<open>Keep-alive\<close>

definition client_keep_alive :: "'w env \<Rightarrow> 'w sys \<Rightarrow> (io_status \<times> 'w sys) option" where
  "client_keep_alive env s =
     (if cl_error s \<noteq> NO_ERROR then Some (STATUS_ERROR, s)
      else
        (let (r, cnt, secs, ns, w) = lmqtt_store_get_timeout (en_get_time env)
               (get_store (cl_current_store s) s) (sy_world s);
             s1 = s\<lparr>sy_world := w\<rparr>
         in if \<not> r \<or> secs \<noteq> 0 \<or> ns \<noteq> 0 then Some (STATUS_READY, s1)
            else if cnt > 0
            then do {
              s2 \<leftarrow> client_set_state_failed (s1\<lparr>cl_error := ERROR_TIMEOUT, cl_os_error := 0\<rparr>);
              Some (STATUS_ERROR, s2)
            }
            else do {
              (_, s2) \<leftarrow> call_op (cl_op_pingreq s1) client_do_pingreq s1;
              Some (STATUS_READY, s2)
            }))"

section \<open>One step of the client\<close>

definition RES_ERROR :: int where "RES_ERROR = 0x00ff"
definition RES_WOULD_BLOCK_CONN_RD :: int where "RES_WOULD_BLOCK_CONN_RD = 0x0100"
definition RES_WOULD_BLOCK_CONN_WR :: int where "RES_WOULD_BLOCK_CONN_WR = 0x0200"
definition RES_WOULD_BLOCK_DATA_RD :: int where "RES_WOULD_BLOCK_DATA_RD = 0x0400"
definition RES_WOULD_BLOCK_DATA_WR :: int where "RES_WOULD_BLOCK_DATA_WR = 0x0800"
definition RES_EOF :: int where "RES_EOF = 0x1000"
definition RES_QUEUEABLE :: int where "RES_QUEUEABLE = 0x2000"

lemmas res_defs = RES_ERROR_def RES_WOULD_BLOCK_CONN_RD_def RES_WOULD_BLOCK_CONN_WR_def
  RES_WOULD_BLOCK_DATA_RD_def RES_WOULD_BLOCK_DATA_WR_def RES_EOF_def RES_QUEUEABLE_def

definition res_is_error :: "int \<Rightarrow> bool" where
  "res_is_error res \<longleftrightarrow> res AND RES_ERROR \<noteq> 0"

definition res_would_block_conn_wr :: "int \<Rightarrow> bool" where
  "res_would_block_conn_wr res \<longleftrightarrow>
     res AND (RES_EOF OR RES_WOULD_BLOCK_CONN_WR) = RES_WOULD_BLOCK_CONN_WR"

definition res_is_eof :: "int \<Rightarrow> bool" where
  "res_is_eof res \<longleftrightarrow> res AND RES_EOF \<noteq> 0"

text \<open>
  \<open>blocking\<close> reads the blocking string after the processing. The results: whether to go on,
  \<open>*return_val\<close> and \<open>*blk_str_out\<close>.
\<close>

definition client_process_buffer ::
    "('w sys \<Rightarrow> (io_status \<times> 'w sys) option) \<Rightarrow> int \<Rightarrow> int \<Rightarrow> ('w sys \<Rightarrow> str_ref option) \<Rightarrow> int \<Rightarrow>
       str_ref option \<Rightarrow> 'w sys \<Rightarrow> (bool \<times> int \<times> str_ref option \<times> 'w sys) option" where
  "client_process_buffer process conn_val data_val blocking return_val blk_str s =
     do {
       (res, s1) \<leftarrow> process s;
       case res of
         STATUS_READY \<Rightarrow> Some (False, RES_EOF OR conn_val, blk_str, s1)
       | STATUS_ERROR \<Rightarrow> do {
           c_assert (cl_error s1 \<noteq> NO_ERROR);
           Some (False, int (error_code (cl_error s1)) AND RES_ERROR, blk_str, s1)
         }
       | STATUS_BLOCK_CONN \<Rightarrow> Some (True, return_val OR conn_val, blk_str, s1)
       | STATUS_BLOCK_DATA \<Rightarrow> Some (True,
           if blocking s1 \<noteq> None then return_val OR data_val else return_val, blocking s1, s1)
     }"

text \<open>The results of \<open>lmqtt_client_run_once\<close> are the flags, \<open>*str_rd\<close> and \<open>*str_wr\<close>.\<close>

primrec run_once_loop ::
    "nat \<Rightarrow> 'w env \<Rightarrow> 'w sys \<Rightarrow> (int \<times> str_ref option \<times> str_ref option \<times> 'w sys) option" where
  "run_once_loop 0 env s = None"
| "run_once_loop (Suc n) env s =
     do {
       (go, result, str_rd, s1) \<leftarrow> client_process_buffer (client_process_output n env)
         RES_WOULD_BLOCK_CONN_WR RES_WOULD_BLOCK_DATA_RD lmqtt_tx_buffer_get_blocking_str 0 None s;
       if \<not> go then Some (result, str_rd, None, s1)
       else do {
         has_cur_before \<leftarrow> lmqtt_store_has_current (get_store (cl_current_store s1) s1);
         (go', result', str_wr, s2) \<leftarrow> client_process_buffer (client_process_input n env)
           RES_WOULD_BLOCK_CONN_RD RES_WOULD_BLOCK_DATA_WR lmqtt_rx_buffer_get_blocking_str
           result None s1;
         if \<not> go' then Some (result', str_rd, str_wr, s2)
         else do {
           has_cur_after \<leftarrow> lmqtt_store_has_current (get_store (cl_current_store s2) s2);
           if \<not> res_would_block_conn_wr result' \<and> \<not> has_cur_before \<and> has_cur_after
           then run_once_loop n env s2
           else Some (if lmqtt_store_is_queueable (cl_main_store s2)
             then result' OR RES_QUEUEABLE else result', str_rd, str_wr, s2)
         }
       }
     }"

definition lmqtt_client_run_once ::
    "nat \<Rightarrow> 'w env \<Rightarrow> 'w sys \<Rightarrow> (int \<times> str_ref option \<times> str_ref option \<times> 'w sys) option" where
  "lmqtt_client_run_once n env s =
     do {
       (status, s1) \<leftarrow> client_keep_alive env s;
       if status = STATUS_ERROR
       then do {
         c_assert (cl_error s1 \<noteq> NO_ERROR);
         Some (int (error_code (cl_error s1)) AND RES_ERROR, None, None, s1)
       }
       else run_once_loop n env s1
     }"

section \<open>Life cycle and settings\<close>

text \<open>
  \<open>lmqtt_client_buffers_t\<close>: each buffer is the memory the user provides and its size in
  bytes. \<open>sizeof_store_entry\<close> is \<open>sizeof(lmqtt_store_entry_t)\<close> with 8-byte pointers.
\<close>

record client_buffers =
  cb_store_size :: nat
  cb_store :: "store_entry list"
  cb_rx_buffer_size :: nat
  cb_rx_buffer :: "byte list"
  cb_tx_buffer_size :: nat
  cb_tx_buffer :: "byte list"
  cb_id_set_size :: nat
  cb_id_set :: "packet_id list"

definition sizeof_store_entry :: nat where "sizeof_store_entry = 40"

text \<open>
  The client after \<open>memset\<close> and the assignments of \<open>lmqtt_client_initialize\<close>. The store
  pointers are null there; \<open>MAIN_STORE\<close> stands in for null until \<open>client_set_state_initial\<close>
  sets them, before anything follows them.
\<close>

definition client_setup :: "client_buffers \<Rightarrow> heap \<Rightarrow> 'w \<Rightarrow> 'w sys" where
  "client_setup buffers hp w =
     \<lparr>cl_on_connect = None, cl_on_connect_data = 0, cl_on_subscribe = None,
      cl_on_subscribe_data = 0, cl_on_unsubscribe = None, cl_on_unsubscribe_data = 0,
      cl_on_publish = None, cl_on_publish_data = 0, cl_closed = False, cl_clean_session = 0,
      cl_rx = \<lparr>rx_store = MAIN_STORE,
        rx_id_set = \<lparr>ids_items = cb_id_set buffers, ids_capacity = cb_id_set_size buffers,
          ids_count = 0\<rparr>, rx_internal = rx_internal_zero\<rparr>,
      cl_tx = \<lparr>tx_store = MAIN_STORE, tx_closed = False, tx_internal = tx_internal_zero\<rparr>,
      cl_read_buf = cb_rx_buffer buffers, cl_read_buf_pos = 0,
      cl_read_buf_capacity = cb_rx_buffer_size buffers,
      cl_write_buf = cb_tx_buffer buffers, cl_write_buf_pos = 0,
      cl_write_buf_capacity = cb_tx_buffer_size buffers,
      cl_main_store = (fresh_store 0)
        \<lparr>st_entries := cb_store buffers, st_capacity := cb_store_size buffers div sizeof_store_entry\<rparr>,
      cl_connect_store = fresh_store 1, cl_current_store = MAIN_STORE,
      cl_message_callbacks = \<lparr>mc_on_publish = None, mc_on_publish_allocate_topic = None,
        mc_on_publish_allocate_payload = None, mc_on_publish_deallocate = None,
        mc_on_publish_data = 0\<rparr>,
      cl_error = NO_ERROR, cl_os_error = 0, cl_op_connect = OP_NULL, cl_op_subscribe = OP_NULL,
      cl_op_unsubscribe = OP_NULL, cl_op_publish = OP_NULL, cl_op_pingreq = OP_NULL,
      cl_op_disconnect = OP_NULL, sy_heap = hp, sy_world = w\<rparr>"

definition lmqtt_client_initialize ::
    "nat \<Rightarrow> 'w env \<Rightarrow> client_buffers \<Rightarrow> heap \<Rightarrow> 'w \<Rightarrow> 'w sys option" where
  "lmqtt_client_initialize n env buffers hp w =
     client_set_state_initial n env (client_setup buffers hp w)"

definition lmqtt_client_reset :: "nat \<Rightarrow> 'w env \<Rightarrow> 'w sys \<Rightarrow> 'w sys option" where
  "lmqtt_client_reset n env s =
     (if cl_closed s \<and> cl_error s \<noteq> ERROR_CLOSED then client_set_state_initial n env s
      else Some s)"

definition lmqtt_client_finalize :: "nat \<Rightarrow> 'w env \<Rightarrow> 'w sys \<Rightarrow> 'w sys option" where
  "lmqtt_client_finalize n env s =
     do {
       s1 \<leftarrow> client_set_state_failed (s\<lparr>cl_error := ERROR_CLOSED, cl_os_error := 0\<rparr>);
       s2 \<leftarrow> lmqtt_rx_buffer_finish n env s1;
       client_cleanup_stores (client_flush_store n env) False s2
     }"

definition lmqtt_client_set_on_connect :: "fnptr option \<Rightarrow> nat \<Rightarrow> 'w sys \<Rightarrow> 'w sys" where
  "lmqtt_client_set_on_connect f data s = s\<lparr>cl_on_connect := f, cl_on_connect_data := data\<rparr>"

definition lmqtt_client_set_on_subscribe :: "fnptr option \<Rightarrow> nat \<Rightarrow> 'w sys \<Rightarrow> 'w sys" where
  "lmqtt_client_set_on_subscribe f data s = s\<lparr>cl_on_subscribe := f, cl_on_subscribe_data := data\<rparr>"

definition lmqtt_client_set_on_unsubscribe :: "fnptr option \<Rightarrow> nat \<Rightarrow> 'w sys \<Rightarrow> 'w sys" where
  "lmqtt_client_set_on_unsubscribe f data s =
     s\<lparr>cl_on_unsubscribe := f, cl_on_unsubscribe_data := data\<rparr>"

definition lmqtt_client_set_on_publish :: "fnptr option \<Rightarrow> nat \<Rightarrow> 'w sys \<Rightarrow> 'w sys" where
  "lmqtt_client_set_on_publish f data s = s\<lparr>cl_on_publish := f, cl_on_publish_data := data\<rparr>"

definition lmqtt_client_set_message_callbacks :: "message_callbacks \<Rightarrow> 'w sys \<Rightarrow> 'w sys" where
  "lmqtt_client_set_message_callbacks mc s = s\<lparr>cl_message_callbacks := mc\<rparr>"

definition lmqtt_client_set_default_timeout :: "ushort \<Rightarrow> 'w sys \<Rightarrow> 'w sys" where
  "lmqtt_client_set_default_timeout secs s =
     s\<lparr>cl_main_store := (cl_main_store s)\<lparr>st_timeout := secs\<rparr>,
       cl_connect_store := (cl_connect_store s)\<lparr>st_timeout := secs\<rparr>\<rparr>"

definition lmqtt_client_get_os_error :: "'w sys \<Rightarrow> int" where
  "lmqtt_client_get_os_error s = cl_os_error s"

definition lmqtt_client_get_timeout :: "'w env \<Rightarrow> 'w sys \<Rightarrow> bool \<times> int \<times> int \<times> 'w" where
  "lmqtt_client_get_timeout env s =
     (let (r, cnt, secs, nsecs, w) = lmqtt_store_get_timeout (en_get_time env)
            (get_store (cl_current_store s) s) (sy_world s)
      in (r, secs, nsecs, w))"

end
