(* ===== verification/Resumable_Encoding.thy ===== *)
theory Resumable_Encoding
  imports Packet_Encoders
begin

text \<open>
  Encoders that stop where the output is full and go on there at the next call. The locale
  \<open>resumable_encoder\<close> is the contract \<open>lmqtt_tx_buffer_encode\<close> relies on; it is
  interpreted for headers in the staging buffer (\<open>encode_buffer_encode\<close>) and for strings
  (\<open>string_encode\<close>). Its consequence: however the output is cut into pieces, the bytes
  written are the same.
\<close>

section \<open>The contract\<close>

text \<open>
  \<open>ready s off\<close>: the encoder is in state \<open>s\<close> and \<open>off\<close> bytes of the part are already out;
  \<open>total s\<close> is the whole part.
\<close>

locale resumable_encoder =
  fixes step :: "'s \<Rightarrow> nat \<Rightarrow> nat \<Rightarrow> (encode_result \<times> byte list \<times> 's) option"
    and ready :: "'s \<Rightarrow> nat \<Rightarrow> bool"
    and total :: "'s \<Rightarrow> byte list"
  assumes ready_offset: "ready s off \<Longrightarrow> off < length (total s)"
    and step_last: "ready s off \<Longrightarrow> length (total s) - off \<le> room \<Longrightarrow>
      \<exists>s'. step s off room = Some (ENCODE_FINISHED, drop off (total s), s')"
    and step_more: "ready s off \<Longrightarrow> 0 < room \<Longrightarrow> room < length (total s) - off \<Longrightarrow>
      \<exists>s'. step s off room = Some (ENCODE_CONTINUE, take room (drop off (total s)), s') \<and>
        ready s' (off + room) \<and> total s' = total s"

text \<open>
  A sequence of calls with the given amounts of room, as a caller makes them that offers a
  new output buffer each time and counts the bytes in \<open>offset\<close>: whether the part was
  finished, and all the bytes.
\<close>

fun encode_drive ::
    "('s \<Rightarrow> nat \<Rightarrow> nat \<Rightarrow> (encode_result \<times> byte list \<times> 's) option) \<Rightarrow> nat list \<Rightarrow> nat \<Rightarrow> 's \<Rightarrow>
       (bool \<times> byte list) option" where
  "encode_drive step [] off s = Some (False, [])"
| "encode_drive step (room # rooms) off s =
     do {
       (res, out, s') \<leftarrow> step s off room;
       case res of
         ENCODE_FINISHED \<Rightarrow> Some (True, out)
       | ENCODE_CONTINUE \<Rightarrow> do {
           (fin, out') \<leftarrow> encode_drive step rooms (off + length out) s';
           Some (fin, out @ out')
         }
       | _ \<Rightarrow> None
     }"

context resumable_encoder
begin

lemma drive_total:
  assumes "ready s off" and "\<forall>room \<in> set rooms. 0 < room"
  shows "encode_drive step rooms off s =
    Some (length (total s) - off \<le> sum_list rooms, take (sum_list rooms) (drop off (total s)))"
  using assms
proof (induction rooms arbitrary: off s)
  case Nil
  then show ?case using ready_offset by fastforce
next
  case (Cons room rooms)
  show ?case
  proof (cases "length (total s) - off \<le> room")
    case True
    then obtain s' where st: "step s off room = Some (ENCODE_FINISHED, drop off (total s), s')"
      using step_last Cons.prems by blast
    then show ?thesis using True by simp
  next
    case False
    then obtain s' where st: "step s off room = Some (ENCODE_CONTINUE, take room (drop off (total s)), s')"
      and rd: "ready s' (off + room)" and tt: "total s' = total s"
      using step_more [of s off room] Cons.prems by (metis list.set_intros(1) not_le)
    have len: "length (take room (drop off (total s))) = room" using False by simp
    have ih: "encode_drive step rooms (off + room) s' =
        Some (length (total s) - (off + room) \<le> sum_list rooms,
          take (sum_list rooms) (drop (off + room) (total s)))"
      using Cons.IH [OF rd] Cons.prems(2) tt by simp
    have "take (room + sum_list rooms) (drop off (total s)) =
        take room (drop off (total s)) @ take (sum_list rooms) (drop (off + room) (total s))"
      by (simp add: take_add add.commute)
    moreover have "(length (total s) - (off + room) \<le> sum_list rooms) =
        (length (total s) - off \<le> room + sum_list rooms)" using False by linarith
    ultimately show ?thesis using st ih len by simp
  qed
qed

end

section \<open>Headers in the staging buffer\<close>

definition encode_buffer_built :: "store_value \<Rightarrow> heap \<Rightarrow> builder \<Rightarrow> encode_buffer \<Rightarrow> encode_buffer option" where
  "encode_buffer_built value hp builder eb =
     (if eb_encoded eb then Some eb
      else do { b \<leftarrow> builder value hp eb; Some (b\<lparr>eb_encoded := True\<rparr>) })"

definition staged_ready :: "store_value \<Rightarrow> heap \<Rightarrow> builder \<Rightarrow> encode_buffer \<Rightarrow> nat \<Rightarrow> bool" where
  "staged_ready value hp builder eb off \<longleftrightarrow> (case encode_buffer_built value hp builder eb of
     Some b \<Rightarrow> eb_encoded b \<and> off < eb_buf_len b \<and> eb_buf_len b \<le> length (eb_buf b) | None \<Rightarrow> False)"

definition staged_bytes :: "store_value \<Rightarrow> heap \<Rightarrow> builder \<Rightarrow> encode_buffer \<Rightarrow> byte list" where
  "staged_bytes value hp builder eb = (case encode_buffer_built value hp builder eb of
     Some b \<Rightarrow> take (eb_buf_len b) (eb_buf b) | None \<Rightarrow> [])"

lemma encode_buffer_encode_alt:
  "encode_buffer_encode eb value builder off room hp =
     do {
       eb1 \<leftarrow> encode_buffer_built value hp builder eb;
       c_assert (eb_buf_len eb1 > 0 \<and> off < eb_buf_len eb1);
       if eb_buf_len eb1 - off > room
       then do { out \<leftarrow> arr_slice (eb_buf eb1) off room; Some (ENCODE_CONTINUE, out, eb1) }
       else do {
         out \<leftarrow> arr_slice (eb_buf eb1) off (eb_buf_len eb1 - off);
         Some (ENCODE_FINISHED, out, encode_buffer_zero) }
     }"
  by (simp add: encode_buffer_encode_def encode_buffer_built_def Let_def split: if_split Option.bind_splits)

interpretation staged: resumable_encoder
  "\<lambda>eb off room. encode_buffer_encode eb v builder off room hp"
  "staged_ready v hp builder" "staged_bytes v hp builder"
  for v hp builder
proof
  fix s off
  assume "staged_ready v hp builder s off"
  then show "off < length (staged_bytes v hp builder s)"
    by (auto simp: staged_ready_def staged_bytes_def split: option.splits)
next
  fix s off room
  assume a: "staged_ready v hp builder s off" "length (staged_bytes v hp builder s) - off \<le> room"
  then obtain b where b: "encode_buffer_built v hp builder s = Some b" "off < eb_buf_len b"
      "eb_buf_len b \<le> length (eb_buf b)"
    by (auto simp: staged_ready_def split: option.splits)
  then show "\<exists>s'. encode_buffer_encode s v builder off room hp =
      Some (ENCODE_FINISHED, drop off (staged_bytes v hp builder s), s')"
    using a by (simp add: encode_buffer_encode_alt staged_bytes_def arr_simps drop_take)
next
  fix s off and room :: nat
  assume a: "staged_ready v hp builder s off" "0 < room"
    "room < length (staged_bytes v hp builder s) - off"
  then obtain b where b: "encode_buffer_built v hp builder s = Some b" "off < eb_buf_len b"
      "eb_buf_len b \<le> length (eb_buf b)" and enc: "eb_encoded b"
    by (auto simp: staged_ready_def split: option.splits)
  have again: "encode_buffer_built v hp builder b = Some b"
    using enc by (simp add: encode_buffer_built_def)
  have lt: "room < eb_buf_len b - off"
    using a(3) b by (simp add: staged_bytes_def min_def split: if_splits)
  then have "off + room < eb_buf_len b" by linarith
  then show "\<exists>s'. encode_buffer_encode s v builder off room hp =
        Some (ENCODE_CONTINUE, take room (drop off (staged_bytes v hp builder s)), s') \<and>
      staged_ready v hp builder s' (off + room) \<and>
      staged_bytes v hp builder s' = staged_bytes v hp builder s"
    using lt b again enc
    by (simp add: encode_buffer_encode_alt staged_bytes_def staged_ready_def arr_simps drop_take)
qed


section \<open>Strings\<close>

lemma string_read_buffer:
  assumes "str_read str = None" and "str_buf str = Some b" and "0 \<le> str_pos str" and "0 < n"
    and "str_pos str + int n \<le> str_len str" and "str_len str \<le> int (length b)"
  shows "string_read io str n w =
    Some (STRING_SUCCESS, take n (drop (nat (str_pos str)) b), 0,
      str\<lparr>str_pos := str_pos str + int n\<rparr>, w)"
proof -
  have "nat (str_pos str) + n \<le> length b" using assms(3,5,6) by linarith
  moreover have "str\<lparr>str_buf := Some b, str_pos := x\<rparr> = str\<lparr>str_pos := x\<rparr>" for x
    using assms(2) by (cases str) simp
  ultimately show ?thesis
    using assms by (simp add: string_read_def string_move_def arr_simps)
qed

definition string_offset :: "bool \<Rightarrow> nat \<Rightarrow> nat" where
  "string_offset encode_len off = (if encode_len then off - 2 else off)"

definition string_bytes :: "bool \<Rightarrow> lstring \<Rightarrow> byte list" where
  "string_bytes encode_len str = (case str_buf str of
     Some b \<Rightarrow> (if encode_len then be16 (str_len str) else []) @ take (nat (str_len str)) b
   | None \<Rightarrow> [])"

definition string_ready :: "bool \<Rightarrow> lstring \<Rightarrow> nat \<Rightarrow> bool" where
  "string_ready encode_len str off \<longleftrightarrow> str_read str = None \<and> 0 < str_len str \<and>
     str_len str < 2 ^ 62 \<and>
     (case str_buf str of Some b \<Rightarrow> str_len str \<le> int (length b) | None \<Rightarrow> False) \<and>
     off < length (string_bytes encode_len str) \<and>
     (0 < string_offset encode_len off \<longrightarrow> str_pos str = int (string_offset encode_len off))"

lemma string_encode_tail:
  assumes rd: "str_read str = None" and b: "str_buf str = Some b" and len: "0 < str_len str"
    "str_len str < 2 ^ 62" "str_len str \<le> int (length b)"
    and room: "length out < room"
    and off: "off < nat (str_len str) + (if encode_len then 2 else 0)"
    and loop: "(if encode_len then string_len_loop [0, 1] (str_len str) off room [] else Inr []) = Inr out"
    and pos: "0 < string_offset encode_len off \<longrightarrow> str_pos str = int (string_offset encode_len off)"
  shows "\<exists>eb'. string_encode io self str encode_len e off room eb w =
    Some (if nat (str_len str) - string_offset encode_len off \<le> room - length out
        then ENCODE_FINISHED else ENCODE_CONTINUE,
      out @ take (room - length out)
        (drop (string_offset encode_len off) (take (nat (str_len str)) b)),
      str\<lparr>str_pos := int (string_offset encode_len off) +
        int (min (nat (str_len str) - string_offset encode_len off) (room - length out))\<rparr>, eb', w)"
proof -
  define o' where "o' = string_offset encode_len off"
  define n where "n = min (nat (str_len str) - o') (room - length out)"
  define str1 where "str1 = (if o' = 0 then str\<lparr>str_pos := 0\<rparr> else str)"
  have o_lt: "o' < nat (str_len str)"
    using off len(1) by (auto simp: o'_def string_offset_def)
  have n_pos: "0 < n" using o_lt room by (simp add: n_def)
  have o_eq: "(if encode_len then if off \<le> 2 then 0 else off - 2 else off) = o'"
    by (simp add: o'_def string_offset_def)
  have asrt: "off < size_of_long (str_len str + (if encode_len then 2 else 0))"
  proof -
    have "size_of_long (str_len str + (if encode_len then 2 else 0)) =
        nat (str_len str) + (if encode_len then 2 else 0)"
      using len by (simp add: nat_add_distrib)
    then show ?thesis using off by (simp only:)
  qed
  have remaining: "str_len str - int o' = int (nat (str_len str) - o')"
    using o_lt by simp
  have n_eq: "size_of_long (if str_len str - int o' > int (room - length out)
      then int (room - length out) else str_len str - int o') = n"
  proof -
    have "(if str_len str - int o' > int (room - length out)
        then int (room - length out) else str_len str - int o') = int n"
      unfolding remaining by (simp add: n_def)
    moreover have "int n \<le> str_len str" using len(1) by (simp add: n_def)
    ultimately show ?thesis using len(2) by simp
  qed
  have str1: "str_read str1 = None" "str_buf str1 = Some b" "str_pos str1 = int o'" "str_len str1 = str_len str"
    using rd b pos by (auto simp: str1_def o'_def)
  have read: "string_read io str1 n w = Some (STRING_SUCCESS, take n (drop o' b), 0,
      str1\<lparr>str_pos := int o' + int n\<rparr>, w)"
    using string_read_buffer [of str1 b n io w] str1 n_pos len(3) o_lt by (simp add: n_def)
  have guard: "\<not> (str_len str = 0 \<and> \<not> e)" "room \<noteq> 0" using len(1) room by auto
  have bytes: "take n (drop o' b) = take (room - length out) (drop o' (take (nat (str_len str)) b))"
    by (simp add: n_def drop_take min.commute)
  have len_out: "length (take n (drop o' b)) = n"
    using len(3) o_lt by (simp add: n_def)
  have fin: "(int n \<ge> str_len str - int o') = (nat (str_len str) - o' \<le> room - length out)"
    unfolding remaining by (simp add: n_def)
  have le: "int n \<le> str_len str - int o'"
    unfolding remaining by (simp add: n_def)
  have upd: "str1\<lparr>str_pos := int o' + int n\<rparr> = str\<lparr>str_pos := int o' + int n\<rparr>"
    by (simp add: str1_def)
  show ?thesis
    unfolding o'_def [symmetric] n_def [symmetric] bytes [symmetric]
    using n_pos
    by (simp only: string_encode_def Let_def guard if_False asrt c_assert_True Option.bind.bind_lunit
        loop sum.case o_eq n_eq str1_def [symmetric] read prod.case len_out le fin upd) simp
qed


lemma length_string_bytes:
  "str_buf str = Some b \<Longrightarrow> str_len str \<le> int (length b) \<Longrightarrow>
     length (string_bytes encode_len str) = nat (str_len str) + (if encode_len then 2 else 0)"
  by (simp add: string_bytes_def)

lemma string_ready_same:
  "string_ready encode_len str off \<Longrightarrow> off' < length (string_bytes encode_len str) \<Longrightarrow>
     (0 < string_offset encode_len off' \<longrightarrow> p = int (string_offset encode_len off')) \<Longrightarrow>
     string_ready encode_len (str\<lparr>str_pos := p\<rparr>) off'"
  by (cases "str_buf str"; cases encode_len) (simp_all add: string_ready_def string_bytes_def)

lemma string_bytes_pos [simp]: "string_bytes encode_len (str\<lparr>str_pos := p\<rparr>) = string_bytes encode_len str"
  by (cases "str_buf str") (simp_all add: string_bytes_def)

lemma string_encode_len_only:
  assumes "string_len_loop [0, 1] (str_len str) off room [] = Inl (res, out)"
    and "0 < str_len str" "str_len str < 2 ^ 62" and "0 < room" and "off < 2"
  shows "string_encode io self str True e off room eb w =
    Some (res, out, str, eb\<lparr>eb_blocking_str := None\<rparr>, w)"
proof -
  have "size_of_long (str_len str + 2) = nat (str_len str) + 2"
    using assms by (simp add: nat_add_distrib)
  then have "off < size_of_long (str_len str + 2)" using assms(5) by (simp only:)
  then show ?thesis using assms by (simp add: string_encode_def Let_def)
qed

lemma string_encode_ready:
  assumes rd: "string_ready encode_len str off" and room: "0 < room"
  shows "\<exists>p eb'. string_encode io self str encode_len e off room eb w =
      Some (if length (string_bytes encode_len str) - off \<le> room then ENCODE_FINISHED else ENCODE_CONTINUE,
        take room (drop off (string_bytes encode_len str)), str\<lparr>str_pos := p\<rparr>, eb', w) \<and>
      (room < length (string_bytes encode_len str) - off \<longrightarrow>
        string_ready encode_len (str\<lparr>str_pos := p\<rparr>) (off + room))"
proof -
  obtain b where b: "str_buf str = Some b" "str_len str \<le> int (length b)"
    and r: "str_read str = None" "0 < str_len str" "str_len str < 2 ^ 62"
    and pos: "0 < string_offset encode_len off \<longrightarrow> str_pos str = int (string_offset encode_len off)"
    and off: "off < length (string_bytes encode_len str)"
    using rd by (auto simp: string_ready_def split: option.splits)
  note len = length_string_bytes [OF b, of encode_len]
  have off': "off < nat (str_len str) + (if encode_len then 2 else 0)" using off len by simp
  define n where "n = nat (str_len str)"
  have n: "0 < n" using r by (simp add: n_def)
  have same: "str\<lparr>str_pos := str_pos str\<rparr> = str" by simp
  consider (tail) out where "length out < room"
      "(if encode_len then string_len_loop [0, 1] (str_len str) off room [] else Inr []) = Inr out"
      "out = (if encode_len then drop off (be16 (str_len str)) else [])"
    | (len) "encode_len" "off < 2" "room \<le> 2 - off"
      "string_len_loop [0, 1] (str_len str) off room [] =
         Inl (ENCODE_CONTINUE, take room (drop off (be16 (str_len str))))"
  proof (cases encode_len)
    case False
    then show ?thesis using tail [of "[]"] room by simp
  next
    case True
    consider "off = 0" "room = 1" | "off = 0" "room = 2" | "off = 0" "2 < room"
      | "off = 1" "room = 1" | "off = 1" "1 < room" | "2 \<le> off"
      using room by linarith
    then show ?thesis
      by cases (use True room r tail [of "drop off (be16 (str_len str))"] len in
        \<open>simp_all add: be16_def Let_def numeral_2_eq_2\<close>)
  qed
  then show ?thesis
  proof cases
    case tail
    define so where "so = string_offset encode_len off"
    have drp: "drop off (string_bytes encode_len str) = out @ drop so (take n b)"
      using tail(3) b by (simp add: string_bytes_def string_offset_def n_def so_def)
    have len_out: "length out = (if encode_len then 2 - off else 0)"
      using tail(3) by simp
    have cnt: "length (string_bytes encode_len str) - off = length out + (n - so)"
      using len len_out off' by (simp add: string_offset_def n_def so_def) linarith
    have fin: "(n - so \<le> room - length out) =
        (length (string_bytes encode_len str) - off \<le> room)"
      using cnt tail(1) by linarith
    have out: "take room (drop off (string_bytes encode_len str)) =
        out @ take (room - length out) (drop so (take n b))"
      using drp tail(1) by simp
    define p where "p = int so + int (min (n - so) (room - length out))"
    obtain eb' where enc: "string_encode io self str encode_len e off room eb w =
        Some (if length (string_bytes encode_len str) - off \<le> room then ENCODE_FINISHED else ENCODE_CONTINUE,
          take room (drop off (string_bytes encode_len str)), str\<lparr>str_pos := p\<rparr>, eb', w)"
      using string_encode_tail [OF r(1) b(1) r(2,3) b(2) tail(1) off' tail(2) pos, of io self e eb w]
      unfolding so_def [symmetric] n_def [symmetric] p_def [symmetric] fin out by blast
    have "string_ready encode_len (str\<lparr>str_pos := p\<rparr>) (off + room)"
      if more: "room < length (string_bytes encode_len str) - off"
    proof (rule string_ready_same [OF rd])
      show "off + room < length (string_bytes encode_len str)" using more by simp
      have "string_offset encode_len (off + room) = so + (room - length out)"
        using len_out tail(1) by (simp add: so_def string_offset_def) linarith
      moreover have "room - length out \<le> n - so" using fin more by linarith
      ultimately show "0 < string_offset encode_len (off + room) \<longrightarrow>
          p = int (string_offset encode_len (off + room))"
        by (simp add: p_def)
    qed
    then show ?thesis using enc by blast
  next
    case len
    have more: "room < length (string_bytes encode_len str) - off"
      using \<open>length (string_bytes encode_len str) = _\<close> len n by (simp add: n_def)
    have out: "take room (drop off (string_bytes encode_len str)) =
        take room (drop off (be16 (str_len str)))"
      using b len by (simp add: string_bytes_def)
    have "string_ready encode_len (str\<lparr>str_pos := str_pos str\<rparr>) (off + room)"
      by (rule string_ready_same [OF rd])
        (use more len in \<open>simp_all add: string_offset_def\<close>)
    moreover have "string_encode io self str encode_len e off room eb w =
        Some (ENCODE_CONTINUE, take room (drop off (be16 (str_len str))),
          str\<lparr>str_pos := str_pos str\<rparr>, eb\<lparr>eb_blocking_str := None\<rparr>, w)"
      using string_encode_len_only [OF len(4) r(2,3) room len(2)] len(1) same by simp
    ultimately show ?thesis
      using more out
      by (intro exI [of _ "str_pos str"] exI [of _ "eb\<lparr>eb_blocking_str := None\<rparr>"]) simp
  qed
qed

definition string_step ::
    "'w io_env \<Rightarrow> str_ref \<Rightarrow> bool \<Rightarrow> bool \<Rightarrow> lstring \<times> encode_buffer \<times> 'w \<Rightarrow> nat \<Rightarrow> nat \<Rightarrow>
       (encode_result \<times> byte list \<times> lstring \<times> encode_buffer \<times> 'w) option" where
  "string_step io self encode_len encode_if_empty st off room =
     (case st of (str, eb, w) \<Rightarrow> string_encode io self str encode_len encode_if_empty off room eb w)"

interpretation str_enc: resumable_encoder "string_step io self encode_len encode_if_empty"
  "\<lambda>(str, eb, w). string_ready encode_len str" "\<lambda>(str, eb, w). string_bytes encode_len str"
  for io :: "'w io_env" and self encode_len encode_if_empty
proof
  fix s :: "lstring \<times> encode_buffer \<times> 'w" and off
  assume "(case s of (str, eb, w) \<Rightarrow> string_ready encode_len str) off"
  then show "off < length (case s of (str, eb, w) \<Rightarrow> string_bytes encode_len str)"
    by (simp add: string_ready_def split: prod.splits)
next
  fix s :: "lstring \<times> encode_buffer \<times> 'w" and off room
  assume a: "(case s of (str, eb, w) \<Rightarrow> string_ready encode_len str) off"
    "length (case s of (str, eb, w) \<Rightarrow> string_bytes encode_len str) - off \<le> room"
  obtain str eb w where s: "s = (str, eb, w)" by (cases s)
  have "0 < room" using a by (auto simp: s string_ready_def)
  then show "\<exists>s'. string_step io self encode_len encode_if_empty s off room =
      Some (ENCODE_FINISHED, drop off (case s of (str, eb, w) \<Rightarrow> string_bytes encode_len str), s')"
    using string_encode_ready [of encode_len str off room io self encode_if_empty eb w] a
    by (auto simp: s string_step_def)
next
  fix s :: "lstring \<times> encode_buffer \<times> 'w" and off room :: nat
  assume a: "(case s of (str, eb, w) \<Rightarrow> string_ready encode_len str) off" "0 < room"
    "room < length (case s of (str, eb, w) \<Rightarrow> string_bytes encode_len str) - off"
  obtain str eb w where s: "s = (str, eb, w)" by (cases s)
  show "\<exists>s'. string_step io self encode_len encode_if_empty s off room =
        Some (ENCODE_CONTINUE, take room (drop off (case s of (str, eb, w) \<Rightarrow> string_bytes encode_len str)), s') \<and>
      (case s' of (str, eb, w) \<Rightarrow> string_ready encode_len str) (off + room) \<and>
      (case s' of (str, eb, w) \<Rightarrow> string_bytes encode_len str) =
      (case s of (str, eb, w) \<Rightarrow> string_bytes encode_len str)"
    using string_encode_ready [of encode_len str off room io self encode_if_empty eb w] a
    by (force simp: s string_step_def)
qed

section \<open>Properties\<close>

text \<open>String callbacks that only fail, for strings that do not use them.\<close>

definition no_callbacks :: "unit io_env" where
  "no_callbacks = \<lparr>cb_read = \<lambda>f d k w. (IO_ERROR, [], 1, w), cb_write = \<lambda>f d bs w. (IO_ERROR, 0, 1, w)\<rparr>"



text \<open>
  C37. An empty string that is encoded with its length and split after its first length byte
  is not finished by a second call with room for one byte: the call reports that more is to
  come, and every later call fails the assertion on the offset. A CONNECT with an empty
  client identifier stops the program this way when the output has one byte left twice.
\<close>

theorem string_encode_empty_stuck:
  assumes "str_len str = 0" and "0 < room"
  shows "string_encode io self str True True 1 1 eb w =
      Some (ENCODE_CONTINUE, [0], str, eb\<lparr>eb_blocking_str := None\<rparr>, w) \<and>
    string_encode io self str True True 2 room eb w = None"
  using assms by (simp_all add: string_encode_def string_len_byte_def Let_def)

theorem string_encode_empty_stuck_witness:
  "string_encode no_callbacks (HEAP_STR 7 FIELD_CLIENT_ID) lstring_zero True True 1 1 encode_buffer_zero () =
      Some (ENCODE_CONTINUE, [0], lstring_zero, encode_buffer_zero\<lparr>eb_blocking_str := None\<rparr>, ()) \<and>
    string_encode no_callbacks (HEAP_STR 7 FIELD_CLIENT_ID) lstring_zero True True 2 8 encode_buffer_zero () = None"
  using string_encode_empty_stuck [of lstring_zero 8 no_callbacks "HEAP_STR 7 FIELD_CLIENT_ID" encode_buffer_zero "()"]
  by (simp add: lstring_zero_def)

text \<open>
  However the output is cut into pieces, the bytes of a header come out as the builder
  left them in the staging buffer, which is built once.
\<close>

theorem encode_buffer_chunks:
  assumes "eb_encoded eb = False" and "builder v hp eb = Some b"
    and "0 < eb_buf_len b" and "eb_buf_len b \<le> length (eb_buf b)"
    and "\<forall>room \<in> set rooms. 0 < room"
  shows "encode_drive (\<lambda>eb off room. encode_buffer_encode eb v builder off room hp) rooms 0 eb =
    Some (eb_buf_len b \<le> sum_list rooms, take (sum_list rooms) (take (eb_buf_len b) (eb_buf b)))"
proof -
  have built: "encode_buffer_built v hp builder eb = Some (b\<lparr>eb_encoded := True\<rparr>)"
    using assms(1,2) by (simp add: encode_buffer_built_def)
  have "staged_ready v hp builder eb 0"
    using assms(3,4) by (simp add: staged_ready_def built)
  then show ?thesis
    using staged.drive_total [of v hp builder eb 0 rooms] assms(4,5)
    by (simp add: staged_bytes_def built min_def)
qed

theorem encode_buffer_chunks_witness:
  "encode_drive (\<lambda>eb off room. encode_buffer_encode eb (store_value_zero\<lparr>sv_packet_id := 0x1234\<rparr>)
       puback_build off room Map.empty) [1, 3] 0 encode_buffer_zero =
    Some (True, [0x40, 2, 0x12, 0x34])"
proof -
  have ls: "encode_remaining_length PACKET_ID_SIZE = Some [2]"
    by (simp add: encode_remaining_length_def encode_loop_small)
  obtain buf where b: "puback_build (store_value_zero\<lparr>sv_packet_id := 0x1234\<rparr>) Map.empty encode_buffer_zero =
      Some (encode_buffer_zero\<lparr>eb_buf := buf, eb_buf_len := 4\<rparr>)"
    and "take 4 buf = [0x40, 2] @ be16 0x1234" and "length buf = 16"
    using encode_packet_id_spec [OF ls, of encode_buffer_zero 64 "0x1234"]
    by (auto simp: puback_build_def encode_buffer_zero_def)
  then show ?thesis
    using encode_buffer_chunks [of encode_buffer_zero puback_build _ Map.empty _ "[1, 3]", OF _ b]
    by (simp add: encode_buffer_zero_def be16_def string_len_byte_def)
qed

end
