(* ===== verification/Outgoing_Packets.thy ===== *)
theory Outgoing_Packets
  imports Resumable_Encoding
begin

text \<open>
  What the builders of outgoing packets put in the staging buffer: the headers of CONNECT and
  PUBLISH read back by the library's own decoder, the bytes of the acknowledgements, and the
  requests that pass validation and still cannot be encoded.
\<close>

section \<open>Example objects\<close>

definition example_topic :: lstring where
  "example_topic = lstring_zero\<lparr>str_len := 3, str_buf := Some [0x61, 0x2F, 0x62]\<rparr>"

definition example_message :: publish where
  "example_message = publish_zero\<lparr>pb_qos := 1, pb_topic := example_topic, pb_encode_count := 1\<rparr>"

lemma example_topic_fields [simp]:
  "str_len example_topic = 3" "str_buf example_topic = Some [0x61, 0x2F, 0x62]"
  "str_read example_topic = None" "str_len lstring_zero = 0"
  by (simp_all add: example_topic_def lstring_zero_def)

lemma example_message_fields [simp]:
  "pb_qos example_message = 1" "pb_retain example_message = 0" "pb_topic example_message = example_topic"
  "pb_payload example_message = lstring_zero" "pb_encode_count example_message = 1"
  by (simp_all add: example_message_def publish_zero_def)

lemma eb_buf_zero [simp]: "length (eb_buf encode_buffer_zero) = 16"
  by (simp add: encode_buffer_zero_def)

section \<open>Facts about the builders\<close>

lemma publish_build_spec:
  assumes "get_publish hp (sv_value v) = Some (a, m)" and "lmqtt_publish_validate m"
    and "0 \<le> str_len (pb_payload m)" and "5 \<le> length (eb_buf eb)"
    and "encode_remaining_length (publish_calc_remaining_length m) = Some ls" "length ls \<le> 4"
  shows "\<exists>buf. publish_build_fixed_header v hp eb =
      Some (eb\<lparr>eb_buf := buf, eb_buf_len := 1 + length ls\<rparr>) \<and>
    length buf = length (eb_buf eb) \<and> take (1 + length ls) buf = publish_type_byte m # ls"
proof -
  obtain buf1 where "arr_write (eb_buf eb) 1 ls = Some buf1" "length buf1 = length (eb_buf eb)"
    "0 < length buf1" "take (1 + length ls) (buf1[0 := publish_type_byte m]) = publish_type_byte m # ls"
    using builder_fixed_spec [of ls "eb_buf eb" "publish_type_byte m"] assms(4,6) by force
  then show ?thesis
    using assms by (intro exI [of _ "buf1[0 := publish_type_byte m]"])
      (simp add: publish_build_fixed_header_def arr_simps del: arr_iffs get_iffs)
qed

lemma publish_type_byte_uint:
  assumes "lmqtt_publish_validate m"
  shows "uint (publish_type_byte m) = 48 + (if pb_retain m \<noteq> 0 then 1 else 0) + 2 * pb_qos m +
    (if pb_encode_count m > 0 then 8 else 0)"
proof -
  consider "pb_qos m = 0" | "pb_qos m = 1" | "pb_qos m = 2"
    using assms by (fastforce simp: lmqtt_publish_validate_def is_valid_qos_def)
  then show ?thesis by cases (simp_all add: publish_type_byte_def Let_def)
qed


lemma publish_type_byte_decode:
  assumes "lmqtt_publish_validate m" and "pb_qos m = 0 \<longrightarrow> pb_encode_count m \<le> 0"
  obtains h1 where "fixed_header_decode fixed_header_zero (publish_type_byte m) = (h1, DECODE_CONTINUE, NO_ERROR)"
    and "fh_type h1 = 3" and "fh_qos h1 = pb_qos m"
    and "fh_retain h1 = (if pb_retain m \<noteq> 0 then 1 else 0)"
    and "fh_dup h1 = (if pb_encode_count m > 0 then 1 else 0)"
proof -
  have q: "pb_qos m = 0 \<or> pb_qos m = 1 \<or> pb_qos m = 2"
    using assms(1) by (auto simp: lmqtt_publish_validate_def is_valid_qos_def)
  define r where "r = (if pb_retain m \<noteq> 0 then 1 else (0::int))"
  define d where "d = (if pb_encode_count m > 0 then 1 else (0::int))"
  have r: "r = 0 \<or> r = 1" and d: "d = 0 \<or> d = 1" by (simp_all add: r_def d_def)
  have u: "uint (publish_type_byte m) = 48 + r + 2 * pb_qos m + 8 * d"
    using publish_type_byte_uint [OF assms(1)] by (simp add: r_def d_def)
  have ty: "uint (publish_type_byte m) div 16 = 3"
    and fl: "uint (publish_type_byte m) mod 16 = r + 2 * pb_qos m + 8 * d"
    unfolding u using q r d by (elim disjE; simp)+
  have f: "(r + 2 * pb_qos m + 8 * d) div 8 = d" "(r + 2 * pb_qos m + 8 * d) div 2 mod 4 = pb_qos m"
    "(r + 2 * pb_qos m + 8 * d) mod 2 = r"
    using q r d by (elim disjE; simp)+
  have "d = 1 \<Longrightarrow> pb_qos m \<noteq> 0" using assms(2) by (auto simp: d_def split: if_splits)
  then have "allowed_first_byte 3 (r + 2 * pb_qos m + 8 * d)"
    unfolding allowed_first_byte_def f using q by auto
  then show ?thesis
    using first_byte_decode [of "publish_type_byte m"] that
    unfolding ty fl f r_def [symmetric] d_def [symmetric] by auto
qed

text \<open>
  The header of every valid PUBLISH is built without a failed assertion, fits the staging
  buffer, and is read back by \<open>fixed_header_decode\<close> as a PUBLISH with the message's quality of
  service, retain flag, duplicate flag (set when the message was encoded before) and length.
\<close>

theorem publish_header_roundtrip:
  assumes "get_publish hp (sv_value v) = Some (a, m)" and "lmqtt_publish_validate m"
    and "0 \<le> str_len (pb_payload m)" and "pb_qos m = 0 \<longrightarrow> pb_encode_count m \<le> 0"
    and "length (eb_buf eb) = 16"
  shows "\<exists>eb' h. publish_build_fixed_header v hp eb = Some eb' \<and> 2 \<le> eb_buf_len eb' \<and>
    eb_buf_len eb' \<le> 5 \<and> length (eb_buf eb') = 16 \<and>
    header_run fixed_header_zero (take (eb_buf_len eb') (eb_buf eb') @ rest) = (h, DECODE_FINISHED, rest) \<and>
    fh_type h = TYPE_PUBLISH \<and> fh_qos h = pb_qos m \<and>
    fh_retain h = (if pb_retain m \<noteq> 0 then 1 else 0) \<and>
    fh_dup h = (if pb_encode_count m > 0 then 1 else 0) \<and>
    fh_remaining_length h = publish_calc_remaining_length m"
proof -
  note len = publish_validate_bounds [OF assms(2,3)]
  obtain h1 where h1: "fixed_header_decode fixed_header_zero (publish_type_byte m) = (h1, DECODE_CONTINUE, NO_ERROR)"
      "fh_type h1 = 3" "fh_qos h1 = pb_qos m" "fh_retain h1 = (if pb_retain m \<noteq> 0 then 1 else 0)"
      "fh_dup h1 = (if pb_encode_count m > 0 then 1 else 0)"
    using publish_type_byte_decode [OF assms(2,4)] by blast
  obtain ls h where ls: "encode_remaining_length (publish_calc_remaining_length m) = Some ls"
      "1 \<le> length ls" "length ls \<le> 4"
    and h: "header_run fixed_header_zero (publish_type_byte m # ls @ rest) = (h, DECODE_FINISHED, rest)"
      "fh_remaining_length h = publish_calc_remaining_length m" "same_first_byte h1 h"
    using header_run_packet [OF h1(1), of _ rest] len by blast
  obtain buf where "publish_build_fixed_header v hp eb = Some (eb\<lparr>eb_buf := buf, eb_buf_len := 1 + length ls\<rparr>)"
      "length buf = 16" "take (1 + length ls) buf = publish_type_byte m # ls"
    using publish_build_spec [OF assms(1-3) _ ls(1,3), of eb] assms(5) by auto
  then show ?thesis
    using h ls h1 by (intro exI [of _ "eb\<lparr>eb_buf := buf, eb_buf_len := 1 + length ls\<rparr>"] exI [of _ h])
      (simp add: same_first_byte_def)
qed

theorem publish_header_roundtrip_witness:
  "\<exists>eb' h. publish_build_fixed_header (store_value_zero\<lparr>sv_value := Some 7\<rparr>)
      [7 \<mapsto> OPublish example_message] encode_buffer_zero = Some eb' \<and>
    header_run fixed_header_zero (take (eb_buf_len eb') (eb_buf eb') @ [0, 3]) =
      (h, DECODE_FINISHED, [0, 3]) \<and>
    fh_qos h = 1 \<and> fh_dup h = 1 \<and> fh_retain h = 0 \<and> fh_remaining_length h = 7"
proof -
  have "\<exists>eb' h. publish_build_fixed_header (store_value_zero\<lparr>sv_value := Some 7\<rparr>)
      [7 \<mapsto> OPublish example_message] encode_buffer_zero = Some eb' \<and> 2 \<le> eb_buf_len eb' \<and>
    eb_buf_len eb' \<le> 5 \<and> length (eb_buf eb') = 16 \<and>
    header_run fixed_header_zero (take (eb_buf_len eb') (eb_buf eb') @ [0, 3]) =
      (h, DECODE_FINISHED, [0, 3]) \<and>
    fh_type h = TYPE_PUBLISH \<and> fh_qos h = pb_qos example_message \<and>
    fh_retain h = (if pb_retain example_message \<noteq> 0 then 1 else 0) \<and>
    fh_dup h = (if pb_encode_count example_message > 0 then 1 else 0) \<and>
    fh_remaining_length h = publish_calc_remaining_length example_message"
    by (rule publish_header_roundtrip [of _ _ 7])
      (simp_all add: lmqtt_publish_validate_def string_validate_field_length_def is_valid_qos_def
        publish_calc_remaining_length_def)
  then show ?thesis by (auto simp: publish_calc_remaining_length_def)
qed

text \<open>
  C38. A QoS 0 message object that was published before gets the duplicate flag, which MQTT
  forbids for QoS 0: the library's own decoder rejects the header as malformed.
\<close>

theorem publish_qos0_reuse_rejected:
  assumes "get_publish hp (sv_value v) = Some (a, m)" and "lmqtt_publish_validate m"
    and "0 \<le> str_len (pb_payload m)" and "pb_qos m = QOS_0" and "0 < pb_encode_count m"
    and "length (eb_buf eb) = 16"
  shows "\<exists>eb' h. publish_build_fixed_header v hp eb = Some eb' \<and>
    header_run fixed_header_zero (take (eb_buf_len eb') (eb_buf eb')) =
      (h, DECODE_ERROR, drop 1 (take (eb_buf_len eb') (eb_buf eb'))) \<and>
    fh_error h = ERROR_DECODE_FIXED_HEADER_INVALID_FLAGS"
proof -
  obtain ls where ls: "encode_remaining_length (publish_calc_remaining_length m) = Some ls"
      "1 \<le> length ls" "length ls \<le> 4"
    using encode_remaining_length_ok publish_validate_bounds [OF assms(2,3)] by metis
  obtain buf where b: "publish_build_fixed_header v hp eb = Some (eb\<lparr>eb_buf := buf, eb_buf_len := 1 + length ls\<rparr>)"
      "length buf = 16" "take (1 + length ls) buf = publish_type_byte m # ls"
    using publish_build_spec [OF assms(1-3) _ ls(1,3), of eb] assms(6) by auto
  have u: "uint (publish_type_byte m) = 56 + (if pb_retain m \<noteq> 0 then 1 else 0)"
    using publish_type_byte_uint [OF assms(2)] assms(4,5) by simp
  have nib: "uint (drop_bit 4 (publish_type_byte m)) = 3"
      "uint (publish_type_byte m AND 0x0f) = 8 + (if pb_retain m \<noteq> 0 then 1 else 0)"
    unfolding uint_upper_nibble uint_lower_nibble u by simp_all
  have "fixed_header_decode fixed_header_zero (publish_type_byte m) =
      (fixed_header_zero\<lparr>fh_error := ERROR_DECODE_FIXED_HEADER_INVALID_FLAGS\<rparr>, DECODE_ERROR,
        ERROR_DECODE_FIXED_HEADER_INVALID_FLAGS)"
    unfolding fixed_header_decode_def fixed_header_first_byte_def nib
    by (simp add: fixed_header_zero_def header_bad_flags_def)
  then show ?thesis
    using b by (intro exI [of _ "eb\<lparr>eb_buf := buf, eb_buf_len := 1 + length ls\<rparr>"]) simp
qed

theorem publish_qos0_reuse_rejected_witness:
  "\<exists>eb' h. publish_build_fixed_header (store_value_zero\<lparr>sv_value := Some 7\<rparr>)
      [7 \<mapsto> OPublish (example_message\<lparr>pb_qos := 0\<rparr>)] encode_buffer_zero = Some eb' \<and>
    header_run fixed_header_zero (take (eb_buf_len eb') (eb_buf eb')) =
      (h, DECODE_ERROR, drop 1 (take (eb_buf_len eb') (eb_buf eb'))) \<and>
    fh_error h = ERROR_DECODE_FIXED_HEADER_INVALID_FLAGS"
  by (rule publish_qos0_reuse_rejected [of _ _ 7 "example_message\<lparr>pb_qos := 0\<rparr>"])
    (simp_all add: lmqtt_publish_validate_def string_validate_field_length_def is_valid_qos_def
      publish_calc_remaining_length_def)

text \<open>
  C39. \<open>lmqtt_publish_validate\<close> accepts a payload of negative length, for which the builder of
  the header fails its assertion.
\<close>

theorem publish_negative_payload:
  assumes "get_publish hp (sv_value v) = Some (a, m)" and "0 < str_len (pb_topic m)"
    and "str_len (pb_topic m) \<le> 65535" and "is_valid_qos (pb_qos m)"
    and "str_len (pb_payload m) < - 65539"
  shows "lmqtt_publish_validate m \<and> publish_build_fixed_header v hp eb = None"
proof -
  have "publish_calc_remaining_length m < 0"
    using assms(3,5) by (simp add: publish_calc_remaining_length_def)
  then show ?thesis
    using assms by (simp add: lmqtt_publish_validate_def string_validate_field_length_def
        publish_build_fixed_header_def encode_remaining_length_def del: get_iffs)
qed

theorem publish_negative_payload_witness:
  "lmqtt_publish_validate
      (example_message\<lparr>pb_payload := lstring_zero\<lparr>str_len := - 100000\<rparr>\<rparr>) \<and>
    publish_build_fixed_header (store_value_zero\<lparr>sv_value := Some 7\<rparr>)
      [7 \<mapsto> OPublish (example_message\<lparr>pb_payload := lstring_zero\<lparr>str_len := - 100000\<rparr>\<rparr>)]
      encode_buffer_zero = None"
  by (rule publish_negative_payload [of _ _ 7])
    (simp_all add: is_valid_qos_def)

text \<open>
  C30. Both headers of every valid CONNECT are built without a failed assertion: the fixed header
  is read back as a CONNECT with the computed length, the variable header is the protocol
  name and level, the flags and the keep-alive interval in network order.
\<close>

theorem connect_headers_build:
  assumes "get_connect hp (sv_value v) = Some (a, c)" and "lmqtt_connect_validate c"
    and "length (eb_buf eb) = 16"
  shows "\<exists>eb1 eb2 h. connect_build_fixed_header v hp eb = Some eb1 \<and>
    header_run fixed_header_zero (take (eb_buf_len eb1) (eb_buf eb1) @ rest) = (h, DECODE_FINISHED, rest) \<and>
    fh_type h = TYPE_CONNECT \<and> fh_remaining_length h = connect_calc_remaining_length c \<and>
    connect_build_variable_header v hp eb = Some eb2 \<and>
    take (eb_buf_len eb2) (eb_buf eb2) =
      [0, 4, 0x4D, 0x51, 0x54, 0x54, 4, connect_flags c] @ be16 (uint (cn_keep_alive c))"
proof -
  note len = connect_calc_bounds [OF assms(2)]
  obtain h1 where h1: "fixed_header_decode fixed_header_zero 0x10 = (h1, DECODE_CONTINUE, NO_ERROR)"
      "fh_type h1 = 1"
    using first_byte_decode [of "0x10"] by (auto simp: allowed_first_byte_def)
  obtain ls h where ls: "encode_remaining_length (connect_calc_remaining_length c) = Some ls"
      "1 \<le> length ls" "length ls \<le> 4"
    and h: "header_run fixed_header_zero (0x10 # ls @ rest) = (h, DECODE_FINISHED, rest)"
      "fh_remaining_length h = connect_calc_remaining_length c" "same_first_byte h1 h"
    using header_run_packet [OF h1(1), of "connect_calc_remaining_length c" rest] len by force
  have ty: "(word_of_int (push_bit 4 TYPE_CONNECT) :: byte) = 0x10" by simp
  obtain buf1 where b1: "arr_write (eb_buf eb) 1 ls = Some buf1" "length buf1 = length (eb_buf eb)"
    "0 < length buf1" "take (1 + length ls) (buf1[0 := 0x10]) = 0x10 # ls"
    using builder_fixed_spec [of ls "eb_buf eb" "0x10"] ls(3) assms(3) by force
  have "connect_build_fixed_header v hp eb = Some (eb\<lparr>eb_buf := buf1[0 := 0x10], eb_buf_len := 1 + length ls\<rparr>)"
    using assms b1 ls by (simp add: connect_build_fixed_header_def arr_simps del: arr_iffs get_iffs)
  moreover obtain buf2 where "connect_build_variable_header v hp eb = Some (eb\<lparr>eb_buf := buf2, eb_buf_len := 10\<rparr>)"
    "take 10 buf2 = [0, 4, 0x4D, 0x51, 0x54, 0x54, 4, connect_flags c] @ be16 (uint (cn_keep_alive c))"
  proof -
    obtain x0 x1 x2 x3 x4 x5 x6 x7 x8 x9 xs where
      "eb_buf eb = [x0, x1, x2, x3, x4, x5, x6, x7, x8, x9] @ xs" "length xs = 6"
      using assms(3) by (auto simp: numeral_eq_Suc length_Suc_conv)
    then show ?thesis
      using that assms(1) by (simp add: connect_build_variable_header_def arr_simps be16_def
          del: arr_iffs get_iffs)
  qed
  ultimately show ?thesis
    using h h1 b1(4) by (intro exI [of _ "eb\<lparr>eb_buf := buf1[0 := 0x10], eb_buf_len := 1 + length ls\<rparr>"]
        exI [of _ "eb\<lparr>eb_buf := buf2, eb_buf_len := 10\<rparr>"] exI [of _ h]) (simp add: same_first_byte_def)
qed

definition example_connect :: connect where
  "example_connect = \<lparr>cn_keep_alive = 60, cn_clean_session = 1, cn_will_qos = 0,
     cn_will_retain = 0, cn_client_id = example_topic, cn_will_topic = lstring_zero,
     cn_will_message = lstring_zero, cn_user_name = lstring_zero, cn_password = lstring_zero,
     cn_session_present = 0\<rparr>"

lemma example_connect_fields [simp]:
  "cn_keep_alive example_connect = 60" "cn_clean_session example_connect = 1"
  "cn_will_qos example_connect = 0" "cn_will_retain example_connect = 0"
  "cn_client_id example_connect = example_topic" "cn_will_topic example_connect = lstring_zero"
  "cn_will_message example_connect = lstring_zero" "cn_user_name example_connect = lstring_zero"
  "cn_password example_connect = lstring_zero"
  by (simp_all add: example_connect_def)

theorem connect_headers_build_witness:
  "\<exists>eb1 eb2 h. connect_build_fixed_header (store_value_zero\<lparr>sv_value := Some 7\<rparr>)
      [7 \<mapsto> OConnect example_connect] encode_buffer_zero = Some eb1 \<and>
    header_run fixed_header_zero (take (eb_buf_len eb1) (eb_buf eb1) @ [0]) =
      (h, DECODE_FINISHED, [0]) \<and> fh_remaining_length h = 15 \<and>
    connect_build_variable_header (store_value_zero\<lparr>sv_value := Some 7\<rparr>)
      [7 \<mapsto> OConnect example_connect] encode_buffer_zero = Some eb2 \<and>
    take (eb_buf_len eb2) (eb_buf eb2) = [0, 4, 0x4D, 0x51, 0x54, 0x54, 4, 2, 0, 60]"
proof -
  have "\<exists>eb1 eb2 h. connect_build_fixed_header (store_value_zero\<lparr>sv_value := Some 7\<rparr>)
      [7 \<mapsto> OConnect example_connect] encode_buffer_zero = Some eb1 \<and>
    header_run fixed_header_zero (take (eb_buf_len eb1) (eb_buf eb1) @ [0]) =
      (h, DECODE_FINISHED, [0]) \<and>
    fh_type h = TYPE_CONNECT \<and> fh_remaining_length h = connect_calc_remaining_length example_connect \<and>
    connect_build_variable_header (store_value_zero\<lparr>sv_value := Some 7\<rparr>)
      [7 \<mapsto> OConnect example_connect] encode_buffer_zero = Some eb2 \<and>
    take (eb_buf_len eb2) (eb_buf eb2) = [0, 4, 0x4D, 0x51, 0x54, 0x54, 4,
      connect_flags example_connect] @ be16 (uint (cn_keep_alive example_connect))"
    by (rule connect_headers_build [of _ _ 7])
      (simp_all add: lmqtt_connect_validate_def string_validate_field_length_def is_valid_qos_def)
  moreover have "connect_flags example_connect = 2"
    by (simp add: connect_flags_def)
  ultimately show ?thesis
    by (auto simp: be16_def string_len_byte_def connect_calc_remaining_length_def string_calc_field_length_def)
qed

definition built_bytes :: "builder \<Rightarrow> store_value \<Rightarrow> heap \<Rightarrow> encode_buffer \<Rightarrow> byte list option" where
  "built_bytes build v hp eb =
     do { b \<leftarrow> build v hp eb; Some (take (eb_buf_len b) (eb_buf b)) }"

lemma encode_packet_id_bytes:
  assumes "encode_remaining_length len = Some ls" and "length ls + 3 \<le> length (eb_buf eb)"
  shows "do { b \<leftarrow> encode_buffer_encode_packet_id eb ty len pid; Some (take (eb_buf_len b) (eb_buf b)) } =
    Some (word_of_int ty # ls @ be16 (uint pid))"
  using encode_packet_id_spec [OF assms, of ty pid] by auto

text \<open>
  The four acknowledgements are the packets of MQTT, their identifier in network order,
  and the two bytes give the identifier again when they are joined as the decoder does it.
\<close>

theorem ack_packet_bytes:
  fixes v :: store_value
  assumes "length (eb_buf eb) = 16"
  defines "pid \<equiv> be16 (uint (sv_packet_id v))"
  shows "built_bytes puback_build v hp eb = Some ([0x40, 2] @ pid) \<and>
    built_bytes pubrec_build v hp eb = Some ([0x50, 2] @ pid) \<and>
    built_bytes pubrel_build v hp eb = Some ([0x62, 2] @ pid) \<and>
    built_bytes pubcomp_build v hp eb = Some ([0x70, 2] @ pid) \<and>
    push_bit 8 (ucast (pid ! 0)) OR ucast (pid ! 1) = sv_packet_id v"
proof -
  have ls: "encode_remaining_length PACKET_ID_SIZE = Some [2]"
    by (simp add: encode_remaining_length_def encode_loop_small)
  have eb: "length [2::byte] + 3 \<le> length (eb_buf eb)" using assms(1) by simp
  have ty: "push_bit 4 TYPE_PUBREL OR 0x02 = 0x62" by simp
  show ?thesis
    unfolding built_bytes_def puback_build_def pubrec_build_def pubrel_build_def pubcomp_build_def
      encode_packet_id_bytes [OF ls eb] ty pid_def
    using be16_join [of "sv_packet_id v"] by (simp add: be16_def)
qed

theorem ack_packet_bytes_witness:
  "built_bytes pubrel_build (store_value_zero\<lparr>sv_packet_id := 0x0102\<rparr>) Map.empty encode_buffer_zero =
    Some [0x62, 2, 1, 2]"
  using ack_packet_bytes [of encode_buffer_zero "store_value_zero\<lparr>sv_packet_id := 0x0102\<rparr>" Map.empty]
  by (simp add: encode_buffer_zero_def be16_def string_len_byte_def)

lemma subscribe_calc_valid:
  fixes subs :: "subscription list"
  assumes "sb_subscriptions s = Some subs" and "sb_count s = int (length subs)"
    and "\<forall>sub \<in> set subs. valid_subscription sub"
  defines "rlen \<equiv> 2 + (\<Sum>sub \<leftarrow> subs. str_len (sn_topic sub) + 3)"
  shows "subscribe_calc_remaining_length s True = Some rlen" and "2 \<le> rlen"
proof -
  show "subscribe_calc_remaining_length s True = Some rlen"
    using subscribe_calc_spec [OF assms(1,2), of True] by (simp add: rlen_def add.commute)
  have "0 \<le> (\<Sum>sub \<leftarrow> subs. str_len (sn_topic sub) + 3)"
    using assms(3) by (intro sum_list_nonneg) (auto simp: valid_subscription_def)
  then show "2 \<le> rlen" by (simp add: rlen_def)
qed

text \<open>
  C31. The header of a valid SUBSCRIBE is its type byte, the remaining length and the packet
  identifier, unless the subscriptions together exceed the largest length MQTT can express:
  \<open>lmqtt_subscribe_validate\<close> accepts these as well, and building the header fails its assertion.
\<close>

theorem subscribe_header_bytes:
  fixes subs :: "subscription list"
  assumes "get_subscribe hp (sv_value v) = Some (a, s)" and "sb_subscriptions s = Some subs"
    and "sb_count s = int (length subs)" and "subs \<noteq> []"
    and "\<forall>sub \<in> set subs. valid_subscription sub" and "length (eb_buf eb) = 16"
  defines "rlen \<equiv> 2 + (\<Sum>sub \<leftarrow> subs. str_len (sn_topic sub) + 3)"
  shows "lmqtt_subscribe_validate s = Some True \<and>
    built_bytes subscribe_build_header_subscribe v hp eb =
      (if rlen \<le> 268435455
       then Some (0x82 # the (encode_remaining_length rlen) @ be16 (uint (sv_packet_id v)))
       else None)"
proof -
  note calc = subscribe_calc_valid [OF assms(2,3,5), folded rlen_def]
  have v: "lmqtt_subscribe_validate s = Some True"
    using subscribe_validate_spec [OF assms(2,3)] assms(4,5) by simp
  have ty: "push_bit 4 TYPE_SUBSCRIBE OR 0x02 = 0x82" by simp
  show ?thesis
  proof (cases "rlen \<le> 268435455")
    case True
    then obtain ls where ls: "encode_remaining_length rlen = Some ls" "1 \<le> length ls" "length ls \<le> 4"
      using encode_remaining_length_ok [of rlen] calc(2) by auto
    have eb: "length ls + 3 \<le> length (eb_buf eb)" using assms(6) ls(3) by simp
    show ?thesis
      using encode_packet_id_bytes [OF ls(1) eb, of "0x82" "sv_packet_id v"] assms(1) calc True v ls
      by (simp add: built_bytes_def subscribe_build_header_subscribe_def ty del: get_iffs)
  next
    case False
    then have "encode_remaining_length rlen = None" by (simp add: encode_remaining_length_def)
    then show ?thesis
      using assms(1) calc False v
      by (simp add: built_bytes_def subscribe_build_header_subscribe_def
          encode_buffer_encode_packet_id_def del: get_iffs)
  qed
qed

definition example_subscription :: "int \<Rightarrow> subscription" where
  "example_subscription len = \<lparr>sn_requested_qos = 1,
     sn_topic = lstring_zero\<lparr>str_len := len, str_read := Some 1\<rparr>, sn_return_code = 0\<rparr>"

definition example_subscribe :: "nat \<Rightarrow> int \<Rightarrow> subscribe" where
  "example_subscribe n len = \<lparr>sb_count = int n,
     sb_subscriptions = Some (replicate n (example_subscription len)), sb_current = None\<rparr>"

theorem subscribe_header_bytes_witness:
  "lmqtt_subscribe_validate (example_subscribe 1 5) = Some True \<and>
    built_bytes subscribe_build_header_subscribe (store_value_zero\<lparr>sv_value := Some 7\<rparr>)
      [7 \<mapsto> OSubscribe (example_subscribe 1 5)] encode_buffer_zero = Some [0x82, 10, 0, 0] \<and>
    lmqtt_subscribe_validate (example_subscribe 4097 65535) = Some True \<and>
    built_bytes subscribe_build_header_subscribe (store_value_zero\<lparr>sv_value := Some 7\<rparr>)
      [7 \<mapsto> OSubscribe (example_subscribe 4097 65535)] encode_buffer_zero = None"
proof -
  note facts = example_subscribe_def example_subscription_def lstring_zero_def
    valid_subscription_def encode_buffer_zero_def
  have get: "get_subscribe [7 \<mapsto> OSubscribe s] (sv_value (store_value_zero\<lparr>sv_value := Some 7\<rparr>)) = Some (7, s)"
    for s by simp
  have "length (eb_buf encode_buffer_zero) = 16" by (simp add: encode_buffer_zero_def)
  note shown = subscribe_header_bytes [OF get _ _ _ _ this]
  have "lmqtt_subscribe_validate (example_subscribe 1 5) = Some True \<and>
      built_bytes subscribe_build_header_subscribe (store_value_zero\<lparr>sv_value := Some 7\<rparr>)
        [7 \<mapsto> OSubscribe (example_subscribe 1 5)] encode_buffer_zero = Some [0x82, 10, 0, 0]"
    using shown [of "example_subscribe 1 5" "replicate 1 (example_subscription 5)"]
    by (simp add: facts be16_def string_len_byte_def encode_remaining_length_def
        encode_loop_small store_value_zero_def)
  moreover have "lmqtt_subscribe_validate (example_subscribe 4097 65535) = Some True \<and>
      built_bytes subscribe_build_header_subscribe (store_value_zero\<lparr>sv_value := Some 7\<rparr>)
        [7 \<mapsto> OSubscribe (example_subscribe 4097 65535)] encode_buffer_zero = None"
    using shown [of "example_subscribe 4097 65535" "replicate 4097 (example_subscription 65535)"]
    by (simp add: facts sum_list_replicate)
  ultimately show ?thesis by simp
qed

end
