(* ===== verification/Example_Client.thy ===== *)
theory Example_Client
  imports Client Outgoing_Packets
begin

text \<open>
  A small client, an environment whose message callback records the packet identifiers it is
  given, and a store with one request that has been sent: the concrete input on which the
  properties of the receive buffer and of the client are evaluated.
\<close>

definition example_env :: "packet_id list env" where
  "example_env = \<lparr>
     en_io = \<lparr>cb_read = \<lambda>f d k w. (IO_ERROR, [], 1, w), cb_write = \<lambda>f d bs w. (IO_ERROR, 0, 1, w)\<rparr>,
     en_get_time = \<lambda>w. (\<lparr>tm_secs = 100, tm_nsecs = 0\<rparr>, w),
     en_net_read = \<lambda>k w. (IO_WOULD_BLOCK, [], 0, w),
     en_net_write = \<lambda>bs w. (IO_SUCCESS, length bs, 0, w),
     en_on_connect = \<lambda>f d v ok s. Some (True, s), en_on_subscribe = \<lambda>f d v ok s. Some (True, s),
     en_on_unsubscribe = \<lambda>f d v ok s. Some (True, s), en_on_publish = \<lambda>f d v ok s. Some (True, s),
     en_message = \<lambda>f d s. Some (True, s\<lparr>sy_world := sy_world s @ [ri_packet_id (ri s)]\<rparr>),
     en_allocate = \<lambda>f d m len w. (ALLOCATE_SUCCESS, m, w), en_deallocate = \<lambda>f d m w. (m, w)\<rparr>"

definition example_buffers :: client_buffers where
  "example_buffers = \<lparr>cb_store_size = 160, cb_store = replicate 4 store_entry_zero,
     cb_rx_buffer_size = 16, cb_rx_buffer = replicate 16 0, cb_tx_buffer_size = 16,
     cb_tx_buffer = replicate 16 0, cb_id_set_size = 4, cb_id_set = replicate 16 0\<rparr>"

definition example_sys :: "store \<Rightarrow> heap \<Rightarrow> packet_id list sys" where
  "example_sys st hp = (client_setup example_buffers hp [])\<lparr>cl_main_store := st, cl_on_publish := Some 1,
     cl_message_callbacks := \<lparr>mc_on_publish = Some 1, mc_on_publish_allocate_topic = Some 2,
       mc_on_publish_allocate_payload = Some 3, mc_on_publish_deallocate = None, mc_on_publish_data = 0\<rparr>\<rparr>"

text \<open>A store of four entries that holds one request, which has been sent.\<close>

definition one_sent :: "store_entry \<Rightarrow> store" where
  "one_sent e = (fresh_store 4)\<lparr>st_entries := [e, store_entry_zero, store_entry_zero, store_entry_zero],
     st_count := 1, st_pos := 1\<rparr>"

definition example_request :: "kind \<Rightarrow> entry_callback \<Rightarrow> store_entry" where
  "example_request k cb = \<lparr>se_kind = k, se_value = \<lparr>sv_packet_id = (if k = KIND_CONNECT then 0 else 5),
     sv_value = Some 7, sv_callback = Some cb, sv_callback_data = DATA_CLIENT\<rparr>\<rparr>"

lemma one_sent_simps [simp]:
  "store_inv (one_sent e)" "store_marked (one_sent e) = [e]" "store_pending (one_sent e) = []"
  "lmqtt_store_is_queueable (one_sent e)" "st_count (one_sent e) = 1" "st_capacity (one_sent e) = 4"
  by (simp_all add: one_sent_def fresh_store_def store_inv_def store_marked_def store_pending_def
      store_live_def lmqtt_store_is_queueable_def)

lemma example_sys_simps [simp]:
  "ri (example_sys st hp) = rx_internal_zero" "rx_store (cl_rx (example_sys st hp)) = MAIN_STORE"
  "get_store MAIN_STORE (example_sys st hp) = st" "sy_heap (example_sys st hp) = hp"
  "sy_world (example_sys st hp) = []" "cl_on_publish (example_sys st hp) = Some 1"
  "rx_id_set (cl_rx (example_sys st hp)) = empty_id_set 16 4"
  "cl_message_callbacks (example_sys st hp) = \<lparr>mc_on_publish = Some 1, mc_on_publish_allocate_topic = Some 2,
       mc_on_publish_allocate_payload = Some 3, mc_on_publish_deallocate = None, mc_on_publish_data = 0\<rparr>"
  by (simp_all add: example_sys_def client_setup_def get_store_def example_buffers_def empty_id_set_def)

lemma example_ids_roomy [simp]: "id_set_roomy (empty_id_set 16 4)"
  by (simp add: id_set_roomy_def)

lemma example_request_simps [simp]:
  "se_kind (example_request k cb) = k" "sv_packet_id (se_value (example_request k cb)) = (if k = KIND_CONNECT then 0 else 5)"
  "sv_value (se_value (example_request k cb)) = Some 7" "sv_callback (se_value (example_request k cb)) = Some cb"
  "sv_callback_data (se_value (example_request k cb)) = DATA_CLIENT"
  "has_key k' pid (example_request k cb) \<longleftrightarrow> k = k' \<and> pid = (if k = KIND_CONNECT then 0 else 5)"
  by (auto simp: example_request_def has_key_def)

end
