(* ===== verification/Client_Sessions.thy ===== *)
theory Client_Sessions
  imports Example_Client
begin

text \<open>
  Properties of the client: what survives a reconnection, how the requests that do not survive are
  reported to the user, and which operations each state of the client accepts.
\<close>

section \<open>Requests that outlive a connection\<close>

definition outlives_connection :: "store_entry \<Rightarrow> bool" where
  "outlives_connection e \<longleftrightarrow> se_kind e \<noteq> KIND_PINGREQ \<and> se_kind e \<noteq> KIND_DISCONNECT"

lemma filter_remove_nth:
  "p < length xs \<Longrightarrow> \<not> P (xs ! p) \<Longrightarrow> filter P (remove_nth p xs) = filter P xs"
  by (subst (2) id_take_nth_drop [of p xs]) (simp_all add: remove_nth_def)

lemma cleanup_loop_spec:
  assumes "store_inv st" and "i \<le> st_count st" and "st_count st - i < n"
    and "\<forall>x \<in> set (take i (store_live st)). outlives_connection x"
  shows "\<exists>st'. cleanup_loop n st i = Some st' \<and> store_inv st' \<and>
    store_marked st' = filter outlives_connection (store_marked st) \<and>
    store_pending st' = filter outlives_connection (store_pending st) \<and>
    store_settings st' = store_settings st"
  using assms
proof (induction n arbitrary: st i)
  case 0
  then show ?case by simp
next
  case (Suc n)
  note inv = Suc.prems(1)
  show ?case
  proof (cases "i < st_count st")
    case False
    then have "\<forall>x \<in> set (store_marked st @ store_pending st). outlives_connection x"
      using Suc.prems inv by (simp add: store_live_split [symmetric])
    then show ?thesis
      using Suc.prems False by (simp add: store_get_at_spec)
  next
    case True
    let ?e = "store_live st ! i"
    show ?thesis
    proof (cases "outlives_connection ?e")
      case keep: True
      have "\<forall>x \<in> set (take (Suc i) (store_live st)). outlives_connection x"
        using Suc.prems(4) True keep inv by (auto simp: take_Suc_conv_app_nth)
      then show ?thesis
        using Suc.IH [of st "Suc i"] Suc.prems True keep
        by (simp add: store_get_at_spec outlives_connection_def)
    next
      case drop: False
      then have kinds: "se_kind ?e = KIND_PINGREQ \<or> se_kind ?e = KIND_DISCONNECT"
        by (auto simp: outlives_connection_def)
      obtain st1 where st1: "store_pop_at st i = Some (True, se_kind ?e, se_value ?e, st1)"
          "store_inv st1" "store_live st1 = remove_nth i (store_live st)"
          "st_pos st1 = (if i < st_pos st then st_pos st - 1 else st_pos st)"
          "store_settings st1 = store_settings st"
        using store_pop_at_spec [OF inv True] by blast
      have cnt: "st_count st1 = st_count st - 1"
        using length_store_live [OF st1(2)] True inv by (simp add: st1(3))
      have e: "?e = (if i < st_pos st then store_marked st ! i else store_pending st ! (i - st_pos st))"
        using True inv by (simp add: store_live_split nth_append)
      note mp = marked_pending_remove [OF inv st1(2) True st1(3,4)]
      have f: "filter outlives_connection (store_marked st1) = filter outlives_connection (store_marked st)"
          "filter outlives_connection (store_pending st1) = filter outlives_connection (store_pending st)"
        using drop True inv unfolding mp e
        by (auto intro!: filter_remove_nth split: if_splits)
      have "take i (store_live st1) = take i (store_live st)"
        using True inv by (simp add: st1(3) take_remove_nth_after)
      then have "\<exists>st'. cleanup_loop n st1 i = Some st' \<and> store_inv st' \<and>
          store_marked st' = filter outlives_connection (store_marked st1) \<and>
          store_pending st' = filter outlives_connection (store_pending st1) \<and>
          store_settings st' = store_settings st1"
        using Suc.IH [of st1 i] Suc.prems True st1(2) cnt by auto
      then show ?thesis
        using True inv st1(1,5) kinds f by (auto simp: store_get_at_spec lmqtt_store_delete_at_def)
    qed
  qed
qed

section \<open>What the user is told\<close>

text \<open>
  A user whose callbacks do nothing but record that they were called: which request, the
  registered data, the object of the request, and whether it succeeded. The world is the list
  of the records.
\<close>

record user_event =
  ue_callback :: entry_callback
  ue_function :: fnptr
  ue_data :: nat
  ue_object :: "addr option"
  ue_succeeded :: bool

definition record_event ::
    "entry_callback \<Rightarrow> fnptr \<Rightarrow> nat \<Rightarrow> addr option \<Rightarrow> bool \<Rightarrow> user_event list sys \<Rightarrow>
       (bool \<times> user_event list sys) option" where
  "record_event cb f d v ok s = Some (True, s\<lparr>sy_world := sy_world s @
     [\<lparr>ue_callback = cb, ue_function = f, ue_data = d, ue_object = v, ue_succeeded = ok\<rparr>]\<rparr>)"

definition recording :: "user_event list env \<Rightarrow> bool" where
  "recording env \<longleftrightarrow>
     en_on_connect env = record_event ON_CONNACK \<and> en_on_subscribe env = record_event ON_SUBACK \<and>
     en_on_unsubscribe env = record_event ON_UNSUBACK \<and> en_on_publish env = record_event ON_PUBLISH \<and>
     (\<forall>w. snd (en_get_time env w) = w)"

text \<open>The function the user registered for a kind of callback, and its data.\<close>

fun registered :: "'w sys \<Rightarrow> entry_callback \<Rightarrow> (fnptr \<times> nat) option" where
  "registered s ON_CONNACK = map_option (\<lambda>f. (f, cl_on_connect_data s)) (cl_on_connect s)"
| "registered s ON_SUBACK = map_option (\<lambda>f. (f, cl_on_subscribe_data s)) (cl_on_subscribe s)"
| "registered s ON_UNSUBACK = map_option (\<lambda>f. (f, cl_on_unsubscribe_data s)) (cl_on_unsubscribe s)"
| "registered s ON_PUBLISH = map_option (\<lambda>f. (f, cl_on_publish_data s)) (cl_on_publish s)"
| "registered s ON_PINGRESP = None"

definition request_events :: "'w sys \<Rightarrow> bool \<Rightarrow> store_entry \<Rightarrow> user_event list" where
  "request_events s ok e =
     (case sv_callback (se_value e) of
        None \<Rightarrow> []
      | Some cb \<Rightarrow> (case registered s cb of
          None \<Rightarrow> []
        | Some (f, d) \<Rightarrow> [\<lparr>ue_callback = cb, ue_function = f, ue_data = d,
            ue_object = sv_value (se_value e), ue_succeeded = ok\<rparr>]))"

text \<open>
  A request as the client queues them: its callback, if any, gets the client. A CONNECT
  request may be flushed only when the client is closed, when its callback does nothing else.
\<close>

definition reportable :: "bool \<Rightarrow> store_entry \<Rightarrow> bool" where
  "reportable closed e \<longleftrightarrow>
     (sv_callback (se_value e) \<noteq> None \<longrightarrow> sv_callback_data (se_value e) = DATA_CLIENT) \<and>
     (sv_callback (se_value e) = Some ON_CONNACK \<longrightarrow> closed)"

lemma value_callback_records:
  assumes "recording env" and "reportable (cl_closed s) e"
  shows "value_callback flush env (se_value e) s =
    Some (True, s\<lparr>sy_world := sy_world s @ request_events s (\<not> cl_closed s) e\<rparr>)"
proof (cases "sv_callback (se_value e)")
  case None
  then show ?thesis by (simp add: value_callback_def request_events_def)
next
  case (Some cb)
  then have data: "sv_callback_data (se_value e) = DATA_CLIENT" "cb = ON_CONNACK \<longrightarrow> cl_closed s"
    using assms(2) by (simp_all add: reportable_def)
  show ?thesis
    using assms(1) data
    by (cases cb) (auto simp: Some value_callback_def entry_callback_call_def request_events_def
      recording_def record_event_def client_on_pingresp_def client_on_connack_def client_on_suback_def
      client_on_unsuback_def client_on_publish_def split: option.splits)
qed

lemma registered_frame:
  "registered (s\<lparr>cl_main_store := a1\<rparr>) cb = registered s cb"
  "registered (s\<lparr>cl_connect_store := a2\<rparr>) cb = registered s cb"
  "registered (s\<lparr>cl_rx := a3\<rparr>) cb = registered s cb" "registered (s\<lparr>sy_world := a4\<rparr>) cb = registered s cb"
  by (cases cb; simp)+

lemma request_events_frame [simp]:
  "request_events (set_store r st s) ok = request_events s ok"
  "request_events (s\<lparr>sy_world := w\<rparr>) ok = request_events s ok"
proof -
  have "registered (set_store r st s) cb = registered s cb" "registered (s\<lparr>sy_world := w\<rparr>) cb = registered s cb" for cb
    by (cases cb; cases r; simp add: set_store_def)+
  then show "request_events (set_store r st s) ok = request_events s ok"
      "request_events (s\<lparr>sy_world := w\<rparr>) ok = request_events s ok"
    by (simp_all add: request_events_def fun_eq_iff cong: option.case_cong)
qed

lemma set_store_world: "set_store r st (s\<lparr>sy_world := w\<rparr>) = (set_store r st s)\<lparr>sy_world := w\<rparr>"
  by (cases r) (simp_all add: set_store_def)

lemma flush_records:
  assumes "recording env" and "store_inv (get_store r s)"
    and "st_count (get_store r s) < n" and "\<forall>e \<in> set (store_live (get_store r s)). reportable (cl_closed s) e"
  shows "\<exists>st'. client_flush_store n env r s =
      Some ((set_store r st' s)\<lparr>sy_world := sy_world s @
        concat (map (request_events s (\<not> cl_closed s)) (store_live (get_store r s)))\<rparr>) \<and>
    store_inv st' \<and> store_live st' = [] \<and> store_settings st' = store_settings (get_store r s)"
  using assms(2-)
proof (induction n arbitrary: s)
  case 0
  then show ?case by simp
next
  case (Suc n)
  note inv = Suc.prems(1)
  show ?case
  proof (cases "store_live (get_store r s)")
    case Nil
    then show ?thesis
      using store_shift_spec(1) [OF inv] inv by (intro exI [of _ "get_store r s"]) simp
  next
    case (Cons e es)
    obtain st1 where st1: "lmqtt_store_shift (get_store r s) = Some (True, se_kind e, se_value e, st1)"
        "store_inv st1" "store_live st1 = es" "store_settings st1 = store_settings (get_store r s)"
      using store_shift_spec(2) [OF inv Cons] by blast
    let ?s1 = "set_store r st1 s"
    have b: "value_callback (client_flush_store n env) env (se_value e) ?s1 =
        Some (True, ?s1\<lparr>sy_world := sy_world s @ request_events s (\<not> cl_closed s) e\<rparr>)"
      using value_callback_records [OF assms(1), of ?s1 e] Suc.prems(3) Cons by auto
    let ?s2 = "?s1\<lparr>sy_world := sy_world s @ request_events s (\<not> cl_closed s) e\<rparr>"
    have "length es = st_count st1" using st1(2,3) by auto
    moreover have "length (e # es) = st_count (get_store r s)" using inv Cons by (metis length_store_live)
    ultimately have "st_count (get_store r ?s2) < n" using Suc.prems(2) by simp
    with Suc.IH [of ?s2] st1 Suc.prems(3) Cons
    obtain st' where st': "client_flush_store n env r ?s2 = Some ((set_store r st' ?s2)\<lparr>sy_world := sy_world ?s2 @
        concat (map (request_events s (\<not> cl_closed s)) es)\<rparr>)" "store_inv st'" "store_live st' = []"
        "store_settings st' = store_settings st1"
      by auto
    then show ?thesis using st1 b Cons by (intro exI [of _ st']) (simp add: set_store_world)
  qed
qed

text \<open>A client with one message that has been sent and one request on the connection itself.\<close>

definition recording_env :: "user_event list env" where
  "recording_env = \<lparr>
     en_io = \<lparr>cb_read = \<lambda>f d k w. (IO_ERROR, [], 1, w), cb_write = \<lambda>f d bs w. (IO_ERROR, 0, 1, w)\<rparr>,
     en_get_time = \<lambda>w. (\<lparr>tm_secs = 100, tm_nsecs = 0\<rparr>, w),
     en_net_read = \<lambda>k w. (IO_WOULD_BLOCK, [], 0, w),
     en_net_write = \<lambda>bs w. (IO_SUCCESS, length bs, 0, w),
     en_on_connect = record_event ON_CONNACK, en_on_subscribe = record_event ON_SUBACK,
     en_on_unsubscribe = record_event ON_UNSUBACK, en_on_publish = record_event ON_PUBLISH,
     en_message = \<lambda>f d s. Some (True, s),
     en_allocate = \<lambda>f d m len w. (ALLOCATE_SUCCESS, m, w), en_deallocate = \<lambda>f d m w. (m, w)\<rparr>"

lemma recording_env_records [simp]: "recording recording_env"
  by (simp add: recording_def recording_env_def)

definition session_sys :: "int \<Rightarrow> store \<Rightarrow> user_event list sys" where
  "session_sys clean st = (client_setup example_buffers Map.empty [])
     \<lparr>cl_main_store := st, cl_on_publish := Some 1, cl_clean_session := clean\<rparr>"

lemma session_sys_simps [simp]:
  "cl_clean_session (session_sys clean st) = clean" "cl_main_store (session_sys clean st) = st"
  "cl_connect_store (session_sys clean st) = fresh_store 1" "sy_world (session_sys clean st) = []"
  "cl_on_publish (session_sys clean st) = Some 1" "cl_on_publish_data (session_sys clean st) = 0"
  "cl_error (session_sys clean st) = NO_ERROR"
  by (simp_all add: session_sys_def client_setup_def)

lemma fresh_store_empty [simp]: "store_live (fresh_store n) = []" "st_count (fresh_store n) = 0"
  by (simp_all add: fresh_store_def store_live_def)

lemma one_sent_live [simp]: "store_live (one_sent e) = [e]"
  by (simp add: store_live_split)

abbreviation sent_message :: store where
  "sent_message \<equiv> one_sent (example_request KIND_PUBLISH_2 ON_PUBLISH)"

lemma sent_message_events:
  "request_events (session_sys clean st) ok (example_request KIND_PUBLISH_2 ON_PUBLISH) =
     [\<lparr>ue_callback = ON_PUBLISH, ue_function = 1, ue_data = 0, ue_object = Some 7, ue_succeeded = ok\<rparr>]"
  by (simp add: request_events_def)

lemma sent_message_reportable [simp]: "reportable b (example_request KIND_PUBLISH_2 ON_PUBLISH)"
  by (simp add: reportable_def)

section \<open>Entering the connected state\<close>

lemma flush_empty:
  "store_inv (get_store r s) \<Longrightarrow> store_live (get_store r s) = [] \<Longrightarrow>
     client_flush_store (Suc n) env r s = Some s"
  by (simp add: store_shift_spec(1))

text \<open>What the state of the client says about its operations.\<close>

definition ops_connected :: "'w sys \<Rightarrow> bool" where
  "ops_connected s \<longleftrightarrow> cl_op_subscribe s = OP_DO \<and> cl_op_unsubscribe s = OP_DO \<and>
     cl_op_publish s = OP_DO \<and> cl_op_pingreq s = OP_DO \<and> cl_op_disconnect s = OP_DO"

definition ops_closed :: "'w sys \<Rightarrow> bool" where
  "ops_closed s \<longleftrightarrow> cl_op_subscribe s = OP_FAIL \<and> cl_op_unsubscribe s = OP_FAIL \<and>
     cl_op_publish s = OP_FAIL \<and> cl_op_pingreq s = OP_FAIL \<and> cl_op_disconnect s = OP_FAIL"

text \<open>
  C15. When a connection that resumes a session is accepted, the requests of the old connection are
  sent again: those that waited for a response come first, in their order, then those that
  were never sent; only a PINGREQ or DISCONNECT is forgotten. Nothing waits for a response any
  more, the identifiers of received messages are kept, and the operations of the user are
  enabled. One unit of the bound is enough.
\<close>

theorem connected_resumes_session:
  assumes "cl_clean_session s = 0" and "store_inv (cl_main_store s)"
    and "store_inv (cl_connect_store s)" and "store_live (cl_connect_store s) = []"
  shows "\<exists>st s'. client_set_state_connected (client_flush_store (Suc n) env) s = Some s' \<and>
    cl_main_store s' = st \<and> store_inv st \<and> store_marked st = [] \<and>
    store_pending st = filter outlives_connection (store_marked (cl_main_store s) @ store_pending (cl_main_store s)) \<and>
    store_settings st = store_settings (cl_main_store s) \<and>
    rx_id_set (cl_rx s') = rx_id_set (cl_rx s) \<and> cl_current_store s' = MAIN_STORE \<and>
    cl_error s' = NO_ERROR \<and> \<not> cl_closed s' \<and> ops_connected s'"
proof -
  obtain st where st: "cleanup_loop (Suc (st_count (cl_main_store s))) (cl_main_store s) 0 = Some st"
      "store_inv st" "store_marked st = filter outlives_connection (store_marked (cl_main_store s))"
      "store_pending st = filter outlives_connection (store_pending (cl_main_store s))"
      "store_settings st = store_settings (cl_main_store s)"
    using cleanup_loop_spec [of "cl_main_store s" 0 "Suc (st_count (cl_main_store s))"] assms(2) by auto
  show ?thesis
    using assms st store_unmark_all_spec [OF st(2)]
    by (simp add: client_set_state_connected_def client_cleanup_stores_def client_set_current_store_def
        Let_def store_shift_spec(1) get_store_def set_store_def ops_connected_def del: cleanup_loop.simps)
qed


theorem connected_resumes_session_witness:
  "\<exists>st s'. client_set_state_connected (client_flush_store 1 recording_env) (session_sys 0 sent_message) = Some s' \<and>
    cl_main_store s' = st \<and> store_marked st = [] \<and>
    store_pending st = [example_request KIND_PUBLISH_2 ON_PUBLISH] \<and> ops_connected s'"
  using connected_resumes_session [of "session_sys 0 sent_message" 0 recording_env]
  by (auto simp: outlives_connection_def simp del: client_flush_store.simps)

lemma flush_both_records:
  assumes "recording env" and "cl_clean_session s \<noteq> 0"
    and "store_inv (cl_main_store s)" and "store_inv (cl_connect_store s)"
    and "\<forall>e \<in> set (store_live (cl_main_store s)). reportable (cl_closed s) e"
    and "\<forall>e \<in> set (store_live (cl_connect_store s)). reportable (cl_closed s) e"
    and "st_count (cl_main_store s) < n" and "st_count (cl_connect_store s) < n"
  shows "\<exists>st st'. client_cleanup_stores (client_flush_store n env) False s =
      Some (s\<lparr>cl_main_store := st, cl_connect_store := st',
        cl_rx := (cl_rx s)\<lparr>rx_id_set := lmqtt_id_set_clear (rx_id_set (cl_rx s))\<rparr>,
        sy_world := sy_world s @
          concat (map (request_events s (\<not> cl_closed s)) (store_live (cl_main_store s))) @
          concat (map (request_events s (\<not> cl_closed s)) (store_live (cl_connect_store s)))\<rparr>) \<and>
    store_inv st \<and> store_live st = [] \<and> store_settings st = store_settings (cl_main_store s) \<and>
    store_inv st' \<and> store_live st' = [] \<and> store_settings st' = store_settings (cl_connect_store s)"
proof -
  have main: "get_store MAIN_STORE s = cl_main_store s" by (simp add: get_store_def)
  obtain st where st: "client_flush_store n env MAIN_STORE s =
      Some ((set_store MAIN_STORE st s)\<lparr>sy_world := sy_world s @
        concat (map (request_events s (\<not> cl_closed s)) (store_live (cl_main_store s)))\<rparr>)"
      "store_inv st" "store_live st = []" "store_settings st = store_settings (cl_main_store s)"
    using flush_records [OF assms(1), of MAIN_STORE s n] assms(3,5,7) unfolding main by blast
  define s1 where "s1 = (set_store MAIN_STORE st s)\<lparr>sy_world := sy_world s @
        concat (map (request_events s (\<not> cl_closed s)) (store_live (cl_main_store s))),
      cl_rx := (cl_rx s)\<lparr>rx_id_set := lmqtt_id_set_clear (rx_id_set (cl_rx s))\<rparr>\<rparr>"
  have s1: "get_store CONNECT_STORE s1 = cl_connect_store s" "cl_closed s1 = cl_closed s"
      "request_events s1 ok = request_events s ok" for ok
    by (simp_all add: s1_def get_store_def set_store_def request_events_def fun_eq_iff registered_frame
      cong: option.case_cong)
  obtain st' where st': "client_flush_store n env CONNECT_STORE s1 =
      Some ((set_store CONNECT_STORE st' s1)\<lparr>sy_world := sy_world s1 @
        concat (map (request_events s (\<not> cl_closed s)) (store_live (cl_connect_store s)))\<rparr>)"
      "store_inv st'" "store_live st' = []" "store_settings st' = store_settings (cl_connect_store s)"
    using flush_records [OF assms(1), of CONNECT_STORE s1 n] assms(4,6,8) unfolding s1 by blast
  have "client_cleanup_stores (client_flush_store n env) False s =
      client_flush_store n env CONNECT_STORE s1"
    using st(1) by (simp add: client_cleanup_stores_def s1_def set_store_def)
  then show ?thesis
    using st st' by (intro exI [of _ st] exI [of _ st']) (simp add: s1_def set_store_def)
qed


lemma reportable_mono: "reportable False e \<Longrightarrow> reportable b e"
  by (simp add: reportable_def)

text \<open>
  C16. Leaving a connection with a clean session, by \<open>lmqtt_client_reset\<close> or at the end of
  the stream: every request of both stores, in order, is reported to the user exactly once as
  failed; the stores and the set of received identifiers are empty afterwards, no operation is
  enabled except connecting. A bound above the number of requests is enough.
\<close>

theorem closing_fails_every_request:
  assumes "recording env" and "cl_clean_session s \<noteq> 0"
    and "store_inv (cl_main_store s)" and "store_inv (cl_connect_store s)"
    and "\<forall>e \<in> set (store_live (cl_main_store s) @ store_live (cl_connect_store s)). reportable True e"
    and "st_count (cl_main_store s) < n" and "st_count (cl_connect_store s) < n"
  shows "\<exists>s'. client_set_state_initial n env s = Some s' \<and>
    sy_world s' = sy_world s @ concat (map (request_events s False)
      (store_live (cl_main_store s) @ store_live (cl_connect_store s))) \<and>
    store_inv (cl_main_store s') \<and> store_live (cl_main_store s') = [] \<and>
    store_inv (cl_connect_store s') \<and> store_live (cl_connect_store s') = [] \<and>
    ids_count (rx_id_set (cl_rx s')) = 0 \<and> cl_closed s' \<and> ops_closed s' \<and> cl_op_connect s' = OP_DO"
proof -
  obtain tm where tm: "en_get_time env (sy_world s) = (tm, sy_world s)"
    using assms(1) unfolding recording_def by (metis prod.collapse)
  define s3 where "s3 = client_set_current_store CONNECT_STORE
    (s\<lparr>cl_error := NO_ERROR, cl_os_error := 0, cl_closed := True,
      cl_connect_store := (cl_connect_store s)\<lparr>st_last_touch := tm\<rparr>\<rparr>)"
  have s3: "cl_clean_session s3 = cl_clean_session s" "cl_main_store s3 = cl_main_store s"
      "cl_connect_store s3 = (cl_connect_store s)\<lparr>st_last_touch := tm\<rparr>" "cl_closed s3"
      "sy_world s3 = sy_world s"
    by (simp_all add: s3_def client_set_current_store_def)
  have ev: "request_events s3 ok = request_events s ok" for ok
  proof -
    have "registered s3 cb = registered s cb" for cb
      by (cases cb; simp add: s3_def client_set_current_store_def)
    then show ?thesis by (simp add: request_events_def fun_eq_iff cong: option.case_cong)
  qed
  have touch: "store_inv (st\<lparr>st_last_touch := tm\<rparr>) = store_inv st"
      "store_live (st\<lparr>st_last_touch := tm\<rparr>) = store_live st" for st
    by (simp_all add: store_inv_def store_live_def)
  obtain st st' where f: "client_cleanup_stores (client_flush_store n env) False s3 =
      Some (s3\<lparr>cl_main_store := st, cl_connect_store := st',
        cl_rx := (cl_rx s3)\<lparr>rx_id_set := lmqtt_id_set_clear (rx_id_set (cl_rx s3))\<rparr>,
        sy_world := sy_world s @ concat (map (request_events s False) (store_live (cl_main_store s))) @
          concat (map (request_events s False) (store_live (cl_connect_store s)))\<rparr>)"
    "store_inv st" "store_live st = []" "store_inv st'" "store_live st' = []"
    using flush_both_records [OF assms(1), of s3 n] assms(2-) s3(4) unfolding s3(1-3,5) ev touch by auto
  have init: "client_set_state_initial n env s = map_option (\<lambda>s4. set_ops_fail ((lmqtt_tx_buffer_finish s4)\<lparr>cl_op_connect := OP_DO\<rparr>))
      (client_cleanup_stores (client_flush_store n env) False s3)"
    using assms(2) tm by (simp add: client_set_state_initial_def lmqtt_store_touch_def lmqtt_time_touch_def
        s3_def [symmetric] s3(1) map_conv_bind_option comp_def)
  show ?thesis
    unfolding init f(1) using f(2-5) s3
    by (simp add: set_ops_fail_def lmqtt_tx_buffer_finish_def ops_closed_def lmqtt_id_set_clear_def)
qed

theorem closing_fails_every_request_witness:
  "\<exists>s'. client_set_state_initial 2 recording_env (session_sys 1 sent_message) = Some s' \<and>
    sy_world s' = [\<lparr>ue_callback = ON_PUBLISH, ue_function = 1, ue_data = 0, ue_object = Some 7,
      ue_succeeded = False\<rparr>] \<and> store_live (cl_main_store s') = [] \<and> ops_closed s'"
  using closing_fails_every_request [of recording_env "session_sys 1 sent_message" 2]
  by (auto simp: sent_message_events simp del: client_flush_store.simps)

text \<open>
  C32. When a connection with a clean session is accepted while requests of an earlier session are
  still queued, these requests are dropped and every callback is told that its request
  succeeded: the flag is \<open>!client->closed\<close>, and the client has just left the closed state.
\<close>

theorem clean_connection_reports_success:
  assumes "recording env" and "cl_clean_session s \<noteq> 0"
    and "store_inv (cl_main_store s)" and "store_inv (cl_connect_store s)"
    and "\<forall>e \<in> set (store_live (cl_main_store s) @ store_live (cl_connect_store s)). reportable False e"
    and "st_count (cl_main_store s) < n" and "st_count (cl_connect_store s) < n"
  shows "\<exists>s'. client_set_state_connected (client_flush_store n env) s = Some s' \<and>
    sy_world s' = sy_world s @ concat (map (request_events s True)
      (store_live (cl_main_store s) @ store_live (cl_connect_store s))) \<and>
    store_live (cl_main_store s') = [] \<and> ids_count (rx_id_set (cl_rx s')) = 0 \<and> ops_connected s'"
proof -
  define s3 where "s3 = client_set_current_store MAIN_STORE
    (s\<lparr>cl_error := NO_ERROR, cl_os_error := 0, cl_closed := False\<rparr>)"
  have s3: "cl_clean_session s3 = cl_clean_session s" "cl_main_store s3 = cl_main_store s"
      "cl_connect_store s3 = cl_connect_store s" "\<not> cl_closed s3" "sy_world s3 = sy_world s"
    by (simp_all add: s3_def client_set_current_store_def)
  have ev: "request_events s3 ok = request_events s ok" for ok
  proof -
    have "registered s3 cb = registered s cb" for cb
      by (cases cb; simp add: s3_def client_set_current_store_def)
    then show ?thesis by (simp add: request_events_def fun_eq_iff cong: option.case_cong)
  qed
  obtain st st' where f: "client_cleanup_stores (client_flush_store n env) False s3 =
      Some (s3\<lparr>cl_main_store := st, cl_connect_store := st',
        cl_rx := (cl_rx s3)\<lparr>rx_id_set := lmqtt_id_set_clear (rx_id_set (cl_rx s3))\<rparr>,
        sy_world := sy_world s @ concat (map (request_events s True) (store_live (cl_main_store s))) @
          concat (map (request_events s True) (store_live (cl_connect_store s)))\<rparr>)"
    "store_inv st" "store_live st = []"
    using flush_both_records [OF assms(1), of s3 n] assms(2-) s3(4) unfolding s3(1-3,5) ev by auto
  have "store_live (lmqtt_store_unmark_all st) = []"
    using f(3) by (simp add: lmqtt_store_unmark_all_def store_live_def)
  then show ?thesis
    using f assms(2) s3
    by (simp add: client_set_state_connected_def s3_def [symmetric] ops_connected_def lmqtt_id_set_clear_def)
qed

theorem clean_connection_reports_success_witness:
  "\<exists>s'. client_set_state_connected (client_flush_store 2 recording_env) (session_sys 1 sent_message) = Some s' \<and>
    sy_world s' = [\<lparr>ue_callback = ON_PUBLISH, ue_function = 1, ue_data = 0, ue_object = Some 7,
      ue_succeeded = True\<rparr>] \<and> store_live (cl_main_store s') = [] \<and> ops_connected s'"
  using clean_connection_reports_success [of recording_env "session_sys 1 sent_message" 2]
  by (auto simp: sent_message_events simp del: client_flush_store.simps)

end
