(* ===== verification/Client_States.thy ===== *)
theory Client_States
  imports Client_Sessions
begin

text \<open>
  Properties of the state machine of the client: which operations each state accepts, that an
  error stays until the client is reset, and what the keep-alive timer does.
\<close>

lemma error_code_in_mask [simp]: "int (error_code e) AND 255 = int (error_code e)"
proof -
  have "int (error_code e) AND mask 8 = take_bit 8 (int (error_code e))" by (simp only: take_bit_eq_mask)
  then show ?thesis using error_code_less [of e] by (simp add: mask_eq_exp_minus_1 take_bit_eq_mod)
qed

lemma error_code_positive [simp]: "0 < error_code e \<longleftrightarrow> e \<noteq> NO_ERROR"
  using error_code_zero_iff [of e] by (simp add: neq0_conv [symmetric] del: error_code_zero_iff neq0_conv)

section \<open>Connecting and failing\<close>

definition connect_entry :: "addr \<Rightarrow> store_entry" where
  "connect_entry a = \<lparr>se_kind = KIND_CONNECT, se_value = \<lparr>sv_packet_id = 0, sv_value = Some a,
     sv_callback = Some ON_CONNACK, sv_callback_data = DATA_CLIENT\<rparr>\<rparr>"

text \<open>A client in the initial state.\<close>

definition connect_sys :: "heap \<Rightarrow> user_event list sys" where
  "connect_sys hp = (client_setup example_buffers hp [])\<lparr>cl_op_connect := OP_DO\<rparr>"

lemma connect_sys_simps [simp]:
  "cl_op_connect (connect_sys hp) = OP_DO" "sy_heap (connect_sys hp) = hp"
  "cl_connect_store (connect_sys hp) = fresh_store 1"
  by (simp_all add: connect_sys_def client_setup_def)

lemma example_connect_valid: "lmqtt_connect_validate example_connect"
  by (simp add: lmqtt_connect_validate_def example_connect_def string_validate_field_length_def
      is_valid_qos_def lstring_zero_def)

text \<open>
  C20. In the initial state a valid CONNECT is accepted exactly once: the request is queued
  on the store of the connection, both buffers start from scratch, and a second attempt is
  refused without any change, as is an attempt with any other object.
\<close>

theorem connect_accepted_once:
  assumes "cl_op_connect s = OP_DO" and "get_connect (sy_heap s) (Some a) = Some (a, c)"
    and "lmqtt_connect_validate c" and "store_inv (cl_connect_store s)"
    and "st_count (cl_connect_store s) < st_capacity (cl_connect_store s)"
  shows "\<exists>s'. lmqtt_client_connect a s = Some (True, s') \<and>
    store_pending (cl_connect_store s') = store_pending (cl_connect_store s) @ [connect_entry a] \<and>
    store_marked (cl_connect_store s') = store_marked (cl_connect_store s) \<and>
    cl_main_store s' = cl_main_store s \<and> \<not> cl_closed s' \<and> cl_error s' = NO_ERROR \<and>
    ri s' = rx_internal_zero \<and> ti s' = tx_internal_zero \<and> \<not> tx_closed (cl_tx s') \<and>
    cl_read_buf_pos s' = 0 \<and> cl_write_buf_pos s' = 0 \<and>
    (\<forall>a'. lmqtt_client_connect a' s' = Some (False, s'))"
proof -
  obtain st where "lmqtt_store_append (cl_connect_store s) KIND_CONNECT (Some (se_value (connect_entry a))) = Some (True, st)"
      "store_marked st = store_marked (cl_connect_store s)"
      "store_pending st = store_pending (cl_connect_store s) @ [connect_entry a]"
    using store_append_room [OF assms(4,5), of KIND_CONNECT "se_value (connect_entry a)"]
    by (auto simp: connect_entry_def)
  then show ?thesis
    using assms(1-3)
    by (simp add: lmqtt_client_connect_def call_op_def client_do_connect_def connect_entry_def
        client_set_state_connecting_def lmqtt_rx_buffer_reset_def lmqtt_tx_buffer_reset_def Let_def del: get_iffs)
qed

theorem connect_accepted_once_witness:
  "\<exists>s'. lmqtt_client_connect 7 (connect_sys [7 \<mapsto> OConnect example_connect]) = Some (True, s') \<and>
    store_pending (cl_connect_store s') = [connect_entry 7] \<and>
    lmqtt_client_connect 7 s' = Some (False, s')"
  using connect_accepted_once [of "connect_sys [7 \<mapsto> OConnect example_connect]" 7 example_connect]
  by (auto simp: example_connect_valid)

text \<open>
  C29. In the failed state nothing is accepted: all operations return 0 and leave the client as it
  is, and \<open>lmqtt_client_run_once\<close> returns the code of the error, again and again, without
  touching the connection. Only \<open>lmqtt_client_reset\<close> leaves the state.
\<close>

theorem failed_state_rejects_everything:
  assumes "client_set_state_failed s = Some s'"
  shows "lmqtt_client_connect a s' = Some (False, s') \<and> lmqtt_client_subscribe a s' = Some (False, s') \<and>
    lmqtt_client_unsubscribe a s' = Some (False, s') \<and> lmqtt_client_publish a s' = Some (False, s') \<and>
    lmqtt_client_disconnect s' = Some (False, s') \<and>
    lmqtt_client_run_once n env s' = Some (int (error_code (cl_error s)), None, None, s') \<and>
    0 < int (error_code (cl_error s)) \<and> int (error_code (cl_error s)) \<le> RES_ERROR"
  using assms error_code_less [of "cl_error s"]
  by (auto simp: client_set_state_failed_def set_ops_fail_def bind_eq_Some_conv lmqtt_client_connect_def lmqtt_client_subscribe_def
      lmqtt_client_unsubscribe_def lmqtt_client_publish_def lmqtt_client_disconnect_def call_op_def
      lmqtt_client_run_once_def client_keep_alive_def RES_ERROR_def)


theorem failed_state_rejects_everything_witness:
  "\<exists>s'. client_set_state_failed ((session_sys 1 sent_message)\<lparr>cl_error := ERROR_TIMEOUT\<rparr>) = Some s' \<and>
    lmqtt_client_publish 7 s' = Some (False, s') \<and>
    lmqtt_client_run_once 1 recording_env s' = Some (int (error_code ERROR_TIMEOUT), None, None, s')"
proof -
  obtain s' where "client_set_state_failed ((session_sys 1 sent_message)\<lparr>cl_error := ERROR_TIMEOUT\<rparr>) = Some s'"
    by (simp add: client_set_state_failed_def)
  then show ?thesis
    using failed_state_rejects_everything [of "(session_sys 1 sent_message)\<lparr>cl_error := ERROR_TIMEOUT\<rparr>" s'
        7 1 recording_env]
    by simp
qed

section \<open>Keep-alive\<close>

definition ping_entry :: store_entry where
  "ping_entry = \<lparr>se_kind = KIND_PINGREQ, se_value = \<lparr>sv_packet_id = 0, sv_value = None,
     sv_callback = Some ON_PINGRESP, sv_callback_data = DATA_CLIENT\<rparr>\<rparr>"

text \<open>The interval the timer measures, and whether it has passed since the last activity.\<close>

definition idle_interval :: "store \<Rightarrow> ushort" where
  "idle_interval st = (if st_count st > 0 then st_timeout st else st_keep_alive st)"

definition expired :: "store \<Rightarrow> time \<Rightarrow> bool" where
  "expired st now \<longleftrightarrow> total_ns (st_last_touch st) + uint (idle_interval st) * 1000000000 \<le> total_ns now"

lemma store_get_timeout_expired:
  assumes "idle_interval st \<noteq> 0" and "total_ns (st_last_touch st) \<noteq> 0" and "get_time w = (now, w')"
    and "normal_time (st_last_touch st)" and "normal_time now"
  shows "\<exists>secs ns. lmqtt_store_get_timeout get_time st w = (True, st_count st, secs, ns, w') \<and>
    (secs = 0 \<and> ns = 0 \<longleftrightarrow> expired st now)"
proof -
  obtain secs ns where t: "lmqtt_time_get_timeout_to (st_last_touch st) get_time (idle_interval st) w = (True, secs, ns, w')"
      "0 \<le> ns" "0 \<le> secs" "total_ns \<lparr>tm_secs = secs, tm_nsecs = ns\<rparr> =
       max 0 (total_ns (st_last_touch st) + uint (idle_interval st) * 1000000000 - total_ns now)"
    using timeout_to_exact [where get_time = get_time and w = w, OF assms(1,3-5)] by (auto simp: normal_time_def)
  have "secs = 0 \<and> ns = 0 \<longleftrightarrow> expired st now"
    using t(2-4) by (auto simp: total_ns_def expired_def)
  moreover have "\<not> (tm_secs (st_last_touch st) = 0 \<and> tm_nsecs (st_last_touch st) = 0)"
    using assms(2) by (auto simp: total_ns_def)
  ultimately show ?thesis
    using t(1) assms(1) by (auto simp: lmqtt_store_get_timeout_def idle_interval_def Let_def)
qed

text \<open>
  C21. The keep-alive timer of a connected client. Before the interval has passed nothing happens
  but reading the clock. When it has passed without traffic while a request is outstanding,
  the client fails with \<open>ERROR_TIMEOUT\<close> and accepts nothing; when it has passed and the store
  is empty, exactly one PINGREQ is queued.
\<close>

theorem keep_alive_decides:
  assumes "cl_error s = NO_ERROR" and "cl_current_store s = MAIN_STORE"
    and "store_inv (cl_main_store s)" and "0 < st_capacity (cl_main_store s)" and "ops_connected s"
    and "idle_interval (cl_main_store s) \<noteq> 0" and "total_ns (st_last_touch (cl_main_store s)) \<noteq> 0"
    and "en_get_time env (sy_world s) = (now, w')"
    and "normal_time (st_last_touch (cl_main_store s))" and "normal_time now"
  shows "\<exists>st s'. client_keep_alive env s = Some st \<and>
    (if \<not> expired (cl_main_store s) now then st = (STATUS_READY, s\<lparr>sy_world := w'\<rparr>)
     else if store_live (cl_main_store s) \<noteq> []
     then st = (STATUS_ERROR, s') \<and> cl_error s' = ERROR_TIMEOUT \<and> cl_closed s' \<and> ops_closed s' \<and>
       cl_op_connect s' = OP_FAIL \<and> cl_main_store s' = cl_main_store s
     else st = (STATUS_READY, s') \<and> cl_error s' = NO_ERROR \<and> ops_connected s' \<and>
       store_marked (cl_main_store s') = [] \<and> store_pending (cl_main_store s') = [ping_entry])"
proof -
  let ?st = "cl_main_store s"
  obtain secs ns where t: "lmqtt_store_get_timeout (en_get_time env) ?st (sy_world s) = (True, st_count ?st, secs, ns, w')"
      "secs = 0 \<and> ns = 0 \<longleftrightarrow> expired ?st now"
    using store_get_timeout_expired [where get_time = "en_get_time env" and w = "sy_world s", OF assms(6-10)] by blast
  have main: "get_store MAIN_STORE s = ?st" by (simp add: get_store_def)
  have live: "store_live ?st \<noteq> [] \<longleftrightarrow> 0 < st_count ?st" using length_store_live [OF assms(3)] by (metis length_greater_0_conv)
  show ?thesis
  proof (cases "expired ?st now \<and> st_count ?st = 0")
    case False
    then show ?thesis
      using assms(1,2) main live t
      by (cases "expired ?st now"; cases "st_count ?st = 0")
        (simp_all add: client_keep_alive_def client_set_state_failed_def set_ops_fail_def ops_closed_def)
  next
    case True
    then have ml: "store_marked ?st = []" "store_pending ?st = []"
      using live by (simp_all add: store_marked_def store_pending_def)
    obtain st' where "lmqtt_store_append ?st KIND_PINGREQ (Some (se_value ping_entry)) = Some (True, st')"
        "store_marked st' = []" "store_pending st' = [ping_entry]"
      using store_append_room [OF assms(3), of KIND_PINGREQ "se_value ping_entry"] assms(4) True ml
      by (auto simp: ping_entry_def)
    moreover have "cl_op_pingreq s = OP_DO" using assms(5) by (simp add: ops_connected_def)
    ultimately show ?thesis
      using t assms(1,2,5) main live True
      by (auto simp: client_keep_alive_def call_op_def client_do_pingreq_def ping_entry_def ops_connected_def)
  qed
qed

text \<open>A connected client whose last activity was at second 10, with a keep-alive and a timeout of 60 s.\<close>

definition idle_sys :: "store \<Rightarrow> user_event list sys" where
  "idle_sys st = set_ops_fail (session_sys 1
     (st\<lparr>st_keep_alive := 60, st_timeout := 60, st_last_touch := \<lparr>tm_secs = 10, tm_nsecs = 0\<rparr>\<rparr>))
     \<lparr>cl_op_subscribe := OP_DO, cl_op_unsubscribe := OP_DO, cl_op_publish := OP_DO,
      cl_op_pingreq := OP_DO, cl_op_disconnect := OP_DO\<rparr>"

lemma idle_sys_simps [simp]:
  "cl_main_store (idle_sys st) =
     st\<lparr>st_keep_alive := 60, st_timeout := 60, st_last_touch := \<lparr>tm_secs = 10, tm_nsecs = 0\<rparr>\<rparr>"
  "cl_error (idle_sys st) = NO_ERROR" "cl_current_store (idle_sys st) = MAIN_STORE" "ops_connected (idle_sys st)"
  "sy_world (idle_sys st) = []"
  by (simp_all add: idle_sys_def set_ops_fail_def session_sys_def client_setup_def ops_connected_def)

lemma store_settings_updates [simp]:
  "store_inv (st\<lparr>st_keep_alive := k, st_timeout := t, st_last_touch := l\<rparr>) = store_inv st"
  "store_live (st\<lparr>st_keep_alive := k, st_timeout := t, st_last_touch := l\<rparr>) = store_live st"
  by (simp_all add: store_inv_def store_live_def)

lemma idle_sys_timer [simp]:
  "idle_interval (st\<lparr>st_keep_alive := 60, st_timeout := 60, st_last_touch := l\<rparr>) = 60"
  "expired (st\<lparr>st_keep_alive := 60, st_timeout := 60, st_last_touch := \<lparr>tm_secs = 10, tm_nsecs = 0\<rparr>\<rparr>)
     \<lparr>tm_secs = 100, tm_nsecs = 0\<rparr>"
  by (simp_all add: idle_interval_def expired_def total_ns_def)

lemma recording_env_time [simp]: "en_get_time recording_env w = (\<lparr>tm_secs = 100, tm_nsecs = 0\<rparr>, w)"
  by (simp add: recording_env_def)

theorem keep_alive_decides_witness:
  "(\<exists>st s'. client_keep_alive recording_env (idle_sys (fresh_store 4)) = Some st \<and>
     st = (STATUS_READY, s') \<and> store_pending (cl_main_store s') = [ping_entry]) \<and>
   (\<exists>st s'. client_keep_alive recording_env (idle_sys sent_message) = Some st \<and>
     st = (STATUS_ERROR, s') \<and> cl_error s' = ERROR_TIMEOUT \<and> ops_closed s')"
proof
  show "\<exists>st s'. client_keep_alive recording_env (idle_sys (fresh_store 4)) = Some st \<and>
      st = (STATUS_READY, s') \<and> store_pending (cl_main_store s') = [ping_entry]"
    using keep_alive_decides [of "idle_sys (fresh_store 4)" recording_env "\<lparr>tm_secs = 100, tm_nsecs = 0\<rparr>" "[]"]
    by (auto simp: total_ns_def normal_time_def)
  show "\<exists>st s'. client_keep_alive recording_env (idle_sys sent_message) = Some st \<and>
      st = (STATUS_ERROR, s') \<and> cl_error s' = ERROR_TIMEOUT \<and> ops_closed s'"
    using keep_alive_decides [of "idle_sys sent_message" recording_env "\<lparr>tm_secs = 100, tm_nsecs = 0\<rparr>" "[]"]
    by (auto simp: total_ns_def normal_time_def)
qed

end
