(* ===== verification/Client_Invariant.thy ===== *)
theory Client_Invariant
  imports Client Client_States
begin

text \<open>
  The invariant of a client: both stores are well-formed bounded queues, the set of received
  identifiers fits its array, the bytes under transfer lie inside the buffers, and the receive
  and the transmit buffer work on the store the client calls current.

  Every function of the library preserves it, whatever the server sends, whatever the string
  callbacks and the connection return, and whatever operations the user's callbacks call. This
  theory has the invariant, the steps of the user and the flushing of the stores;
  \<open>Transfer_Invariant\<close> follows with the receive and the transmit buffer and
  \<open>Reachable_Clients\<close> with the client and the theorem about its reachable states.
\<close>

section \<open>The invariant\<close>

definition sys_inv :: "'w sys \<Rightarrow> bool" where
  "sys_inv s \<longleftrightarrow> store_inv (cl_main_store s) \<and> store_inv (cl_connect_store s) \<and>
     id_set_inv (rx_id_set (cl_rx s)) \<and>
     rx_store (cl_rx s) = cl_current_store s \<and> tx_store (cl_tx s) = cl_current_store s \<and>
     (\<forall>b. get_buf_pos b s \<le> get_buf_capacity b s \<and> get_buf_capacity b s \<le> length (get_buf b s) \<and>
       length (get_buf b s) < 2 ^ 64)"

text \<open>The pointers to the operations have been set; they are null before the initialization.\<close>

definition ops_set :: "'w sys \<Rightarrow> bool" where
  "ops_set s \<longleftrightarrow> cl_op_connect s \<noteq> OP_NULL \<and> cl_op_subscribe s \<noteq> OP_NULL \<and>
     cl_op_unsubscribe s \<noteq> OP_NULL \<and> cl_op_publish s \<noteq> OP_NULL \<and> cl_op_pingreq s \<noteq> OP_NULL \<and>
     cl_op_disconnect s \<noteq> OP_NULL"

text \<open>
  A state that may follow \<open>s0\<close> while the library works on a buffer: the memory of the buffers
  is untouched and no bytes have been added to them.
\<close>

definition safe_to :: "'w sys \<Rightarrow> 'w sys \<Rightarrow> bool" where
  "safe_to s0 s \<longleftrightarrow> sys_inv s \<and> (ops_set s0 \<longrightarrow> ops_set s) \<and> (\<forall>b. get_buf b s = get_buf b s0 \<and>
     get_buf_capacity b s = get_buf_capacity b s0 \<and> get_buf_pos b s \<le> get_buf_pos b s0)"

lemma safe_to_refl: "sys_inv s \<Longrightarrow> safe_to s s"
  by (simp add: safe_to_def)

lemma safe_to_inv: "safe_to s0 s \<Longrightarrow> sys_inv s"
  by (simp add: safe_to_def)

lemma safe_to_trans: "safe_to s0 s1 \<Longrightarrow> safe_to s1 s2 \<Longrightarrow> safe_to s0 s2"
  unfolding safe_to_def by (metis order_trans)

lemma all_buf: "(\<forall>b. P b) \<longleftrightarrow> P READ_BUF \<and> P WRITE_BUF"
  by (metis buf_ref.exhaust)

subsection \<open>Changes that do not matter\<close>

lemma safe_to_ignores [simp]:
  "safe_to s0 (upd_ri f s) = safe_to s0 s" "safe_to s0 (upd_ti g s) = safe_to s0 s"
  "safe_to s0 (s\<lparr>sy_heap := hp\<rparr>) = safe_to s0 s" "safe_to s0 (s\<lparr>sy_world := w\<rparr>) = safe_to s0 s"
  "safe_to s0 (s\<lparr>cl_error := e\<rparr>) = safe_to s0 s" "safe_to s0 (s\<lparr>cl_os_error := i\<rparr>) = safe_to s0 s"
  "safe_to s0 (s\<lparr>cl_closed := c\<rparr>) = safe_to s0 s" "safe_to s0 (s\<lparr>cl_clean_session := k\<rparr>) = safe_to s0 s"
  "safe_to s0 (rx_buffer_fail e i s) = safe_to s0 s" "safe_to s0 (tx_buffer_fail e i s) = safe_to s0 s"
  "safe_to s0 (lmqtt_rx_buffer_reset s) = safe_to s0 s" "safe_to s0 (lmqtt_tx_buffer_reset s) = safe_to s0 s"
  "safe_to s0 (lmqtt_tx_buffer_finish s) = safe_to s0 s"
  by (simp_all add: safe_to_def sys_inv_def ops_set_def all_buf upd_ri_def upd_ti_def rx_buffer_fail_def tx_buffer_fail_def
      lmqtt_rx_buffer_reset_def lmqtt_tx_buffer_reset_def lmqtt_tx_buffer_finish_def)

lemma safe_to_set_store: "safe_to s0 s \<Longrightarrow> store_inv st \<Longrightarrow> safe_to s0 (set_store r st s)"
  by (cases r) (auto simp: safe_to_def sys_inv_def ops_set_def all_buf set_store_def)

lemma safe_to_main_store: "safe_to s0 s \<Longrightarrow> store_inv st \<Longrightarrow> safe_to s0 (s\<lparr>cl_main_store := st\<rparr>)"
  by (auto simp: safe_to_def sys_inv_def ops_set_def all_buf)

lemma safe_to_connect_store: "safe_to s0 s \<Longrightarrow> store_inv st \<Longrightarrow> safe_to s0 (s\<lparr>cl_connect_store := st\<rparr>)"
  by (auto simp: safe_to_def sys_inv_def ops_set_def all_buf)

lemma safe_to_ids: "safe_to s0 s \<Longrightarrow> id_set_inv ids \<Longrightarrow> safe_to s0 (s\<lparr>cl_rx := (cl_rx s)\<lparr>rx_id_set := ids\<rparr>\<rparr>)"
  by (auto simp: safe_to_def sys_inv_def ops_set_def all_buf)

lemma safe_to_current: "safe_to s0 s \<Longrightarrow> safe_to s0 (client_set_current_store r s)"
  by (auto simp: safe_to_def sys_inv_def ops_set_def all_buf client_set_current_store_def Let_def)

lemma safe_to_connecting: "safe_to s0 s \<Longrightarrow> safe_to s0 (client_set_state_connecting s)"
  by (auto simp: safe_to_def sys_inv_def ops_set_def all_buf client_set_state_connecting_def Let_def
      lmqtt_rx_buffer_reset_def lmqtt_tx_buffer_reset_def upd_ri_def)

lemma safe_to_ops:
  assumes "safe_to s0 s"
  shows "safe_to s0 (set_ops_fail s)" and "safe_to s0 (set_ops_fail (s\<lparr>cl_op_connect := OP_DO\<rparr>))"
    and "safe_to s0 (set_ops_fail (s\<lparr>cl_op_connect := OP_FAIL\<rparr>))"
    and "safe_to s0 (s\<lparr>cl_op_subscribe := OP_DO, cl_op_unsubscribe := OP_DO, cl_op_publish := OP_DO,
         cl_op_pingreq := OP_DO, cl_op_disconnect := OP_DO\<rparr>)"
  using assms by (auto simp: safe_to_def sys_inv_def ops_set_def all_buf set_ops_fail_def)

lemmas safe_to_updates = safe_to_set_store safe_to_main_store safe_to_connect_store safe_to_ids
  safe_to_current safe_to_connecting

lemma safe_to_stores:
  assumes "safe_to s0 s"
  shows "store_inv (get_store r s)" and "store_inv (cl_main_store s)" and "store_inv (cl_connect_store s)"
    and "id_set_inv (rx_id_set (cl_rx s))"
  using assms by (auto simp: safe_to_def sys_inv_def get_store_def split: store_ref.split)

subsection \<open>The store and the identifiers\<close>

lemma store_append_inv:
  assumes "lmqtt_store_append st k v = Some (b, st')" and "store_inv st"
  shows "store_inv st'"
  by (rule pq.append_cases [OF assms(2), of k v]) (use assms in auto)

lemma store_pop_at_inv:
  "store_pop_at st p = Some (b, k, v, st') \<Longrightarrow> store_inv st \<Longrightarrow> store_inv st'"
  using store_pop_at_spec [of st p] store_pop_at_out [of st p] by (cases "p < st_count st") auto

lemma store_pop_inv:
  assumes "lmqtt_store_pop_marked_by st k pid = Some (b, v, st')" and "store_inv st"
  shows "store_inv st'"
  by (rule pq.pop_cases [OF assms(2), of k pid]) (use assms in auto)

lemma store_drop_inv: "lmqtt_store_drop_current st = Some (b, st') \<Longrightarrow> store_inv st \<Longrightarrow> store_inv st'"
  by (auto simp: lmqtt_store_drop_current_def bind_eq_Some_conv dest: store_pop_at_inv)

lemma store_delete_inv: "lmqtt_store_delete_at st p = Some (b, st') \<Longrightarrow> store_inv st \<Longrightarrow> store_inv st'"
  by (auto simp: lmqtt_store_delete_at_def bind_eq_Some_conv dest: store_pop_at_inv)

lemma store_shift_inv: "lmqtt_store_shift st = Some (b, k, v, st') \<Longrightarrow> store_inv st \<Longrightarrow> store_inv st'"
  by (simp add: lmqtt_store_shift_def store_pop_at_inv)

lemma store_mark_inv: "store_inv st \<Longrightarrow> store_inv (snd (lmqtt_store_mark_current st))"
  by (simp add: lmqtt_store_mark_current_def store_inv_def)

lemma store_touch_inv: "store_inv st \<Longrightarrow> lmqtt_store_touch gt st w = (st', w') \<Longrightarrow> store_inv st'"
  by (auto simp: lmqtt_store_touch_def store_inv_def split: prod.splits)

lemma store_get_id_inv: "store_inv st \<Longrightarrow> lmqtt_store_get_id st = (pid, st') \<Longrightarrow> store_inv st'"
  by (auto simp: lmqtt_store_get_id_def store_inv_def)

lemma store_unmark_inv: "store_inv st \<Longrightarrow> store_inv (lmqtt_store_unmark_all st)"
  by (rule store_unmark_all_spec)

lemma cleanup_loop_inv: "cleanup_loop n st i = Some st' \<Longrightarrow> store_inv st \<Longrightarrow> store_inv st'"
proof (induction n arbitrary: st i)
  case 0
  then show ?case by simp
next
  case (Suc n)
  from Suc.prems show ?case
    by (auto simp: bind_eq_Some_conv split: if_splits intro: Suc.IH dest: store_delete_inv)
qed

lemmas store_op_invs = store_append_inv store_pop_inv store_drop_inv store_shift_inv
  store_touch_inv store_get_id_inv store_unmark_inv cleanup_loop_inv

lemma id_set_put_inv: "lmqtt_id_set_put ids pid = Some (b, ids') \<Longrightarrow> id_set_inv ids \<Longrightarrow> id_set_inv ids'"
  using id_set_put_spec [of ids pid] id_set_put_beyond [of ids pid]
  by (cases "ids_capacity ids \<le> ids_count ids \<or> pid \<in> ids_members ids"; cases "ids_count ids < length (ids_items ids)") auto

lemma id_set_remove_inv: "lmqtt_id_set_remove ids pid = Some (b, ids') \<Longrightarrow> id_set_inv ids \<Longrightarrow> id_set_inv ids'"
proof (cases "first_index pid (ids_list ids)")
  case None
  assume a: "lmqtt_id_set_remove ids pid = Some (b, ids')" "id_set_inv ids"
  from None have "pid \<notin> ids_members ids"
    using first_index_present [of pid "ids_list ids"] by (auto simp: ids_members_def)
  with a show ?thesis by (simp add: id_set_remove_cases(1))
next
  case (Some i)
  assume a: "lmqtt_id_set_remove ids pid = Some (b, ids')" "id_set_inv ids"
  with id_set_remove_cases(2,3) [OF a(2) Some] show ?thesis by (auto simp: not_le [symmetric])
qed

lemma id_set_clear_inv: "id_set_inv ids \<Longrightarrow> id_set_inv (lmqtt_id_set_clear ids)"
  by (simp add: id_set_inv_def lmqtt_id_set_clear_def ids_list_def)


section \<open>What the user may do\<close>

text \<open>
  A step of the user: an operation of the client (from anywhere, also from inside a callback), a
  registration, a change of the user's own objects or of the outside world. A user is well-behaved
  when every callback consists of such steps; in particular it does not write to the
  client's memory and does not call \<open>lmqtt_client_run_once\<close> again.
\<close>

inductive user_step :: "'w sys \<Rightarrow> 'w sys \<Rightarrow> bool" where
  user_connect: "lmqtt_client_connect a s = Some (b, s') \<Longrightarrow> user_step s s'"
| user_subscribe: "lmqtt_client_subscribe a s = Some (b, s') \<Longrightarrow> user_step s s'"
| user_unsubscribe: "lmqtt_client_unsubscribe a s = Some (b, s') \<Longrightarrow> user_step s s'"
| user_publish: "lmqtt_client_publish a s = Some (b, s') \<Longrightarrow> user_step s s'"
| user_disconnect: "lmqtt_client_disconnect s = Some (b, s') \<Longrightarrow> user_step s s'"
| user_objects: "user_step s (s\<lparr>sy_heap := hp\<rparr>)"
| user_world: "user_step s (s\<lparr>sy_world := w\<rparr>)"
| user_on_connect: "user_step s (lmqtt_client_set_on_connect f d s)"
| user_on_subscribe: "user_step s (lmqtt_client_set_on_subscribe f d s)"
| user_on_unsubscribe: "user_step s (lmqtt_client_set_on_unsubscribe f d s)"
| user_on_publish: "user_step s (lmqtt_client_set_on_publish f d s)"
| user_message_callbacks: "user_step s (lmqtt_client_set_message_callbacks mc s)"
| user_default_timeout: "user_step s (lmqtt_client_set_default_timeout secs s)"

definition well_behaved :: "'w env \<Rightarrow> bool" where
  "well_behaved env \<longleftrightarrow>
     (\<forall>f d v ok s b s'. (en_on_connect env f d v ok s = Some (b, s') \<or> en_on_subscribe env f d v ok s = Some (b, s') \<or>
        en_on_unsubscribe env f d v ok s = Some (b, s') \<or> en_on_publish env f d v ok s = Some (b, s') \<or>
        en_message env f d s = Some (b, s')) \<longrightarrow> user_step\<^sup>*\<^sup>* s s')"

lemmas op_defs = lmqtt_client_connect_def lmqtt_client_subscribe_def lmqtt_client_unsubscribe_def
  lmqtt_client_publish_def lmqtt_client_disconnect_def client_do_connect_def client_do_subscribe_def
  client_do_unsubscribe_def client_subscribe_with_kind_def client_do_publish_def
  client_do_disconnect_def client_do_pingreq_def

lemma call_op_safe:
  assumes "call_op p f s = Some (b, s')" and "safe_to s0 s"
    and "\<And>b s'. f s = Some (b, s') \<Longrightarrow> safe_to s0 s'"
  shows "safe_to s0 s'"
  using assms by (cases p) (auto simp: call_op_def)

lemma do_connect_safe: "client_do_connect a s = Some (b, s') \<Longrightarrow> safe_to s0 s \<Longrightarrow> safe_to s0 s'"
  by (auto simp: op_defs bind_eq_Some_conv Let_def split: if_splits simp del: get_iffs
      intro!: safe_to_updates elim!: store_op_invs dest: safe_to_stores)

lemma do_subscribe_safe:
  "client_subscribe_with_kind a k cb s = Some (b, s') \<Longrightarrow> safe_to s0 s \<Longrightarrow> safe_to s0 s'"
  by (auto simp: op_defs bind_eq_Some_conv split: if_splits prod.splits simp del: get_iffs
      intro!: safe_to_updates dest: safe_to_stores elim!: store_op_invs)

lemma do_subscribes_safe:
  "client_do_subscribe a s = Some (b, s') \<Longrightarrow> safe_to s0 s \<Longrightarrow> safe_to s0 s'"
  "client_do_unsubscribe a s = Some (b, s') \<Longrightarrow> safe_to s0 s \<Longrightarrow> safe_to s0 s'"
  by (simp_all only: client_do_subscribe_def client_do_unsubscribe_def do_subscribe_safe)

lemma do_publish_safe: "client_do_publish a s = Some (b, s') \<Longrightarrow> safe_to s0 s \<Longrightarrow> safe_to s0 s'"
  by (auto simp: op_defs bind_eq_Some_conv Let_def split: if_splits prod.splits simp del: get_iffs
      intro!: safe_to_updates dest: safe_to_stores elim!: store_op_invs)

lemma do_pingreq_safe: "client_do_pingreq s = Some (b, s') \<Longrightarrow> safe_to s0 s \<Longrightarrow> safe_to s0 s'"
  by (auto simp: op_defs bind_eq_Some_conv intro!: safe_to_updates dest: safe_to_stores elim!: store_op_invs)

lemma do_disconnect_safe: "client_do_disconnect s = Some (b, s') \<Longrightarrow> safe_to s0 s \<Longrightarrow> safe_to s0 s'"
  by (auto simp: op_defs bind_eq_Some_conv intro!: safe_to_updates dest: safe_to_stores elim!: store_op_invs)

lemma setters_safe:
  assumes "safe_to s0 s"
  shows "safe_to s0 (lmqtt_client_set_on_connect f d s)" and "safe_to s0 (lmqtt_client_set_on_subscribe f d s)"
    and "safe_to s0 (lmqtt_client_set_on_unsubscribe f d s)" and "safe_to s0 (lmqtt_client_set_on_publish f d s)"
    and "safe_to s0 (lmqtt_client_set_message_callbacks mc s)" and "safe_to s0 (lmqtt_client_set_default_timeout secs s)"
  using assms
  by (auto simp: lmqtt_client_set_on_connect_def lmqtt_client_set_on_subscribe_def lmqtt_client_set_on_unsubscribe_def
      lmqtt_client_set_on_publish_def lmqtt_client_set_message_callbacks_def lmqtt_client_set_default_timeout_def
      safe_to_def sys_inv_def ops_set_def all_buf store_inv_def)

lemma user_step_safe: "user_step s s' \<Longrightarrow> safe_to s0 s \<Longrightarrow> safe_to s0 s'"
proof (induction rule: user_step.induct)
  case (user_connect a s b s')
  then show ?case by (auto simp: lmqtt_client_connect_def intro: call_op_safe do_connect_safe)
next
  case (user_subscribe a s b s')
  then show ?case by (auto simp: lmqtt_client_subscribe_def intro: call_op_safe do_subscribes_safe)
next
  case (user_unsubscribe a s b s')
  then show ?case by (auto simp: lmqtt_client_unsubscribe_def intro: call_op_safe do_subscribes_safe)
next
  case (user_publish a s b s')
  then show ?case by (auto simp: lmqtt_client_publish_def intro: call_op_safe do_publish_safe)
next
  case (user_disconnect s b s')
  then show ?case by (auto simp: lmqtt_client_disconnect_def intro: call_op_safe do_disconnect_safe)
qed (simp_all add: setters_safe)

lemma user_steps_safe: "user_step\<^sup>*\<^sup>* s s' \<Longrightarrow> safe_to s0 s \<Longrightarrow> safe_to s0 s'"
  by (induction rule: rtranclp_induct) (auto intro: user_step_safe)

lemma callbacks_safe:
  assumes "well_behaved env" and "safe_to s0 s"
  shows "en_on_connect env f d v ok s = Some (b, s') \<Longrightarrow> safe_to s0 s'"
    and "en_on_subscribe env f d v ok s = Some (b, s') \<Longrightarrow> safe_to s0 s'"
    and "en_on_unsubscribe env f d v ok s = Some (b, s') \<Longrightarrow> safe_to s0 s'"
    and "en_on_publish env f d v ok s = Some (b, s') \<Longrightarrow> safe_to s0 s'"
    and "en_message env f d s = Some (b, s') \<Longrightarrow> safe_to s0 s'"
  using assms unfolding well_behaved_def by (blast intro: user_steps_safe)+


section \<open>Flushing the stores\<close>

lemma cleanup_stores_safe:
  assumes "client_cleanup_stores flush keep s = Some s'" and "safe_to s0 s"
    and "\<And>r s s'. flush r s = Some s' \<Longrightarrow> safe_to s0 s \<Longrightarrow> safe_to s0 s'"
  shows "safe_to s0 s'"
proof (cases keep)
  case True
  then obtain st where st: "cleanup_loop (Suc (st_count (cl_main_store s))) (cl_main_store s) 0 = Some st"
      "flush CONNECT_STORE (s\<lparr>cl_main_store := st\<rparr>) = Some s'"
    using assms(1) by (auto simp: client_cleanup_stores_def bind_eq_Some_conv simp del: cleanup_loop.simps)
  have "store_inv st" by (rule cleanup_loop_inv [OF st(1) safe_to_stores(2) [OF assms(2)]])
  then show ?thesis using assms(3) [OF st(2)] assms(2) by (simp add: safe_to_main_store)
next
  case False
  then obtain s1 where s1: "flush MAIN_STORE s = Some s1"
      "flush CONNECT_STORE (s1\<lparr>cl_rx := (cl_rx s1)\<lparr>rx_id_set := lmqtt_id_set_clear (rx_id_set (cl_rx s1))\<rparr>\<rparr>) = Some s'"
    using assms(1) by (auto simp: client_cleanup_stores_def bind_eq_Some_conv)
  have "safe_to s0 s1" by (rule assms(3) [OF s1(1) assms(2)])
  then show ?thesis
    using assms(3) [OF s1(2)] by (simp add: safe_to_ids id_set_clear_inv safe_to_stores)
qed

lemma state_connected_safe:
  assumes "client_set_state_connected flush s = Some s'" and "safe_to s0 s"
    and "\<And>r s s'. flush r s = Some s' \<Longrightarrow> safe_to s0 s \<Longrightarrow> safe_to s0 s'"
  shows "safe_to s0 s'"
proof -
  let ?s2 = "client_set_current_store MAIN_STORE (s\<lparr>cl_error := NO_ERROR, cl_os_error := 0, cl_closed := False\<rparr>)"
  obtain s3 where s3: "client_cleanup_stores flush (cl_clean_session ?s2 = 0) ?s2 = Some s3"
      "s' = (s3\<lparr>cl_main_store := lmqtt_store_unmark_all (cl_main_store s3)\<rparr>)\<lparr>cl_op_subscribe := OP_DO,
         cl_op_unsubscribe := OP_DO, cl_op_publish := OP_DO, cl_op_pingreq := OP_DO, cl_op_disconnect := OP_DO\<rparr>"
    using assms(1) by (auto simp: client_set_state_connected_def bind_eq_Some_conv Let_def)
  have "safe_to s0 ?s2" using assms(2) by (intro safe_to_current) simp
  with s3(1) have "safe_to s0 s3" by (rule cleanup_stores_safe) (rule assms(3))
  then show ?thesis
    unfolding s3(2) by (intro safe_to_ops) (simp add: safe_to_main_store store_unmark_inv safe_to_stores)
qed

lemma value_callback_safe:
  assumes "value_callback flush env v s = Some (b, s')" and "safe_to s0 s" and "well_behaved env"
    and flush: "\<And>r s s'. flush r s = Some s' \<Longrightarrow> safe_to s0 s \<Longrightarrow> safe_to s0 s'"
  shows "safe_to s0 s'"
proof -
  have connected: "client_set_state_connected flush s1 = Some s2 \<Longrightarrow> safe_to s0 s1 \<Longrightarrow> safe_to s0 s2" for s1 s2
    by (rule state_connected_safe) (use flush in auto)
  have connack: "client_on_connack flush env v s = Some (b, s') \<Longrightarrow> safe_to s0 s'" for v
  proof (cases "cl_closed s")
    case True
    then show "client_on_connack flush env v s = Some (b, s') \<Longrightarrow> safe_to s0 s'"
      using assms(2) callbacks_safe(1) [OF assms(3,2)] by (auto simp: client_on_connack_def split: option.splits)
  next
    case False
    assume r: "client_on_connack flush env v s = Some (b, s')"
    then obtain a c s2 where c: "get_connect (sy_heap s) v = Some (a, c)"
        "client_set_state_connected flush (s\<lparr>cl_clean_session := uint (cn_clean_session c),
          cl_main_store := (cl_main_store s)\<lparr>st_keep_alive := cn_keep_alive c\<rparr>\<rparr>) = Some s2"
        "(case cl_on_connect s2 of Some f \<Rightarrow> en_on_connect env f (cl_on_connect_data s2) v True s2
          | None \<Rightarrow> Some (True, s2)) = Some (b, s')"
      using False by (auto simp: client_on_connack_def bind_eq_Some_conv simp del: get_iffs)
    have "safe_to s0 s2"
      using assms(2) by (intro connected [OF c(2)] safe_to_main_store) (auto simp: store_inv_def dest: safe_to_stores)
    then show "safe_to s0 s'"
      using c(3) callbacks_safe(1) [OF assms(3)] by (auto split: option.splits)
  qed
  show ?thesis
  proof (cases "sv_callback v")
    case None
    then show ?thesis using assms(1,2) by (simp add: value_callback_def)
  next
    case (Some cb)
    then show ?thesis
      using assms(1,2) connack callbacks_safe [OF assms(3,2)]
      by (cases cb) (auto simp: value_callback_def entry_callback_call_def client_on_pingresp_def
        client_on_suback_def client_on_unsuback_def client_on_publish_def split: if_splits option.splits)
  qed
qed

lemma flush_store_safe:
  "client_flush_store n env r s = Some s' \<Longrightarrow> well_behaved env \<Longrightarrow> safe_to s0 s \<Longrightarrow> safe_to s0 s'"
proof (induction n arbitrary: r s s')
  case 0
  then show ?case by simp
next
  case (Suc n)
  obtain ok k v st where sh: "lmqtt_store_shift (get_store r s) = Some (ok, k, v, st)"
    using Suc.prems(1) by (auto simp: bind_eq_Some_conv)
  have s1: "safe_to s0 (set_store r st s)"
    using Suc.prems(3) store_shift_inv [OF sh] by (simp add: safe_to_set_store safe_to_stores)
  show ?case
  proof (cases ok)
    case False
    then show ?thesis using Suc.prems(1) sh s1 by simp
  next
    case True
    then obtain b s2 where s2: "value_callback (client_flush_store n env) env v (set_store r st s) = Some (b, s2)"
        "client_flush_store n env r s2 = Some s'"
      using Suc.prems(1) sh by (auto simp: bind_eq_Some_conv)
    have "safe_to s0 s2"
      by (rule value_callback_safe [OF s2(1) s1 Suc.prems(2)]) (rule Suc.IH [OF _ Suc.prems(2)])
    with Suc.IH [OF s2(2) Suc.prems(2)] show ?thesis by blast
  qed
qed

lemmas callback_safe = value_callback_safe [OF _ _ _ flush_store_safe]


end
