(* ===== verification/Transfer_Invariant.thy ===== *)
theory Transfer_Invariant
  imports Client_Invariant
begin

text \<open>
  The receive and the transmit buffer preserve the invariant of the client, byte by byte and
  packet by packet, and an encoder never writes beyond the room it is given.
\<close>

section \<open>Receiving\<close>

lemma allocate_safe: "rx_buffer_allocate env when part len s = (ok, s') \<Longrightarrow> safe_to s0 s \<Longrightarrow> safe_to s0 s'"
  by (auto simp: rx_buffer_allocate_def Let_def split: option.splits if_splits prod.splits allocate_result.splits)

lemma allocate_write_safe:
  "rx_buffer_allocate_write env when part len bytes s = Some (ok, cnt, s') \<Longrightarrow> safe_to s0 s \<Longrightarrow> safe_to s0 s'"
  by (auto simp: rx_buffer_allocate_write_def Let_def bind_eq_Some_conv split: if_splits prod.splits string_result.splits
      dest: allocate_safe) (metis string_result.exhaust)+

lemma deallocate_safe: "safe_to s0 (rx_buffer_deallocate_publish env s) = safe_to s0 s"
  by (auto simp: rx_buffer_deallocate_publish_def Let_def split: option.splits prod.splits)

lemma decode_connack_safe:
  "rx_buffer_decode_connack bytes s = Some (r, cnt, s') \<Longrightarrow> safe_to s0 s \<Longrightarrow> safe_to s0 s'"
  by (auto simp: rx_buffer_decode_connack_def Let_def bind_eq_Some_conv simp del: get_iffs split: if_splits)

lemma publish_bytes_safe:
  "rx_buffer_publish_bytes env rem_len p_len bytes s = Some (ok, cnt, s') \<Longrightarrow> safe_to s0 s \<Longrightarrow> safe_to s0 s'"
  by (auto simp: rx_buffer_publish_bytes_def Let_def bind_eq_Some_conv deallocate_safe split: if_splits
      dest!: allocate_write_safe [where ?s0.0 = s0])

lemma publish_deliver_safe:
  assumes "rx_buffer_publish_deliver env qos s = Some (r, s')" and "safe_to s0 s" and "well_behaved env"
  shows "safe_to s0 s'"
proof -
  let ?s1 = "upd_ri (\<lambda>i. i\<lparr>ri_publish := (ri_publish i)\<lparr>pb_qos := qos, pb_retain := word_of_int (fh_retain (ri_header i))\<rparr>\<rparr>) s"
  have "safe_to s0 ?s1" using assms(2) by simp
  note cb = callbacks_safe(5) [OF assms(3) this]
  show ?thesis
    using assms(1,2)
    by (auto simp: rx_buffer_publish_deliver_def Let_def bind_eq_Some_conv deallocate_safe
      split: if_splits option.splits dest: cb)
qed

lemma publish_finish_safe:
  assumes "rx_buffer_publish_finish env qos s = Some (r, s')" and "safe_to s0 s" and "well_behaved env"
  shows "safe_to s0 s'"
proof -
  obtain s1 known where s1: "(if qos \<noteq> QOS_0
      then lmqtt_store_append (get_store (rx_store (cl_rx s)) s) (if qos = QOS_2 then KIND_PUBREC else KIND_PUBACK)
             (Some (store_value_zero\<lparr>sv_packet_id := ri_packet_id (ri s)\<rparr>)) \<bind>
           (\<lambda>(_, st). Some (set_store (rx_store (cl_rx s)) st s))
      else Some s) = Some s1"
    and fin: "(if known then Some (DECODE_FINISHED, rx_buffer_deallocate_publish env s1)
        else if qos = QOS_2
        then do {
          (ok, ids) \<leftarrow> lmqtt_id_set_put (rx_id_set (cl_rx s1)) (ri_packet_id (ri s));
          let s2 = s1\<lparr>cl_rx := (cl_rx s1)\<lparr>rx_id_set := ids\<rparr>\<rparr>;
          if \<not> ok
          then Some (DECODE_ERROR, rx_buffer_fail ERROR_DECODE_PUBLISH_ID_SET_FULL 0
            (rx_buffer_deallocate_publish env s2))
          else rx_buffer_publish_deliver env qos s2
        }
        else rx_buffer_publish_deliver env qos s1) = Some (r, s')"
    using assms(1) by (auto simp: rx_buffer_publish_finish_def Let_def bind_eq_Some_conv)
  have safe1: "safe_to s0 s1"
    using s1 assms(2) by (auto simp: bind_eq_Some_conv split: if_splits
      intro!: safe_to_set_store elim!: store_append_inv dest: safe_to_stores)
  have ids: "lmqtt_id_set_put (rx_id_set (cl_rx s1)) pid = Some (ok, ids) \<Longrightarrow>
      safe_to s0 (s1\<lparr>cl_rx := (cl_rx s1)\<lparr>rx_id_set := ids\<rparr>\<rparr>)" for pid ok ids
    using safe1 by (auto intro!: safe_to_ids elim!: id_set_put_inv dest: safe_to_stores)
  show ?thesis
    using fin safe1
    by (auto simp: bind_eq_Some_conv Let_def deallocate_safe split: if_splits
      dest: ids publish_deliver_safe [OF _ _ assms(3), where ?s0.0 = s0])
qed

lemma decode_publish_safe:
  assumes "rx_buffer_decode_publish env bytes s = Some (r, cnt, s')" and "safe_to s0 s" and "well_behaved env"
  shows "safe_to s0 s'"
  using assms(1,2)
  by (auto simp: rx_buffer_decode_publish_def Let_def bind_eq_Some_conv split: if_splits
      dest: publish_bytes_safe [where ?s0.0 = s0] publish_finish_safe [OF _ _ assms(3), where ?s0.0 = s0])

lemma decode_suback_safe:
  "rx_buffer_decode_suback bytes s = Some (r, cnt, s') \<Longrightarrow> safe_to s0 s \<Longrightarrow> safe_to s0 s'"
  by (auto simp: rx_buffer_decode_suback_def Let_def bind_eq_Some_conv simp del: get_iffs arr_iffs split: if_splits)

lemma pop_packet_safe: "rx_buffer_pop_packet d pid s = Some (ok, s') \<Longrightarrow> safe_to s0 s \<Longrightarrow> safe_to s0 s'"
  by (auto simp: rx_buffer_pop_packet_def Let_def bind_eq_Some_conv split: if_splits
      intro!: safe_to_set_store elim!: store_pop_inv dest: safe_to_stores)

lemma pubrel_safe: "rx_buffer_pubrel s = Some (ok, s') \<Longrightarrow> safe_to s0 s \<Longrightarrow> safe_to s0 s'"
  by (auto simp: rx_buffer_pubrel_def Let_def bind_eq_Some_conv split: if_splits
      intro!: safe_to_set_store safe_to_ids elim!: store_append_inv id_set_remove_inv dest: safe_to_stores)

lemma rx_pop_safe: "rx_buffer_pop p d s = Some (ok, s') \<Longrightarrow> safe_to s0 s \<Longrightarrow> safe_to s0 s'"
  by (cases p) (auto simp: rx_buffer_pop_def dest: pop_packet_safe pubrel_safe)


lemma decode_type_safe:
  assumes "rx_buffer_decode_type env d bytes s = Some (r, cnt, s')" and "safe_to s0 s" and "well_behaved env"
  shows "safe_to s0 s'"
  using assms
  by (cases d) (auto simp: rx_buffer_decode_type_def dest: decode_connack_safe decode_publish_safe decode_suback_safe)

lemma without_id_safe:
  assumes "rx_buffer_decode_remaining_without_id env d bytes s = Some (r, cnt, s')" and "safe_to s0 s"
    and "well_behaved env"
  shows "safe_to s0 s'"
  using assms(1)
  by (auto simp: rx_buffer_decode_remaining_without_id_def bind_eq_Some_conv Let_def split: if_splits
      dest: decode_type_safe [OF _ assms(2,3)])

lemma with_id_safe:
  assumes "rx_buffer_decode_remaining_with_id env d bytes s = Some (r, cnt, s')" and "safe_to s0 s"
    and "well_behaved env"
  shows "safe_to s0 s'"
  using assms(1,2)
  by (auto simp: rx_buffer_decode_remaining_with_id_def bind_eq_Some_conv Let_def split: if_splits
      dest: without_id_safe [OF _ assms(2,3)] rx_pop_safe [where ?s0.0 = s0])

lemma remaining_safe:
  "decoder_decode_remaining env d bytes s = Some (r, cnt, s') \<Longrightarrow> safe_to s0 s \<Longrightarrow> well_behaved env \<Longrightarrow> safe_to s0 s'"
  by (auto simp: decoder_decode_remaining_def split: if_splits dest: with_id_safe without_id_safe)

lemma header_byte_safe:
  assumes "rx_buffer_header_byte b s = Some (r, cnt, s')" and "safe_to s0 s"
  shows "safe_to s0 s'"
proof -
  obtain header res err where h: "fixed_header_decode (ri_header (ri s)) b = (header, res, err)"
    by (cases "fixed_header_decode (ri_header (ri s)) b") auto
  show ?thesis
  proof (cases "res = DECODE_FINISHED")
    case False
    then show ?thesis using assms h by (auto simp: rx_buffer_header_byte_def Let_def split: if_splits)
  next
    case True
    then obtain decoder where "arr_get rx_buffer_decoders (nat (fh_type header)) = Some decoder"
      using assms(1) h by (auto simp: rx_buffer_header_byte_def bind_eq_Some_conv Let_def simp del: arr_iffs)
    then show ?thesis
      using assms h True
      by (cases decoder) (auto simp: rx_buffer_header_byte_def bind_eq_Some_conv Let_def split: if_splits
        simp del: arr_iffs dest: rx_pop_safe [where ?s0.0 = s0])
  qed
qed

lemma rest_bytes_safe:
  assumes "rx_buffer_rest_bytes env bytes s = Some (r, cnt, s')" and "safe_to s0 s" and "well_behaved env"
  shows "safe_to s0 s'"
  using assms(1)
  by (auto simp: rx_buffer_rest_bytes_def bind_eq_Some_conv split: if_splits
      dest: remaining_safe [OF _ assms(2,3)])

lemma finish_packet_safe:
  assumes "rx_buffer_finish_packet n env s = Some (ok, s')" and "safe_to s0 s" and "well_behaved env"
  shows "safe_to s0 s'"
  using assms(1,2)
  by (auto simp: rx_buffer_finish_packet_def bind_eq_Some_conv Let_def rx_buffer_call_callback_def split: if_splits
      intro!: safe_to_set_store elim!: store_append_inv dest: safe_to_stores
      dest!: callback_safe [OF _ assms(2,3) _ assms(3)])

lemma decode_loop_safe:
  "rx_buffer_decode_loop n env bytes cnt s = Some (ok, cnt', s') \<Longrightarrow> well_behaved env \<Longrightarrow> safe_to s0 s \<Longrightarrow> safe_to s0 s'"
proof (induction n arbitrary: bytes cnt s)
  case 0
  then show ?case by simp
next
  case (Suc n)
  show ?case
  proof (cases "bytes = []")
    case True
    then show ?thesis using Suc.prems by simp
  next
    case False
    then obtain nx k s1 where s1: "(if \<not> ri_header_finished (ri s) then rx_buffer_header_byte (hd bytes) s
          else rx_buffer_rest_bytes env bytes s) = Some (nx, k, s1)"
      and rest: "(if nx = RX_ERROR then Some (False, cnt + k, s1)
        else if nx = RX_BREAK then Some (True, cnt + k, s1)
        else if nx = RX_CHECK \<and> rx_buffer_is_packet_finished s1
        then do {
          (ok, s2) \<leftarrow> rx_buffer_finish_packet n env s1;
          if ok then rx_buffer_decode_loop n env (drop k bytes) (cnt + k) s2
          else Some (False, cnt + k, s2)
        }
        else rx_buffer_decode_loop n env (drop k bytes) (cnt + k) s1) = Some (ok, cnt', s')"
      using Suc.prems(1) by (auto simp: rx_buffer_decode_loop.simps(2) bind_eq_Some_conv)
    have "safe_to s0 s1"
      using s1 Suc.prems(2,3) by (auto split: if_splits dest: header_byte_safe rest_bytes_safe)
    then show ?thesis
      using rest Suc.prems(2)
      by (auto simp: bind_eq_Some_conv split: if_splits dest: finish_packet_safe Suc.IH)
  qed
qed

lemma rx_decode_safe:
  assumes "lmqtt_rx_buffer_decode n env bytes s = Some (r, cnt, s')" and "safe_to s0 s" and "well_behaved env"
  shows "safe_to s0 s'"
  using assms(1,2)
  by (auto simp: lmqtt_rx_buffer_decode_def bind_eq_Some_conv split: if_splits
      dest: decode_loop_safe [OF _ assms(3,2)])

section \<open>Sending\<close>

lemma packet_done_safe:
  assumes "tx_buffer_packet_done n env k v s = Some (ok, s')" and "safe_to s0 s" and "well_behaved env"
  shows "safe_to s0 s'"
proof -
  let ?r = "tx_store (cl_tx s)"
  have marked: "safe_to s0 (set_store ?r (snd (lmqtt_store_mark_current (get_store ?r s))) s)"
    using assms(2) by (simp add: safe_to_set_store store_mark_inv safe_to_stores)
  have dropped: "lmqtt_store_drop_current (get_store ?r s) = Some (b, st) \<Longrightarrow> safe_to s0 (set_store ?r st s)" for b st
    using assms(2) by (auto intro!: safe_to_set_store elim!: store_drop_inv dest: safe_to_stores)
  show ?thesis
    using assms(1) marked
    by (auto simp: tx_buffer_packet_done_def bind_eq_Some_conv Let_def split: if_splits
      dest!: dropped callback_safe [OF _ _ assms(3) _ assms(3)])
qed


text \<open>An encoder stays within the room it is given.\<close>

definition within_room :: "'w encoder \<Rightarrow> bool" where
  "within_room encode \<longleftrightarrow> (\<forall>io v eb off room hp w res out eb' hp' w'.
     encode io v eb off room hp w = Some (res, out, eb', hp', w') \<longrightarrow> length out \<le> room)"

lemma encode_built_room [simp]: "within_room (encode_built b)"
  by (auto simp: within_room_def encode_built_def encode_buffer_encode_def bind_eq_Some_conv Let_def
      split: if_splits)

lemma string_len_loop_room:
  assumes "room > 0"
  shows "(string_len_loop is len off room out = Inl (res, out') \<longrightarrow> length out < room \<longrightarrow> length out' \<le> room) \<and>
    (string_len_loop is len off room out = Inr out' \<longrightarrow> length out < room \<longrightarrow> length out' < room)"
  by (induction "is" arbitrary: out) (auto simp: Let_def split: if_splits)

lemma string_read_room: "string_read io str n w = Some (res, bytes, os, str', w') \<Longrightarrow> length bytes \<le> n"
  by (auto simp: string_read_def bind_eq_Some_conv)

lemma string_len_loop_Inr:
  "string_len_loop is len off room out = Inr out' \<Longrightarrow> length out \<le> room \<Longrightarrow> length out' \<le> room"
  by (induction "is" arbitrary: out) (auto simp: Let_def split: if_splits)

lemma string_len_loop_Inl:
  "string_len_loop is len off room out = Inl (res, out') \<Longrightarrow> length out < room \<Longrightarrow> length out' \<le> room"
  by (induction "is" arbitrary: out) (auto simp: Let_def split: if_splits)

lemma size_of_long_le: "0 \<le> x \<Longrightarrow> int (size_of_long x) \<le> x"
  by (simp add: size_of_long_def zmod_le_nonneg_dividend)

lemma string_encode_room:
  assumes "string_encode io self str encode_len if_empty off room eb w = Some (res, out, str', eb', w')"
  shows "length out \<le> room"
proof (cases "str_len str = 0 \<and> \<not> if_empty \<or> room = 0")
  case True
  then show ?thesis using assms by (auto simp: string_encode_def Let_def split: if_splits)
next
  case False
  define lres where "lres = (if encode_len then string_len_loop [0, 1] (str_len str) off room [] else Inr [])"
  have lroom: "lres = Inl (r, x) \<Longrightarrow> length x \<le> room" "lres = Inr y \<Longrightarrow> length y \<le> room" for r x y
    using False string_len_loop_Inl [of "[0, 1]" "str_len str" off room "[]" r x]
      string_len_loop_Inr [of "[0, 1]" "str_len str" off room "[]" y]
    by (cases encode_len; simp add: lres_def del: string_len_loop.simps)+
  have nf: "(str_len str = 0 \<and> \<not> if_empty) = False" "(room = 0) = False" using False by auto
  have body: "c_assert (off < size_of_long (str_len str + (if encode_len then 2 else 0))) \<bind>
      (\<lambda>_. case lres of Inl (result, out) \<Rightarrow> Some (result, out, str, eb\<lparr>eb_blocking_str := None\<rparr>, w)
        | Inr out \<Rightarrow> do {
            let pos = length out;
            let offset_str = (if encode_len then (if off \<le> 2 then 0 else off - 2) else off);
            let remaining = str_len str - int offset_str;
            let len = (if remaining > int (room - pos) then int (room - pos) else remaining);
            let str1 = (if offset_str = 0 then str\<lparr>str_pos := 0\<rparr> else str);
            (read_res, bytes, os_error, str2, w') \<leftarrow> string_read io str1 (size_of_long len) w;
            c_assert (int (length bytes) \<le> remaining);
            let eb2 = eb\<lparr>eb_blocking_str := None\<rparr>\<lparr>eb_os_error := os_error\<rparr>;
            Some (if read_res = STRING_WOULD_BLOCK
               then (ENCODE_WOULD_BLOCK, out @ bytes, str2, eb2\<lparr>eb_blocking_str := Some self\<rparr>, w')
               else if read_res = STRING_SUCCESS \<and> int (length bytes) \<ge> remaining
               then (ENCODE_FINISHED, out @ bytes, str2, eb2, w')
               else if read_res = STRING_SUCCESS \<and> length bytes > 0
               then (ENCODE_CONTINUE, out @ bytes, str2, eb2, w')
               else (ENCODE_ERROR, out @ bytes, str2, eb2\<lparr>eb_error := ERROR_ENCODE_STRING\<rparr>, w'))
          }) = Some (res, out, str', eb', w')"
    using assms unfolding string_encode_def Let_def lres_def by (simp only: nf if_False)
  show ?thesis
  proof (cases lres)
    case (Inl r)
    then show ?thesis using body lroom(1) by (cases r) (simp add: bind_eq_Some_conv)
  next
    case (Inr lbytes)
    define rest where "rest = str_len str - int (if encode_len then if off \<le> 2 then 0 else off - 2 else off)"
    define len where "len = (if rest > int (room - length lbytes) then int (room - length lbytes) else rest)"
    obtain str1 r bytes os str2 w2 where rd: "string_read io str1 (size_of_long len) w = Some (r, bytes, os, str2, w2)"
        "int (length bytes) \<le> rest" "out = lbytes @ bytes"
      using body unfolding Inr sum.case Let_def rest_def [symmetric] len_def [symmetric]
      by (auto simp: bind_eq_Some_conv split: if_split_asm)
    have "0 \<le> len" using rd(2) by (auto simp: len_def)
    then have "int (length bytes) \<le> len"
      using string_read_room [OF rd(1)] size_of_long_le [of len] by linarith
    then show ?thesis using rd(3) lroom(2) [OF Inr] by (simp add: len_def split: if_splits)
  qed
qed

lemmas string_encoder_defs = connect_encode_payload_client_id_def connect_encode_payload_will_topic_def
  connect_encode_payload_will_message_def connect_encode_payload_user_name_def
  connect_encode_payload_password_def subscribe_encode_topic_def publish_encode_topic_def
  publish_encode_payload_def

lemmas built_encoder_defs = connect_encode_fixed_header_def connect_encode_variable_header_def
  subscribe_encode_header_subscribe_def subscribe_encode_header_unsubscribe_def subscribe_encode_qos_def
  publish_encode_fixed_header_def publish_encode_packet_id_def puback_encode_fixed_header_def
  pubrec_encode_fixed_header_def pubrel_encode_fixed_header_def pubcomp_encode_fixed_header_def
  pingreq_encode_fixed_header_def disconnect_encode_fixed_header_def

lemma string_encoders_room [simp]:
  "within_room connect_encode_payload_client_id" "within_room connect_encode_payload_will_topic"
  "within_room connect_encode_payload_will_message" "within_room connect_encode_payload_user_name"
  "within_room connect_encode_payload_password" "within_room subscribe_encode_topic"
  "within_room publish_encode_topic" "within_room publish_encode_payload"
  by (auto simp: within_room_def string_encoder_defs bind_eq_Some_conv simp del: get_iffs dest: string_encode_room)

lemma finder_room:
  assumes "tx_buffer_finder_by_kind k = Some finder" and "finder pos v hp = Some (Some encode, hp')"
  shows "within_room encode"
  using assms
  by (cases k) (auto simp: tx_buffer_finder_connect_def tx_buffer_finder_subscribe_def tx_buffer_finder_unsubscribe_def
      tx_buffer_finder_publish_def tx_buffer_finder_puback_def tx_buffer_finder_pubrec_def tx_buffer_finder_pubrel_def
      tx_buffer_finder_pubcomp_def tx_buffer_finder_pingreq_def tx_buffer_finder_disconnect_def built_encoder_defs
      bind_eq_Some_conv Let_def simp del: get_iffs split: if_splits)

lemma packet_loop_safe:
  assumes "tx_buffer_finder_by_kind k = Some finder" and "well_behaved env"
  shows "tx_buffer_packet_loop n env k finder v len out s = Some r \<Longrightarrow> safe_to s0 s \<Longrightarrow> length out \<le> len \<Longrightarrow>
    (case r of Inl (res, out', s') \<Rightarrow> safe_to s0 s' \<and> length out' \<le> len
      | Inr (out', s') \<Rightarrow> safe_to s0 s' \<and> length out' \<le> len)"
proof (induction n arbitrary: out s)
  case 0
  then show ?case by simp
next
  case (Suc n)
  obtain e hp where e: "finder (ti_pos (ti s)) v (sy_heap s) = Some (e, hp)"
    using Suc.prems(1) by (auto simp: bind_eq_Some_conv)
  show ?case
  proof (cases e)
    case None
    have s1: "safe_to s0 (s\<lparr>sy_heap := hp\<rparr>)" using Suc.prems(2) by simp
    show ?thesis
      using Suc.prems e None packet_done_safe [OF _ s1 assms(2)]
      by (auto simp: bind_eq_Some_conv split: if_splits)
  next
    case (Some encode)
    obtain res bytes eb hp' w' where r: "encode (en_io env) v (ti_buffer (ti s)) (ti_offset (ti s)) (len - length out) hp
        (sy_world s) = Some (res, bytes, eb, hp', w')"
      using Suc.prems(1) e Some by (auto simp: bind_eq_Some_conv Let_def)
    have "within_room encode" using finder_room [OF assms(1)] e Some by simp
    then have room: "length out + length bytes \<le> len"
      using r Suc.prems(3) unfolding within_room_def by fastforce
    show ?thesis
      using Suc.prems e Some r room
      by (cases res) (auto simp: Let_def dest!: Suc.IH)
  qed
qed

lemma encode_loop_safe:
  assumes "well_behaved env"
  shows "tx_buffer_encode_loop n env len out s = Some (res, out', s') \<Longrightarrow> safe_to s0 s \<Longrightarrow> length out \<le> len \<Longrightarrow>
    safe_to s0 s' \<and> length out' \<le> len"
proof (induction n arbitrary: out s)
  case 0
  then show ?case by simp
next
  case (Suc n)
  obtain ok k v where p: "(if tx_closed (cl_tx s) then Some (False, KIND_NONE, store_value_zero)
         else lmqtt_store_peek (get_store (tx_store (cl_tx s)) s)) = Some (ok, k, v)"
    using Suc.prems(1) by (auto simp: bind_eq_Some_conv)
  show ?case
  proof (cases ok)
    case False
    then show ?thesis using Suc.prems p by auto
  next
    case True
    then obtain finder r where r: "tx_buffer_finder_by_kind k = Some finder"
        "tx_buffer_packet_loop n env k finder v len out s = Some r"
        "(case r of Inl res \<Rightarrow> Some res | Inr (out', s') \<Rightarrow> tx_buffer_encode_loop n env len out' s') = Some (res, out', s')"
      using Suc.prems(1) p by (auto simp: bind_eq_Some_conv)
    note safe = packet_loop_safe [OF r(1) assms r(2) Suc.prems(2,3)]
    show ?thesis
    proof (cases r)
      case (Inl x)
      then show ?thesis using safe r(3) by simp
    next
      case (Inr x)
      then show ?thesis using safe r(3) Suc.IH by (cases x) auto
    qed
  qed
qed

lemma tx_encode_safe:
  assumes "lmqtt_tx_buffer_encode n env len s = Some (res, out, s')" and "safe_to s0 s" and "well_behaved env"
  shows "safe_to s0 s' \<and> length out \<le> len"
  using assms(1,2)
  by (auto simp: lmqtt_tx_buffer_encode_def split: if_splits dest: encode_loop_safe [OF assms(3)])


end
