(* ===== verification/Reachable_Clients.thy ===== *)
theory Reachable_Clients
  imports Transfer_Invariant
begin

text \<open>
  The client preserves its invariant: transfers between the connection and the buffers,
  \<open>lmqtt_client_run_once\<close>, the life cycle. The reachable states of a client are those a
  program can produce through the public functions; all of them are well-formed.
\<close>

section \<open>The client\<close>

text \<open>Here the buffers change, so that the statements are about the invariant alone.\<close>

definition client_ok :: "'w sys \<Rightarrow> bool" where
  "client_ok s \<longleftrightarrow> sys_inv s \<and> ops_set s"

lemma client_ok_safe: "client_ok s \<Longrightarrow> safe_to s s' \<Longrightarrow> client_ok s'" "client_ok s \<Longrightarrow> safe_to s s"
  by (simp_all add: client_ok_def safe_to_def)

lemma client_ok_ignores [simp]:
  "client_ok (s\<lparr>cl_error := e\<rparr>) = client_ok s" "client_ok (s\<lparr>cl_os_error := i\<rparr>) = client_ok s"
  "client_ok (s\<lparr>cl_closed := c\<rparr>) = client_ok s" "client_ok (s\<lparr>sy_world := w\<rparr>) = client_ok s"
  by (simp_all add: client_ok_def sys_inv_def ops_set_def all_buf)

lemma set_state_initial_safe:
  assumes "client_set_state_initial n env s = Some s'" and "safe_to s0 s" and "well_behaved env"
  shows "safe_to s0 s' \<and> ops_set s'"
proof -
  obtain st w where t: "lmqtt_store_touch (en_get_time env) (cl_connect_store s) (sy_world s) = (st, w)"
    by (cases "lmqtt_store_touch (en_get_time env) (cl_connect_store s) (sy_world s)") auto
  let ?s3 = "client_set_current_store CONNECT_STORE
    (s\<lparr>cl_error := NO_ERROR, cl_os_error := 0, cl_closed := True, cl_connect_store := st, sy_world := w\<rparr>)"
  have "store_inv st" using store_touch_inv [OF _ t] assms(2) by (simp add: safe_to_stores)
  then have s3: "safe_to s0 ?s3"
    using assms(2) by (intro safe_to_current) (simp add: safe_to_connect_store)
  obtain s4 where s4: "client_cleanup_stores (client_flush_store n env) (cl_clean_session ?s3 = 0) ?s3 = Some s4"
      "s' = set_ops_fail ((lmqtt_tx_buffer_finish s4)\<lparr>cl_op_connect := OP_DO\<rparr>)"
    using assms(1) t by (auto simp: client_set_state_initial_def bind_eq_Some_conv Let_def)
  have "safe_to s0 s4" by (rule cleanup_stores_safe [OF s4(1) s3]) (rule flush_store_safe [OF _ assms(3)])
  then have "safe_to s0 (lmqtt_tx_buffer_finish s4)" by simp
  from safe_to_ops(2) [OF this] show ?thesis by (simp add: s4(2) ops_set_def set_ops_fail_def)
qed

lemma set_state_failed_inv: "client_set_state_failed s = Some s' \<Longrightarrow> client_ok s \<Longrightarrow> client_ok s'"
  by (auto simp: client_set_state_failed_def bind_eq_Some_conv client_ok_def sys_inv_def ops_set_def set_ops_fail_def all_buf)

text \<open>
  What a transfer needs from the wrapper it calls: the state stays safe, and one that fills the
  buffer returns as many bytes as it counts, within the region.
\<close>

definition wrapper_ok :: "bool \<Rightarrow> 'w transfer_wrapper \<Rightarrow> bool" where
  "wrapper_ok fills wr \<longleftrightarrow> (\<forall>s0 s region res bytes cnt err os s'.
     wr region s = Some (res, bytes, cnt, err, os, s') \<longrightarrow> safe_to s0 s \<longrightarrow>
     safe_to s0 s' \<and> (if fills then cnt = length bytes \<and> cnt \<le> length region else bytes = []))"

lemma wrappers_ok:
  assumes "well_behaved env"
  shows "wrapper_ok True (client_wrapper_read env)" and "wrapper_ok False (client_wrapper_write env)"
    and "wrapper_ok True (client_wrapper_encode n env)" and "wrapper_ok False (client_wrapper_decode n env)"
  using assms
  by (auto simp: wrapper_ok_def client_wrapper_read_def client_wrapper_write_def client_wrapper_encode_def
      client_wrapper_decode_def bind_eq_Some_conv Let_def case_prod_beta split: prod.split_asm
      dest: rx_decode_safe tx_encode_safe)

lemma exec_append_inv:
  assumes "transfer_exec t b transfer_append (get_buf_pos b s) (get_buf_capacity b s) s = Some (ok, t', s')"
    and "client_ok s" and "wrapper_ok True (tr_wrapper t)"
  shows "client_ok s' \<and> tr_wrapper t' = tr_wrapper t"
proof (cases "tr_available t \<and> get_buf_pos b s < get_buf_capacity b s")
  case False
  then show ?thesis
    using assms(1,2) by (auto simp: transfer_exec_def Let_def split: if_splits)
next
  case True
  let ?t1 = "t\<lparr>tr_available := True\<rparr>" and ?l = "get_buf_pos b s" and ?c = "get_buf_capacity b s"
  obtain region result bytes cnt err os s1 buf where r: "region = take (?c - ?l) (drop ?l (get_buf b s))"
      "?l + (?c - ?l) \<le> length (get_buf b s)"
      "tr_wrapper t region s = Some (result, bytes, cnt, err, os, s1)"
      "arr_write (get_buf b s1) ?l bytes = Some buf"
    and s': "s' = (let s2 = set_buf_pos b (get_buf_pos b s1 + cnt) (set_buf b buf s1)
        in if result = IO_ERROR then s2\<lparr>cl_error := err, cl_os_error := os\<rparr> else s2)"
    and t': "tr_wrapper t' = tr_wrapper t"
    using assms(1) True
    by (auto simp: transfer_exec_def transfer_append_def bind_eq_Some_conv Let_def simp del: arr_write_eq_Some
        split: if_splits) (cases b; simp)+
  have "safe_to s s1" and cnt: "cnt = length bytes" "cnt \<le> ?c - ?l"
    using assms(3) r(1-3) client_ok_safe(2) [OF assms(2)] unfolding wrapper_ok_def by fastforce+
  then have s1: "client_ok s1" "get_buf b s1 = get_buf b s" "get_buf_pos b s1 \<le> ?l" "get_buf_capacity b s1 = ?c"
    using assms(2) by (simp_all add: safe_to_def client_ok_def)
  have "length buf = length (get_buf b s1)" using r(4) by (rule length_arr_write)
  then have "client_ok (set_buf_pos b (get_buf_pos b s1 + cnt) (set_buf b buf s1))"
    using s1 cnt True by (cases b) (auto simp: client_ok_def sys_inv_def ops_set_def all_buf)
  then show ?thesis using s' t' by (simp add: Let_def)
qed


lemma move_down_within:
  assumes "arr_move buf 0 cnt (size_sub pos cnt) = Some buf'" and "length buf < 2 ^ 64"
  shows "cnt \<le> pos" and "length buf' = length buf"
proof -
  show "length buf' = length buf" using assms(1) by (rule length_arr_move)
  have "cnt + size_sub pos cnt \<le> length buf"
    using assms(1) by (auto simp: arr_move_def bind_eq_Some_conv)
  then show "cnt \<le> pos" using assms(2) by (simp add: size_sub_def split: if_splits)
qed

lemma exec_shift_inv:
  assumes "transfer_exec t b transfer_shift 0 (get_buf_pos b s) s = Some (ok, t', s')"
    and "client_ok s" and "wrapper_ok False (tr_wrapper t)"
  shows "client_ok s' \<and> tr_wrapper t' = tr_wrapper t"
proof (cases "tr_available t \<and> 0 < get_buf_pos b s")
  case False
  then show ?thesis using assms(1,2) by (auto simp: transfer_exec_def Let_def split: if_splits)
next
  case True
  obtain region result bytes cnt err os s1 buf buf' where r:
      "tr_wrapper t region s = Some (result, bytes, cnt, err, os, s1)"
      "arr_write (get_buf b s1) 0 bytes = Some buf"
      "arr_move buf 0 cnt (size_sub (get_buf_pos b s1) cnt) = Some buf'"
    and s': "s' = (let s2 = set_buf_pos b (size_sub (get_buf_pos b s1) cnt) (set_buf b buf' (set_buf b buf s1))
        in if result = IO_ERROR then s2\<lparr>cl_error := err, cl_os_error := os\<rparr> else s2)"
    and t': "tr_wrapper t' = tr_wrapper t"
    using assms(1) True
    by (auto simp: transfer_exec_def transfer_shift_def bind_eq_Some_conv Let_def simp del: arr_write_eq_Some
        split: if_splits) (cases b; simp)+
  have "safe_to s s1" and "bytes = []"
    using assms(3) r(1) client_ok_safe(2) [OF assms(2)] unfolding wrapper_ok_def by fastforce+
  then have s1: "client_ok s1" and buf: "buf = get_buf b s1"
    using r(2) assms(2) by (simp_all add: safe_to_def client_ok_def)
  have len: "length buf < 2 ^ 64" using s1 by (cases b) (simp_all add: buf client_ok_def sys_inv_def ops_set_def all_buf)
  note m = move_down_within [OF r(3) len]
  have "client_ok (set_buf_pos b (size_sub (get_buf_pos b s1) cnt) (set_buf b buf' (set_buf b buf s1)))"
    using s1 m by (cases b) (auto simp: client_ok_def sys_inv_def ops_set_def all_buf buf)
  then show ?thesis using s' t' by (simp add: Let_def)
qed

lemma transfer_loop_inv:
  "transfer_loop n b tin tout s = Some (ok, tin', tout', s') \<Longrightarrow> client_ok s \<Longrightarrow>
     wrapper_ok True (tr_wrapper tin) \<Longrightarrow> wrapper_ok False (tr_wrapper tout) \<Longrightarrow> client_ok s'"
proof (induction n arbitrary: tin tout s)
  case 0
  then show ?case by simp
next
  case (Suc n)
  show ?case
  proof (cases "\<not> tr_available tin \<and> \<not> tr_available tout")
    case True
    then show ?thesis using Suc.prems by auto
  next
    case False
    then obtain ok1 tin1 s1 where s1: "transfer_exec tin b transfer_append (get_buf_pos b s) (get_buf_capacity b s) s =
        Some (ok1, tin1, s1)"
      using Suc.prems(1) by (auto simp: bind_eq_Some_conv split: if_splits)
    note i1 = exec_append_inv [OF s1 Suc.prems(2,3)]
    show ?thesis
    proof (cases ok1)
      case no: False
      then show ?thesis using Suc.prems(1) False s1 i1 by (auto split: if_splits)
    next
      case True
      then obtain ok2 tout1 s2 where s2: "transfer_exec tout b transfer_shift 0 (get_buf_pos b s1) s1 = Some (ok2, tout1, s2)"
        using Suc.prems(1) False s1 by (auto simp: bind_eq_Some_conv split: if_splits)
      note i2 = exec_shift_inv [OF s2 conjunct1 [OF i1] Suc.prems(4)]
      show ?thesis
        using Suc.prems False s1 s2 True i1 i2 Suc.IH [of tin1 tout1 s2] by (auto split: if_splits)
    qed
  qed
qed

lemma buffer_transfer_inv:
  assumes "client_buffer_transfer n env input output b s = Some (st, s')" and "client_ok s" and "well_behaved env"
    and "wrapper_ok True (tr_wrapper input)" and "wrapper_ok False (tr_wrapper output)"
  shows "client_ok s'"
proof (cases "cl_error s \<noteq> NO_ERROR")
  case True
  then show ?thesis using assms(1,2) by (simp add: client_buffer_transfer_def)
next
  case False
  then obtain ok input1 output1 s1 where s1: "transfer_loop n b input output s = Some (ok, input1, output1, s1)"
    using assms(1) by (auto simp: client_buffer_transfer_def bind_eq_Some_conv)
  have i1: "client_ok s1" by (rule transfer_loop_inv [OF s1 assms(2,4,5)])
  obtain st w where t: "lmqtt_store_touch (en_get_time env) (get_store (cl_current_store s1) s1) (sy_world s1) = (st, w)"
    by (cases "lmqtt_store_touch (en_get_time env) (get_store (cl_current_store s1) s1) (sy_world s1)") auto
  have "safe_to s1 ((set_store (cl_current_store s1) st s1)\<lparr>sy_world := w\<rparr>)"
    using client_ok_safe(2) [OF i1] store_touch_inv [OF _ t] by (simp add: safe_to_set_store safe_to_stores)
  then have i2: "client_ok ((set_store (cl_current_store s1) st s1)\<lparr>sy_world := w\<rparr>)" by (rule client_ok_safe(1) [OF i1])
  have init: "client_set_state_initial n env x = Some y \<Longrightarrow> client_ok x \<Longrightarrow> client_ok y" for x y
    using set_state_initial_safe [OF _ _ assms(3)] client_ok_safe by blast
  show ?thesis
    using assms(1) False s1 i1 i2 t
    by (auto simp: client_buffer_transfer_def bind_eq_Some_conv Let_def split: if_splits
      dest: set_state_failed_inv init)
qed

lemma process_inv:
  assumes "well_behaved env" and "client_ok s"
  shows "client_process_input n env s = Some (st, s') \<Longrightarrow> client_ok s'"
    and "client_process_output n env s = Some (st, s') \<Longrightarrow> client_ok s'"
  unfolding client_process_input_def client_process_output_def
  by (erule buffer_transfer_inv; simp add: assms wrappers_ok transfer_initialize_def)+

lemma call_ping_inv:
  assumes "call_op p client_do_pingreq s = Some (b, s')" and "client_ok s"
  shows "client_ok s'"
  by (rule client_ok_safe(1) [OF assms(2) call_op_safe [OF assms(1) client_ok_safe(2) [OF assms(2)]]])
    (rule do_pingreq_safe [OF _ client_ok_safe(2) [OF assms(2)]])

lemma keep_alive_inv: "client_keep_alive env s = Some (st, s') \<Longrightarrow> client_ok s \<Longrightarrow> client_ok s'"
  by (auto simp: client_keep_alive_def bind_eq_Some_conv Let_def split: if_splits prod.splits
      dest: set_state_failed_inv call_ping_inv)


lemma process_buffer_inv:
  assumes "client_process_buffer process cv dv blocking rv blk s = Some (go, rv', blk', s')" and "client_ok s"
    and "\<And>st s'. process s = Some (st, s') \<Longrightarrow> client_ok s'"
  shows "client_ok s'"
proof -
  obtain st s1 where st: "process s = Some (st, s1)"
    using assms(1) by (auto simp: client_process_buffer_def bind_eq_Some_conv)
  then have "s' = s1" using assms(1) by (cases st) (auto simp: client_process_buffer_def bind_eq_Some_conv)
  then show ?thesis using assms(3) [OF st] by simp
qed

lemma run_once_loop_inv:
  assumes "well_behaved env"
  shows "run_once_loop n env s = Some (r, sr, sw, s') \<Longrightarrow> client_ok s \<Longrightarrow> client_ok s'"
proof (induction n arbitrary: s)
  case 0
  then show ?case by simp
next
  case (Suc n)
  obtain go result str_rd s1 where o: "client_process_buffer (client_process_output n env)
         RES_WOULD_BLOCK_CONN_WR RES_WOULD_BLOCK_DATA_RD lmqtt_tx_buffer_get_blocking_str 0 None s =
       Some (go, result, str_rd, s1)"
    using Suc.prems(1) by (auto simp: bind_eq_Some_conv)
  have i1: "client_ok s1"
    by (rule process_buffer_inv [OF o Suc.prems(2)]) (rule process_inv(2) [OF assms Suc.prems(2)])
  show ?case
  proof (cases go)
    case False
    then show ?thesis using Suc.prems(1) o i1 by simp
  next
    case True
    then obtain go' result' str_wr s2 where i: "client_process_buffer (client_process_input n env)
           RES_WOULD_BLOCK_CONN_RD RES_WOULD_BLOCK_DATA_WR lmqtt_rx_buffer_get_blocking_str
           result None s1 = Some (go', result', str_wr, s2)"
      using Suc.prems(1) o by (auto simp: bind_eq_Some_conv)
    have "client_ok s2"
      by (rule process_buffer_inv [OF i i1]) (rule process_inv(1) [OF assms i1])
    then show ?thesis
      using Suc.prems(1) o i True Suc.IH by (auto simp: bind_eq_Some_conv split: if_splits)
  qed
qed

lemma run_once_inv:
  assumes "lmqtt_client_run_once n env s = Some (r, sr, sw, s')" and "client_ok s" and "well_behaved env"
  shows "client_ok s'"
  using assms(1,2)
  by (auto simp: lmqtt_client_run_once_def bind_eq_Some_conv split: if_splits
      dest: keep_alive_inv run_once_loop_inv [OF assms(3)])

lemma reset_inv:
  assumes "lmqtt_client_reset n env s = Some s'" and "client_ok s" and "well_behaved env"
  shows "client_ok s'"
  using assms set_state_initial_safe [OF _ _ assms(3)] client_ok_safe
  by (simp add: lmqtt_client_reset_def split: if_splits) blast

lemma finalize_inv:
  assumes "lmqtt_client_finalize n env s = Some s'" and "client_ok s" and "well_behaved env"
  shows "client_ok s'"
proof -
  obtain s1 b s2 where r: "client_set_state_failed (s\<lparr>cl_error := ERROR_CLOSED, cl_os_error := 0\<rparr>) = Some s1"
      "value_callback (client_flush_store n env) env (ri_value (ri s1)) s1 = Some (b, s2)"
      "client_cleanup_stores (client_flush_store n env) False s2 = Some s'"
    using assms(1)
    by (auto simp: lmqtt_client_finalize_def bind_eq_Some_conv lmqtt_rx_buffer_finish_def rx_buffer_call_callback_def)
  have ok: "client_ok s1" using set_state_failed_inv [OF r(1)] assms(2) by simp
  then have s1: "safe_to s1 s1" by (rule client_ok_safe)
  have "safe_to s1 s2" by (rule callback_safe [OF r(2) s1 assms(3) _ assms(3)])
  then have "safe_to s1 s'"
    by (rule cleanup_stores_safe [OF r(3)]) (rule flush_store_safe [OF _ assms(3)])
  then show ?thesis by (rule client_ok_safe(1) [OF ok])
qed


section \<open>Reachable states\<close>

text \<open>
  The memory the user hands over is as large as its stated sizes, except that of the identifiers:
  the code counts them with \<open>cb_id_set_size\<close>, and the example programs give their size in bytes.
  A put behind the end of that array has no result; the states that do result are well-formed.
\<close>

definition buffers_ok :: "client_buffers \<Rightarrow> bool" where
  "buffers_ok bs \<longleftrightarrow> cb_store_size bs div sizeof_store_entry \<le> length (cb_store bs) \<and>
     cb_rx_buffer_size bs \<le> length (cb_rx_buffer bs) \<and> length (cb_rx_buffer bs) < 2 ^ 64 \<and>
     cb_tx_buffer_size bs \<le> length (cb_tx_buffer bs) \<and> length (cb_tx_buffer bs) < 2 ^ 64"

text \<open>What a program can do with a client: initialize it, use it, run it, reset it, finalize it.\<close>

inductive client_reachable :: "'w env \<Rightarrow> 'w sys \<Rightarrow> bool" for env where
  reach_initialize: "buffers_ok bs \<Longrightarrow> lmqtt_client_initialize n env bs hp w = Some s \<Longrightarrow> client_reachable env s"
| reach_user: "client_reachable env s \<Longrightarrow> user_step s s' \<Longrightarrow> client_reachable env s'"
| reach_run: "client_reachable env s \<Longrightarrow> lmqtt_client_run_once n env s = Some (r, sr, sw, s') \<Longrightarrow>
    client_reachable env s'"
| reach_reset: "client_reachable env s \<Longrightarrow> lmqtt_client_reset n env s = Some s' \<Longrightarrow> client_reachable env s'"
| reach_finalize: "client_reachable env s \<Longrightarrow> lmqtt_client_finalize n env s = Some s' \<Longrightarrow>
    client_reachable env s'"

lemma setup_inv: "buffers_ok bs \<Longrightarrow> sys_inv (client_setup bs hp w)"
  by (simp add: buffers_ok_def sys_inv_def all_buf client_setup_def fresh_store_def store_inv_def
      id_set_inv_def ids_list_def)

lemma user_step_ok: "user_step s s' \<Longrightarrow> client_ok s \<Longrightarrow> client_ok s'"
  using user_step_safe client_ok_safe by blast

lemma reachable_ok: "client_reachable env s \<Longrightarrow> well_behaved env \<Longrightarrow> client_ok s"
proof (induction rule: client_reachable.induct)
  case (reach_initialize bs n hp w s)
  have "safe_to (client_setup bs hp w) s \<and> ops_set s"
    by (rule set_state_initial_safe [OF reach_initialize(2) [unfolded lmqtt_client_initialize_def]
      safe_to_refl [OF setup_inv [OF reach_initialize(1)]] reach_initialize(3)])
  then show ?case by (simp add: client_ok_def safe_to_def)
qed (blast intro: user_step_ok run_once_inv reset_inv finalize_inv)+

text \<open>
  C4. Whatever the server sends, however the connection cuts and delays the bytes, and whatever
  operations the callbacks of the user call, a client stays well-formed: both stores are bounded
  queues inside their arrays, the identifiers are distinct and fit theirs, the bytes under
  transfer lie inside the buffers, all parts agree on the current store, and no operation
  pointer is null.
\<close>

theorem reachable_clients_well_formed:
  assumes "well_behaved env" and "client_reachable env s"
  shows "store_inv (cl_main_store s) \<and> store_inv (cl_connect_store s) \<and> id_set_inv (rx_id_set (cl_rx s)) \<and>
    cl_read_buf_pos s \<le> cl_read_buf_capacity s \<and> cl_read_buf_capacity s \<le> length (cl_read_buf s) \<and>
    cl_write_buf_pos s \<le> cl_write_buf_capacity s \<and> cl_write_buf_capacity s \<le> length (cl_write_buf s) \<and>
    rx_store (cl_rx s) = cl_current_store s \<and> tx_store (cl_tx s) = cl_current_store s \<and> ops_set s"
  using reachable_ok [OF assms(2,1)] by (simp add: client_ok_def sys_inv_def all_buf)

lemma example_env_behaves: "well_behaved example_env"
  by (auto simp: well_behaved_def example_env_def intro: user_world)

lemma example_initialized:
  "\<exists>s. lmqtt_client_initialize 2 example_env example_buffers [7 \<mapsto> OConnect example_connect] [] = Some s \<and>
    cl_op_connect s = OP_DO \<and> sy_heap s = [7 \<mapsto> OConnect example_connect] \<and>
    store_inv (cl_connect_store s) \<and> st_count (cl_connect_store s) = 0 \<and> st_capacity (cl_connect_store s) = 1"
  by (simp add: lmqtt_client_initialize_def client_set_state_initial_def client_setup_def lmqtt_store_touch_def
      lmqtt_time_touch_def example_env_def client_set_current_store_def client_cleanup_stores_def
      lmqtt_store_get_at_def fresh_store_def lmqtt_store_shift_def store_pop_at_def get_store_def set_store_def
      lmqtt_tx_buffer_finish_def set_ops_fail_def store_inv_def numeral_2_eq_2)

theorem reachable_clients_well_formed_witness:
  "\<exists>s0 s. lmqtt_client_initialize 2 example_env example_buffers [7 \<mapsto> OConnect example_connect] [] = Some s0 \<and>
    lmqtt_client_connect 7 s0 = Some (True, s) \<and> store_inv (cl_connect_store s) \<and>
    st_count (cl_connect_store s) = 1"
proof -
  obtain s0 where s0: "lmqtt_client_initialize 2 example_env example_buffers [7 \<mapsto> OConnect example_connect] [] = Some s0"
      "cl_op_connect s0 = OP_DO" "sy_heap s0 = [7 \<mapsto> OConnect example_connect]" "store_inv (cl_connect_store s0)"
      "st_count (cl_connect_store s0) = 0" "st_capacity (cl_connect_store s0) = 1"
    using example_initialized by blast
  obtain st where st: "lmqtt_store_append (cl_connect_store s0) KIND_CONNECT (Some \<lparr>sv_packet_id = 0,
      sv_value = Some 7, sv_callback = Some ON_CONNACK, sv_callback_data = DATA_CLIENT\<rparr>) = Some (True, st)"
      "st_count st = 1"
    using store_append_room [of "cl_connect_store s0" KIND_CONNECT "\<lparr>sv_packet_id = 0, sv_value = Some 7,
        sv_callback = Some ON_CONNACK, sv_callback_data = DATA_CLIENT\<rparr>"] s0 by auto
  have get: "get_connect [7 \<mapsto> OConnect example_connect] (Some 7) = Some (7, example_connect)" by simp
  obtain s where s: "lmqtt_client_connect 7 s0 = Some (True, s)" "st_count (cl_connect_store s) = 1"
    using st s0 get example_connect_valid
    by (simp add: lmqtt_client_connect_def call_op_def client_do_connect_def client_set_state_connecting_def
        lmqtt_rx_buffer_reset_def lmqtt_tx_buffer_reset_def upd_ri_def Let_def del: get_iffs)
  have "client_reachable example_env s"
    by (rule reach_user [OF reach_initialize [OF _ s0(1)] user_connect [OF s(1)]])
      (simp add: buffers_ok_def example_buffers_def sizeof_store_entry_def)
  with reachable_clients_well_formed [OF example_env_behaves, of s] s0(1) s show ?thesis by blast
qed

end
