(* ===== verification/Bounds.thy ===== *)
theory Bounds
  imports Reachable_Clients
begin

text \<open>
  The bounds of the loops. A function of the model that is given a larger bound returns the same
  result whenever it returns one with the smaller bound: the bound stands for how long one
  is prepared to wait, it never changes what the library computes.
\<close>

section \<open>Results that stay when there is more time\<close>

definition stays :: "'a option \<Rightarrow> 'a option \<Rightarrow> bool" where
  "stays m m' \<longleftrightarrow> (\<forall>r. m = Some r \<longrightarrow> m' = Some r)"

named_theorems stays_intros

lemma staysD: "stays m m' \<Longrightarrow> m = Some r \<Longrightarrow> m' = Some r"
  by (simp add: stays_def)

lemma stays_refl [stays_intros]: "stays m m"
  by (simp add: stays_def)

lemma stays_None [stays_intros]: "stays None m"
  by (simp add: stays_def)

lemma stays_bind [stays_intros]: "stays m m' \<Longrightarrow> (\<And>x. stays (f x) (g x)) \<Longrightarrow> stays (m \<bind> f) (m' \<bind> g)"
  by (auto simp: stays_def bind_eq_Some_conv)

lemma stays_if [stays_intros]:
  "stays a a' \<Longrightarrow> stays b b' \<Longrightarrow> stays (if c then a else b) (if c then a' else b')"
  by simp

lemma stays_Let [stays_intros]: "(\<And>x. stays (f x) (g x)) \<Longrightarrow> stays (Let x f) (Let x g)"
  by simp

lemma stays_prod [stays_intros]: "(\<And>a b. stays (f a b) (g a b)) \<Longrightarrow> stays (case_prod f p) (case_prod g p)"
  by (simp add: split_def)

lemma stays_option [stays_intros]:
  "stays a a' \<Longrightarrow> (\<And>x. stays (f x) (g x)) \<Longrightarrow> stays (case_option a f z) (case_option a' g z)"
  by (simp split: option.split)

lemma stays_sum [stays_intros]:
  "(\<And>x. stays (f x) (f' x)) \<Longrightarrow> (\<And>x. stays (g x) (g' x)) \<Longrightarrow> stays (case_sum f g z) (case_sum f' g' z)"
  by (simp split: sum.split)

section \<open>Callbacks and flushing\<close>

lemma value_callback_stays:
  assumes "\<And>r s. stays (f r s) (g r s)"
  shows "stays (value_callback f env v s) (value_callback g env v s)"
proof -
  have "stays (client_cleanup_stores f k s) (client_cleanup_stores g k s)" for k s
    unfolding client_cleanup_stores_def by (intro stays_intros assms)
  then have "stays (client_set_state_connected f s) (client_set_state_connected g s)" for s
    unfolding client_set_state_connected_def by (intro stays_intros)
  then have "stays (client_on_connack f env v s) (client_on_connack g env v s)" for v s
    unfolding client_on_connack_def by (intro stays_intros)
  then have "stays (entry_callback_call f env cb d v s) (entry_callback_call g env cb d v s)" for cb d v s
    by (cases cb) (simp_all add: entry_callback_call_def stays_refl stays_None)
  then show ?thesis unfolding value_callback_def by (intro stays_intros)
qed

lemma flush_stays [stays_intros]:
  "n \<le> m \<Longrightarrow> stays (client_flush_store n env r s) (client_flush_store m env r s)"
proof (induction n arbitrary: m r s)
  case 0
  then show ?case by (simp add: stays_None)
next
  case (Suc n)
  then obtain k where m: "m = Suc k" and le: "n \<le> k" by (cases m) auto
  note cb = value_callback_stays [OF Suc.IH [OF le]]
  show ?case
    unfolding m client_flush_store.simps(2) [of n] client_flush_store.simps(2) [of k]
    by (intro stays_intros cb Suc.IH le)
qed

lemma callback_stays [stays_intros]:
  "n \<le> m \<Longrightarrow> stays (value_callback (client_flush_store n env) env v s) (value_callback (client_flush_store m env) env v s)"
  by (intro value_callback_stays flush_stays)

section \<open>Receiving and sending\<close>

lemma call_callback_stays [stays_intros]:
  "n \<le> m \<Longrightarrow> stays (rx_buffer_call_callback n env s) (rx_buffer_call_callback m env s)"
  unfolding rx_buffer_call_callback_def by (intro stays_intros)

lemma finish_packet_stays [stays_intros]:
  "n \<le> m \<Longrightarrow> stays (rx_buffer_finish_packet n env s) (rx_buffer_finish_packet m env s)"
  unfolding rx_buffer_finish_packet_def by (intro stays_intros)

lemma decode_loop_stays:
  "n \<le> m \<Longrightarrow> stays (rx_buffer_decode_loop n env bytes cnt s) (rx_buffer_decode_loop m env bytes cnt s)"
proof (induction n arbitrary: m bytes cnt s)
  case 0
  then show ?case by (simp add: stays_None)
next
  case (Suc n)
  then obtain k where m: "m = Suc k" and le: "n \<le> k" by (cases m) auto
  show ?case
    unfolding m rx_buffer_decode_loop.simps(2) [of n] rx_buffer_decode_loop.simps(2) [of k]
    by (intro stays_intros Suc.IH le)
qed

lemma rx_decode_stays:
  "n \<le> m \<Longrightarrow> stays (lmqtt_rx_buffer_decode n env bytes s) (lmqtt_rx_buffer_decode m env bytes s)"
  unfolding lmqtt_rx_buffer_decode_def by (intro stays_intros decode_loop_stays)

lemma packet_done_stays [stays_intros]:
  "n \<le> m \<Longrightarrow> stays (tx_buffer_packet_done n env k v s) (tx_buffer_packet_done m env k v s)"
  unfolding tx_buffer_packet_done_def by (intro stays_intros)

lemma stays_encode_result [stays_intros]:
  "stays a a' \<Longrightarrow> stays b b' \<Longrightarrow> stays c c' \<Longrightarrow> stays d d' \<Longrightarrow>
     stays (case_encode_result a b c d r) (case_encode_result a' b' c' d' r)"
  by (cases r) simp_all

lemma packet_loop_stays:
  "n \<le> m \<Longrightarrow> stays (tx_buffer_packet_loop n env k finder v len out s) (tx_buffer_packet_loop m env k finder v len out s)"
proof (induction n arbitrary: m out s)
  case 0
  then show ?case by (simp add: stays_None)
next
  case (Suc n)
  then obtain j where m: "m = Suc j" and le: "n \<le> j" by (cases m) auto
  show ?case
    unfolding m tx_buffer_packet_loop.simps(2) [of n] tx_buffer_packet_loop.simps(2) [of j]
    by (intro stays_intros Suc.IH le)
qed

lemma encode_loop_stays:
  "n \<le> m \<Longrightarrow> stays (tx_buffer_encode_loop n env len out s) (tx_buffer_encode_loop m env len out s)"
proof (induction n arbitrary: m out s)
  case 0
  then show ?case by (simp add: stays_None)
next
  case (Suc n)
  then obtain j where m: "m = Suc j" and le: "n \<le> j" by (cases m) auto
  show ?case
    unfolding m tx_buffer_encode_loop.simps(2) [of n] tx_buffer_encode_loop.simps(2) [of j]
    by (intro stays_intros packet_loop_stays Suc.IH le)
qed

lemma tx_encode_stays:
  "n \<le> m \<Longrightarrow> stays (lmqtt_tx_buffer_encode n env len s) (lmqtt_tx_buffer_encode m env len s)"
  unfolding lmqtt_tx_buffer_encode_def by (intro stays_intros encode_loop_stays)


section \<open>The client\<close>

lemma cleanup_stays [stays_intros]:
  "n \<le> m \<Longrightarrow> stays (client_cleanup_stores (client_flush_store n env) k s)
     (client_cleanup_stores (client_flush_store m env) k s)"
  unfolding client_cleanup_stores_def by (intro stays_intros)

lemma set_state_initial_stays [stays_intros]:
  "n \<le> m \<Longrightarrow> stays (client_set_state_initial n env s) (client_set_state_initial m env s)"
  unfolding client_set_state_initial_def by (intro stays_intros)

text \<open>
  A transfer carries its wrapper along, so that two runs end in transfers that differ in it.
\<close>

abbreviation with_wrapper :: "'w transfer \<Rightarrow> 'w transfer_wrapper \<Rightarrow> 'w transfer" where
  "with_wrapper t g \<equiv> t\<lparr>tr_wrapper := g\<rparr>"

lemma transfer_exec_wrapper:
  assumes "transfer_exec t b after left right s = Some (ok, t', s')"
    and "\<And>region s. stays (tr_wrapper t region s) (g region s)"
    and "after = transfer_append \<or> after = transfer_shift"
  shows "transfer_exec (with_wrapper t g) b after left right s = Some (ok, with_wrapper t' g, s') \<and>
    tr_wrapper t' = tr_wrapper t"
proof (cases "tr_available t \<and> left < right")
  case False
  then show ?thesis using assms(1) by (auto simp: transfer_exec_def Let_def split: if_splits)
next
  case True
  obtain region result bytes cnt err os s1 buf where r: "arr_slice (get_buf b s) left (right - left) = Some region"
      "tr_wrapper t region s = Some (result, bytes, cnt, err, os, s1)"
      "arr_write (get_buf b s1) left bytes = Some buf"
    using assms(1) True
    by (auto simp: transfer_exec_def bind_eq_Some_conv Let_def simp del: arr_iffs split: if_splits)
  have g: "g region s = Some (result, bytes, cnt, err, os, s1)" using staysD [OF assms(2) r(2)] .
  have after: "after (t1\<lparr>tr_wrapper := g\<rparr>) b x = after t1 b x" for t1 x
    using assms(3) by (auto simp: transfer_append_def transfer_shift_def)
  have upd: "t\<lparr>tr_wrapper := g, tr_available := True, tr_result := result, tr_count := cnt\<rparr> =
      (t\<lparr>tr_available := True, tr_result := result, tr_count := cnt\<rparr>)\<lparr>tr_wrapper := g\<rparr>" by simp
  show ?thesis
    using assms(1) True r g after [of "t\<lparr>tr_available := True, tr_result := result, tr_count := cnt\<rparr>"]
    by (auto simp: transfer_exec_def Let_def bind_eq_Some_conv upd simp del: arr_iffs split: if_splits)
qed

lemma transfer_loop_wrapper:
  assumes "\<And>region s. stays (f region s) (f' region s)" and "\<And>region s. stays (g region s) (g' region s)"
  shows "transfer_loop n b tin tout s = Some (ok, tin', tout', s') \<Longrightarrow> n \<le> m \<Longrightarrow>
    tr_wrapper tin = f \<Longrightarrow> tr_wrapper tout = g \<Longrightarrow>
    transfer_loop m b (with_wrapper tin f') (with_wrapper tout g') s =
      Some (ok, with_wrapper tin' f', with_wrapper tout' g', s')"
proof (induction n arbitrary: m tin tout s)
  case 0
  then show ?case by simp
next
  case (Suc n)
  then obtain k where m: "m = Suc k" and le: "n \<le> k" by (cases m) auto
  show ?case
  proof (cases "\<not> tr_available tin \<and> \<not> tr_available tout")
    case True
    then show ?thesis using Suc.prems m by auto
  next
    case False
    then obtain ok1 tin1 s1 where s1: "transfer_exec tin b transfer_append (get_buf_pos b s) (get_buf_capacity b s) s =
        Some (ok1, tin1, s1)"
      using Suc.prems(1) by (auto simp: bind_eq_Some_conv split: if_splits)
    have e1: "transfer_exec (with_wrapper tin f') b transfer_append (get_buf_pos b s) (get_buf_capacity b s) s =
        Some (ok1, with_wrapper tin1 f', s1)" "tr_wrapper tin1 = f"
      using transfer_exec_wrapper [OF s1, of f'] assms(1) Suc.prems(3) by auto
    show ?thesis
    proof (cases ok1)
      case no: False
      then show ?thesis using Suc.prems False s1 e1 m by (auto split: if_splits)
    next
      case True
      then obtain ok2 tout1 s2 where s2: "transfer_exec tout b transfer_shift 0 (get_buf_pos b s1) s1 = Some (ok2, tout1, s2)"
        using Suc.prems(1) False s1 by (auto simp: bind_eq_Some_conv split: if_splits)
      have e2: "transfer_exec (with_wrapper tout g') b transfer_shift 0 (get_buf_pos b s1) s1 =
          Some (ok2, with_wrapper tout1 g', s2)" "tr_wrapper tout1 = g"
        using transfer_exec_wrapper [OF s2, of g'] assms(2) Suc.prems(4) by auto
      show ?thesis
        using Suc.prems False s1 s2 e1 e2 True m Suc.IH [of tin1 tout1 s2 k] le by (auto split: if_splits)
    qed
  qed
qed


lemma buffer_transfer_stays:
  assumes "\<And>region s. stays (tr_wrapper tin region s) (f' region s)"
    and "\<And>region s. stays (tr_wrapper tout region s) (g' region s)" and "n \<le> m"
  shows "stays (client_buffer_transfer n env tin tout b s)
    (client_buffer_transfer m env (with_wrapper tin f') (with_wrapper tout g') b s)"
proof (cases "cl_error s \<noteq> NO_ERROR")
  case True
  then show ?thesis by (simp add: client_buffer_transfer_def stays_refl)
next
  case False
  show ?thesis
  proof (cases "transfer_loop n b tin tout s")
    case None
    then show ?thesis using False by (simp add: client_buffer_transfer_def stays_None)
  next
    case (Some r)
    obtain ok tin1 tout1 s1 where r: "transfer_loop n b tin tout s = Some (ok, tin1, tout1, s1)"
      using Some by (cases r) auto
    have r': "transfer_loop m b (with_wrapper tin f') (with_wrapper tout g') s =
        Some (ok, with_wrapper tin1 f', with_wrapper tout1 g', s1)"
      by (rule transfer_loop_wrapper [OF assms(1,2) r assms(3) refl refl])
    have sel: "transfer_is_eof (with_wrapper t h) = transfer_is_eof t" "tr_stale (with_wrapper t h) = tr_stale t"
        "tr_result (with_wrapper t h) = tr_result t" "tr_block_status (with_wrapper t h) = tr_block_status t"
      for t :: "'a transfer" and h
      by (simp_all add: transfer_is_eof_def)
    have init: "stays (client_set_state_initial n env x) (client_set_state_initial m env x)" for x
      by (rule set_state_initial_stays [OF assms(3)])
    show ?thesis
      unfolding client_buffer_transfer_def r r' Option.bind.bind_lunit prod.case sel
      by (intro stays_intros init)
  qed
qed

lemma process_stays:
  assumes "n \<le> m"
  shows "stays (client_process_input n env s) (client_process_input m env s)"
    and "stays (client_process_output n env s) (client_process_output m env s)"
proof -
  have d: "stays (client_wrapper_decode n env region s) (client_wrapper_decode m env region s)" for region s
    unfolding client_wrapper_decode_def by (intro stays_intros rx_decode_stays assms)
  have e: "stays (client_wrapper_encode n env region s) (client_wrapper_encode m env region s)" for region s
    unfolding client_wrapper_encode_def by (intro stays_intros tx_encode_stays assms)
  have i: "with_wrapper (transfer_initialize f st) g = transfer_initialize g st" for f g :: "'a transfer_wrapper" and st
    by (simp add: transfer_initialize_def)
  have w: "tr_wrapper (transfer_initialize f st) = f" for f :: "'a transfer_wrapper" and st
    by (simp add: transfer_initialize_def)
  show "stays (client_process_input n env s) (client_process_input m env s)"
    using buffer_transfer_stays [of "transfer_initialize (client_wrapper_read env) STATUS_BLOCK_CONN"
      "client_wrapper_read env" "transfer_initialize (client_wrapper_decode n env) STATUS_BLOCK_DATA"
      "client_wrapper_decode m env" n m env READ_BUF s] assms d
    by (simp add: client_process_input_def i w stays_refl)
  show "stays (client_process_output n env s) (client_process_output m env s)"
    using buffer_transfer_stays [of "transfer_initialize (client_wrapper_encode n env) STATUS_BLOCK_DATA"
      "client_wrapper_encode m env" "transfer_initialize (client_wrapper_write env) STATUS_BLOCK_CONN"
      "client_wrapper_write env" n m env WRITE_BUF s] assms e
    by (simp add: client_process_output_def i w stays_refl)
qed

lemma process_buffer_stays:
  assumes "\<And>s. stays (f s) (g s)"
  shows "stays (client_process_buffer f cv dv bl rv blk s) (client_process_buffer g cv dv bl rv blk s)"
  unfolding client_process_buffer_def by (intro stays_bind assms stays_refl)

lemma run_once_loop_stays: "n \<le> m \<Longrightarrow> stays (run_once_loop n env s) (run_once_loop m env s)"
proof (induction n arbitrary: m s)
  case 0
  then show ?case by (simp add: stays_None)
next
  case (Suc n)
  then obtain k where m: "m = Suc k" and le: "n \<le> k" by (cases m) auto
  show ?case
    unfolding m run_once_loop.simps(2) [of n] run_once_loop.simps(2) [of k]
    by (intro stays_intros process_buffer_stays process_stays Suc.IH le)
qed



end
