(* ===== verification/Rx_Strings.thy ===== *)
theory Rx_Strings
  imports Bounds
begin

text \<open>
  Receiving the strings of a PUBLISH. All decoders take one byte at a time except the one of
  PUBLISH, which hands the topic and the payload on in pieces as large as the input allows.
  For strings with their own buffers, a string handed on in two pieces is the same string, and
  everything after it happens in the same way. (A write callback of the user sees the pieces.)
\<close>

section \<open>Writing a string in two pieces\<close>

lemma arr_write_append:
  "(arr_write b p x \<bind> (\<lambda>b1. arr_write b1 (p + length x) y)) = arr_write b p (x @ y)"
  by (auto simp: arr_write_def add.commute add.left_commute)

definition own_write :: "lstring \<Rightarrow> byte list \<Rightarrow> lstring option" where
  "own_write str bytes =
     (if bytes = [] then Some str
      else do {
        b \<leftarrow> str_buf str;
        c_assert (str_pos str + int (length bytes) \<le> str_len str \<and> 0 \<le> str_pos str);
        b' \<leftarrow> arr_write b (nat (str_pos str)) bytes;
        Some (str\<lparr>str_buf := Some b', str_pos := str_pos str + int (length bytes)\<rparr>)
      })"

lemma own_write_append: "own_write str (x @ y) = (own_write str x \<bind> (\<lambda>s1. own_write s1 y))"
proof (cases "x = [] \<or> y = [] \<or> str_buf str = None")
  case True
  then show ?thesis by (cases "own_write str x") (auto simp: own_write_def)
next
  case False
  then obtain b where b: "str_buf str = Some b" by auto
  show ?thesis
  proof (cases "str_pos str + int (length x) \<le> str_len str \<and> 0 \<le> str_pos str")
    case True
    then have "nat (str_pos str + int (length x)) = nat (str_pos str) + length x" by linarith
    then show ?thesis
      using False b True arr_write_append [of b "nat (str_pos str)" x y, symmetric]
      by (cases "arr_write b (nat (str_pos str)) x")
        (simp_all add: own_write_def c_assert_bind add.assoc del: arr_iffs)
  next
    case no: False
    then show ?thesis using False b by (auto simp: own_write_def c_assert_bind)
  qed
qed

lemma string_write_own:
  assumes "str_write str = None"
  shows "string_write io str bytes w = Some (STRING_SUCCESS, cnt, os, str', w') \<longleftrightarrow>
    own_write str bytes = Some str' \<and> cnt = length bytes \<and> os = 0 \<and> w' = w"
  using assms
  by (cases "str_buf str") (auto simp: string_write_def string_move_def own_write_def bind_eq_Some_conv c_assert_bind
      simp del: arr_iffs split: if_splits)

lemma string_write_own_result:
  assumes "str_write str = None" and "string_write io str bytes w = Some (res, cnt, os, str', w')"
  shows "res = STRING_SUCCESS \<or> res = STRING_INVALID_OBJECT"
  using assms
  by (cases "str_buf str") (auto simp: string_write_def string_move_def bind_eq_Some_conv split: if_splits)

lemma own_write_keeps: "own_write str bytes = Some str' \<Longrightarrow> str_write str' = str_write str"
  by (auto simp: own_write_def bind_eq_Some_conv split: if_splits)

section \<open>Callbacks that do not see the pieces\<close>

definition at_pos :: "int \<Rightarrow> 'w sys \<Rightarrow> 'w sys" where
  "at_pos p = upd_ri (\<lambda>i. i\<lparr>ri_remain_buf_pos := p\<rparr>)"

definition own_strings :: "publish \<Rightarrow> bool" where
  "own_strings m \<longleftrightarrow> str_write (pb_topic m) = None \<and> str_write (pb_payload m) = None"

text \<open>
  The allocation callbacks give strings with buffers; the message callback leaves the receive
  buffer alone and does not look at the place in the packet.
\<close>

definition plain_receiver :: "'w env \<Rightarrow> bool" where
  "plain_receiver env \<longleftrightarrow>
     (\<forall>f d m len w. own_strings m \<longrightarrow> own_strings (fst (snd (en_allocate env f d m len w)))) \<and>
     (\<forall>f d s ok s'. en_message env f d s = Some (ok, s') \<longrightarrow> ri s' = ri s) \<and>
     (\<forall>f d p s. en_message env f d (at_pos p s) = map_option (map_prod id (at_pos p)) (en_message env f d s))"

text \<open>The receive buffer while no error has occurred.\<close>

definition receiving :: "'w sys \<Rightarrow> bool" where
  "receiving s \<longleftrightarrow> ri_error (ri s) = NO_ERROR \<and> ri_blocking_str (ri s) = None \<and> own_strings (ri_publish (ri s)) \<and>
     (\<not> ri_header_finished (ri s) \<longrightarrow> ri_remain_buf_pos (ri s) = 0) \<and> \<not> rx_buffer_is_packet_finished s \<and>
     (ri_header_finished (ri s) \<and> ri_decoder (ri s) = Some DECODER_PUBLISH \<and> 2 \<le> ri_remain_buf_pos (ri s) \<longrightarrow>
       uint (ri_topic_len (ri s)) + 2 + (if fh_qos (ri_header (ri s)) = QOS_0 then 0 else 2)
         \<le> fh_remaining_length (ri_header (ri s)))"

definition put_string :: "publish_part \<Rightarrow> lstring \<Rightarrow> 'w sys \<Rightarrow> 'w sys" where
  "put_string part str = upd_ri (\<lambda>i. i\<lparr>ri_publish := part_set_string part str (ri_publish i)\<rparr>)"

definition part_room :: "int \<Rightarrow> nat \<Rightarrow> 'w sys \<Rightarrow> nat" where
  "part_room when len s = size_of_long (int len - (ri_remain_buf_pos (ri s) + 1 - when))"

lemma part_string_simps [simp]:
  "part_get_string part (part_set_string part str m) = str"
  "part_set_string part str (part_set_string part str' m) = part_set_string part str m"
  by (cases part; simp)+

lemma own_strings_part: "own_strings m \<Longrightarrow> str_write (part_get_string part m) = None"
  by (cases part) (simp_all add: own_strings_def)

lemma own_strings_put: "own_strings m \<Longrightarrow> str_write str = None \<Longrightarrow> own_strings (part_set_string part str m)"
  by (cases part) (simp_all add: own_strings_def)

lemma allocate_own:
  assumes "plain_receiver env" and "rx_buffer_allocate env when part len s = (True, s')" and "own_strings (ri_publish (ri s))"
  shows "own_strings (ri_publish (ri s')) \<and> ri_blocking_str (ri s') = ri_blocking_str (ri s) \<and>
    ri_remain_buf_pos (ri s') = ri_remain_buf_pos (ri s)"
proof -
  have "en_allocate env f d (ri_publish (ri s)) len w = (r, m, w') \<Longrightarrow> own_strings m" for f d w r m w'
    using assms(1,3) unfolding plain_receiver_def by (metis fst_conv snd_conv)
  then show ?thesis
    using assms(2,3)
    by (auto simp: rx_buffer_allocate_def Let_def split: option.splits if_splits prod.splits allocate_result.splits)
qed

lemma allocate_write_own:
  assumes "plain_receiver env" and "own_strings (ri_publish (ri s))" and "ri_blocking_str (ri s) = None"
  shows "rx_buffer_allocate_write env when part len bytes s = Some (True, k, s') \<longleftrightarrow>
    (\<exists>s1. rx_buffer_allocate env when part len s = (True, s1) \<and> k = min (length bytes) (part_room when len s) \<and>
      (if ri_ignore_publish (ri s1) then s' = s1
       else \<exists>str. own_write (part_get_string part (ri_publish (ri s1))) (take k bytes) = Some str \<and>
         s' = put_string part str s1))"
proof (cases "rx_buffer_allocate env when part len s")
  case (Pair ok s1)
  show ?thesis
  proof (cases "ok \<and> \<not> ri_ignore_publish (ri s1)")
    case False
    then show ?thesis using Pair
      by (auto simp: rx_buffer_allocate_write_def part_room_def min_def Let_def)
  next
    case True
    then have alloc: "rx_buffer_allocate env when part len s = (True, s1)" using Pair by simp
    note own = allocate_own [OF assms(1) alloc assms(2)]
    have min_if: "(if a > m then m else a) = min a m" for a m :: nat by simp
    have b: "upd_ri (\<lambda>i. i\<lparr>ri_blocking_str := None\<rparr>) s1 = s1"
      using own assms(3) by (intro upd_ri_same) simp
    let ?k = "min (length bytes) (part_room when len s)"
    let ?str = "part_get_string part (ri_publish (ri s1))"
    have n: "str_write ?str = None" using own own_strings_part by blast
    show ?thesis
    proof (cases "string_write (en_io env) ?str (take ?k bytes) (sy_world s1)")
      case None
      then have "own_write ?str (take ?k bytes) \<noteq> Some str" for str
        using string_write_own [OF n, of "en_io env"] by (metis option.distinct(1))
      then show ?thesis
        using alloc True b None
        by (auto simp: rx_buffer_allocate_write_def part_room_def min_def Let_def split: if_splits)
    next
      case (Some r)
      obtain res cnt os str w where r: "r = (res, cnt, os, str, w)" by (cases r) auto
      have res: "res = STRING_SUCCESS \<or> res = STRING_INVALID_OBJECT"
        by (rule string_write_own_result [OF n Some [unfolded r]])
      have own_eq: "res = STRING_SUCCESS \<Longrightarrow> own_write ?str (take ?k bytes) = Some str \<and> cnt = ?k \<and> w = sy_world s1"
        using string_write_own [OF n, of "en_io env"] Some r by simp
      have own_no: "res \<noteq> STRING_SUCCESS \<Longrightarrow> own_write ?str (take ?k bytes) \<noteq> Some str'" for str'
        using string_write_own [OF n, of "en_io env"] Some r by (metis option.inject prod.inject)
      have "rx_buffer_allocate_write env when part len bytes s =
          Some (case res of STRING_SUCCESS \<Rightarrow> (True, cnt, (put_string part str s1)\<lparr>sy_world := w\<rparr>)
             | STRING_WOULD_BLOCK \<Rightarrow>
                 (True, cnt, upd_ri (\<lambda>i. i\<lparr>ri_blocking_str := Some (part_str_ref part)\<rparr>) ((put_string part str s1)\<lparr>sy_world := w\<rparr>))
             | _ \<Rightarrow> (False, cnt, rx_buffer_fail (part_string_error part) os ((put_string part str s1)\<lparr>sy_world := w\<rparr>)))"
        using alloc True b Some r min_if
        by (cases res) (simp_all add: rx_buffer_allocate_write_def part_room_def Let_def put_string_def)
      then show ?thesis
        using res own_eq own_no alloc True by (auto simp: put_string_def upd_ri_def)
    qed
  qed
qed

section \<open>The place in the packet\<close>

lemma at_pos_simps [simp]:
  "get_store r (at_pos p s) = get_store r s" "cl_message_callbacks (at_pos p s) = cl_message_callbacks s"
  "sy_world (at_pos p s) = sy_world s" "rx_store (cl_rx (at_pos p s)) = rx_store (cl_rx s)"
  "rx_id_set (cl_rx (at_pos p s)) = rx_id_set (cl_rx s)"
  "ri (at_pos p s) = (ri s)\<lparr>ri_remain_buf_pos := p\<rparr>"
  "at_pos q (at_pos p s) = at_pos q s"
  by (simp_all add: at_pos_def comp_def)

lemma at_pos_same: "ri_remain_buf_pos (ri s) = p \<Longrightarrow> at_pos p s = s"
  by (simp add: at_pos_def upd_ri_same)

lemma at_pos_world: "(at_pos p s)\<lparr>sy_world := w\<rparr> = at_pos p (s\<lparr>sy_world := w\<rparr>)"
  by (simp add: at_pos_def upd_ri_def)

lemma upd_at_pos: "(\<And>i. f (i\<lparr>ri_remain_buf_pos := p\<rparr>) = (f i)\<lparr>ri_remain_buf_pos := p\<rparr>) \<Longrightarrow> upd_ri f (at_pos p s) = at_pos p (upd_ri f s)"
  by (simp add: at_pos_def upd_ri_def)

lemma set_store_at_pos: "set_store r st (at_pos p s) = at_pos p (set_store r st s)"
  by (simp add: at_pos_def set_store_upd_ri)

lemma deallocate_at_pos: "rx_buffer_deallocate_publish env (at_pos p s) = at_pos p (rx_buffer_deallocate_publish env s)"
  by (auto simp: rx_buffer_deallocate_publish_def Let_def upd_at_pos at_pos_world split: option.splits prod.splits)

lemma fail_at_pos: "rx_buffer_fail e os (at_pos p s) = at_pos p (rx_buffer_fail e os s)"
  by (simp add: rx_buffer_fail_def upd_at_pos)

lemma put_string_at_pos: "put_string part str (at_pos p s) = at_pos p (put_string part str s)"
  by (simp add: put_string_def upd_at_pos)

lemma deliver_at_pos:
  assumes "plain_receiver env"
  shows "rx_buffer_publish_deliver env qos (at_pos p s) =
    map_option (map_prod id (at_pos p)) (rx_buffer_publish_deliver env qos s)"
proof -
  have m: "en_message env f d (at_pos p s) = map_option (map_prod id (at_pos p)) (en_message env f d s)" for f d s
    using assms by (simp add: plain_receiver_def)
  show ?thesis
    by (auto simp: rx_buffer_publish_deliver_def Let_def upd_at_pos m deallocate_at_pos fail_at_pos
        option.map_comp Option.bind_map_option comp_def map_option_case split: option.splits)
qed

lemma finish_at_pos:
  assumes "plain_receiver env"
  shows "rx_buffer_publish_finish env qos (at_pos p s) =
    map_option (map_prod id (at_pos p)) (rx_buffer_publish_finish env qos s)"
proof -
  have ids: "(at_pos p s)\<lparr>cl_rx := (cl_rx (at_pos p s))\<lparr>rx_id_set := ids\<rparr>\<rparr> =
      at_pos p (s\<lparr>cl_rx := (cl_rx s)\<lparr>rx_id_set := ids\<rparr>\<rparr>)" for s :: "'w sys" and ids
    by (simp add: at_pos_def upd_ri_def)
  show ?thesis
    by (auto simp: rx_buffer_publish_finish_def Let_def ids deliver_at_pos [OF assms] deallocate_at_pos
        fail_at_pos set_store_at_pos split: option.splits bind_splits)
qed

section \<open>A string in two pieces\<close>

definition advance :: "nat \<Rightarrow> 'w sys \<Rightarrow> 'w sys" where
  "advance k = upd_ri (\<lambda>i. i\<lparr>ri_remain_buf_pos := ri_remain_buf_pos i + int k\<rparr>)"

lemma advance_at_pos: "advance k s = at_pos (ri_remain_buf_pos (ri s) + int k) s"
  by (simp add: advance_def at_pos_def upd_ri_def)

lemma put_string_simps [simp]:
  "ri_publish (ri (put_string part str s)) = part_set_string part str (ri_publish (ri s))"
  "ri_ignore_publish (ri (put_string part str s)) = ri_ignore_publish (ri s)"
  "ri_remain_buf_pos (ri (put_string part str s)) = ri_remain_buf_pos (ri s)"
  "ri_blocking_str (ri (put_string part str s)) = ri_blocking_str (ri s)"
  "ri_header (ri (put_string part str s)) = ri_header (ri s)"
  "ri_topic_len (ri (put_string part str s)) = ri_topic_len (ri s)"
  "put_string part str (put_string part str' s) = put_string part str s"
  by (simp_all add: put_string_def comp_def)

lemma put_string_same: "put_string part (part_get_string part (ri_publish (ri s))) s = s"
  by (cases part) (simp_all add: put_string_def upd_ri_same)

lemma allocate_past: "when < ri_remain_buf_pos (ri s) + 1 \<Longrightarrow> rx_buffer_allocate env when part len s = (True, s)"
  by (simp add: rx_buffer_allocate_def Let_def split: option.split)

lemma allocate_write_past:
  assumes "plain_receiver env" and "own_strings (ri_publish (ri s))" and "ri_blocking_str (ri s) = None"
    and "when < ri_remain_buf_pos (ri s) + 1"
  shows "rx_buffer_allocate_write env when part len bytes s = Some (True, k, s') \<longleftrightarrow>
    k = min (length bytes) (part_room when len s) \<and>
    (if ri_ignore_publish (ri s) then s' = s
     else \<exists>str. own_write (part_get_string part (ri_publish (ri s))) (take k bytes) = Some str \<and>
       s' = put_string part str s)"
  by (simp add: allocate_write_own [OF assms(1,2,3)] allocate_past [OF assms(4)])

lemma size_of_long_less: "j < size_of_long z \<Longrightarrow> size_of_long (z - int j) = size_of_long z - j"
proof -
  assume "j < size_of_long z"
  then have j: "int j < z mod 2 ^ 64" by (simp add: size_of_long_def)
  have "(z - int j) mod 2 ^ 64 = (z mod 2 ^ 64 - int j) mod 2 ^ 64" by (simp add: mod_diff_left_eq)
  also have "\<dots> = z mod 2 ^ 64 - int j"
  proof (rule mod_pos_pos_trivial)
    have "z mod 2 ^ 64 < 2 ^ 64" by simp
    then show "z mod 2 ^ 64 - int j < 2 ^ 64" by linarith
  qed (use j in simp)
  finally show ?thesis using j by (simp add: size_of_long_def nat_diff_distrib)
qed

lemma allocate_write_split:
  assumes plain: "plain_receiver env" and own: "own_strings (ri_publish (ri s))" and nb: "ri_blocking_str (ri s) = None"
    and x: "x \<noteq> []" "length x < part_room when len s" and start: "when \<le> ri_remain_buf_pos (ri s) + 1"
  defines "p \<equiv> ri_remain_buf_pos (ri s) + int (length x)"
  shows "rx_buffer_allocate_write env when part len (x @ y) s = Some (True, k, s') \<longleftrightarrow>
    (\<exists>s1 k'. rx_buffer_allocate_write env when part len x s = Some (True, length x, s1) \<and>
      rx_buffer_allocate_write env when part len y (at_pos p s1) = Some (True, k', at_pos p s') \<and>
      ri_remain_buf_pos (ri s') = ri_remain_buf_pos (ri s) \<and> k = length x + k')"
    (is "?whole \<longleftrightarrow> ?parts")
proof (cases "rx_buffer_allocate env when part len s")
  case (Pair ok s1)
  show ?thesis
  proof (cases ok)
    case False
    then show ?thesis using Pair by (simp add: allocate_write_own [OF plain own nb])
  next
    case True
    then have alloc: "rx_buffer_allocate env when part len s = (True, s1)" using Pair by simp
    note kept = allocate_own [OF plain alloc own]
    let ?m = "part_room when len s"
    let ?str = "part_get_string part (ri_publish (ri s1))"
    let ?ky = "min (length y) (?m - length x)"
    have room: "part_room when len (at_pos p t) = ?m - length x" for t :: "'w sys"
      using x(2) size_of_long_less [of "length x" "int len - (ri_remain_buf_pos (ri s) + 1 - when)"]
      by (simp add: part_room_def p_def algebra_simps)
    have pos: "when < ri_remain_buf_pos (ri (at_pos p t)) + 1" for t :: "'w sys"
      using x(1) start by (cases x) (simp_all add: p_def)
    have k: "min (length (x @ y)) ?m = length x + ?ky" using x(2) by (auto simp: min_def)
    then have take: "take (min (length (x @ y)) ?m) (x @ y) = x @ take ?ky y" by simp
    have first: "rx_buffer_allocate_write env when part len x s = Some (True, length x, t) \<longleftrightarrow>
        (if ri_ignore_publish (ri s1) then t = s1
         else \<exists>str. own_write ?str x = Some str \<and> t = put_string part str s1)" for t
      using alloc x(2) by (simp add: allocate_write_own [OF plain own nb] min_def)
    have whole: "?whole \<longleftrightarrow> k = length x + ?ky \<and> (if ri_ignore_publish (ri s1) then s' = s1
         else \<exists>str. (own_write ?str x \<bind> (\<lambda>str1. own_write str1 (take ?ky y))) = Some str \<and> s' = put_string part str s1)"
      using alloc take k by (auto simp: allocate_write_own [OF plain own nb] own_write_append)
    have own1: "own_strings (ri_publish (ri s1))" "ri_blocking_str (ri s1) = None" using kept nb by auto
    have second: "rx_buffer_allocate_write env when part len y (at_pos p t) = Some (True, k', u) \<longleftrightarrow>
        k' = ?ky \<and> (if ri_ignore_publish (ri t) then u = at_pos p t
         else \<exists>str. own_write (part_get_string part (ri_publish (ri t))) (take ?ky y) = Some str \<and> u = put_string part str (at_pos p t))"
      if "own_strings (ri_publish (ri t))" "ri_blocking_str (ri t) = None" for t k' u
      using allocate_write_past [OF plain, of "at_pos p t" "when" part len y k' u] that pos [of t]
      by (auto simp: room)
    have inj: "at_pos p u = at_pos p t \<and> ri_remain_buf_pos (ri u) = ri_remain_buf_pos (ri t) \<longleftrightarrow> u = t"
      for u t :: "'w sys" by (metis at_pos_same at_pos_simps(7))
    show ?thesis
    proof (cases "ri_ignore_publish (ri s1)")
      case True
      then show ?thesis using whole first second [OF own1] kept inj [of s' s1] by auto
    next
      case False
      have own2: "own_strings (ri_publish (ri (put_string part str s1)))" if "own_write ?str x = Some str" for str
        using own1(1) own_write_keeps [OF that] own_strings_part [OF own1(1)] by (simp add: own_strings_put)
      show ?thesis
      proof (cases "own_write ?str x")
        case None
        then show ?thesis using False whole first by simp
      next
        case (Some str)
        have s: "rx_buffer_allocate_write env when part len y (at_pos p (put_string part str s1)) = Some (True, k', u) \<longleftrightarrow>
            k' = ?ky \<and> (\<exists>str'. own_write str (take ?ky y) = Some str' \<and> u = at_pos p (put_string part str' s1))" for k' u
          using second [OF own2 [OF Some], of k' u] False own1(2) by (simp add: put_string_at_pos)
        show ?thesis
          using False whole first Some s kept inj [of s' "put_string part (the (own_write str (take ?ky y))) s1"]
          by (cases "own_write str (take ?ky y)") auto
      qed
    qed
  qed
qed

text \<open>The fields that say where in the packet the buffer is.\<close>

definition same_place :: "'w sys \<Rightarrow> 'w sys \<Rightarrow> bool" where
  "same_place s s' \<longleftrightarrow> ri_header (ri s') = ri_header (ri s) \<and> ri_header_finished (ri s') = ri_header_finished (ri s) \<and>
     ri_decoder (ri s') = ri_decoder (ri s) \<and> ri_remain_buf_pos (ri s') = ri_remain_buf_pos (ri s) \<and>
     ri_error (ri s') = ri_error (ri s)"

lemma allocate_place:
  "rx_buffer_allocate env when part len s = (True, s') \<Longrightarrow> same_place s s' \<and> ri_topic_len (ri s') = ri_topic_len (ri s)"
  by (auto simp: rx_buffer_allocate_def Let_def same_place_def split: option.splits if_splits prod.splits allocate_result.splits)

lemma put_string_place: "same_place s (put_string part str s') = same_place s s'"
  by (simp add: same_place_def put_string_def)

lemma allocate_write_keeps:
  assumes "plain_receiver env" and "own_strings (ri_publish (ri s))" and "ri_blocking_str (ri s) = None"
    and "rx_buffer_allocate_write env when part len bytes s = Some (True, k, s')"
  shows "same_place s s' \<and> ri_topic_len (ri s') = ri_topic_len (ri s) \<and> own_strings (ri_publish (ri s')) \<and>
    ri_blocking_str (ri s') = None"
proof -
  obtain s1 where s1: "rx_buffer_allocate env when part len s = (True, s1)"
    and s': "if ri_ignore_publish (ri s1) then s' = s1
       else \<exists>str. own_write (part_get_string part (ri_publish (ri s1))) (take k bytes) = Some str \<and> s' = put_string part str s1"
    using assms(4) allocate_write_own [OF assms(1-3)] by blast
  then show ?thesis
    using allocate_own [OF assms(1) s1 assms(2)] allocate_place [OF s1] assms(3)
    by (auto simp: put_string_place own_strings_put own_write_keeps own_strings_part split: if_splits)
qed

definition id_size :: "'w sys \<Rightarrow> int" where
  "id_size s = (if fh_qos (ri_header (ri s)) = QOS_0 then 0 else PACKET_ID_SIZE)"

definition publish_rest :: "'w env \<Rightarrow> byte list \<Rightarrow> 'w sys \<Rightarrow> (bool \<times> nat \<times> 'w sys) option" where
  "publish_rest env bytes s = rx_buffer_publish_bytes env (fh_remaining_length (ri_header (ri s))) (id_size s) bytes s"

definition in_topic :: "'w sys \<Rightarrow> bool" where
  "in_topic s \<longleftrightarrow> 2 \<le> ri_remain_buf_pos (ri s) \<and> ri_remain_buf_pos (ri s) < uint (ri_topic_len (ri s)) + 2"

definition in_payload :: "'w sys \<Rightarrow> bool" where
  "in_payload s \<longleftrightarrow> 2 \<le> ri_remain_buf_pos (ri s) \<and> uint (ri_topic_len (ri s)) + 2 + id_size s \<le> ri_remain_buf_pos (ri s)"

definition mark_unwanted :: "'w sys \<Rightarrow> 'w sys" where
  "mark_unwanted s = (if ri_remain_buf_pos (ri s) = 2 \<and> (mc_on_publish (cl_message_callbacks s) = None \<or>
        mc_on_publish_allocate_topic (cl_message_callbacks s) = None \<or>
        mc_on_publish_allocate_payload (cl_message_callbacks s) = None)
      then upd_ri (\<lambda>i. i\<lparr>ri_ignore_publish := True\<rparr>) s else s)"

lemma mark_unwanted_simps [simp]:
  "ri_remain_buf_pos (ri (mark_unwanted s)) = ri_remain_buf_pos (ri s)" "ri_publish (ri (mark_unwanted s)) = ri_publish (ri s)"
  "ri_blocking_str (ri (mark_unwanted s)) = ri_blocking_str (ri s)" "same_place (mark_unwanted s) s' = same_place s s'"
  "ri_topic_len (ri (mark_unwanted s)) = ri_topic_len (ri s)" "part_room w len (mark_unwanted s) = part_room w len s"
  "2 < ri_remain_buf_pos (ri s) \<Longrightarrow> mark_unwanted s = s"
  by (simp_all add: mark_unwanted_def same_place_def part_room_def)

definition payload_start :: "'w sys \<Rightarrow> int" where
  "payload_start s = uint (ri_topic_len (ri s)) + 3 + id_size s"

definition payload_size :: "'w sys \<Rightarrow> nat" where
  "payload_size s = size_of_long (fh_remaining_length (ri_header (ri s)) - id_size s - (2 + uint (ri_topic_len (ri s))))"

lemma publish_rest_topic:
  assumes "in_topic s"
  shows "publish_rest env bytes s = Some (True, k, s') \<longleftrightarrow>
    rx_buffer_allocate_write env 3 PART_TOPIC (nat (uint (ri_topic_len (ri s)))) bytes (mark_unwanted s) = Some (True, k, s')"
  using assms unfolding in_topic_def publish_rest_def rx_buffer_publish_bytes_def mark_unwanted_def
  by (auto simp: Let_def bind_eq_Some_conv id_size_def eq_commute [of "3 :: int"])

lemma publish_rest_payload:
  assumes "in_payload s"
  shows "publish_rest env bytes s = Some (True, k, s') \<longleftrightarrow>
    rx_buffer_allocate_write env (payload_start s) PART_PAYLOAD (payload_size s) bytes (mark_unwanted s) = Some (True, k, s')"
  using assms unfolding in_payload_def publish_rest_def rx_buffer_publish_bytes_def mark_unwanted_def payload_start_def payload_size_def
  by (auto simp: Let_def bind_eq_Some_conv id_size_def algebra_simps split: if_splits)

definition string_room :: "'w sys \<Rightarrow> nat" where
  "string_room s = (if in_topic s then part_room 3 (nat (uint (ri_topic_len (ri s)))) s
     else part_room (payload_start s) (payload_size s) s)"

lemma topic_room: "in_topic s \<Longrightarrow> int (string_room s) = uint (ri_topic_len (ri s)) + 2 - ri_remain_buf_pos (ri s)"
  using uint_lt2p [of "ri_topic_len (ri s)"]
  by (simp add: string_room_def part_room_def in_topic_def)

lemma same_place_simps:
  "same_place s s' \<Longrightarrow> id_size s' = id_size s" "same_place s s' \<Longrightarrow> ri_remain_buf_pos (ri s') = ri_remain_buf_pos (ri s)"
  "same_place s s' \<Longrightarrow> ri_header (ri s') = ri_header (ri s)"
  by (simp_all add: same_place_def id_size_def)

lemma id_size_at_pos [simp]: "id_size (at_pos p s) = id_size s"
  by (simp add: id_size_def)

lemma publish_rest_split:
  assumes plain: "plain_receiver env" and own: "own_strings (ri_publish (ri s))" and nb: "ri_blocking_str (ri s) = None"
    and place: "in_topic s \<or> in_payload s" and x: "x \<noteq> []" "length x < string_room s"
  defines "p \<equiv> ri_remain_buf_pos (ri s) + int (length x)"
  shows "publish_rest env (x @ y) s = Some (True, k, s') \<longleftrightarrow>
    (\<exists>s1 k'. publish_rest env x s = Some (True, length x, s1) \<and>
      publish_rest env y (at_pos p s1) = Some (True, k', at_pos p s') \<and>
      ri_remain_buf_pos (ri s') = ri_remain_buf_pos (ri s) \<and> k = length x + k')"
proof (cases "in_topic s")
  case True
  let ?t = "nat (uint (ri_topic_len (ri s)))"
  have "rx_buffer_allocate_write env 3 PART_TOPIC ?t y (at_pos p s1) = Some (True, k', u) \<longleftrightarrow>
      publish_rest env y (at_pos p s1) = Some (True, k', u)"
    if s1: "rx_buffer_allocate_write env 3 PART_TOPIC ?t x (mark_unwanted s) = Some (True, length x, s1)" for s1 k' u
  proof -
    have keep: "ri_topic_len (ri s1) = ri_topic_len (ri s)"
      using allocate_write_keeps [OF plain _ _ s1] own nb by simp
    have "in_topic (at_pos p s1)" and "mark_unwanted (at_pos p s1) = at_pos p s1"
      using True x topic_room [OF True] keep
      by (cases x; simp add: in_topic_def p_def)+
    then show ?thesis using publish_rest_topic [of "at_pos p s1"] keep by simp
  qed
  then show ?thesis
    using allocate_write_split [OF plain, of "mark_unwanted s" x 3 ?t PART_TOPIC y k s'] True own nb x
    by (auto simp: publish_rest_topic string_room_def in_topic_def p_def)
next
  case False
  then have pl: "in_payload s" using place by simp
  let ?w = "payload_start s" and ?l = "payload_size s"
  have "rx_buffer_allocate_write env ?w PART_PAYLOAD ?l y (at_pos p s1) = Some (True, k', u) \<longleftrightarrow>
      publish_rest env y (at_pos p s1) = Some (True, k', u)"
    if s1: "rx_buffer_allocate_write env ?w PART_PAYLOAD ?l x (mark_unwanted s) = Some (True, length x, s1)" for s1 k' u
  proof -
    have keep: "ri_topic_len (ri s1) = ri_topic_len (ri s)" "same_place s s1"
      using allocate_write_keeps [OF plain _ _ s1] own nb by simp_all
    note same = same_place_simps [OF keep(2)]
    have "in_payload (at_pos p s1)" and "mark_unwanted (at_pos p s1) = at_pos p s1"
      and "payload_start (at_pos p s1) = ?w" and "payload_size (at_pos p s1) = ?l"
      using pl x keep(1) same
      by (cases x; simp add: in_payload_def p_def payload_start_def payload_size_def)+
    then show ?thesis using publish_rest_payload [of "at_pos p s1"] by simp
  qed
  then show ?thesis
    using allocate_write_split [OF plain, of "mark_unwanted s" x ?w ?l PART_PAYLOAD y k s'] False pl own nb x
    by (auto simp: publish_rest_payload string_room_def in_payload_def payload_start_def p_def)
qed

section \<open>One round\<close>

abbreviation rem_len :: "'w sys \<Rightarrow> int" where
  "rem_len s \<equiv> fh_remaining_length (ri_header (ri s))"

lemma publish_finish_result:
  "rx_buffer_publish_finish env qos s = Some (r, s') \<Longrightarrow> r = DECODE_FINISHED \<or> r = DECODE_ERROR"
  by (auto simp: rx_buffer_publish_finish_def rx_buffer_publish_deliver_def Let_def bind_eq_Some_conv
      split: if_splits option.splits)

lemma decode_publish_rest:
  "rx_buffer_decode_publish env bytes s =
     do {
       c_assert (length bytes \<ge> 1);
       (ok, cnt, s1) \<leftarrow> publish_rest env bytes s;
       if \<not> ok then Some (DECODE_ERROR, cnt, s1)
       else if ri_blocking_str (ri s1) \<noteq> None then Some (DECODE_WOULD_BLOCK, cnt, s1)
       else if rem_len s \<ge> ri_remain_buf_pos (ri s) + 1 + int cnt then Some (DECODE_CONTINUE, cnt, s1)
       else do {
         (res, s2) \<leftarrow> rx_buffer_publish_finish env (fh_qos (ri_header (ri s))) s1;
         Some (res, cnt, s2)
       }
     }"
  by (simp add: rx_buffer_decode_publish_def publish_rest_def id_size_def Let_def)

lemma decode_publish_iff:
  "(rx_buffer_decode_publish env bytes s = Some (r, k, s2) \<and> (r = DECODE_FINISHED \<or> r = DECODE_CONTINUE)) \<longleftrightarrow>
   bytes \<noteq> [] \<and> (\<exists>s1. publish_rest env bytes s = Some (True, k, s1) \<and> ri_blocking_str (ri s1) = None \<and>
     (if ri_remain_buf_pos (ri s) + 1 + int k \<le> rem_len s then s2 = s1 \<and> r = DECODE_CONTINUE
      else rx_buffer_publish_finish env (fh_qos (ri_header (ri s))) s1 = Some (DECODE_FINISHED, s2) \<and> r = DECODE_FINISHED))"
proof (cases "publish_rest env bytes s")
  case None
  then show ?thesis by (simp add: decode_publish_rest c_assert_bind)
next
  case (Some q)
  obtain ok j s1 where q: "q = (ok, j, s1)" by (cases q) auto
  show ?thesis
    using publish_finish_result [of env "fh_qos (ri_header (ri s))" s1]
    by (cases "bytes = []"; cases ok; cases "ri_blocking_str (ri s1)")
      (auto simp: decode_publish_rest Some q bind_eq_Some_conv Suc_le_eq)
qed

lemma rest_publish:
  assumes "ri_decoder (ri s) = Some DECODER_PUBLISH"
  shows "rx_buffer_rest_bytes env bytes s = Some (RX_CHECK, k, s') \<longleftrightarrow>
    (\<exists>r s2. rx_buffer_decode_publish env bytes s = Some (r, k, s2) \<and> (r = DECODE_FINISHED \<or> r = DECODE_CONTINUE) \<and>
      (if r = DECODE_FINISHED then ri_remain_buf_pos (ri s2) + int k = rem_len s2
       else ri_remain_buf_pos (ri s2) + int k < rem_len s2) \<and> s' = advance k s2)"
proof (cases "rx_buffer_decode_publish env bytes s")
  case None
  then show ?thesis
    using assms by (simp add: rx_buffer_rest_bytes_def decoder_decode_remaining_def
        rx_buffer_decode_remaining_without_id_def rx_buffer_decode_type_def)
next
  case (Some q)
  obtain r j s2 where q: "q = (r, j, s2)" by (cases q) auto
  show ?thesis
    using assms Some q
    by (cases r) (auto simp: rx_buffer_rest_bytes_def decoder_decode_remaining_def c_assert_bind
        rx_buffer_decode_remaining_without_id_def rx_buffer_decode_type_def Let_def advance_def)
qed

lemma finish_keeps_pos:
  assumes "plain_receiver env" and "rx_buffer_publish_finish env qos s = Some (r, s')"
  shows "ri_remain_buf_pos (ri s') = ri_remain_buf_pos (ri s)"
proof -
  let ?p = "ri_remain_buf_pos (ri s)"
  have "at_pos ?p s = s" by (simp add: at_pos_same)
  then have "s' = at_pos ?p s'" using finish_at_pos [OF assms(1), of qos ?p s] assms(2) by simp
  from arg_cong [OF this, of "\<lambda>t. ri_remain_buf_pos (ri t)"] show ?thesis by simp
qed

lemma publish_rest_keeps:
  assumes "plain_receiver env" and "own_strings (ri_publish (ri s))" and "ri_blocking_str (ri s) = None"
    and "in_topic s \<or> in_payload s" and "publish_rest env bytes s = Some (True, k, s')"
  shows "same_place s s' \<and> ri_topic_len (ri s') = ri_topic_len (ri s) \<and> own_strings (ri_publish (ri s')) \<and>
    ri_blocking_str (ri s') = None"
  using assms(4,5) allocate_write_keeps [OF assms(1), of "mark_unwanted s"] assms(2,3)
  by (auto simp: publish_rest_topic publish_rest_payload)

lemma string_room_within:
  assumes "receiving s" and "ri_header_finished (ri s)" and "ri_decoder (ri s) = Some DECODER_PUBLISH"
    and "in_topic s \<or> in_payload s" and "k < string_room s"
  shows "ri_remain_buf_pos (ri s) + int k < rem_len s"
proof -
  have pos: "2 \<le> ri_remain_buf_pos (ri s)" using assms(4) by (auto simp: in_topic_def in_payload_def)
  have len: "uint (ri_topic_len (ri s)) + 2 + id_size s \<le> rem_len s" "ri_remain_buf_pos (ri s) < rem_len s"
    using assms(1-3) pos by (auto simp: receiving_def id_size_def rx_buffer_is_packet_finished_def split: if_splits)
  have id: "0 \<le> id_size s" by (simp add: id_size_def)
  show ?thesis
  proof (cases "in_topic s")
    case True
    then show ?thesis using topic_room [OF True] assms(5) len id by linarith
  next
    case False
    then have pl: "in_payload s" using assms(4) by simp
    have le: "int (size_of_long z) \<le> z" if "0 \<le> z" for z
      using that zmod_le_nonneg_dividend [of z "2 ^ 64"] by (simp add: size_of_long_def)
    have mod: "size_of_long (int (size_of_long a) - b) = size_of_long (a - b)" for a b
      by (simp add: size_of_long_def mod_diff_left_eq)
    let ?p = "ri_remain_buf_pos (ri s)"
    have "string_room s = size_of_long (int (payload_size s) - (?p + 1 - payload_start s))"
      using False by (simp add: string_room_def part_room_def)
    also have "\<dots> = size_of_long ((rem_len s - id_size s - (2 + uint (ri_topic_len (ri s)))) - (?p + 1 - payload_start s))"
      unfolding payload_size_def by (rule mod)
    also have "\<dots> = size_of_long (rem_len s - ?p)" by (simp add: payload_start_def)
    finally have "string_room s = size_of_long (rem_len s - ?p)" .
    then have "int (string_room s) \<le> rem_len s - ri_remain_buf_pos (ri s)" using le len(2) by simp
    then show ?thesis using assms(5) by linarith
  qed
qed

definition publish_next :: "'w env \<Rightarrow> nat \<Rightarrow> 'w sys \<Rightarrow> 'w sys \<Rightarrow> bool" where
  "publish_next env k t s' \<longleftrightarrow>
     (if ri_remain_buf_pos (ri t) + int k < rem_len t then s' = advance k t
      else \<exists>u. rx_buffer_publish_finish env (fh_qos (ri_header (ri t))) t = Some (DECODE_FINISHED, u) \<and>
        ri_remain_buf_pos (ri t) + int k = rem_len u \<and> s' = advance k u)"

lemma rest_publish_next:
  assumes plain: "plain_receiver env" and own: "own_strings (ri_publish (ri s))" and nb: "ri_blocking_str (ri s) = None"
    and place: "in_topic s \<or> in_payload s" and dec: "ri_decoder (ri s) = Some DECODER_PUBLISH"
  shows "rx_buffer_rest_bytes env bytes s = Some (RX_CHECK, k, s') \<longleftrightarrow>
    bytes \<noteq> [] \<and> (\<exists>t. publish_rest env bytes s = Some (True, k, t) \<and> publish_next env k t s')"
    (is "?round \<longleftrightarrow> ?next")
proof
  note keeps = publish_rest_keeps [OF plain own nb place]
  assume ?round
  then obtain r s2 where d: "rx_buffer_decode_publish env bytes s = Some (r, k, s2)" "r = DECODE_FINISHED \<or> r = DECODE_CONTINUE"
    and s2: "if r = DECODE_FINISHED then ri_remain_buf_pos (ri s2) + int k = rem_len s2
       else ri_remain_buf_pos (ri s2) + int k < rem_len s2" "s' = advance k s2"
    using rest_publish [OF dec] by blast
  obtain t where t: "bytes \<noteq> []" "publish_rest env bytes s = Some (True, k, t)"
    and r: "if ri_remain_buf_pos (ri s) + 1 + int k \<le> rem_len s then s2 = t \<and> r = DECODE_CONTINUE
      else rx_buffer_publish_finish env (fh_qos (ri_header (ri s))) t = Some (DECODE_FINISHED, s2) \<and> r = DECODE_FINISHED"
    using decode_publish_iff [of env bytes s r k s2] d by blast
  show ?next
    using t r s2 same_place_simps [of s t] keeps [OF t(2)] finish_keeps_pos [OF plain, of _ t DECODE_FINISHED s2]
    by (intro conjI exI [of _ t]) (auto simp: publish_next_def split: if_splits)
next
  note keeps = publish_rest_keeps [OF plain own nb place]
  assume ?next
  then obtain t where t: "bytes \<noteq> []" "publish_rest env bytes s = Some (True, k, t)" "publish_next env k t s'" by blast
  note same = same_place_simps [of s t]
  show ?round
  proof (cases "ri_remain_buf_pos (ri s) + 1 + int k \<le> rem_len s")
    case True
    then have "rx_buffer_decode_publish env bytes s = Some (DECODE_CONTINUE, k, t)"
      using decode_publish_iff [of env bytes s DECODE_CONTINUE k t] t(1,2) keeps [OF t(2)] by auto
    then show ?thesis using t(3) True same keeps [OF t(2)] by (simp add: rest_publish [OF dec] publish_next_def)
  next
    case False
    then obtain u where u: "rx_buffer_publish_finish env (fh_qos (ri_header (ri s))) t = Some (DECODE_FINISHED, u)"
      "ri_remain_buf_pos (ri t) + int k = rem_len u" "s' = advance k u"
      using t(3) same keeps [OF t(2)] by (auto simp: publish_next_def)
    then have "rx_buffer_decode_publish env bytes s = Some (DECODE_FINISHED, k, u)"
      using decode_publish_iff [of env bytes s DECODE_FINISHED k u] t(1,2) keeps [OF t(2)] False by auto
    then show ?thesis using u finish_keeps_pos [OF plain u(1)] by (simp add: rest_publish [OF dec])
  qed
qed

lemma rest_publish_split:
  assumes plain: "plain_receiver env" and rx: "receiving s" "ri_header_finished (ri s)" "ri_decoder (ri s) = Some DECODER_PUBLISH"
    and place: "in_topic s \<or> in_payload s" and x: "x \<noteq> []" "length x < string_room s" and y: "y \<noteq> []"
  shows "rx_buffer_rest_bytes env (x @ y) s = Some (RX_CHECK, k, s') \<longleftrightarrow>
    (\<exists>s1 k'. rx_buffer_rest_bytes env x s = Some (RX_CHECK, length x, s1) \<and>
      rx_buffer_rest_bytes env y s1 = Some (RX_CHECK, k', s') \<and> k = length x + k')"
    (is "?whole \<longleftrightarrow> ?parts")
proof -
  let ?p = "ri_remain_buf_pos (ri s)"
  let ?P = "?p + int (length x)"
  have own: "own_strings (ri_publish (ri s))" and nb: "ri_blocking_str (ri s) = None" using rx(1) by (auto simp: receiving_def)
  note keeps = publish_rest_keeps [OF plain own nb place]
  note next1 = rest_publish_next [OF plain own nb place rx(3)]
  have within: "?P < rem_len s" using string_room_within [OF rx place x(2)] .
  have first: "rx_buffer_rest_bytes env x s = Some (RX_CHECK, length x, s1) \<longleftrightarrow>
      (\<exists>t. publish_rest env x s = Some (True, length x, t) \<and> s1 = at_pos ?P t)" for s1
    using next1 [of x "length x" s1] within x(1) keeps [of x "length x"]
    by (auto simp: same_place_def publish_next_def advance_at_pos)
  have second: "rx_buffer_rest_bytes env y (at_pos ?P t) = Some (RX_CHECK, k', s') \<longleftrightarrow>
      (\<exists>u. publish_rest env y (at_pos ?P t) = Some (True, k', at_pos ?P u) \<and> ri_remain_buf_pos (ri u) = ?p \<and>
        publish_next env (length x + k') u s')"
    if t: "publish_rest env x s = Some (True, length x, t)" for t k'
  proof -
    let ?t = "at_pos ?P t"
    have keep: "ri_topic_len (ri ?t) = ri_topic_len (ri s)" "own_strings (ri_publish (ri ?t))" "ri_blocking_str (ri ?t) = None"
        "ri_decoder (ri ?t) = Some DECODER_PUBLISH" "id_size ?t = id_size s"
      using keeps [OF t] rx(3) by (simp_all add: same_place_def id_size_def)
    have place': "in_topic ?t \<or> in_payload ?t"
      using place x(2) topic_room [of s] keep(1,5) by (auto simp: in_topic_def in_payload_def)
    have shift: "publish_next env k' (at_pos ?P u) s' \<longleftrightarrow> publish_next env (length x + k') u s'"
      if "ri_remain_buf_pos (ri u) = ?p" for u
      using that finish_at_pos [OF plain, of "fh_qos (ri_header (ri u))" ?P u] finish_keeps_pos [OF plain]
      by (auto simp: publish_next_def advance_at_pos algebra_simps)
    have moved: "v = at_pos ?P (at_pos ?p v)" if "publish_rest env y ?t = Some (True, k', v)" for v
      using publish_rest_keeps [OF plain keep(2,3) place' that] by (simp add: same_place_def at_pos_same)
    have "rx_buffer_rest_bytes env y ?t = Some (RX_CHECK, k', s') \<longleftrightarrow>
        (\<exists>v. publish_rest env y ?t = Some (True, k', v) \<and> publish_next env k' v s')"
      using rest_publish_next [OF plain keep(2,3) place' keep(4), of y k' s'] y by simp
    also have "\<dots> \<longleftrightarrow> (\<exists>u. publish_rest env y ?t = Some (True, k', at_pos ?P u) \<and> ri_remain_buf_pos (ri u) = ?p \<and>
        publish_next env k' (at_pos ?P u) s')"
    proof
      assume "\<exists>v. publish_rest env y ?t = Some (True, k', v) \<and> publish_next env k' v s'"
      then obtain v where v: "publish_rest env y ?t = Some (True, k', v)" "publish_next env k' v s'" by blast
      then show "\<exists>u. publish_rest env y ?t = Some (True, k', at_pos ?P u) \<and> ri_remain_buf_pos (ri u) = ?p \<and>
          publish_next env k' (at_pos ?P u) s'"
        using moved [OF v(1)] by (intro exI [of _ "at_pos ?p v"]) simp
    qed blast
    finally show ?thesis using shift by blast
  qed
  show ?thesis
    using first second publish_rest_split [OF plain own nb place x] next1 [of "x @ y" k s'] x(1)
    by auto
qed

end
