(* ===== verification/Rx_Pieces.thy ===== *)
theory Rx_Pieces
  imports Rx_Strings
begin

text \<open>
  However the input is cut into pieces, the receive buffer ends in the same state: decoding the
  pieces one after the other is decoding their concatenation.
\<close>

section \<open>What a round keeps\<close>

lemma rx_pop_keeps: "rx_buffer_pop p d s = Some (True, s') \<Longrightarrow> \<exists>v. ri s' = (ri s)\<lparr>ri_value := v\<rparr>"
  by (cases p) (auto simp: rx_buffer_pop_def rx_buffer_pop_packet_def rx_buffer_pubrel_def Let_def bind_eq_Some_conv
      split: if_splits intro: exI [of _ "ri_value (ri s)"])

lemma receiving_reset [simp]: "receiving (lmqtt_rx_buffer_reset s)"
  by (simp add: receiving_def lmqtt_rx_buffer_reset_def rx_internal_zero_def own_strings_def publish_zero_def
      lstring_zero_def rx_buffer_is_packet_finished_def)

lemma finish_packet_receiving: "rx_buffer_finish_packet n env s = Some (True, s') \<Longrightarrow> receiving s'"
  by (auto simp: rx_buffer_finish_packet_def Let_def bind_eq_Some_conv split: if_splits)

lemma header_byte_keeps:
  assumes "rx_buffer_header_byte b s = Some (nx, k, s')" and "nx = RX_CHECK \<or> nx = RX_CONTINUE"
    and "receiving s" and "\<not> ri_header_finished (ri s)"
  shows "k = 1 \<and> (nx = RX_CHECK \<and> rx_buffer_is_packet_finished s' \<or> receiving s')"
proof -
  obtain header res err where h: "fixed_header_decode (ri_header (ri s)) b = (header, res, err)"
    by (cases "fixed_header_decode (ri_header (ri s)) b") auto
  show ?thesis
  proof (cases "res = DECODE_FINISHED")
    case False
    then have "res \<noteq> DECODE_ERROR \<and> nx = RX_CONTINUE \<and> k = 1 \<and> s' = upd_ri (\<lambda>i. i\<lparr>ri_header := header\<rparr>) s"
      using assms(1,2) h by (auto simp: rx_buffer_header_byte_def Let_def split: if_splits)
    then show ?thesis using assms(3,4) by (simp add: receiving_def rx_buffer_is_packet_finished_def)
  next
    case True
    then obtain decoder where d: "arr_get rx_buffer_decoders (nat (fh_type header)) = Some decoder"
      using assms(1) h by (auto simp: rx_buffer_header_byte_def bind_eq_Some_conv Let_def simp del: arr_iffs)
    let ?s = "upd_ri (\<lambda>i. i\<lparr>ri_header := header, ri_header_finished := True, ri_decoder := decoder\<rparr>) s"
    have s': "nx = RX_CHECK" "k = 1" "\<exists>d. rx_buffer_pop (decoder_pop_packet_without_id d) d ?s = Some (True, s')"
      using assms(1,2) h True d
      by (cases decoder; auto simp: rx_buffer_header_byte_def bind_eq_Some_conv Let_def comp_def simp del: arr_iffs split: if_splits)+
    then obtain v where "ri s' = (ri ?s)\<lparr>ri_value := v\<rparr>" using rx_pop_keeps by blast
    then show ?thesis
      using s'(1,2) assms(3,4) by (auto simp: receiving_def rx_buffer_is_packet_finished_def)
  qed
qed

lemma other_remaining_keeps:
  assumes "decoder_decode_remaining env d bytes s = Some (r, k, s')" and "r = DECODE_FINISHED \<or> r = DECODE_CONTINUE"
    and "d \<noteq> DECODER_PUBLISH"
  shows "k = 1 \<and> bytes \<noteq> [] \<and> same_place s s' \<and> ri_publish (ri s') = ri_publish (ri s) \<and>
    ri_blocking_str (ri s') = ri_blocking_str (ri s)"
proof -
  have type: "k = 1 \<and> bytes \<noteq> [] \<and> ri s' = ri s"
    if "rx_buffer_decode_remaining_without_id env d bytes s = Some (r, k, s')"
    using that assms(2,3)
    by (cases d) (auto simp: rx_buffer_decode_remaining_without_id_def rx_buffer_decode_type_def rx_buffer_decode_connack_def
        rx_buffer_decode_suback_def Let_def bind_eq_Some_conv simp del: get_iffs arr_iffs split: if_splits)
  show ?thesis
  proof (cases "decoder_has_id d \<and> ri_remain_buf_pos (ri s) + 1 \<le> 2")
    case False
    then have "rx_buffer_decode_remaining_without_id env d bytes s = Some (r, k, s')"
      using assms(1) by (auto simp: decoder_decode_remaining_def rx_buffer_decode_remaining_with_id_def Let_def split: if_splits)
    from type [OF this] show ?thesis by (simp add: same_place_def)
  next
    case True
    then show ?thesis
      using assms(1,2)
      by (auto simp: decoder_decode_remaining_def rx_buffer_decode_remaining_with_id_def Let_def bind_eq_Some_conv
          same_place_def dest!: rx_pop_keeps split: if_splits)
  qed
qed

lemma other_remaining_first:
  "d \<noteq> DECODER_PUBLISH \<Longrightarrow> x \<noteq> [] \<Longrightarrow> decoder_decode_remaining env d (x @ y) s = decoder_decode_remaining env d x s"
  by (cases x; cases d) (simp_all add: decoder_decode_remaining_def rx_buffer_decode_remaining_with_id_def
      rx_buffer_decode_remaining_without_id_def rx_buffer_decode_type_def rx_buffer_decode_connack_def
      rx_buffer_decode_suback_def Let_def)

lemma allocate_write_count:
  "rx_buffer_allocate_write env when part len bytes s = Some (True, k, s') \<Longrightarrow> plain_receiver env \<Longrightarrow>
     own_strings (ri_publish (ri s)) \<Longrightarrow> ri_blocking_str (ri s) = None \<Longrightarrow> k = min (length bytes) (part_room when len s)"
  by (simp add: allocate_write_own) blast

lemma publish_rest_count:
  assumes "plain_receiver env" and "own_strings (ri_publish (ri s))" and "ri_blocking_str (ri s) = None"
    and "in_topic s \<or> in_payload s" and "publish_rest env bytes s = Some (True, k, s')"
  shows "k = min (length bytes) (string_room s)"
  using assms(4,5) allocate_write_count [OF _ assms(1), of _ _ _ bytes "mark_unwanted s"] assms(2,3)
  by (auto simp: publish_rest_topic publish_rest_payload string_room_def)

lemma publish_rest_other:
  assumes "\<not> in_topic s" and "\<not> in_payload s" and "publish_rest env bytes s = Some (True, k, s')"
  shows "k = 1 \<and> same_place s s' \<and> ri_publish (ri s') = ri_publish (ri s) \<and>
    ri_blocking_str (ri s') = ri_blocking_str (ri s) \<and>
    (ri_remain_buf_pos (ri s) = 1 \<longrightarrow> uint (ri_topic_len (ri s')) + 2 + id_size s \<le> rem_len s) \<and>
    (2 \<le> ri_remain_buf_pos (ri s) \<longrightarrow> ri_topic_len (ri s') = ri_topic_len (ri s))"
  using assms unfolding in_topic_def in_payload_def publish_rest_def rx_buffer_publish_bytes_def
  by (auto simp: Let_def same_place_def split: if_splits)

lemma publish_rest_first:
  assumes "\<not> in_topic s" and "\<not> in_payload s" and "x \<noteq> []"
  shows "publish_rest env (x @ y) s = publish_rest env x s"
  using assms unfolding in_topic_def in_payload_def publish_rest_def rx_buffer_publish_bytes_def
  by (cases x) (auto simp: Let_def)

lemma publish_finish_keeps:
  assumes "plain_receiver env" and "rx_buffer_publish_finish env qos s = Some (DECODE_FINISHED, s')"
  shows "ri_header_finished (ri s') = ri_header_finished (ri s)"
proof -
  have dealloc: "ri_header_finished (ri (rx_buffer_deallocate_publish env t)) = ri_header_finished (ri t)" for t
    by (auto simp: rx_buffer_deallocate_publish_def Let_def split: option.splits prod.splits)
  have deliver: "ri_header_finished (ri u) = ri_header_finished (ri t)"
    if "rx_buffer_publish_deliver env q t = Some (DECODE_FINISHED, u)" for q t u
    using that assms(1) unfolding plain_receiver_def
    by (auto simp: rx_buffer_publish_deliver_def Let_def bind_eq_Some_conv dealloc split: if_splits option.splits)
  show ?thesis
    using assms(2)
    by (auto simp: rx_buffer_publish_finish_def Let_def bind_eq_Some_conv dealloc dest!: deliver split: if_splits)
qed

lemma publish_round_keeps:
  assumes plain: "plain_receiver env" and rx: "receiving s" "ri_header_finished (ri s)" "ri_decoder (ri s) = Some DECODER_PUBLISH"
    and round: "rx_buffer_rest_bytes env bytes s = Some (RX_CHECK, k, s')"
  shows "k \<le> length bytes \<and> (rx_buffer_is_packet_finished s' \<or> receiving s')"
proof -
  obtain r s2 where d: "rx_buffer_decode_publish env bytes s = Some (r, k, s2)" "r = DECODE_FINISHED \<or> r = DECODE_CONTINUE"
    and s2: "if r = DECODE_FINISHED then ri_remain_buf_pos (ri s2) + int k = rem_len s2
       else ri_remain_buf_pos (ri s2) + int k < rem_len s2" "s' = advance k s2"
    using rest_publish [OF rx(3)] round by blast
  obtain t where t: "bytes \<noteq> []" "publish_rest env bytes s = Some (True, k, t)"
    and r: "if ri_remain_buf_pos (ri s) + 1 + int k \<le> rem_len s then s2 = t \<and> r = DECODE_CONTINUE
      else rx_buffer_publish_finish env (fh_qos (ri_header (ri s))) t = Some (DECODE_FINISHED, s2) \<and> r = DECODE_FINISHED"
    using decode_publish_iff [of env bytes s r k s2] d by blast
  have own: "own_strings (ri_publish (ri s))" and nb: "ri_blocking_str (ri s) = None" using rx(1) by (auto simp: receiving_def)
  have long: "2 \<le> ri_remain_buf_pos (ri s) \<Longrightarrow> uint (ri_topic_len (ri s)) + 2 + id_size s \<le> rem_len s"
    using rx by (auto simp: receiving_def id_size_def)
  have keeps: "k \<le> length bytes \<and> same_place s t \<and> own_strings (ri_publish (ri t)) \<and> ri_blocking_str (ri t) = None \<and>
      (2 \<le> ri_remain_buf_pos (ri s) + int k \<longrightarrow> uint (ri_topic_len (ri t)) + 2 + id_size s \<le> rem_len s)"
  proof (cases "in_topic s \<or> in_payload s")
    case True
    then show ?thesis
      using publish_rest_keeps [OF plain own nb True t(2)] publish_rest_count [OF plain own nb True t(2)] long
      by (auto simp: in_topic_def in_payload_def)
  next
    case False
    then show ?thesis
      using publish_rest_other [OF _ _ t(2)] t(1) own nb long by (auto simp: Suc_le_eq)
  qed
  show ?thesis
  proof (cases "r = DECODE_FINISHED")
    case True
    then have "rx_buffer_publish_finish env (fh_qos (ri_header (ri s))) t = Some (DECODE_FINISHED, s2)"
      using r by (auto split: if_splits)
    then show ?thesis
      using publish_finish_keeps [OF plain] keeps s2 True rx(2)
      by (auto simp: rx_buffer_is_packet_finished_def advance_at_pos same_place_def)
  next
    case False
    then have "s2 = t" using r by (auto split: if_splits)
    then show ?thesis
      using keeps s2 False rx
      by (auto simp: receiving_def advance_at_pos same_place_def id_size_def rx_buffer_is_packet_finished_def)
  qed
qed

lemma other_round_keeps:
  assumes rx: "receiving s" "ri_header_finished (ri s)" "ri_decoder (ri s) \<noteq> Some DECODER_PUBLISH"
    and round: "rx_buffer_rest_bytes env bytes s = Some (RX_CHECK, k, s')"
  shows "k \<le> length bytes \<and> (rx_buffer_is_packet_finished s' \<or> receiving s')"
proof -
  obtain d r s1 where d: "ri_decoder (ri s) = Some d" "decoder_decode_remaining env d bytes s = Some (r, k, s1)"
      "r = DECODE_FINISHED \<or> r = DECODE_CONTINUE" "s' = advance k s1"
    using round by (auto simp: rx_buffer_rest_bytes_def bind_eq_Some_conv advance_def split: if_splits)
  then have "k = 1 \<and> bytes \<noteq> [] \<and> same_place s s1 \<and> ri_publish (ri s1) = ri_publish (ri s) \<and>
      ri_blocking_str (ri s1) = ri_blocking_str (ri s)"
    using other_remaining_keeps [OF d(2,3)] rx(3) by auto
  then show ?thesis
    using rx d(1,4) by (auto simp: receiving_def advance_at_pos same_place_def rx_buffer_is_packet_finished_def Suc_le_eq)
qed

definition rx_round :: "'w env \<Rightarrow> byte list \<Rightarrow> 'w sys \<Rightarrow> (rx_next \<times> nat \<times> 'w sys) option" where
  "rx_round env bytes s =
     (if \<not> ri_header_finished (ri s) then rx_buffer_header_byte (hd bytes) s else rx_buffer_rest_bytes env bytes s)"

lemma rest_bytes_next: "rx_buffer_rest_bytes env bytes s = Some (nx, k, s') \<Longrightarrow>
    nx = RX_CHECK \<or> nx = RX_BREAK \<and> k = 0 \<or> nx = RX_ERROR"
  by (auto simp: rx_buffer_rest_bytes_def bind_eq_Some_conv split: if_splits)

lemma round_keeps:
  assumes "plain_receiver env" and "receiving s" and "bytes \<noteq> []"
    and "rx_round env bytes s = Some (nx, k, s')" and "nx = RX_CHECK \<or> nx = RX_CONTINUE"
  shows "k \<le> length bytes \<and> (nx = RX_CHECK \<and> rx_buffer_is_packet_finished s' \<or> receiving s')"
proof (cases "ri_header_finished (ri s)")
  case False
  then show ?thesis
    using header_byte_keeps [OF _ assms(5,2) False, of "hd bytes" k s'] assms(3,4)
    by (cases bytes) (simp_all add: rx_round_def)
next
  case True
  then have r: "rx_buffer_rest_bytes env bytes s = Some (RX_CHECK, k, s')" "nx = RX_CHECK"
    using assms(4,5) rest_bytes_next by (fastforce simp: rx_round_def)+
  then show ?thesis
    using publish_round_keeps [OF assms(1,2) True] other_round_keeps [OF assms(2) True] by blast
qed

section \<open>The same round on more input\<close>

definition string_cut :: "byte list \<Rightarrow> 'w sys \<Rightarrow> bool" where
  "string_cut x s \<longleftrightarrow> ri_header_finished (ri s) \<and> ri_decoder (ri s) = Some DECODER_PUBLISH \<and>
     (in_topic s \<or> in_payload s) \<and> length x < string_room s"

lemma allocate_write_more:
  assumes "part_room when len s \<le> length x"
  shows "rx_buffer_allocate_write env when part len (x @ y) s = rx_buffer_allocate_write env when part len x s"
proof -
  let ?m = "part_room when len s"
  have m: "size_of_long (int len - (ri_remain_buf_pos (ri s) + 1 - when)) = ?m" by (simp add: part_room_def)
  have n: "(if length (x @ y) > ?m then ?m else length (x @ y)) = ?m" "(if length x > ?m then ?m else length x) = ?m"
    using assms by auto
  have t: "take ?m (x @ y) = take ?m x" using assms by simp
  show ?thesis unfolding rx_buffer_allocate_write_def Let_def m n t by (rule refl)
qed

lemma publish_rest_eqs:
  "in_topic s \<Longrightarrow> publish_rest env bytes s =
     do {
       (ok, cnt, s1) \<leftarrow> rx_buffer_allocate_write env 3 PART_TOPIC (nat (uint (ri_topic_len (ri s)))) bytes (mark_unwanted s);
       Some (ok, cnt, if ok then s1 else rx_buffer_deallocate_publish env s1)
     }"
  "in_payload s \<Longrightarrow> publish_rest env bytes s =
     do {
       (ok, cnt, s1) \<leftarrow> rx_buffer_allocate_write env (payload_start s) PART_PAYLOAD (payload_size s) bytes (mark_unwanted s);
       Some (ok, cnt, if ok then s1 else rx_buffer_deallocate_publish env s1)
     }"
  unfolding in_topic_def in_payload_def publish_rest_def rx_buffer_publish_bytes_def mark_unwanted_def payload_start_def payload_size_def
  by (auto simp: Let_def id_size_def algebra_simps split: if_splits)

lemma publish_rest_more:
  assumes "in_topic s \<or> in_payload s" and "string_room s \<le> length x"
  shows "publish_rest env (x @ y) s = publish_rest env x s"
  using assms allocate_write_more [of _ _ "mark_unwanted s" x env _ y]
  by (cases "in_topic s") (simp_all add: publish_rest_eqs string_room_def)

lemma round_more:
  assumes "x \<noteq> []" and "\<not> string_cut x s"
  shows "rx_round env (x @ y) s = rx_round env x s"
proof (cases "ri_header_finished (ri s) \<and> ri_decoder (ri s) = Some DECODER_PUBLISH")
  case False
  then show ?thesis
    using assms(1) other_remaining_first [OF _ assms(1), of _ env y s]
    by (cases "ri_decoder (ri s)") (auto simp: rx_round_def rx_buffer_rest_bytes_def)
next
  case True
  have "publish_rest env (x @ y) s = publish_rest env x s"
    using assms True publish_rest_first [of s x] publish_rest_more [of s x]
    by (cases "in_topic s \<or> in_payload s") (auto simp: string_cut_def)
  then show ?thesis
    using True assms(1)
    by (simp add: rx_round_def rx_buffer_rest_bytes_def decoder_decode_remaining_def
        rx_buffer_decode_remaining_without_id_def rx_buffer_decode_type_def decode_publish_rest Suc_le_eq)
qed

section \<open>The loop\<close>

definition rx_proceed ::
    "nat \<Rightarrow> 'w env \<Rightarrow> byte list \<Rightarrow> nat \<Rightarrow> rx_next \<times> nat \<times> 'w sys \<Rightarrow> (bool \<times> nat \<times> 'w sys) option" where
  "rx_proceed n env bytes cnt = (\<lambda>(next, k, s1).
     if next = RX_ERROR then Some (False, cnt + k, s1)
     else if next = RX_BREAK then Some (True, cnt + k, s1)
     else if next = RX_CHECK \<and> rx_buffer_is_packet_finished s1
     then do {
       (ok, s2) \<leftarrow> rx_buffer_finish_packet n env s1;
       if ok then rx_buffer_decode_loop n env (drop k bytes) (cnt + k) s2
       else Some (False, cnt + k, s2)
     }
     else rx_buffer_decode_loop n env (drop k bytes) (cnt + k) s1)"

lemma loop_round:
  "bytes \<noteq> [] \<Longrightarrow> rx_buffer_decode_loop (Suc n) env bytes cnt s = (rx_round env bytes s \<bind> rx_proceed n env bytes cnt)"
  by (simp add: rx_buffer_decode_loop.simps(2) rx_round_def rx_proceed_def)

text \<open>A successful run that takes all of its input goes through successful rounds.\<close>

lemma loop_stepE:
  assumes "rx_buffer_decode_loop n env bytes cnt s = Some (True, cnt + length bytes, s')" and "bytes \<noteq> []"
    and "plain_receiver env" and "receiving s"
  obtains m nx k s1 s2 where "n = Suc m" "rx_round env bytes s = Some (nx, k, s1)" "nx = RX_CHECK \<or> nx = RX_CONTINUE"
    "k \<le> length bytes" "receiving s2"
    "if nx = RX_CHECK \<and> rx_buffer_is_packet_finished s1 then rx_buffer_finish_packet m env s1 = Some (True, s2) else s2 = s1"
    "rx_buffer_decode_loop m env (drop k bytes) (cnt + k) s2 = Some (True, cnt + length bytes, s')"
proof -
  obtain m where m: "n = Suc m" using assms(1) by (cases n) auto
  obtain nx k s1 where r: "rx_round env bytes s = Some (nx, k, s1)" "rx_proceed m env bytes cnt (nx, k, s1) = Some (True, cnt + length bytes, s')"
    using assms(1,2) m by (auto simp: loop_round bind_eq_Some_conv)
  have "nx \<noteq> RX_BREAK"
  proof
    assume b: "nx = RX_BREAK"
    then have "k = 0"
      using r(1) rest_bytes_next [of env bytes s nx k s1]
      by (auto simp: rx_round_def rx_buffer_header_byte_def Let_def bind_eq_Some_conv split: if_splits option.splits prod.splits)
    then show False using r(2) b assms(2) by (simp add: rx_proceed_def)
  qed
  then have nx: "nx = RX_CHECK \<or> nx = RX_CONTINUE" using r(2) by (cases nx) (auto simp: rx_proceed_def)
  note keeps = round_keeps [OF assms(3,4,2) r(1) nx]
  show ?thesis
  proof (cases "nx = RX_CHECK \<and> rx_buffer_is_packet_finished s1")
    case True
    then obtain s2 where "rx_buffer_finish_packet m env s1 = Some (True, s2)"
        "rx_buffer_decode_loop m env (drop k bytes) (cnt + k) s2 = Some (True, cnt + length bytes, s')"
      using r(2) by (auto simp: rx_proceed_def bind_eq_Some_conv split: if_splits)
    then show ?thesis
      using that [OF m r(1) nx, of s2] keeps True finish_packet_receiving [of m env s1 s2] by auto
  next
    case False
    then have "rx_buffer_decode_loop m env (drop k bytes) (cnt + k) s1 = Some (True, cnt + length bytes, s')"
      using r(2) nx by (auto simp: rx_proceed_def)
    then show ?thesis using that [OF m r(1) nx] keeps False by auto
  qed
qed

lemma loop_stepI:
  assumes "bytes \<noteq> []" and "rx_round env bytes s = Some (nx, k, s1)" and "nx = RX_CHECK \<or> nx = RX_CONTINUE"
    and "if nx = RX_CHECK \<and> rx_buffer_is_packet_finished s1 then rx_buffer_finish_packet m env s1 = Some (True, s2) else s2 = s1"
    and "rx_buffer_decode_loop m env (drop k bytes) (cnt + k) s2 = Some r"
  shows "rx_buffer_decode_loop (Suc m) env bytes cnt s = Some r"
  using assms by (auto simp: loop_round rx_proceed_def split: if_splits)

lemma cut_round_takes_all:
  assumes "plain_receiver env" and "receiving s" and "string_cut x s" and "x \<noteq> []"
    and "rx_round env x s = Some (nx, k, s1)" and "nx = RX_CHECK \<or> nx = RX_CONTINUE"
  shows "nx = RX_CHECK \<and> k = length x \<and> rx_buffer_rest_bytes env x s = Some (RX_CHECK, length x, s1) \<and>
    \<not> rx_buffer_is_packet_finished s1 \<and> ri_header_finished (ri s1)"
proof -
  have cut: "ri_header_finished (ri s)" "ri_decoder (ri s) = Some DECODER_PUBLISH" "in_topic s \<or> in_payload s" "length x < string_room s"
    using assms(3) by (auto simp: string_cut_def)
  have own: "own_strings (ri_publish (ri s))" and nb: "ri_blocking_str (ri s) = None" using assms(2) by (auto simp: receiving_def)
  have rest: "rx_buffer_rest_bytes env x s = Some (RX_CHECK, k, s1)" "nx = RX_CHECK"
    using assms(5,6) cut(1) rest_bytes_next by (fastforce simp: rx_round_def)+
  then obtain t where t: "publish_rest env x s = Some (True, k, t)" "publish_next env k t s1"
    using rest_publish_next [OF assms(1) own nb cut(3,2)] by blast
  have k: "k = length x" using publish_rest_count [OF assms(1) own nb cut(3) t(1)] cut(4) by simp
  have within: "ri_remain_buf_pos (ri s) + int k < rem_len s" using string_room_within [OF assms(2) cut(1-4)] k by simp
  then have "s1 = advance k t" and "same_place s t"
    using t(2) publish_rest_keeps [OF assms(1) own nb cut(3) t(1)] by (auto simp: publish_next_def same_place_def)
  then show ?thesis
    using rest k within cut(1) by (auto simp: rx_buffer_is_packet_finished_def same_place_def advance_at_pos)
qed

lemma loop_receiving:
  "rx_buffer_decode_loop n env x c s = Some (True, c + length x, s') \<Longrightarrow> plain_receiver env \<Longrightarrow> receiving s \<Longrightarrow> receiving s'"
proof (induction n arbitrary: x c s)
  case 0
  then show ?case by simp
next
  case (Suc n)
  show ?case
  proof (cases "x = []")
    case True
    then show ?thesis using Suc.prems by simp
  next
    case False
    from loop_stepE [OF Suc.prems(1) False Suc.prems(2,3)]
    obtain m nx k s1 s2 where step: "Suc n = Suc m" "k \<le> length x" "receiving s2"
        "rx_buffer_decode_loop m env (drop k x) (c + k) s2 = Some (True, c + length x, s')"
      by metis
    then show ?thesis using Suc.IH [of "drop k x" "c + k" s2] Suc.prems(2) by simp
  qed
qed

lemma loop_join:
  "rx_buffer_decode_loop n env x c s = Some (True, c + length x, s') \<Longrightarrow>
   rx_buffer_decode_loop m env y (c + length x) s' = Some (True, c + length x + length y, s'') \<Longrightarrow>
   plain_receiver env \<Longrightarrow> receiving s \<Longrightarrow>
   rx_buffer_decode_loop (n + m) env (x @ y) c s = Some (True, c + length x + length y, s'')"
proof (induction n arbitrary: x c s)
  case 0
  then show ?case by simp
next
  case (Suc n)
  note plain = Suc.prems(3)
  show ?case
  proof (cases "x = []")
    case True
    then show ?thesis
      using Suc.prems(1,2) staysD [OF decode_loop_stays [of m "Suc n + m" env y c s]] by simp
  next
    case False
    from loop_stepE [OF Suc.prems(1) False plain Suc.prems(4)]
    obtain nx k s1 s2 where round: "rx_round env x s = Some (nx, k, s1)" "nx = RX_CHECK \<or> nx = RX_CONTINUE"
      and k: "k \<le> length x" and s2: "receiving s2"
        "if nx = RX_CHECK \<and> rx_buffer_is_packet_finished s1 then rx_buffer_finish_packet n env s1 = Some (True, s2) else s2 = s1"
      and rest: "rx_buffer_decode_loop n env (drop k x) (c + k) s2 = Some (True, c + length x, s')"
      by (metis nat.inject)
    have wait: "rx_buffer_finish_packet j env t = Some r \<Longrightarrow> j \<le> n + m \<Longrightarrow> rx_buffer_finish_packet (n + m) env t = Some r" for j t r
      using staysD [OF finish_packet_stays [of j "n + m" env t]] by blast
    show ?thesis
    proof (cases "string_cut x s \<and> y \<noteq> []")
      case no: False
      have same: "rx_round env (x @ y) s = Some (nx, k, s1)"
        using no round_more [OF False, of s env y] round(1) by (cases "y = []") auto
      have "rx_buffer_decode_loop (n + m) env (drop k x @ y) (c + k) s2 = Some (True, c + length x + length y, s'')"
        using Suc.IH [of "drop k x" "c + k" s2] rest k s2(1) Suc.prems(2) plain by simp
      then have "rx_buffer_decode_loop (Suc (n + m)) env (x @ y) c s = Some (True, c + length x + length y, s'')"
        using loop_stepI [of "x @ y" env s nx k s1 "n + m" s2] False same round(2) s2(2) k wait [of n s1]
        by (auto split: if_splits)
      then show ?thesis by simp
    next
      case cut: True
      note all = cut_round_takes_all [OF plain Suc.prems(4) _ False round]
      have s': "s' = s1" using all cut s2(2) rest by (cases n) auto
      have rx1: "receiving s1" using all cut s2 by auto
      have y: "y \<noteq> []" using cut by simp
      obtain j nx2 k2 t1 t2 where m: "m = Suc j" and r2: "rx_round env y s1 = Some (nx2, k2, t1)" "nx2 = RX_CHECK \<or> nx2 = RX_CONTINUE"
        and t2: "if nx2 = RX_CHECK \<and> rx_buffer_is_packet_finished t1 then rx_buffer_finish_packet j env t1 = Some (True, t2) else t2 = t1"
          "rx_buffer_decode_loop j env (drop k2 y) (c + length x + k2) t2 = Some (True, c + length x + length y, s'')"
        using loop_stepE [OF Suc.prems(2) y plain] rx1 s' by metis
      have nx2: "nx2 = RX_CHECK" "rx_buffer_rest_bytes env y s1 = Some (RX_CHECK, k2, t1)"
        using r2 all cut rest_bytes_next by (fastforce simp: rx_round_def)+
      have "rx_buffer_rest_bytes env (x @ y) s = Some (RX_CHECK, length x + k2, t1)"
        using rest_publish_split [OF plain Suc.prems(4), of x y "length x + k2" t1] cut all nx2 False
        by (auto simp: string_cut_def)
      then have same: "rx_round env (x @ y) s = Some (RX_CHECK, length x + k2, t1)"
        using cut by (simp add: rx_round_def string_cut_def)
      have "rx_buffer_decode_loop (n + m) env (drop k2 y) (c + length x + k2) t2 = Some (True, c + length x + length y, s'')"
        using staysD [OF decode_loop_stays [of j "n + m" env] t2(2)] m by simp
      then have "rx_buffer_decode_loop (Suc (n + m)) env (x @ y) c s = Some (True, c + length x + length y, s'')"
        using loop_stepI [of "x @ y" env s RX_CHECK "length x + k2" t1 "n + m" t2] False same nx2(1) t2(1) m wait [of j t1]
        by (auto simp: add.assoc split: if_splits)
      then show ?thesis by simp
    qed
  qed
qed

lemma loop_cut:
  "rx_buffer_decode_loop n env (x @ y) c s = Some (True, c + length x + length y, s'') \<Longrightarrow>
   plain_receiver env \<Longrightarrow> receiving s \<Longrightarrow>
   \<exists>s'. rx_buffer_decode_loop n env x c s = Some (True, c + length x, s') \<and>
     rx_buffer_decode_loop n env y (c + length x) s' = Some (True, c + length x + length y, s'')"
proof (induction n arbitrary: x c s)
  case 0
  then show ?case by simp
next
  case (Suc n)
  note plain = Suc.prems(2)
  show ?case
  proof (cases "x = []")
    case True
    then show ?thesis using Suc.prems(1) by simp
  next
    case False
    then have "x @ y \<noteq> []" and len: "c + length x + length y = c + length (x @ y)" by simp_all
    with loop_stepE [OF Suc.prems(1) [unfolded len] _ plain Suc.prems(3)]
    obtain nx k s1 s2 where round: "rx_round env (x @ y) s = Some (nx, k, s1)" "nx = RX_CHECK \<or> nx = RX_CONTINUE"
      and s2: "receiving s2"
        "if nx = RX_CHECK \<and> rx_buffer_is_packet_finished s1 then rx_buffer_finish_packet n env s1 = Some (True, s2) else s2 = s1"
      and rest: "rx_buffer_decode_loop n env (drop k (x @ y)) (c + k) s2 = Some (True, c + length x + length y, s'')"
      unfolding len by (metis nat.inject)
    have n: "n \<noteq> 0" using rest by (cases n) auto
    show ?thesis
    proof (cases "string_cut x s \<and> y \<noteq> []")
      case no: False
      have same: "rx_round env x s = Some (nx, k, s1)"
        using no round_more [OF False, of s env y] round(1) by (cases "y = []") auto
      have k: "k \<le> length x" using round_keeps [OF plain Suc.prems(3) False same round(2)] by simp
      obtain s' where s': "rx_buffer_decode_loop n env (drop k x) (c + k) s2 = Some (True, c + length x, s')"
          "rx_buffer_decode_loop n env y (c + length x) s' = Some (True, c + length x + length y, s'')"
        using Suc.IH [of "drop k x" "c + k" s2] rest k s2(1) plain by auto
      show ?thesis
        using loop_stepI [OF False same round(2) s2(2) s'(1)]
          staysD [OF decode_loop_stays [of n "Suc n" env] s'(2)] by auto
    next
      case cut: True
      have nx: "nx = RX_CHECK" "rx_buffer_rest_bytes env (x @ y) s = Some (RX_CHECK, k, s1)"
        using round cut rest_bytes_next by (fastforce simp: rx_round_def string_cut_def)+
      obtain t k' where t: "rx_buffer_rest_bytes env x s = Some (RX_CHECK, length x, t)"
          "rx_buffer_rest_bytes env y t = Some (RX_CHECK, k', s1)" "k = length x + k'"
        using rest_publish_split [OF plain Suc.prems(3), of x y k s1] cut nx(2) False by (auto simp: string_cut_def)
      have rx: "rx_round env x s = Some (RX_CHECK, length x, t)"
        using t(1) cut by (simp add: rx_round_def string_cut_def)
      note all = cut_round_takes_all [OF plain Suc.prems(3) _ False rx]
      have "rx_buffer_decode_loop (Suc n) env x c s = Some (True, c + length x, t)"
        using loop_stepI [OF False rx, of n t c] all cut n by (cases n) auto
      moreover have "rx_round env y t = Some (RX_CHECK, k', s1)"
        using t(2) all cut by (simp add: rx_round_def)
      then have "rx_buffer_decode_loop (Suc n) env y (c + length x) t = Some (True, c + length x + length y, s'')"
        using loop_stepI [of y env t RX_CHECK k' s1 n s2 "c + length x"] cut s2(2) nx(1) rest t(3) by (simp add: add.assoc)
      ultimately show ?thesis by blast
    qed
  qed
qed

lemma loop_shift:
  "rx_buffer_decode_loop n env x (c + d) s = map_option (\<lambda>(ok, k, t). (ok, k + d, t)) (rx_buffer_decode_loop n env x c s)"
proof (induction n arbitrary: x c s)
  case 0
  then show ?case by simp
next
  case (Suc n)
  have c: "c + d + k = c + k + d" for k by simp
  have "rx_proceed n env x (c + d) q = map_option (\<lambda>(ok, k, t). (ok, k + d, t)) (rx_proceed n env x c q)" for q
  proof (cases q)
    case (fields nx k s1)
    then show ?thesis
      by (cases "rx_buffer_finish_packet n env s1") (auto simp: rx_proceed_def c Suc.IH)
  qed
  then show ?case
    by (cases "x = []"; cases "rx_round env x s") (simp_all add: loop_round)
qed

section \<open>Input in pieces\<close>

lemma decode_all_iff:
  assumes "plain_receiver env" and "receiving s"
  shows "lmqtt_rx_buffer_decode n env x s = Some (IO_SUCCESS, length x, s') \<longleftrightarrow>
    rx_buffer_decode_loop n env x c s = Some (True, c + length x, s')"
proof -
  have shift: "rx_buffer_decode_loop n env x c s = Some (True, c + length x, s') \<longleftrightarrow>
      rx_buffer_decode_loop n env x 0 s = Some (True, length x, s')"
    using loop_shift [of n env x 0 c s] by (auto simp: add.commute)
  have same: "upd_ri (\<lambda>i. i\<lparr>ri_blocking_str := None\<rparr>) t = t"
    if "rx_buffer_decode_loop n env x 0 s = Some (True, length x, t)" for t
    using loop_receiving [of n env x 0 s t] that assms by (intro upd_ri_same) (simp add: receiving_def)
  have ok: "ri_error (ri s) = NO_ERROR" using assms(2) by (simp add: receiving_def)
  show ?thesis
  proof (cases "rx_buffer_decode_loop n env x 0 s")
    case None
    then show ?thesis unfolding shift by (simp add: lmqtt_rx_buffer_decode_def ok)
  next
    case (Some q)
    obtain b k t where q: "q = (b, k, t)" by (cases q) auto
    show ?thesis
      unfolding shift using Some q same [of t]
      by (cases "b \<and> k = length x") (auto simp: lmqtt_rx_buffer_decode_def ok)
  qed
qed

text \<open>Every piece has to be taken whole.\<close>

primrec decode_pieces :: "nat \<Rightarrow> 'w env \<Rightarrow> byte list list \<Rightarrow> 'w sys \<Rightarrow> 'w sys option" where
  "decode_pieces n env [] s = Some s"
| "decode_pieces n env (x # xs) s =
     do {
       (r, k, s1) \<leftarrow> lmqtt_rx_buffer_decode n env x s;
       if r = IO_SUCCESS \<and> k = length x then decode_pieces n env xs s1 else None
     }"

lemma decode_pieces_stays: "n \<le> m \<Longrightarrow> stays (decode_pieces n env xs s) (decode_pieces m env xs s)"
  by (induction xs arbitrary: s) (auto intro!: stays_intros rx_decode_stays)

lemma decode_pieces_iff:
  assumes "plain_receiver env"
  shows "receiving s \<Longrightarrow> (\<exists>n. decode_pieces n env xs s = Some s') \<longleftrightarrow>
    (\<exists>n. rx_buffer_decode_loop n env (concat xs) c s = Some (True, c + length (concat xs), s'))"
proof (induction xs arbitrary: s c)
  case Nil
  have "rx_buffer_decode_loop n env [] c s = Some (True, c, s') \<longleftrightarrow> n \<noteq> 0 \<and> s = s'" for n by (cases n) auto
  then show ?case by (auto intro: exI [of _ 1])
next
  case (Cons x xs)
  show ?case
  proof
    assume "\<exists>n. decode_pieces n env (x # xs) s = Some s'"
    then obtain n s1 where n: "rx_buffer_decode_loop n env x c s = Some (True, c + length x, s1)" "decode_pieces n env xs s1 = Some s'"
      using decode_all_iff [OF assms Cons.prems, where c = c] by (auto simp: bind_eq_Some_conv split: if_splits)
    then have "receiving s1" using loop_receiving assms Cons.prems by blast
    then obtain m where "rx_buffer_decode_loop m env (concat xs) (c + length x) s1 = Some (True, c + length x + length (concat xs), s')"
      using Cons.IH n(2) by blast
    from loop_join [OF n(1) this assms Cons.prems]
    show "\<exists>n. rx_buffer_decode_loop n env (concat (x # xs)) c s = Some (True, c + length (concat (x # xs)), s')"
      by (auto simp: add.assoc)
  next
    assume "\<exists>n. rx_buffer_decode_loop n env (concat (x # xs)) c s = Some (True, c + length (concat (x # xs)), s')"
    then obtain n where n: "rx_buffer_decode_loop n env (x @ concat xs) c s = Some (True, c + length x + length (concat xs), s')"
      by (auto simp: add.assoc)
    obtain s1 where s1: "rx_buffer_decode_loop n env x c s = Some (True, c + length x, s1)"
        "rx_buffer_decode_loop n env (concat xs) (c + length x) s1 = Some (True, c + length x + length (concat xs), s')"
      using loop_cut [OF n assms Cons.prems] by blast
    then have "receiving s1" using loop_receiving assms Cons.prems by blast
    then obtain m where m: "decode_pieces m env xs s1 = Some s'" using Cons.IH s1(2) by blast
    have "lmqtt_rx_buffer_decode (max n m) env x s = Some (IO_SUCCESS, length x, s1)"
      using decode_all_iff [OF assms Cons.prems, of n x s1 c] s1(1) staysD [OF rx_decode_stays [of n "max n m" env x s]] by simp
    moreover have "decode_pieces (max n m) env xs s1 = Some s'"
      using staysD [OF decode_pieces_stays m, of "max n m"] by simp
    ultimately show "\<exists>n. decode_pieces n env (x # xs) s = Some s'"
      by (intro exI [of _ "max n m"]) simp
  qed
qed

text \<open>
  C18. However the connection cuts its bytes into pieces, the receive buffer takes all of them
  without error and ends in a state exactly when it does so with the bytes in one piece: packets,
  strings and callbacks come out the same. The strings of incoming messages have buffers here,
  and the message callback does not look into the receive buffer.
\<close>

theorem decode_in_pieces:
  assumes "plain_receiver env" and "receiving s"
  shows "(\<exists>n. decode_pieces n env xs s = Some s') \<longleftrightarrow>
    (\<exists>n. lmqtt_rx_buffer_decode n env (concat xs) s = Some (IO_SUCCESS, length (concat xs), s'))"
  using decode_pieces_iff [OF assms, of xs s' 0] decode_all_iff [OF assms, of _ "concat xs" s' 0] by simp

text \<open>Callbacks that give every string a buffer of its own.\<close>

definition own_string :: "nat \<Rightarrow> lstring" where
  "own_string len = lstring_zero\<lparr>str_len := int len, str_buf := Some (replicate len 0)\<rparr>"

definition storing_env :: "packet_id list env" where
  "storing_env = example_env\<lparr>en_allocate := \<lambda>f d m len w. (ALLOCATE_SUCCESS,
     if f = 2 then m\<lparr>pb_topic := own_string len\<rparr> else m\<lparr>pb_payload := own_string len\<rparr>, w)\<rparr>"

lemma storing_env_plain [simp]: "plain_receiver storing_env"
  by (auto simp: plain_receiver_def storing_env_def example_env_def own_strings_def own_string_def lstring_zero_def
      at_pos_def upd_ri_def)

lemma receiving_example [simp]: "receiving (example_sys st hp)"
  using receiving_reset [of "example_sys st hp"]
  by (simp add: receiving_def lmqtt_rx_buffer_reset_def rx_buffer_is_packet_finished_def del: receiving_reset)

theorem decode_in_pieces_witness:
  "\<exists>n s'. decode_pieces n storing_env [[0x30, 6, 0], [2, 97], [98, 99], [], [100]] (example_sys (fresh_store 4) Map.empty) = Some s'"
proof -
  have "case lmqtt_rx_buffer_decode 10 storing_env [0x30, 6, 0, 2, 97, 98, 99, 100] (example_sys (fresh_store 4) Map.empty) of
      None \<Rightarrow> False | Some (r, k, s') \<Rightarrow> r = IO_SUCCESS \<and> k = 8"
    by code_simp
  then obtain s' where "lmqtt_rx_buffer_decode 10 storing_env [0x30, 6, 0, 2, 97, 98, 99, 100] (example_sys (fresh_store 4) Map.empty) =
      Some (IO_SUCCESS, 8, s')"
    by (auto split: option.splits)
  then have "\<exists>n. lmqtt_rx_buffer_decode n storing_env (concat [[0x30, 6, 0], [2, 97], [98, 99], [], [100]])
      (example_sys (fresh_store 4) Map.empty) = Some (IO_SUCCESS, length (concat [[0x30, 6, 0], [2, 97], [98, 99], [], [100 :: byte]]), s')"
    by (intro exI [of _ 10]) simp
  from decode_in_pieces [OF storing_env_plain receiving_example, THEN iffD2, OF this] show ?thesis by blast
qed

end
