(* ===== verification/Rx_Properties.thy ===== *)
theory Rx_Properties
  imports Example_Client
begin

text \<open>
  Properties of the receive buffer: the acknowledgements of outgoing messages, the handling of
  incoming QoS 2 messages, and the CONNACK. Packets are given as the bytes of the network.
\<close>

section \<open>The four bytes of an acknowledgement\<close>

fun ack_first_byte :: "decoder \<Rightarrow> byte" where
  "ack_first_byte DECODER_PUBACK = 0x40"
| "ack_first_byte DECODER_PUBREC = 0x50"
| "ack_first_byte DECODER_PUBREL = 0x62"
| "ack_first_byte DECODER_PUBCOMP = 0x70"
| "ack_first_byte DECODER_UNSUBACK = 0xB0"
| "ack_first_byte _ = 0"

definition is_ack :: "decoder \<Rightarrow> bool" where
  "is_ack d \<longleftrightarrow> ack_first_byte d \<noteq> 0"

definition ack_packet :: "decoder \<Rightarrow> packet_id \<Rightarrow> byte list" where
  "ack_packet d pid = [ack_first_byte d, 2] @ be16 (uint pid)"

definition ack_header1 :: "decoder \<Rightarrow> fixed_header" where
  "ack_header1 d = fixed_header_zero\<lparr>fh_type := uint (ack_first_byte d) div 16,
     fh_bytes_read := 1, fh_multiplier := 1\<rparr>"

definition ack_header :: "decoder \<Rightarrow> fixed_header" where
  "ack_header d = (ack_header1 d)\<lparr>fh_remaining_length := 2, fh_bytes_read := 2,
     fh_multiplier := 128, fh_accumulator := 2, fh_finished := True\<rparr>"

lemma ack_header_decode:
  "is_ack d \<Longrightarrow> fixed_header_decode fixed_header_zero (ack_first_byte d) = (ack_header1 d, DECODE_CONTINUE, NO_ERROR)"
  "is_ack d \<Longrightarrow> fixed_header_decode (ack_header1 d) 2 = (ack_header d, DECODE_FINISHED, NO_ERROR)"
  by (cases d; simp add: is_ack_def ack_header_def ack_header1_def fixed_header_decode_def
      fixed_header_zero_def fixed_header_first_byte_def fixed_header_length_byte_def
      header_bad_flags_def Let_def)+

lemma ack_header_fields:
  "fh_remaining_length (ack_header d) = 2" "fh_type (ack_header d) = uint (ack_first_byte d) div 16"
  by (simp_all add: ack_header_def ack_header1_def)

lemma ack_decoder:
  "is_ack d \<Longrightarrow> arr_get rx_buffer_decoders (nat (fh_type (ack_header d))) = Some (Some d)"
  "is_ack d \<Longrightarrow> 0 \<le> fh_type (ack_header d)"
  "is_ack d \<Longrightarrow> decoder_min_length d = 2" "is_ack d \<Longrightarrow> decoder_pop_packet_without_id d = POP_IGNORE"
  "is_ack d \<Longrightarrow> decoder_has_id d"
  by (cases d; simp add: is_ack_def ack_header_fields rx_buffer_decoders_def)+

text \<open>The receive state after the header, and after the first byte of the identifier.\<close>

definition ack_state :: "decoder \<Rightarrow> int \<Rightarrow> packet_id \<Rightarrow> rx_internal" where
  "ack_state d pos pid = rx_internal_zero\<lparr>ri_header := ack_header d, ri_header_finished := True,
     ri_decoder := Some d, ri_remain_buf_pos := pos, ri_packet_id := pid\<rparr>"

lemma ack_loop_header:
  assumes "is_ack d" and "ri s = rx_internal_zero"
  shows "rx_buffer_decode_loop (Suc (Suc n)) env (ack_first_byte d # 2 # bytes) 0 s =
    rx_buffer_decode_loop n env bytes 2 (upd_ri (\<lambda>_. ack_state d 0 0) s)"
proof -
  let ?s1 = "upd_ri (\<lambda>i. i\<lparr>ri_header := ack_header1 d\<rparr>) s"
  have 1: "rx_buffer_header_byte (ack_first_byte d) s = Some (RX_CONTINUE, 1, ?s1)"
    using assms(2) by (simp add: rx_buffer_header_byte_def ack_header_decode [OF assms(1)] rx_internal_zero_def)
  have "upd_ri (\<lambda>i. i\<lparr>ri_header_finished := True, ri_decoder := Some d\<rparr>)
      (upd_ri (\<lambda>i. i\<lparr>ri_header := ack_header d\<rparr>) ?s1) = upd_ri (\<lambda>_. ack_state d 0 0) s"
    by (simp, rule upd_ri_cong) (simp add: assms(2) ack_state_def rx_internal_zero_def)
  then have 2: "rx_buffer_header_byte 2 ?s1 = Some (RX_CHECK, 1, upd_ri (\<lambda>_. ack_state d 0 0) s)"
    using ack_decoder [OF assms(1)]
    by (simp add: rx_buffer_header_byte_def ack_header_decode [OF assms(1)] ack_header_fields
        rx_buffer_pop_def del: upd_ri_twice arr_iffs)
  have nf: "\<not> rx_buffer_is_packet_finished (upd_ri (\<lambda>_. ack_state d 0 0) s)"
    by (simp add: rx_buffer_is_packet_finished_def ack_state_def ack_header_fields)
  show ?thesis
    using 1 2 nf assms(2)
    by (simp add: rx_buffer_decode_loop.simps(2) rx_internal_zero_def numeral_2_eq_2)
qed

lemma ack_loop_id:
  assumes "is_ack d"
  shows "rx_buffer_decode_loop (Suc (Suc n)) env (be16 (uint pid) @ bytes) 2 (upd_ri (\<lambda>_. ack_state d 0 0) s) =
    do {
      (ok, s2) \<leftarrow> rx_buffer_pop (decoder_pop_packet_with_id d) d (upd_ri (\<lambda>_. ack_state d 1 pid) s);
      if \<not> ok then do { c_assert (ri_error (ri s2) \<noteq> NO_ERROR); Some (False, 3, s2) }
      else (let s3 = upd_ri (\<lambda>i. i\<lparr>ri_remain_buf_pos := ri_remain_buf_pos i + 1\<rparr>) s2
        in if rx_buffer_is_packet_finished s3
        then do {
          (ok', s4) \<leftarrow> rx_buffer_finish_packet n env s3;
          if ok' then rx_buffer_decode_loop n env bytes 4 s4 else Some (False, 4, s4)
        }
        else rx_buffer_decode_loop n env bytes 4 s3)
    }"
proof -
  let ?hi = "string_len_byte (uint pid) 1" and ?lo = "string_len_byte (uint pid) 0"
  let ?s1 = "upd_ri (\<lambda>_. ack_state d 1 (push_bit 8 (ucast ?hi))) s"
  have "rx_buffer_rest_bytes env (?hi # ?lo # bytes) (upd_ri (\<lambda>_. ack_state d 0 0) s) = Some (RX_CHECK, 1, ?s1)"
  proof -
    have "upd_ri (\<lambda>i. i\<lparr>ri_remain_buf_pos := ri_remain_buf_pos i + 1\<rparr>)
       (upd_ri (\<lambda>i. i\<lparr>ri_packet_id := ri_packet_id i OR push_bit 8 (ucast ?hi)\<rparr>)
         (upd_ri (\<lambda>_. ack_state d 0 0) s)) = ?s1"
      by (simp, rule upd_ri_cong) (simp add: ack_state_def)
    then show ?thesis
      using ack_decoder(5) [OF assms]
      by (simp add: rx_buffer_rest_bytes_def decoder_decode_remaining_def
          rx_buffer_decode_remaining_with_id_def ack_state_def del: upd_ri_twice)
  qed
  moreover have "\<not> rx_buffer_is_packet_finished ?s1"
    by (simp add: rx_buffer_is_packet_finished_def ack_state_def ack_header_fields)
  moreover have "upd_ri (\<lambda>i. i\<lparr>ri_packet_id := ri_packet_id i OR push_bit 0 (ucast ?lo)\<rparr>) ?s1 =
      upd_ri (\<lambda>_. ack_state d 1 pid) s"
    using be16_join [of pid] by (simp, intro upd_ri_cong) (simp add: ack_state_def)
  then have "rx_buffer_rest_bytes env (?lo # bytes) ?s1 =
    do {
      (ok, s2) \<leftarrow> rx_buffer_pop (decoder_pop_packet_with_id d) d (upd_ri (\<lambda>_. ack_state d 1 pid) s);
      if \<not> ok then do { c_assert (ri_error (ri s2) \<noteq> NO_ERROR); Some (RX_ERROR, 0, s2) }
      else Some (RX_CHECK, 1, upd_ri (\<lambda>i. i\<lparr>ri_remain_buf_pos := ri_remain_buf_pos i + 1\<rparr>) s2)
    }"
    using ack_decoder(5) [OF assms]
    by (simp add: rx_buffer_rest_bytes_def decoder_decode_remaining_def
          rx_buffer_decode_remaining_with_id_def ack_state_def del: upd_ri_twice split: Option.bind_splits)
  ultimately show ?thesis
    by (simp add: rx_buffer_decode_loop.simps(2) be16_def ack_state_def Let_def
        del: upd_ri_twice split: Option.bind_splits)
qed


lemma ack_decode:
  assumes "is_ack d" and "ri s = rx_internal_zero"
  shows "lmqtt_rx_buffer_decode (Suc (Suc (Suc (Suc (Suc n))))) env (ack_packet d pid) s =
    do {
      (ok, s2) \<leftarrow> rx_buffer_pop (decoder_pop_packet_with_id d) d (upd_ri (\<lambda>_. ack_state d 1 pid) s);
      if \<not> ok then do { c_assert (ri_error (ri s2) \<noteq> NO_ERROR); Some (IO_ERROR, 3, s2) }
      else (let s3 = upd_ri (\<lambda>i. i\<lparr>ri_remain_buf_pos := ri_remain_buf_pos i + 1\<rparr>) s2
        in if rx_buffer_is_packet_finished s3
        then do {
          (ok', s4) \<leftarrow> rx_buffer_finish_packet (Suc n) env s3;
          Some (if ok' then IO_SUCCESS else IO_ERROR, 4,
            if ok' then upd_ri (\<lambda>i. i\<lparr>ri_blocking_str := None\<rparr>) s4 else s4)
        }
        else Some (IO_SUCCESS, 4, upd_ri (\<lambda>i. i\<lparr>ri_blocking_str := None\<rparr>) s3))
    }"
proof -
  have base: "rx_buffer_decode_loop (Suc n) env [] c x = Some (True, c, x)" for c x by simp
  have pkt: "ack_packet d pid = ack_first_byte d # 2 # be16 (uint pid)"
    by (simp add: ack_packet_def)
  have ne: "ack_packet d pid \<noteq> []" and err: "ri_error (ri s) = NO_ERROR"
    using assms(2) by (simp_all add: ack_packet_def rx_internal_zero_def)
  show ?thesis
  proof (cases "rx_buffer_pop (decoder_pop_packet_with_id d) d (upd_ri (\<lambda>_. ack_state d 1 pid) s)")
    case None
    then show ?thesis
      unfolding lmqtt_rx_buffer_decode_def pkt ack_loop_header [OF assms] ack_loop_id [OF assms(1), where bytes = "[]", unfolded append_Nil2] base
      using err by simp
  next
    case (Some r)
    obtain ok s2 where r: "r = (ok, s2)" by (cases r)
    define s3 where "s3 = upd_ri (\<lambda>i. i\<lparr>ri_remain_buf_pos := ri_remain_buf_pos i + 1\<rparr>) s2"
    show ?thesis
      unfolding lmqtt_rx_buffer_decode_def pkt ack_loop_header [OF assms] ack_loop_id [OF assms(1), where bytes = "[]", unfolded append_Nil2] base
        Some r
      using err
      by (cases ok; cases "ri_error (ri s2) = NO_ERROR"; cases "rx_buffer_is_packet_finished s3";
          cases "rx_buffer_finish_packet (Suc n) env s3")
        (simp_all add: s3_def [symmetric] Let_def split: prod.split)
  qed
qed

section \<open>Responses\<close>

abbreviation rx_queue :: "'w sys \<Rightarrow> store" where
  "rx_queue s \<equiv> get_store (rx_store (cl_rx s)) s"

abbreviation set_rx_queue :: "store \<Rightarrow> 'w sys \<Rightarrow> 'w sys" where
  "set_rx_queue st s \<equiv> set_store (rx_store (cl_rx s)) st s"

lemma at_least_5: "5 \<le> n \<Longrightarrow> \<exists>m. n = Suc (Suc (Suc (Suc (Suc m))))"
  by presburger

lemma rx_pop_packet_found:
  assumes "store_inv (rx_queue s)" and "store_marked (rx_queue s) = ys @ e # zs"
    and "has_key (decoder_kind d) pid e" and "\<forall>y \<in> set ys. \<not> has_key (decoder_kind d) pid y"
  shows "\<exists>st'. rx_buffer_pop_packet d pid s =
      Some (True, upd_ri (\<lambda>i. i\<lparr>ri_value := se_value e\<rparr>) (set_rx_queue st' s)) \<and>
    store_inv st' \<and> store_marked st' = ys @ zs \<and>
    store_pending st' = store_pending (rx_queue s) \<and> st_capacity st' = st_capacity (rx_queue s)"
proof -
  have "List.extract (has_key (decoder_kind d) pid) (store_marked (rx_queue s)) = Some (ys, e, zs)"
    using assms(2-4) by (simp add: extract_Some_iff)
  from pq.pop_some [OF assms(1) this] show ?thesis
    by (auto simp: rx_buffer_pop_packet_def)
qed

lemma rx_pop_packet_missing:
  assumes "store_inv (rx_queue s)" and "\<forall>y \<in> set (store_marked (rx_queue s)). \<not> has_key (decoder_kind d) pid y"
  shows "rx_buffer_pop_packet d pid s =
    Some (False, rx_buffer_fail ERROR_DECODE_NO_CORRESPONDING_REQUEST 0
      (upd_ri (\<lambda>i. i\<lparr>ri_value := store_value_zero\<rparr>) s))"
  using pq.pop_other_unchanged [OF assms] by (simp add: rx_buffer_pop_packet_def)

text \<open>
  C14. A PUBREC for an outstanding QoS 2 message replaces the message by a PUBREL with the same
  identifier, object and callback, in one call and without a failed assertion: the append
  that \<open>rx_buffer_finish_packet\<close> asserts always finds room, whatever else is queued.
\<close>

theorem pubrec_becomes_pubrel:
  assumes "ri s = rx_internal_zero" and "store_inv (rx_queue s)"
    and "store_marked (rx_queue s) = ys @ e # zs" and "has_key KIND_PUBLISH_2 pid e"
    and "\<forall>y \<in> set ys. \<not> has_key KIND_PUBLISH_2 pid y" and "5 \<le> n"
  shows "\<exists>st'. lmqtt_rx_buffer_decode n env (ack_packet DECODER_PUBREC pid) s =
      Some (IO_SUCCESS, 4, set_rx_queue st' s) \<and>
    store_inv st' \<and> store_marked st' = ys @ zs \<and>
    store_pending st' = store_pending (rx_queue s) @ [\<lparr>se_kind = KIND_PUBREL, se_value = se_value e\<rparr>]"
proof -
  obtain m where n: "n = Suc (Suc (Suc (Suc (Suc m))))" using at_least_5 [OF assms(6)] by blast
  let ?s1 = "upd_ri (\<lambda>_. ack_state DECODER_PUBREC 1 pid) s"
  obtain st1 where st1: "rx_buffer_pop_packet DECODER_PUBREC pid ?s1 =
      Some (True, upd_ri (\<lambda>i. i\<lparr>ri_value := se_value e\<rparr>) (set_rx_queue st1 ?s1))"
    "store_inv st1" "store_marked st1 = ys @ zs" "store_pending st1 = store_pending (rx_queue s)"
    "st_capacity st1 = st_capacity (rx_queue s)"
    using rx_pop_packet_found [of ?s1 ys e zs DECODER_PUBREC pid] assms(2-5) by auto
  have room: "length (store_marked st1) + length (store_pending st1) < st_capacity st1"
    using pq.bounded [OF assms(2)] assms(3) st1(3-5) by simp
  obtain st2 where st2: "lmqtt_store_append st1 KIND_PUBREL (Some (se_value e)) = Some (True, st2)"
      "store_inv st2" "store_marked st2 = ys @ zs"
      "store_pending st2 = store_pending (rx_queue s) @ [\<lparr>se_kind = KIND_PUBREL, se_value = se_value e\<rparr>]"
    using pq.append_room [OF st1(2) room, of KIND_PUBREL "Some (se_value e)"] st1(3,4) by auto
  have ack: "is_ack DECODER_PUBREC" by (simp add: is_ack_def)
  let ?s3 = "upd_ri (\<lambda>_. (ack_state DECODER_PUBREC 2 pid)\<lparr>ri_value := se_value e\<rparr>) (set_rx_queue st1 s)"
  have fin: "rx_buffer_is_packet_finished ?s3" and q3: "rx_queue ?s3 = st1" and v3: "ri_value (ri ?s3) = se_value e"
    "ri_decoder (ri ?s3) = Some DECODER_PUBREC"
    by (simp_all add: rx_buffer_is_packet_finished_def ack_state_def ack_header_fields)
  have s3: "upd_ri (\<lambda>i. i\<lparr>ri_remain_buf_pos := ri_remain_buf_pos i + 1\<rparr>)
      (upd_ri (\<lambda>i. i\<lparr>ri_value := se_value e\<rparr>) (set_rx_queue st1 ?s1)) = ?s3"
    by (simp add: set_store_upd_ri, rule upd_ri_cong) (simp add: ack_state_def)
  have zero: "upd_ri (\<lambda>_. rx_internal_zero) (set_rx_queue st2 s) = set_rx_queue st2 s"
    using assms(1) by (intro upd_ri_same) simp
  have "rx_buffer_finish_packet (Suc m) env ?s3 = Some (True, set_rx_queue st2 s)"
    unfolding rx_buffer_finish_packet_def v3 q3
    using st2(1) zero by (simp add: lmqtt_rx_buffer_reset_def set_store_upd_ri comp_def)
  then have "lmqtt_rx_buffer_decode n env (ack_packet DECODER_PUBREC pid) s =
      Some (IO_SUCCESS, 4, upd_ri (\<lambda>i. i\<lparr>ri_blocking_str := None\<rparr>) (set_rx_queue st2 s))"
    unfolding n ack_decode [OF ack assms(1)]
    using st1(1) fin s3 by (simp add: rx_buffer_pop_def ack_state_def Let_def del: upd_ri_twice)
  moreover have "upd_ri (\<lambda>i. i\<lparr>ri_blocking_str := None\<rparr>) (set_rx_queue st2 s) = set_rx_queue st2 s"
    using assms(1) by (intro upd_ri_same) (simp add: rx_internal_zero_def)
  ultimately show ?thesis using st2 by auto
qed

theorem pubrec_becomes_pubrel_witness:
  "\<exists>st'. lmqtt_rx_buffer_decode 5 example_env (ack_packet DECODER_PUBREC 5)
      (example_sys (one_sent (example_request KIND_PUBLISH_2 ON_PUBLISH)) Map.empty) =
    Some (IO_SUCCESS, 4,
      set_store MAIN_STORE st' (example_sys (one_sent (example_request KIND_PUBLISH_2 ON_PUBLISH)) Map.empty)) \<and>
    store_marked st' = [] \<and> map se_kind (store_pending st') = [KIND_PUBREL]"
  using pubrec_becomes_pubrel [of "example_sys (one_sent (example_request KIND_PUBLISH_2 ON_PUBLISH)) Map.empty"
      "[]" "example_request KIND_PUBLISH_2 ON_PUBLISH" "[]" 5 5 example_env]
  by auto

text \<open>
  C27. An acknowledgement that no request of that kind and identifier waits for is an error; no
  store changes and no callback runs.
\<close>

theorem unexpected_response_rejected:
  assumes "ri s = rx_internal_zero" and "store_inv (rx_queue s)"
    and "is_ack d" and "d \<noteq> DECODER_PUBREL"
    and "\<forall>y \<in> set (store_marked (rx_queue s)). \<not> has_key (decoder_kind d) pid y" and "5 \<le> n"
  shows "\<exists>s'. lmqtt_rx_buffer_decode n env (ack_packet d pid) s = Some (IO_ERROR, 3, s') \<and>
    lmqtt_rx_buffer_get_error s' = (ERROR_DECODE_NO_CORRESPONDING_REQUEST, 0) \<and>
    get_store r s' = get_store r s \<and> sy_heap s' = sy_heap s \<and> sy_world s' = sy_world s"
proof -
  obtain m where n: "n = Suc (Suc (Suc (Suc (Suc m))))" using at_least_5 [OF assms(6)] by blast
  have pop: "decoder_pop_packet_with_id d = POP_WITH_ID"
    using assms(3,4) by (cases d) (simp_all add: is_ack_def)
  have "rx_buffer_pop_packet d pid (upd_ri (\<lambda>_. ack_state d 1 pid) s) =
      Some (False, rx_buffer_fail ERROR_DECODE_NO_CORRESPONDING_REQUEST 0
        (upd_ri (\<lambda>i. i\<lparr>ri_value := store_value_zero\<rparr>) (upd_ri (\<lambda>_. ack_state d 1 pid) s)))"
    by (rule rx_pop_packet_missing) (use assms(2,5) in simp_all)
  then show ?thesis
    unfolding n ack_decode [OF assms(3,1)] pop
    by (simp add: rx_buffer_pop_def ack_state_def rx_buffer_fail_def lmqtt_rx_buffer_get_error_def)
qed

theorem unexpected_response_rejected_witness:
  "\<exists>s'. lmqtt_rx_buffer_decode 5 example_env (ack_packet DECODER_PUBACK 6)
      (example_sys (one_sent (example_request KIND_PUBLISH_1 ON_PUBLISH)) Map.empty) = Some (IO_ERROR, 3, s') \<and>
    lmqtt_rx_buffer_get_error s' = (ERROR_DECODE_NO_CORRESPONDING_REQUEST, 0) \<and>
    get_store MAIN_STORE s' = one_sent (example_request KIND_PUBLISH_1 ON_PUBLISH)"
  using unexpected_response_rejected [of "example_sys (one_sent (example_request KIND_PUBLISH_1 ON_PUBLISH)) Map.empty"
      DECODER_PUBACK 6 5 example_env MAIN_STORE]
  by (auto simp: is_ack_def)

abbreviation pubcomp_entry :: "packet_id \<Rightarrow> store_entry" where
  "pubcomp_entry pid \<equiv> \<lparr>se_kind = KIND_PUBCOMP, se_value = store_value_zero\<lparr>sv_packet_id := pid\<rparr>\<rparr>"

lemma pubrel_pop:
  assumes inv: "store_inv (rx_queue s)" and ids: "id_set_roomy (rx_id_set (cl_rx s))"
    and room: "length (store_marked (rx_queue s)) + length (store_pending (rx_queue s)) < st_capacity (rx_queue s)"
  shows "\<exists>st' ids'. rx_buffer_pop POP_PUBREL DECODER_PUBREL (upd_ri (\<lambda>_. ack_state DECODER_PUBREL 1 pid) s) =
      Some (True, upd_ri (\<lambda>_. ack_state DECODER_PUBREL 1 pid) (set_rx_queue st' (s\<lparr>cl_rx := (cl_rx s)\<lparr>rx_id_set := ids'\<rparr>\<rparr>))) \<and>
    id_set_roomy ids' \<and> ids_members ids' = ids_members (rx_id_set (cl_rx s)) - {pid} \<and>
    store_inv st' \<and> st_capacity st' = st_capacity (rx_queue s) \<and> store_marked st' = store_marked (rx_queue s) \<and>
    store_pending st' = store_pending (rx_queue s) @ [pubcomp_entry pid]"
proof -
  obtain b ids' where ids': "lmqtt_id_set_remove (rx_id_set (cl_rx s)) pid = Some (b, ids')"
      "id_set_roomy ids'" "ids_members ids' = ids_members (rx_id_set (cl_rx s)) - {pid}"
    using ids.remove_total [OF ids] by blast
  obtain st' where st': "lmqtt_store_append (rx_queue s) KIND_PUBCOMP (Some (store_value_zero\<lparr>sv_packet_id := pid\<rparr>)) = Some (True, st')"
      "store_inv st'" "st_capacity st' = st_capacity (rx_queue s)" "store_marked st' = store_marked (rx_queue s)"
      "store_pending st' = store_pending (rx_queue s) @ [pubcomp_entry pid]"
    using pq.append_room [OF inv room, of KIND_PUBCOMP "Some (store_value_zero\<lparr>sv_packet_id := pid\<rparr>)"] by auto
  have q: "get_store r (upd_ri f s\<lparr>cl_rx := x\<rparr>) = get_store r s" for r f x
    by (simp add: get_store_def split: store_ref.split)
  have eq: "set_store r st' (upd_ri (\<lambda>_. z) s\<lparr>cl_rx := (cl_rx s)\<lparr>rx_internal := z, rx_id_set := ids'\<rparr>\<rparr>) =
      upd_ri (\<lambda>_. z) (set_store r st' (s\<lparr>cl_rx := (cl_rx s)\<lparr>rx_id_set := ids'\<rparr>\<rparr>))" for r z
    by (cases r) (simp_all add: set_store_def upd_ri_def)
  have "rx_buffer_pop POP_PUBREL DECODER_PUBREL (upd_ri (\<lambda>_. ack_state DECODER_PUBREL 1 pid) s) =
      Some (True, upd_ri (\<lambda>_. ack_state DECODER_PUBREL 1 pid) (set_rx_queue st' (s\<lparr>cl_rx := (cl_rx s)\<lparr>rx_id_set := ids'\<rparr>\<rparr>)))"
    using ids'(1) st'(1) by (simp add: rx_buffer_pop_def rx_buffer_pubrel_def q eq ack_state_def Let_def)
  then show ?thesis using ids' st' by blast
qed

lemma pubrel_finish:
  assumes "ri t = rx_internal_zero"
  shows "rx_buffer_finish_packet n env (upd_ri (\<lambda>_. ack_state DECODER_PUBREL 2 pid) t) = Some (True, t)"
proof -
  have "upd_ri (\<lambda>_. rx_internal_zero) (upd_ri (\<lambda>_. ack_state DECODER_PUBREL 2 pid) t) = t"
    by (simp add: comp_def, rule upd_ri_same) (simp add: assms)
  then show ?thesis
    by (simp add: rx_buffer_finish_packet_def rx_buffer_call_callback_def value_callback_def ack_state_def
        rx_internal_zero_def [THEN arg_cong [where f = ri_value]] store_value_zero_def
        lmqtt_rx_buffer_reset_def del: upd_ri_twice)
qed



text \<open>
  C25. A PUBACK (QoS 1) or PUBCOMP (QoS 2) for an outstanding request removes exactly that
  request, calls the publish callback of the user once with its object, and leaves the
  receive buffer ready for the next packet.
\<close>

theorem publish_response_completes:
  assumes "ri s = rx_internal_zero" and "store_inv (rx_queue s)"
    and "d = DECODER_PUBACK \<or> d = DECODER_PUBCOMP"
    and "store_marked (rx_queue s) = ys @ e # zs" and "has_key (decoder_kind d) pid e"
    and "\<forall>y \<in> set ys. \<not> has_key (decoder_kind d) pid y"
    and "sv_callback (se_value e) = Some ON_PUBLISH" and "sv_callback_data (se_value e) = DATA_CLIENT"
    and "cl_on_publish s = Some f"
    and callback: "\<And>st'. let s1 = upd_ri (\<lambda>_. (ack_state d 2 pid)\<lparr>ri_value := se_value e\<rparr>) (set_rx_queue st' s)
      in en_on_publish env f (cl_on_publish_data s) (sv_value (se_value e)) (\<not> cl_closed s) s1 = Some (True, after s1)"
    and "5 \<le> n"
  shows "\<exists>st'. lmqtt_rx_buffer_decode n env (ack_packet d pid) s =
      (let s1 = upd_ri (\<lambda>_. (ack_state d 2 pid)\<lparr>ri_value := se_value e\<rparr>) (set_rx_queue st' s)
       in Some (IO_SUCCESS, 4, lmqtt_rx_buffer_reset (after s1))) \<and>
    store_inv st' \<and> store_marked st' = ys @ zs \<and> store_pending st' = store_pending (rx_queue s)"
proof -
  obtain m where n: "n = Suc (Suc (Suc (Suc (Suc m))))" using at_least_5 [OF assms(11)] by blast
  have ack: "is_ack d" and pop: "decoder_pop_packet_with_id d = POP_WITH_ID"
    and kind: "decoder_kind d \<noteq> KIND_PUBLISH_2"
    using assms(3) by (auto simp: is_ack_def)
  let ?s1 = "upd_ri (\<lambda>_. ack_state d 1 pid) s"
  obtain st1 where st1: "rx_buffer_pop_packet d pid ?s1 =
      Some (True, upd_ri (\<lambda>i. i\<lparr>ri_value := se_value e\<rparr>) (set_rx_queue st1 ?s1))"
    "store_inv st1" "store_marked st1 = ys @ zs" "store_pending st1 = store_pending (rx_queue s)"
    using rx_pop_packet_found [of ?s1 ys e zs d pid] assms(2,4-6) by auto
  define s3 where "s3 = upd_ri (\<lambda>_. (ack_state d 2 pid)\<lparr>ri_value := se_value e\<rparr>) (set_rx_queue st1 s)"
  have s3: "upd_ri (\<lambda>i. i\<lparr>ri_remain_buf_pos := ri_remain_buf_pos i + 1\<rparr>)
      (upd_ri (\<lambda>i. i\<lparr>ri_value := se_value e\<rparr>) (set_rx_queue st1 ?s1)) = s3"
    unfolding s3_def by (simp add: set_store_upd_ri, rule upd_ri_cong) (simp add: ack_state_def)
  have fin: "rx_buffer_is_packet_finished s3" and f3: "ri_value (ri s3) = se_value e"
    "ri_decoder (ri s3) = Some d" "cl_on_publish s3 = Some f" "cl_on_publish_data s3 = cl_on_publish_data s"
    "cl_closed s3 = cl_closed s"
    using assms(9) by (simp_all add: s3_def rx_buffer_is_packet_finished_def ack_state_def ack_header_fields
        upd_ri_def set_store_def split: store_ref.split)
  have call: "en_on_publish env f (cl_on_publish_data s) (sv_value (se_value e)) (\<not> cl_closed s) s3 = Some (True, after s3)"
    using callback [of st1] by (simp add: s3_def Let_def)
  have "rx_buffer_finish_packet (Suc m) env s3 = Some (True, lmqtt_rx_buffer_reset (after s3))"
    using f3 kind call assms(7,8)
    by (simp add: rx_buffer_finish_packet_def rx_buffer_call_callback_def value_callback_def
        entry_callback_call_def client_on_publish_def)
  then have "lmqtt_rx_buffer_decode n env (ack_packet d pid) s =
      Some (IO_SUCCESS, 4, upd_ri (\<lambda>i. i\<lparr>ri_blocking_str := None\<rparr>) (lmqtt_rx_buffer_reset (after s3)))"
    unfolding n ack_decode [OF ack assms(1)] pop
    using st1(1) fin s3 by (simp add: rx_buffer_pop_def ack_state_def Let_def del: upd_ri_twice)
  moreover have "upd_ri (\<lambda>i. i\<lparr>ri_blocking_str := None\<rparr>) (lmqtt_rx_buffer_reset x) = lmqtt_rx_buffer_reset x" for x :: "'a sys"
    by (simp add: lmqtt_rx_buffer_reset_def, rule upd_ri_cong) (simp add: rx_internal_zero_def)
  ultimately show ?thesis using st1(2-4) by (auto simp: s3_def Let_def)
qed

theorem publish_response_completes_witness:
  "\<exists>st' s'. lmqtt_rx_buffer_decode 5 example_env (ack_packet DECODER_PUBACK 5)
      (example_sys (one_sent (example_request KIND_PUBLISH_1 ON_PUBLISH)) Map.empty) = Some (IO_SUCCESS, 4, s') \<and>
    store_marked st' = [] \<and> store_pending st' = []"
proof -
  let ?s = "example_sys (one_sent (example_request KIND_PUBLISH_1 ON_PUBLISH)) Map.empty"
  have "\<exists>st'. lmqtt_rx_buffer_decode 5 example_env (ack_packet DECODER_PUBACK 5) ?s =
      (let s1 = upd_ri (\<lambda>_. (ack_state DECODER_PUBACK 2 5)
             \<lparr>ri_value := se_value (example_request KIND_PUBLISH_1 ON_PUBLISH)\<rparr>) (set_rx_queue st' ?s)
       in Some (IO_SUCCESS, 4, lmqtt_rx_buffer_reset (id s1))) \<and>
    store_inv st' \<and> store_marked st' = [] @ [] \<and> store_pending st' = store_pending (rx_queue ?s)"
    by (rule publish_response_completes) (simp_all add: example_env_def)
  then show ?thesis by (auto simp: Let_def)
qed

section \<open>Incoming QoS 2 messages\<close>

text \<open>
  A QoS 2 message arrives completely, or a PUBREL does. The steps are the parts of the code
  that run then: the end of \<open>rx_buffer_decode_publish\<close>, and \<open>rx_buffer_pubrel\<close>.
\<close>

datatype qos2_event = QOS2_PUBLISH packet_id | QOS2_PUBREL packet_id

fun qos2_step :: "'w env \<Rightarrow> qos2_event \<Rightarrow> 'w sys \<Rightarrow> 'w sys option" where
  "qos2_step env (QOS2_PUBLISH pid) s =
     do {
       (res, s') \<leftarrow> rx_buffer_publish_finish env QOS_2 (upd_ri (\<lambda>i. i\<lparr>ri_packet_id := pid\<rparr>) s);
       if res = DECODE_FINISHED then Some s' else None
     }"
| "qos2_step env (QOS2_PUBREL pid) s =
     do {
       (ok, s') \<leftarrow> rx_buffer_pubrel (upd_ri (\<lambda>i. i\<lparr>ri_packet_id := pid\<rparr>) s);
       if ok then Some s' else None
     }"

fun qos2_run :: "'w env \<Rightarrow> qos2_event list \<Rightarrow> 'w sys \<Rightarrow> 'w sys option" where
  "qos2_run env [] s = Some s"
| "qos2_run env (ev # evs) s = do { s' \<leftarrow> qos2_step env ev s; qos2_run env evs s' }"

text \<open>
  The specification: which identifiers are known after an event, which messages are
  delivered, and the acknowledgement each event is answered with.
\<close>

fun qos2_members :: "qos2_event \<Rightarrow> packet_id set \<Rightarrow> packet_id set" where
  "qos2_members (QOS2_PUBLISH pid) known = insert pid known"
| "qos2_members (QOS2_PUBREL pid) known = known - {pid}"

fun qos2_deliveries :: "qos2_event list \<Rightarrow> packet_id set \<Rightarrow> packet_id list" where
  "qos2_deliveries [] known = []"
| "qos2_deliveries (QOS2_PUBLISH pid # evs) known =
     (if pid \<in> known then [] else [pid]) @ qos2_deliveries evs (insert pid known)"
| "qos2_deliveries (QOS2_PUBREL pid # evs) known = qos2_deliveries evs (known - {pid})"

fun qos2_answer :: "qos2_event \<Rightarrow> store_entry" where
  "qos2_answer (QOS2_PUBLISH pid) = \<lparr>se_kind = KIND_PUBREC, se_value = store_value_zero\<lparr>sv_packet_id := pid\<rparr>\<rparr>"
| "qos2_answer (QOS2_PUBREL pid) = \<lparr>se_kind = KIND_PUBCOMP, se_value = store_value_zero\<lparr>sv_packet_id := pid\<rparr>\<rparr>"

lemma qos2_deliveries_once:
  "QOS2_PUBREL pid \<notin> set evs \<Longrightarrow> count_list (qos2_deliveries evs known) pid \<le> (if pid \<in> known then 0 else 1)"
proof (induction evs known rule: qos2_deliveries.induct)
  case (2 p evs known)
  then show ?case by (cases "p = pid"; cases "p \<in> known") auto
next
  case (3 p evs known)
  then show ?case by (cases "pid \<in> known") auto
qed simp

text \<open>
  The outside world of these properties is the list of the identifiers whose message was
  handed to the user: a message callback that appends to it and accepts the message.
\<close>

definition logs_messages :: "packet_id list env \<Rightarrow> packet_id list sys \<Rightarrow> bool" where
  "logs_messages env s \<longleftrightarrow> (\<exists>f. mc_on_publish (cl_message_callbacks s) = Some f \<and>
     (\<forall>t. en_message env f (mc_on_publish_data (cl_message_callbacks s)) t =
       Some (True, t\<lparr>sy_world := sy_world t @ [ri_packet_id (ri t)]\<rparr>))) \<and>
     mc_on_publish_deallocate (cl_message_callbacks s) = None \<and> \<not> ri_ignore_publish (ri s)"

definition qos2_room :: "nat \<Rightarrow> 'w sys \<Rightarrow> bool" where
  "qos2_room k s \<longleftrightarrow> store_inv (rx_queue s) \<and> st_count (rx_queue s) + k \<le> st_capacity (rx_queue s) \<and>
     id_set_roomy (rx_id_set (cl_rx s)) \<and>
     ids_count (rx_id_set (cl_rx s)) + k \<le> ids_capacity (rx_id_set (cl_rx s))"

lemma qos2_step_publish:
  assumes "logs_messages env s" and "qos2_room (Suc k) s"
  shows "\<exists>s'. qos2_step env ev s = Some s' \<and> logs_messages env s' \<and> qos2_room k s' \<and>
    ids_members (rx_id_set (cl_rx s')) = qos2_members ev (ids_members (rx_id_set (cl_rx s))) \<and>
    sy_world s' = sy_world s @ qos2_deliveries [ev] (ids_members (rx_id_set (cl_rx s))) \<and>
    store_marked (rx_queue s') = store_marked (rx_queue s) \<and>
    store_pending (rx_queue s') = store_pending (rx_queue s) @ [qos2_answer ev]"
proof -
  let ?r = "rx_store (cl_rx s)" and ?ids = "rx_id_set (cl_rx s)" and ?mc = "cl_message_callbacks s"
  obtain f where f: "mc_on_publish ?mc = Some f"
      "\<And>t. en_message env f (mc_on_publish_data ?mc) t = Some (True, t\<lparr>sy_world := sy_world t @ [ri_packet_id (ri t)]\<rparr>)"
    and mc: "mc_on_publish_deallocate ?mc = None" "\<not> ri_ignore_publish (ri s)"
    using assms(1) by (auto simp: logs_messages_def)
  have st: "store_inv (rx_queue s)" "st_count (rx_queue s) < st_capacity (rx_queue s)"
    and ids: "id_set_roomy ?ids" "ids_count ?ids < ids_capacity ?ids"
    using assms(2) by (simp_all add: qos2_room_def)
  have mem: "lmqtt_id_set_contains ?ids pid = Some (pid \<in> ids_members ?ids)" for pid
    by (rule ids.contains_law [OF ids(1)])
  show ?thesis
  proof (cases ev)
    case (QOS2_PUBLISH pid)
    obtain st' where st': "lmqtt_store_append (rx_queue s) KIND_PUBREC
          (Some (store_value_zero\<lparr>sv_packet_id := pid\<rparr>)) = Some (True, st')"
        "store_inv st'" "st_count st' = Suc (st_count (rx_queue s))" "st_capacity st' = st_capacity (rx_queue s)"
        "store_marked st' = store_marked (rx_queue s)"
        "store_pending st' = store_pending (rx_queue s) @ [qos2_answer ev]"
      using store_append_room [OF st] QOS2_PUBLISH by force
    show ?thesis
    proof (cases "pid \<in> ids_members ?ids")
      case True
      then show ?thesis
        using st' mem assms mc f
        by (simp add: QOS2_PUBLISH rx_buffer_publish_finish_def rx_buffer_deallocate_publish_def
            logs_messages_def qos2_room_def insert_absorb)
    next
      case False
      obtain ids' where ids': "lmqtt_id_set_put ?ids pid = Some (True, ids')" "id_set_roomy ids'"
          "ids_members ids' = insert pid (ids_members ?ids)" "ids_capacity ids' = ids_capacity ?ids"
          "ids_count ids' = Suc (ids_count ?ids)"
        using id_set_put_roomy [OF ids False] by blast
      show ?thesis
        using False st' ids' mem assms mc f
        by (simp add: QOS2_PUBLISH rx_buffer_publish_finish_def rx_buffer_publish_deliver_def
            rx_buffer_deallocate_publish_def logs_messages_def qos2_room_def Let_def)
    qed
  next
    case (QOS2_PUBREL pid)
    obtain st' where st': "lmqtt_store_append (rx_queue s) KIND_PUBCOMP
          (Some (store_value_zero\<lparr>sv_packet_id := pid\<rparr>)) = Some (True, st')"
        "store_inv st'" "st_count st' = Suc (st_count (rx_queue s))" "st_capacity st' = st_capacity (rx_queue s)"
        "store_marked st' = store_marked (rx_queue s)"
        "store_pending st' = store_pending (rx_queue s) @ [qos2_answer ev]"
      using store_append_room [OF st] QOS2_PUBREL by force
    obtain b ids' where ids': "lmqtt_id_set_remove ?ids pid = Some (b, ids')" "id_set_roomy ids'"
        "ids_members ids' = ids_members ?ids - {pid}" "ids_capacity ids' = ids_capacity ?ids"
        "ids_count ids' \<le> ids_count ?ids"
      using id_set_remove_roomy_count [OF ids(1)] by blast
    show ?thesis
      using st' ids' assms mc f
      by (simp add: QOS2_PUBREL rx_buffer_pubrel_def logs_messages_def qos2_room_def Let_def)
  qed
qed



section \<open>CONNACK\<close>

definition connack_header :: "byte \<Rightarrow> fixed_header" where
  "connack_header lb = fixed_header_zero\<lparr>fh_type := 2, fh_bytes_read := 2, fh_multiplier := 128,
     fh_accumulator := uint lb, fh_remaining_length := uint lb, fh_finished := True\<rparr>"

definition connack_header1 :: fixed_header where
  "connack_header1 = fixed_header_zero\<lparr>fh_type := 2, fh_bytes_read := 1, fh_multiplier := 1\<rparr>"

lemma connack_header_decode:
  "fixed_header_decode fixed_header_zero 0x20 = (connack_header1, DECODE_CONTINUE, NO_ERROR)"
  "uint lb < 128 \<Longrightarrow> fixed_header_decode connack_header1 lb = (connack_header lb, DECODE_FINISHED, NO_ERROR)"
proof -
  show "fixed_header_decode fixed_header_zero 0x20 = (connack_header1, DECODE_CONTINUE, NO_ERROR)"
    by (simp add: connack_header1_def fixed_header_decode_def
      fixed_header_zero_def fixed_header_first_byte_def header_bad_flags_def Let_def)
  assume lb: "uint lb < 128"
  have "lb AND 128 = 0" and "uint (lb AND 127) = uint lb"
    using lb byte_bounds(1) [of lb] by (simp_all only: byte_and_128 byte_and_127) simp_all
  then show "fixed_header_decode connack_header1 lb = (connack_header lb, DECODE_FINISHED, NO_ERROR)"
    by (simp add: connack_header_def connack_header1_def fixed_header_decode_def fixed_header_zero_def
        fixed_header_length_byte_def Let_def)
qed

definition connack_state :: "byte \<Rightarrow> int \<Rightarrow> store_value \<Rightarrow> rx_internal" where
  "connack_state lb pos v = rx_internal_zero\<lparr>ri_header := connack_header lb, ri_header_finished := True,
     ri_decoder := Some DECODER_CONNACK, ri_remain_buf_pos := pos, ri_value := v\<rparr>"

definition connack_awaited :: "'w sys \<Rightarrow> store_entry list \<Rightarrow> store_entry \<Rightarrow> store_entry list \<Rightarrow> addr \<Rightarrow> connect \<Rightarrow> bool" where
  "connack_awaited s ys e zs a c \<longleftrightarrow> ri s = rx_internal_zero \<and> store_inv (rx_queue s) \<and>
     store_marked (rx_queue s) = ys @ e # zs \<and> has_key KIND_CONNECT 0 e \<and>
     (\<forall>y \<in> set ys. \<not> has_key KIND_CONNECT 0 y) \<and>
     sv_value (se_value e) = Some a \<and> sy_heap s a = Some (OConnect c)"

lemma connack_loop:
  assumes aw: "connack_awaited s ys e zs a c" and lb: "2 \<le> uint lb" "uint lb < 128" and f: "f AND NOT 1 = 0"
  shows "\<exists>st'. store_inv st' \<and> store_marked st' = ys @ zs \<and> store_pending st' = store_pending (rx_queue s) \<and>
    (\<forall>n env bytes. rx_buffer_decode_loop (Suc (Suc (Suc n))) env (0x20 # lb # f # bytes) 0 s =
      rx_buffer_decode_loop n env bytes 3 (upd_ri (\<lambda>_. connack_state lb 1 (se_value e))
        ((set_rx_queue st' s)\<lparr>sy_heap := (sy_heap s)(a \<mapsto> OConnect (c\<lparr>cn_session_present := f\<rparr>))\<rparr>)))"
proof -
  have z: "ri s = rx_internal_zero" using aw by (simp add: connack_awaited_def)
  let ?s1 = "upd_ri (\<lambda>i. i\<lparr>ri_header := connack_header1\<rparr>) s"
  have 1: "rx_buffer_header_byte 0x20 s = Some (RX_CONTINUE, 1, ?s1)"
    using z by (simp add: rx_buffer_header_byte_def connack_header_decode rx_internal_zero_def)
  have up: "upd_ri (\<lambda>i. i\<lparr>ri_header_finished := True, ri_decoder := Some DECODER_CONNACK\<rparr>)
      (upd_ri (\<lambda>i. i\<lparr>ri_header := connack_header lb\<rparr>) ?s1) =
      upd_ri (\<lambda>_. connack_state lb 0 store_value_zero) s"
    by (simp, rule upd_ri_cong) (simp add: z connack_state_def rx_internal_zero_def)
  let ?s2 = "upd_ri (\<lambda>_. connack_state lb 0 store_value_zero) s"
  obtain st' where st': "rx_buffer_pop_packet DECODER_CONNACK 0 ?s2 =
      Some (True, upd_ri (\<lambda>i. i\<lparr>ri_value := se_value e\<rparr>) (set_rx_queue st' ?s2))"
    "store_inv st'" "store_marked st' = ys @ zs" "store_pending st' = store_pending (rx_queue s)"
    using rx_pop_packet_found [of ?s2 ys e zs DECODER_CONNACK 0] aw by (auto simp: connack_awaited_def)
  let ?s3 = "upd_ri (\<lambda>_. connack_state lb 0 (se_value e)) (set_rx_queue st' s)"
  have s3: "upd_ri (\<lambda>i. i\<lparr>ri_value := se_value e\<rparr>) (set_rx_queue st' ?s2) = ?s3"
    by (simp add: set_store_upd_ri, rule upd_ri_cong) (simp add: connack_state_def)
  have dec: "arr_get rx_buffer_decoders (nat (fh_type (connack_header lb))) = Some (Some DECODER_CONNACK)"
    "fh_remaining_length (connack_header lb) = uint lb" "fh_type (connack_header lb) = 2"
    by (simp_all add: connack_header_def rx_buffer_decoders_def)
  have 2: "rx_buffer_header_byte lb ?s1 = Some (RX_CHECK, 1, ?s3)"
    using lb dec st'(1) up s3
    by (simp add: rx_buffer_header_byte_def connack_header_decode rx_buffer_pop_def Let_def
        del: upd_ri_twice arr_iffs)
  have nf: "\<not> rx_buffer_is_packet_finished ?s3"
    using lb dec by (simp add: rx_buffer_is_packet_finished_def connack_state_def)
  let ?s4 = "upd_ri (\<lambda>_. connack_state lb 1 (se_value e))
        ((set_rx_queue st' s)\<lparr>sy_heap := (sy_heap s)(a \<mapsto> OConnect (c\<lparr>cn_session_present := f\<rparr>))\<rparr>)"
  have get: "get_connect (sy_heap s) (sv_value (se_value e)) = Some (a, c)"
    using aw by (simp add: connack_awaited_def)
  have s4: "upd_ri (\<lambda>i. i\<lparr>ri_remain_buf_pos := ri_remain_buf_pos i + 1\<rparr>)
      (?s3\<lparr>sy_heap := (sy_heap s)(a \<mapsto> OConnect (c\<lparr>cn_session_present := f\<rparr>))\<rparr>) = ?s4"
    by (simp add: upd_ri_def connack_state_def)
  have 3: "rx_buffer_rest_bytes env (f # bytes) ?s3 = Some (RX_CHECK, 1, ?s4)" for env bytes
    using lb dec(2) f get s4
    by (simp add: rx_buffer_rest_bytes_def decoder_decode_remaining_def rx_buffer_decode_remaining_without_id_def
        rx_buffer_decode_type_def rx_buffer_decode_connack_def connack_state_def Let_def
        del: upd_ri_twice get_iffs)
  have nf4: "\<not> rx_buffer_is_packet_finished ?s4"
    using lb dec by (simp add: rx_buffer_is_packet_finished_def connack_state_def)
  have hf: "ri_header_finished (ri ?s3)" "\<not> ri_header_finished (ri s)" "\<not> ri_header_finished (ri ?s1)"
    using z by (simp_all add: connack_state_def rx_internal_zero_def)
  show ?thesis
    using st'(2-4) 1 2 3 nf nf4 hf
    by (intro exI [of _ st'])
      (simp add: rx_buffer_decode_loop.simps(2) numeral_3_eq_3 numeral_2_eq_2)
qed


text \<open>The fourth byte of a CONNACK: the return code.\<close>

lemma connack_code_byte:
  assumes aw: "connack_awaited s ys e zs a c" and lb: "2 \<le> uint lb" "uint lb < 128" and f: "f AND NOT 1 = 0"
  shows "\<exists>s1. ri s1 = connack_state lb 1 (se_value e) \<and> ri_error (ri s1) = NO_ERROR \<and>
    (\<forall>n env rest. rx_buffer_decode_loop (Suc (Suc (Suc (Suc n)))) env (0x20 # lb # f # code # rest) 0 s =
      (if code \<noteq> 0
       then Some (False, 3, rx_buffer_fail (if unat code > 5 then ERROR_DECODE_CONNACK_INVALID_RETURN_CODE
           else lmqtt_errors ! (error_connack_base + unat code)) 0 s1)
       else if uint lb \<noteq> 2 then None
       else do {
         (ok, s2) \<leftarrow> rx_buffer_finish_packet n env
           (upd_ri (\<lambda>i. i\<lparr>ri_remain_buf_pos := ri_remain_buf_pos i + 1\<rparr>) s1);
         if ok then rx_buffer_decode_loop n env rest 4 s2 else Some (False, 4, s2)
       }))"
proof -
  obtain st' where loop: "\<And>n env bytes. rx_buffer_decode_loop (Suc (Suc (Suc n))) env (0x20 # lb # f # bytes) 0 s =
      rx_buffer_decode_loop n env bytes 3 (upd_ri (\<lambda>_. connack_state lb 1 (se_value e))
        ((set_rx_queue st' s)\<lparr>sy_heap := (sy_heap s)(a \<mapsto> OConnect (c\<lparr>cn_session_present := f\<rparr>))\<rparr>))"
    using connack_loop [OF assms] by blast
  define s1 where "s1 = upd_ri (\<lambda>_. connack_state lb 1 (se_value e))
        ((set_rx_queue st' s)\<lparr>sy_heap := (sy_heap s)(a \<mapsto> OConnect (c\<lparr>cn_session_present := f\<rparr>))\<rparr>)"
  have len: "fh_remaining_length (connack_header lb) = uint lb" by (simp add: connack_header_def)
  have ri1: "ri s1 = connack_state lb 1 (se_value e)" by (simp add: s1_def)
  have err: "lmqtt_errors ! (error_connack_base + unat code) \<noteq> NO_ERROR"
    if "code \<noteq> 0" "unat code \<le> 5"
  proof -
    have "unat code \<noteq> 0" using that(1) by (simp add: unat_eq_0)
    then have "unat code = 1 \<or> unat code = 2 \<or> unat code = 3 \<or> unat code = 4 \<or> unat code = 5"
      using that(2) by linarith
    then consider "unat code = 1" | "unat code = 2" | "unat code = 3" | "unat code = 4" | "unat code = 5"
      by blast
    then show ?thesis by cases (simp_all add: error_connack_base_def error_code_def lmqtt_errors_def)
  qed
  have zero: "unat (0::byte) = 0" by simp
  have rest: "rx_buffer_rest_bytes env (code # rest) s1 =
      (if code \<noteq> 0
       then Some (RX_ERROR, 0, rx_buffer_fail (if unat code > 5 then ERROR_DECODE_CONNACK_INVALID_RETURN_CODE
           else lmqtt_errors ! (error_connack_base + unat code)) 0 s1)
       else if uint lb \<noteq> 2 then None
       else Some (RX_CHECK, 1, upd_ri (\<lambda>i. i\<lparr>ri_remain_buf_pos := ri_remain_buf_pos i + 1\<rparr>) s1))" for env rest
    using err
    by (cases "code = 0"; cases "unat code > 5")
      (simp_all add: rx_buffer_rest_bytes_def decoder_decode_remaining_def rx_buffer_decode_remaining_without_id_def
        rx_buffer_decode_type_def rx_buffer_decode_connack_def ri1 connack_state_def len
        connack_return_code_max_def rx_buffer_fail_def c_assert_def)
  have fin: "uint lb = 2 \<Longrightarrow> rx_buffer_is_packet_finished
      (upd_ri (\<lambda>i. i\<lparr>ri_remain_buf_pos := ri_remain_buf_pos i + 1\<rparr>) s1)"
    by (simp add: rx_buffer_is_packet_finished_def ri1 connack_state_def len)
  have hf: "ri_header_finished (ri s1)" by (simp add: ri1 connack_state_def)
  have four: "3 + Suc 0 = 4" by simp
  have "rx_buffer_decode_loop (Suc (Suc (Suc (Suc n)))) env (0x20 # lb # f # code # rest) 0 s =
      (if code \<noteq> 0
       then Some (False, 3, rx_buffer_fail (if unat code > 5 then ERROR_DECODE_CONNACK_INVALID_RETURN_CODE
           else lmqtt_errors ! (error_connack_base + unat code)) 0 s1)
       else if uint lb \<noteq> 2 then None
       else do {
         (ok, s2) \<leftarrow> rx_buffer_finish_packet n env
           (upd_ri (\<lambda>i. i\<lparr>ri_remain_buf_pos := ri_remain_buf_pos i + 1\<rparr>) s1);
         if ok then rx_buffer_decode_loop n env rest 4 s2 else Some (False, 4, s2)
       })" for n env rest
    unfolding loop s1_def [symmetric] using fin hf
    by (subst rx_buffer_decode_loop.simps(2)) (simp add: rest fin hf four cong: if_cong)
  moreover have "ri_error (ri s1) = NO_ERROR" by (simp add: ri1 connack_state_def rx_internal_zero_def)
  ultimately show ?thesis using ri1 by blast
qed

lemma at_least_4: "4 \<le> n \<Longrightarrow> \<exists>m. n = Suc (Suc (Suc (Suc m)))"
  by presburger

text \<open>
  A CONNACK with a non-zero return code fails the connection with the error that belongs to
  the code, or as malformed when the code is not one of MQTT.
\<close>

theorem connack_refused:
  assumes "connack_awaited s ys e zs a c" and "f AND NOT 1 = 0" and "code \<noteq> 0" and "4 \<le> n"
  shows "\<exists>s'. lmqtt_rx_buffer_decode n env ([0x20, 2, f, code] @ rest) s = Some (IO_ERROR, 3, s') \<and>
    lmqtt_rx_buffer_get_error s' =
      (if unat code = 1 then ERROR_CONNACK_UNACCEPTABLE_PROTOCOL_VERSION
       else if unat code = 2 then ERROR_CONNACK_IDENTIFIER_REJECTED
       else if unat code = 3 then ERROR_CONNACK_SERVER_UNAVAILABLE
       else if unat code = 4 then ERROR_CONNACK_BAD_USER_NAME_OR_PASSWORD
       else if unat code = 5 then ERROR_CONNACK_NOT_AUTHORIZED
       else ERROR_DECODE_CONNACK_INVALID_RETURN_CODE, 0)"
proof -
  obtain m where n: "n = Suc (Suc (Suc (Suc m)))" using at_least_4 [OF assms(4)] by blast
  obtain s1 where loop: "\<And>n env rest. rx_buffer_decode_loop (Suc (Suc (Suc (Suc n)))) env (0x20 # 2 # f # code # rest) 0 s =
      Some (False, 3, rx_buffer_fail (if unat code > 5 then ERROR_DECODE_CONNACK_INVALID_RETURN_CODE
           else lmqtt_errors ! (error_connack_base + unat code)) 0 s1)"
    using connack_code_byte [OF assms(1) _ _ assms(2), of 2 code] assms(3) by auto
  have z: "ri_error (ri s) = NO_ERROR"
    using assms(1) by (simp add: connack_awaited_def rx_internal_zero_def)
  have "unat code \<noteq> 0" using assms(3) by (simp add: unat_eq_0)
  then have "unat code = 1 \<or> unat code = 2 \<or> unat code = 3 \<or> unat code = 4 \<or> unat code = 5 \<or>
      5 < unat code" by linarith
  then consider "unat code = 1" | "unat code = 2" | "unat code = 3" | "unat code = 4" | "unat code = 5"
    | "5 < unat code" by blast
  then show ?thesis
    by cases (simp_all add: lmqtt_rx_buffer_decode_def z n loop lmqtt_rx_buffer_get_error_def rx_buffer_fail_def
      error_connack_base_def error_code_def lmqtt_errors_def)
qed

lemma example_connack_awaited:
  "connack_awaited (example_sys (one_sent (example_request KIND_CONNECT ON_CONNACK)) [7 \<mapsto> OConnect example_connect])
    [] (example_request KIND_CONNECT ON_CONNACK) [] 7 example_connect"
  by (simp add: connack_awaited_def)

theorem connack_refused_witness:
  "\<exists>s'. lmqtt_rx_buffer_decode 4 example_env ([0x20, 2, 1, 4] @ [])
      (example_sys (one_sent (example_request KIND_CONNECT ON_CONNACK)) [7 \<mapsto> OConnect example_connect]) =
      Some (IO_ERROR, 3, s') \<and>
    lmqtt_rx_buffer_get_error s' = (ERROR_CONNACK_BAD_USER_NAME_OR_PASSWORD, 0)"
  using connack_refused [OF example_connack_awaited, of 1 4 4 example_env "[]"] by simp

text \<open>
  C33. A CONNACK that announces more than two bytes and accepts the connection stops the program:
  the decoder finishes after two bytes and \<open>rx_buffer_decode_remaining_without_id\<close> asserts
  that these were all. The check for this case in \<open>rx_buffer_decode_connack\<close> is never
  reached. No bound \<open>n\<close> gives a result.
\<close>

theorem connack_too_long_aborts:
  assumes "connack_awaited s ys e zs a c" and "f AND NOT 1 = 0" and "2 < uint lb" and "uint lb < 128"
    and "4 \<le> n"
  shows "lmqtt_rx_buffer_decode n env ([0x20, lb, f, 0] @ rest) s = None"
proof -
  have z: "ri_error (ri s) = NO_ERROR"
    using assms(1) by (simp add: connack_awaited_def rx_internal_zero_def)
  have loop: "rx_buffer_decode_loop (Suc (Suc (Suc (Suc n)))) env (0x20 # lb # f # 0 # rest) 0 s = None" for n env rest
    using connack_code_byte [OF assms(1) _ assms(4,2), of 0] assms(3) by auto
  obtain m where n: "n = Suc (Suc (Suc (Suc m)))" using at_least_4 [OF assms(5)] by blast
  show ?thesis by (simp add: lmqtt_rx_buffer_decode_def z n loop)
qed

theorem connack_too_long_aborts_witness:
  "lmqtt_rx_buffer_decode 4 example_env ([0x20, 3, 0, 0] @ [0])
      (example_sys (one_sent (example_request KIND_CONNECT ON_CONNACK)) [7 \<mapsto> OConnect example_connect]) = None"
  by (rule connack_too_long_aborts [OF example_connack_awaited]) simp_all

end
