(* ===== verification/Packet_Parts.thy ===== *)
theory Packet_Parts
  imports Outgoing_Packets Resumable_Encoding Tx_Buffer
begin

text \<open>
  The packet of a request as a list of parts, each of them the bytes that one encoder of
  \<open>src/lmqtt_packet.c\<close> puts out; what a request needs so that no user code takes part in encoding
  it (its strings have their own buffers); and how one encoder, called again and again with any
  room, puts out its part. Encoding moves the positions in the strings of an object and nothing
  else: \<open>similar\<close> heaps agree up to them.
\<close>

section \<open>Objects up to the positions in their strings\<close>

definition at_start :: "lstring \<Rightarrow> lstring" where
  "at_start str = str\<lparr>str_pos := 0\<rparr>"

definition settle_connect :: "connect \<Rightarrow> connect" where
  "settle_connect c = c\<lparr>cn_client_id := at_start (cn_client_id c),
     cn_will_topic := at_start (cn_will_topic c), cn_will_message := at_start (cn_will_message c),
     cn_user_name := at_start (cn_user_name c), cn_password := at_start (cn_password c)\<rparr>"

definition settle_subscription :: "subscription \<Rightarrow> subscription" where
  "settle_subscription x = x\<lparr>sn_topic := at_start (sn_topic x)\<rparr>"

definition settle_subscribe :: "subscribe \<Rightarrow> subscribe" where
  "settle_subscribe s = s\<lparr>sb_subscriptions := map_option (map settle_subscription) (sb_subscriptions s), sb_current := None\<rparr>"

definition settle_publish :: "publish \<Rightarrow> publish" where
  "settle_publish m = m\<lparr>pb_topic := at_start (pb_topic m), pb_payload := at_start (pb_payload m)\<rparr>"

fun settle :: "obj \<Rightarrow> obj" where
  "settle (OConnect c) = OConnect (settle_connect c)"
| "settle (OSubscribe s) = OSubscribe (settle_subscribe s)"
| "settle (OPublish m) = OPublish (settle_publish m)"

definition similar_but :: "addr option \<Rightarrow> heap \<Rightarrow> heap \<Rightarrow> bool" where
  "similar_but p hp hp' \<longleftrightarrow> (\<forall>a. p \<noteq> Some a \<longrightarrow> map_option settle (hp' a) = map_option settle (hp a))"

abbreviation similar :: "heap \<Rightarrow> heap \<Rightarrow> bool" where
  "similar \<equiv> similar_but None"

lemma similar_refl [simp]: "similar_but p hp hp"
  by (simp add: similar_but_def)

lemma similar_trans: "similar_but p hp hp' \<Longrightarrow> similar_but p hp' hp'' \<Longrightarrow> similar_but p hp hp''"
  by (simp add: similar_but_def)

lemma similar_weaken: "similar hp hp' \<Longrightarrow> similar_but p hp hp'"
  by (simp add: similar_but_def)

lemma similar_update: "hp a = Some ob \<Longrightarrow> settle ob' = settle ob \<Longrightarrow> similar hp (hp(a \<mapsto> ob'))"
  by (simp add: similar_but_def)

lemma at_start_pos [simp]: "at_start (str\<lparr>str_pos := p\<rparr>) = at_start str"
  by (simp add: at_start_def)

lemma similar_publish:
  assumes "similar_but p hp hp'" and "p \<noteq> Some a" and "hp a = Some (OPublish m)"
  shows "\<exists>m'. hp' a = Some (OPublish m') \<and> settle_publish m' = settle_publish m"
proof -
  have "map_option settle (hp' a) = Some (settle (OPublish m))" using assms by (simp add: similar_but_def)
  then obtain ob where "hp' a = Some ob" "settle ob = settle (OPublish m)" by auto
  then show ?thesis by (cases ob) auto
qed

lemma similar_subscribe:
  assumes "similar_but p hp hp'" and "p \<noteq> Some a" and "hp a = Some (OSubscribe s)"
  shows "\<exists>s'. hp' a = Some (OSubscribe s') \<and> settle_subscribe s' = settle_subscribe s"
proof -
  have "map_option settle (hp' a) = Some (settle (OSubscribe s))" using assms by (simp add: similar_but_def)
  then obtain ob where "hp' a = Some ob" "settle ob = settle (OSubscribe s)" by auto
  then show ?thesis by (cases ob) auto
qed

lemma similar_connect:
  assumes "similar_but p hp hp'" and "p \<noteq> Some a" and "hp a = Some (OConnect c)"
  shows "\<exists>c'. hp' a = Some (OConnect c') \<and> settle_connect c' = settle_connect c"
proof -
  have "map_option settle (hp' a) = Some (settle (OConnect c))" using assms by (simp add: similar_but_def)
  then obtain ob where "hp' a = Some ob" "settle ob = settle (OConnect c)" by auto
  then show ?thesis by (cases ob) auto
qed

section \<open>One part\<close>

definition fresh_buffer :: "encode_buffer \<Rightarrow> bool" where
  "fresh_buffer eb \<longleftrightarrow> \<not> eb_encoded eb \<and> length (eb_buf eb) = 16"

definition part_buffer :: "byte list \<Rightarrow> nat \<Rightarrow> encode_buffer \<Rightarrow> bool" where
  "part_buffer bs off eb \<longleftrightarrow> length (eb_buf eb) = 16 \<and> off < length bs \<and>
     (if eb_encoded eb then eb_buf_len eb = length bs \<and> take (length bs) (eb_buf eb) = bs \<and> length bs \<le> 16 else off = 0)"

definition builds :: "builder \<Rightarrow> store_value \<Rightarrow> heap \<Rightarrow> byte list \<Rightarrow> bool" where
  "builds builder v hp bs \<longleftrightarrow> bs \<noteq> [] \<and> (\<forall>eb. length (eb_buf eb) = 16 \<longrightarrow> (\<exists>b. builder v hp eb = Some b \<and>
     length (eb_buf b) = 16 \<and> eb_buf_len b = length bs \<and> length bs \<le> 16 \<and> take (length bs) (eb_buf b) = bs))"

definition encoded_to :: "nat \<Rightarrow> byte list \<Rightarrow> encode_result" where
  "encoded_to room rest = (if length rest \<le> room then ENCODE_FINISHED else ENCODE_CONTINUE)"

lemma fresh_zero [simp]: "fresh_buffer encode_buffer_zero"
  by (simp add: fresh_buffer_def encode_buffer_zero_def)

lemma part_buffer_start: "fresh_buffer eb \<Longrightarrow> bs \<noteq> [] \<Longrightarrow> part_buffer bs 0 eb"
  by (simp add: part_buffer_def fresh_buffer_def)

lemma encode_built_step:
  assumes "builds builder v hp bs" and "part_buffer bs off eb"
  shows "\<exists>eb'. encode_built builder io v eb off room hp w =
      Some (encoded_to room (drop off bs), take room (drop off bs), eb', hp, w) \<and>
    (if length (drop off bs) \<le> room then fresh_buffer eb' else part_buffer bs (off + room) eb')"
proof -
  obtain b where b: "encode_buffer_built v hp builder eb = Some b" "eb_encoded b" "length (eb_buf b) = 16"
      "eb_buf_len b = length bs" "length bs \<le> 16" "take (length bs) (eb_buf b) = bs"
  proof (cases "eb_encoded eb")
    case True
    then show ?thesis using that [of eb] assms(2) by (simp add: part_buffer_def encode_buffer_built_def)
  next
    case False
    obtain b where "builder v hp eb = Some b" "length (eb_buf b) = 16" "eb_buf_len b = length bs" "length bs \<le> 16"
        "take (length bs) (eb_buf b) = bs"
      using assms by (auto simp: builds_def part_buffer_def)
    then show ?thesis using that [of "b\<lparr>eb_encoded := True\<rparr>"] False by (simp add: encode_buffer_built_def)
  qed
  have off: "off < length bs" and ne: "bs \<noteq> []" using assms(2) by (auto simp: part_buffer_def)
  have slice: "take k (drop off (eb_buf b)) = take k (drop off bs)" if "off + k \<le> length bs" for k
  proof -
    have "take k (drop off bs) = take k (drop off (take (length bs) (eb_buf b)))" using b(6) by simp
    also have "\<dots> = take k (drop off (eb_buf b))" using that by (simp add: drop_take min_def)
    finally show ?thesis by simp
  qed
  show ?thesis
  proof (cases "length (drop off bs) \<le> room")
    case True
    then show ?thesis
      using b off ne slice [of "length bs - off"]
      by (auto simp: encode_built_def encode_buffer_encode_alt encoded_to_def arr_simps)
  next
    case False
    then show ?thesis
      using b off ne slice [of room]
      by (auto simp: encode_built_def encode_buffer_encode_alt encoded_to_def arr_simps part_buffer_def)
  qed
qed

lemma string_encode_buffer:
  assumes "string_encode io self str l e off room eb w = Some (r, out, str', eb', w')"
  shows "eb_encoded eb' = eb_encoded eb \<and> eb_buf eb' = eb_buf eb"
proof (cases "str_len str = 0 \<and> \<not> e \<or> room = 0")
  case True
  then have "eb' = eb\<lparr>eb_blocking_str := None\<rparr>"
    using assms by (cases "str_len str = 0 \<and> \<not> e") (simp_all add: string_encode_def)
  then show ?thesis by simp
next
  case False
  let ?eb = "eb\<lparr>eb_blocking_str := None\<rparr>"
  define loop where "loop = (if l then string_len_loop [0, 1] (str_len str) off room [] else Inr [])"
  show ?thesis
  proof (cases loop)
    case (Inl q)
    then show ?thesis
      using assms False
      by (cases q) (auto simp: string_encode_def Let_def loop_def [symmetric] bind_eq_Some_conv simp del: string_len_loop.simps)
  next
    case (Inr q)
    then obtain os where "eb' \<in> {?eb\<lparr>eb_os_error := os, eb_blocking_str := Some self\<rparr>, ?eb\<lparr>eb_os_error := os\<rparr>,
        ?eb\<lparr>eb_os_error := os, eb_error := ERROR_ENCODE_STRING\<rparr>}"
      using assms False
      unfolding string_encode_def Let_def loop_def [symmetric]
      by (force simp: bind_eq_Some_conv c_assert_bind simp del: string_len_loop.simps split: if_split_asm)
    then show ?thesis by auto
  qed
qed

definition string_part :: "bool \<Rightarrow> lstring \<Rightarrow> byte list" where
  "string_part l str = (if str_len str = 0 then [] else string_bytes l str)"

definition field_ready :: "bool \<Rightarrow> lstring \<Rightarrow> nat \<Rightarrow> encode_buffer \<Rightarrow> bool" where
  "field_ready l str off eb \<longleftrightarrow> fresh_buffer eb \<and> (if str_len str = 0 then off = 0 else string_ready l str off)"

lemma string_encode_step:
  assumes "field_ready l str off eb" and "str_len str = 0 \<longrightarrow> \<not> e"
  shows "\<exists>p eb'. string_encode io self str l e off room eb w =
      Some (encoded_to room (drop off (string_part l str)), take room (drop off (string_part l str)), str\<lparr>str_pos := p\<rparr>, eb', w) \<and>
    fresh_buffer eb' \<and> (room < length (drop off (string_part l str)) \<longrightarrow> field_ready l (str\<lparr>str_pos := p\<rparr>) (off + room) eb')"
proof (cases "str_len str = 0")
  case True
  then show ?thesis
    using assms by (auto simp: string_encode_def string_part_def encoded_to_def field_ready_def fresh_buffer_def
        intro!: exI [of _ "str_pos str"])
next
  case False
  then have rd: "string_ready l str off" and fresh: "fresh_buffer eb" using assms(1) by (auto simp: field_ready_def)
  show ?thesis
  proof (cases "room = 0")
    case True
    have "off < length (string_bytes l str)" using rd by (simp add: string_ready_def)
    then show ?thesis
      using True False rd fresh
      by (intro exI [of _ "str_pos str"] exI [of _ "eb\<lparr>eb_blocking_str := None\<rparr>"])
        (simp add: string_encode_def string_part_def encoded_to_def field_ready_def fresh_buffer_def)
  next
    case room: False
    obtain p eb' where enc: "string_encode io self str l e off room eb w =
        Some (if length (string_bytes l str) - off \<le> room then ENCODE_FINISHED else ENCODE_CONTINUE,
          take room (drop off (string_bytes l str)), str\<lparr>str_pos := p\<rparr>, eb', w)"
      "room < length (string_bytes l str) - off \<longrightarrow> string_ready l (str\<lparr>str_pos := p\<rparr>) (off + room)"
      using string_encode_ready [OF rd, of room io self e eb w] room by blast
    have "fresh_buffer eb'" using string_encode_buffer [OF enc(1)] fresh by (simp add: fresh_buffer_def)
    then show ?thesis
      using enc False by (intro exI [of _ p] exI [of _ eb']) (simp add: string_part_def encoded_to_def field_ready_def)
  qed
qed

section \<open>The parts of a packet\<close>

definition header_of :: "byte \<Rightarrow> int \<Rightarrow> byte list" where
  "header_of b len = b # the (encode_remaining_length len)"

definition connect_parts :: "connect \<Rightarrow> byte list list" where
  "connect_parts c =
     [header_of 0x10 (connect_calc_remaining_length c),
      [0, 4, 0x4D, 0x51, 0x54, 0x54, 4, connect_flags c] @ be16 (uint (cn_keep_alive c)),
      string_part True (cn_client_id c), string_part True (cn_will_topic c), string_part True (cn_will_message c),
      string_part True (cn_user_name c), string_part True (cn_password c)]"

definition subscriptions_size :: "bool \<Rightarrow> subscription list \<Rightarrow> int" where
  "subscriptions_size q subs = 2 + (\<Sum>x \<leftarrow> subs. str_len (sn_topic x) + 2 + (if q then 1 else 0))"

definition subscribe_parts :: "packet_id \<Rightarrow> subscription list \<Rightarrow> byte list list" where
  "subscribe_parts pid subs = (header_of 0x82 (subscriptions_size True subs) @ be16 (uint pid)) #
     concat (map (\<lambda>x. [string_part True (sn_topic x), [word_of_int (sn_requested_qos x)]]) subs)"

definition unsubscribe_parts :: "packet_id \<Rightarrow> subscription list \<Rightarrow> byte list list" where
  "unsubscribe_parts pid subs = (header_of 0xA2 (subscriptions_size False subs) @ be16 (uint pid)) #
     map (\<lambda>x. string_part True (sn_topic x)) subs"

definition publish_parts :: "packet_id \<Rightarrow> publish \<Rightarrow> byte list list" where
  "publish_parts pid m =
     [header_of (publish_type_byte m) (publish_calc_remaining_length m), string_part True (pb_topic m)] @
     (if pb_qos m = QOS_0 then [] else [be16 (uint pid)]) @ [string_part False (pb_payload m)]"

definition subscriptions_of :: "subscribe \<Rightarrow> subscription list" where
  "subscriptions_of s = (case sb_subscriptions s of Some subs \<Rightarrow> subs | None \<Rightarrow> [])"

fun request_parts :: "heap \<Rightarrow> kind \<Rightarrow> store_value \<Rightarrow> byte list list" where
  "request_parts hp KIND_CONNECT v = (case get_connect hp (sv_value v) of Some (a, c) \<Rightarrow> connect_parts c | None \<Rightarrow> [])"
| "request_parts hp KIND_SUBSCRIBE v = (case get_subscribe hp (sv_value v) of
     Some (a, s) \<Rightarrow> subscribe_parts (sv_packet_id v) (subscriptions_of s) | None \<Rightarrow> [])"
| "request_parts hp KIND_UNSUBSCRIBE v = (case get_subscribe hp (sv_value v) of
     Some (a, s) \<Rightarrow> unsubscribe_parts (sv_packet_id v) (subscriptions_of s) | None \<Rightarrow> [])"
| "request_parts hp KIND_PUBACK v = [[0x40, 2] @ be16 (uint (sv_packet_id v))]"
| "request_parts hp KIND_PUBREC v = [[0x50, 2] @ be16 (uint (sv_packet_id v))]"
| "request_parts hp KIND_PUBREL v = [[0x62, 2] @ be16 (uint (sv_packet_id v))]"
| "request_parts hp KIND_PUBCOMP v = [[0x70, 2] @ be16 (uint (sv_packet_id v))]"
| "request_parts hp KIND_PINGREQ v = [[0xC0, 0]]"
| "request_parts hp KIND_DISCONNECT v = [[0xE0, 0]]"
| "request_parts hp KIND_NONE v = []"
| "request_parts hp _ v = (case get_publish hp (sv_value v) of
     Some (a, m) \<Rightarrow> publish_parts (sv_packet_id v) m | None \<Rightarrow> [])"

text \<open>What a request needs so that it can be encoded without user callbacks.\<close>

definition own_buffer :: "lstring \<Rightarrow> bool" where
  "own_buffer str \<longleftrightarrow> str_read str = None \<and> (case str_buf str of Some b \<Rightarrow> str_len str \<le> int (length b) | None \<Rightarrow> False)"

definition sendable :: "lstring \<Rightarrow> bool" where
  "sendable str \<longleftrightarrow> str_len str = 0 \<or> own_buffer str"

definition connect_sendable :: "connect \<Rightarrow> bool" where
  "connect_sendable c \<longleftrightarrow> lmqtt_connect_validate c \<and> str_len (cn_client_id c) \<noteq> 0 \<and> own_buffer (cn_client_id c) \<and>
     sendable (cn_will_topic c) \<and> sendable (cn_will_message c) \<and> sendable (cn_user_name c) \<and> sendable (cn_password c)"

definition subscribe_sendable :: "bool \<Rightarrow> subscribe \<Rightarrow> bool" where
  "subscribe_sendable q s \<longleftrightarrow> sb_subscriptions s \<noteq> None \<and> sb_count s = int (length (subscriptions_of s)) \<and>
     (\<forall>x \<in> set (subscriptions_of s). valid_subscription x \<and> own_buffer (sn_topic x)) \<and>
     subscriptions_size q (subscriptions_of s) \<le> 268435455"

definition publish_sendable :: "publish \<Rightarrow> bool" where
  "publish_sendable m \<longleftrightarrow> lmqtt_publish_validate m \<and> 0 \<le> str_len (pb_payload m) \<and>
     own_buffer (pb_topic m) \<and> sendable (pb_payload m)"

fun request_valid :: "heap \<Rightarrow> kind \<Rightarrow> store_value \<Rightarrow> bool" where
  "request_valid hp KIND_CONNECT v = (case get_connect hp (sv_value v) of Some (a, c) \<Rightarrow> connect_sendable c | None \<Rightarrow> False)"
| "request_valid hp KIND_SUBSCRIBE v = (case get_subscribe hp (sv_value v) of
     Some (a, s) \<Rightarrow> subscribe_sendable True s | None \<Rightarrow> False)"
| "request_valid hp KIND_UNSUBSCRIBE v = (case get_subscribe hp (sv_value v) of
     Some (a, s) \<Rightarrow> subscribe_sendable False s | None \<Rightarrow> False)"
| "request_valid hp KIND_PUBLISH_0 v = (case get_publish hp (sv_value v) of Some (a, m) \<Rightarrow> publish_sendable m | None \<Rightarrow> False)"
| "request_valid hp KIND_PUBLISH_1 v = (case get_publish hp (sv_value v) of Some (a, m) \<Rightarrow> publish_sendable m | None \<Rightarrow> False)"
| "request_valid hp KIND_PUBLISH_2 v = (case get_publish hp (sv_value v) of Some (a, m) \<Rightarrow> publish_sendable m | None \<Rightarrow> False)"
| "request_valid hp KIND_NONE v = False"
| "request_valid hp _ v = True"

section \<open>Similar heaps give the same parts\<close>

lemma at_start_simps [simp]:
  "str_len (at_start str) = str_len str" "string_bytes l (at_start str) = string_bytes l str"
  "own_buffer (at_start str) = own_buffer str" "sendable (at_start str) = sendable str"
  "string_part l (at_start str) = string_part l str"
  "string_validate_field_length (at_start str) = string_validate_field_length str"
  "string_calc_field_length (at_start str) = string_calc_field_length str"
  by (simp_all add: at_start_def own_buffer_def sendable_def string_part_def string_validate_field_length_def
      string_calc_field_length_def cong: option.case_cong)

lemma settle_publish_simps [simp]:
  "publish_parts pid (settle_publish m) = publish_parts pid m" "publish_sendable (settle_publish m) = publish_sendable m"
  by (simp_all add: settle_publish_def publish_parts_def publish_sendable_def lmqtt_publish_validate_def
      publish_calc_remaining_length_def publish_type_byte_def)

lemma settle_connect_simps [simp]:
  "connect_parts (settle_connect c) = connect_parts c" "connect_sendable (settle_connect c) = connect_sendable c"
  by (simp_all add: settle_connect_def connect_parts_def connect_sendable_def lmqtt_connect_validate_def
      connect_calc_remaining_length_def connect_flags_def)

lemma settle_subscription_simps [simp]:
  "sn_topic (settle_subscription x) = at_start (sn_topic x)" "sn_requested_qos (settle_subscription x) = sn_requested_qos x"
  "valid_subscription (settle_subscription x) = valid_subscription x"
  by (simp_all add: settle_subscription_def valid_subscription_def)

lemma settle_subscribe_simps [simp]:
  "subscriptions_of (settle_subscribe s) = map settle_subscription (subscriptions_of s)"
  "subscribe_sendable q (settle_subscribe s) = subscribe_sendable q s"
  by (auto simp: settle_subscribe_def subscribe_sendable_def subscriptions_of_def subscriptions_size_def comp_def
      split: option.splits)

lemma subscribe_parts_settle [simp]:
  "subscribe_parts pid (map settle_subscription subs) = subscribe_parts pid subs"
  "unsubscribe_parts pid (map settle_subscription subs) = unsubscribe_parts pid subs"
  by (simp_all add: subscribe_parts_def unsubscribe_parts_def subscriptions_size_def comp_def)

lemma request_similar:
  assumes "request_valid hp k v" and "similar_but p hp hp'" and "p = None \<or> p \<noteq> sv_value v"
  shows "request_valid hp' k v \<and> request_parts hp' k v = request_parts hp k v"
proof -
  have p: "p \<noteq> Some a" if "sv_value v = Some a" for a using assms(3) that by auto
  have publish: "publish_sendable m' \<and> publish_parts pid m' = publish_parts pid m"
    if "publish_sendable m" "settle_publish m' = settle_publish m" for m m' pid
    using that by (metis settle_publish_simps)
  have connect: "connect_sendable c' \<and> connect_parts c' = connect_parts c"
    if "connect_sendable c" "settle_connect c' = settle_connect c" for c c'
    using that by (metis settle_connect_simps)
  have subscribe: "subscribe_sendable q s' \<and> subscribe_parts pid (subscriptions_of s') = subscribe_parts pid (subscriptions_of s) \<and>
      unsubscribe_parts pid (subscriptions_of s') = unsubscribe_parts pid (subscriptions_of s)"
    if "subscribe_sendable q s" "settle_subscribe s' = settle_subscribe s" for q s s' pid
    using that by (metis settle_subscribe_simps subscribe_parts_settle)
  have publishes: ?thesis if k: "k = KIND_PUBLISH_0 \<or> k = KIND_PUBLISH_1 \<or> k = KIND_PUBLISH_2"
  proof -
    obtain a m where m: "sv_value v = Some a" "hp a = Some (OPublish m)" "publish_sendable m"
      using assms(1) k by (auto split: option.splits)
    obtain m' where "hp' a = Some (OPublish m')" "settle_publish m' = settle_publish m"
      using similar_publish [OF assms(2) p [OF m(1)] m(2)] by blast
    then show ?thesis using k m publish [OF m(3), of m'] by (auto simp: get_publish_def)
  qed
  show ?thesis
  proof (cases k)
    case KIND_CONNECT
    then obtain a c where c: "sv_value v = Some a" "hp a = Some (OConnect c)" "connect_sendable c"
      using assms(1) by (auto split: option.splits)
    obtain c' where "hp' a = Some (OConnect c')" "settle_connect c' = settle_connect c"
      using similar_connect [OF assms(2) p [OF c(1)] c(2)] by blast
    then show ?thesis using KIND_CONNECT c connect [OF c(3), of c'] by (simp add: get_connect_def)
  next
    case KIND_SUBSCRIBE
    then obtain a s where s: "sv_value v = Some a" "hp a = Some (OSubscribe s)" "subscribe_sendable True s"
      using assms(1) by (auto split: option.splits)
    obtain s' where "hp' a = Some (OSubscribe s')" "settle_subscribe s' = settle_subscribe s"
      using similar_subscribe [OF assms(2) p [OF s(1)] s(2)] by blast
    then show ?thesis using KIND_SUBSCRIBE s subscribe [OF s(3), of s'] by (simp add: get_subscribe_def)
  next
    case KIND_UNSUBSCRIBE
    then obtain a s where s: "sv_value v = Some a" "hp a = Some (OSubscribe s)" "subscribe_sendable False s"
      using assms(1) by (auto split: option.splits)
    obtain s' where "hp' a = Some (OSubscribe s')" "settle_subscribe s' = settle_subscribe s"
      using similar_subscribe [OF assms(2) p [OF s(1)] s(2)] by blast
    then show ?thesis using KIND_UNSUBSCRIBE s subscribe [OF s(3), of s'] by (simp add: get_subscribe_def)
  next
    case KIND_NONE
    then show ?thesis using assms(1) by simp
  qed (use publishes in simp_all)
qed
section \<open>The builders of headers\<close>

lemma buildsI:
  assumes "length bs = n" and "0 < n" and "n \<le> 16"
    and "\<And>eb. length (eb_buf eb) = 16 \<Longrightarrow> \<exists>buf. builder v hp eb = Some (eb\<lparr>eb_buf := buf, eb_buf_len := n\<rparr>) \<and>
      length buf = 16 \<and> take n buf = bs"
  shows "builds builder v hp bs"
  using assms unfolding builds_def by fastforce

lemma buffer_two: "length (eb_buf eb) = 16 \<Longrightarrow> \<exists>x y xs. eb_buf eb = x # y # xs \<and> length xs = 14"
  by (auto simp: numeral_eq_Suc length_Suc_conv)

lemma header_of_Some: "encode_remaining_length len = Some ls \<Longrightarrow> header_of b len = b # ls"
  by (simp add: header_of_def)

lemma length_of_header:
  assumes "0 \<le> len" and "len \<le> 268435455"
  obtains ls where "encode_remaining_length len = Some ls" "1 \<le> length ls" "length ls \<le> 4"
  using encode_remaining_length_ok [OF assms] by metis

lemma publish_header_builds:
  assumes "get_publish hp (sv_value v) = Some (a, m)" and "publish_sendable m"
  shows "builds publish_build_fixed_header v hp (header_of (publish_type_byte m) (publish_calc_remaining_length m))"
proof -
  have valid: "lmqtt_publish_validate m" "0 \<le> str_len (pb_payload m)" using assms(2) by (auto simp: publish_sendable_def)
  obtain ls where ls: "encode_remaining_length (publish_calc_remaining_length m) = Some ls" "1 \<le> length ls" "length ls \<le> 4"
    using length_of_header publish_validate_bounds [OF valid] by metis
  show ?thesis
    unfolding header_of_Some [OF ls(1)]
  proof (rule buildsI [of _ "1 + length ls"])
    fix eb :: encode_buffer
    assume "length (eb_buf eb) = 16"
    then show "\<exists>buf. publish_build_fixed_header v hp eb = Some (eb\<lparr>eb_buf := buf, eb_buf_len := 1 + length ls\<rparr>) \<and>
        length buf = 16 \<and> take (1 + length ls) buf = publish_type_byte m # ls"
      using publish_build_spec [OF assms(1) valid _ ls(1,3), of eb] by simp
  qed (use ls in simp_all)
qed

lemma publish_id_builds: "builds publish_build_packet_id v hp (be16 (uint (sv_packet_id v)))"
proof (rule buildsI [of _ 2])
  fix eb :: encode_buffer
  assume "length (eb_buf eb) = 16"
  then obtain x y xs where "eb_buf eb = x # y # xs" "length xs = 14" using buffer_two by blast
  then show "\<exists>buf. publish_build_packet_id v hp eb = Some (eb\<lparr>eb_buf := buf, eb_buf_len := 2\<rparr>) \<and>
      length buf = 16 \<and> take 2 buf = be16 (uint (sv_packet_id v))"
    by (intro exI [of _ "be16 (uint (sv_packet_id v)) @ xs"])
      (simp add: publish_build_packet_id_def be16_def arr_simps del: arr_iffs)
qed (simp_all add: be16_def)

lemma connect_fixed_builds:
  assumes "get_connect hp (sv_value v) = Some (a, c)" and "lmqtt_connect_validate c"
  shows "builds connect_build_fixed_header v hp (header_of 0x10 (connect_calc_remaining_length c))"
proof -
  obtain ls where ls: "encode_remaining_length (connect_calc_remaining_length c) = Some ls" "1 \<le> length ls" "length ls \<le> 4"
    using length_of_header [of "connect_calc_remaining_length c"] connect_calc_bounds [OF assms(2)] by force
  have ty: "(word_of_int (push_bit 4 TYPE_CONNECT) :: byte) = 0x10" by simp
  show ?thesis
    unfolding header_of_Some [OF ls(1)]
  proof (rule buildsI [of _ "1 + length ls"])
    fix eb :: encode_buffer
    assume eb: "length (eb_buf eb) = 16"
    obtain buf1 where "arr_write (eb_buf eb) 1 ls = Some buf1" "length buf1 = length (eb_buf eb)"
      "0 < length buf1" "take (1 + length ls) (buf1[0 := 0x10]) = 0x10 # ls"
      using builder_fixed_spec [of ls "eb_buf eb" "0x10"] ls(3) eb by force
    then show "\<exists>buf. connect_build_fixed_header v hp eb = Some (eb\<lparr>eb_buf := buf, eb_buf_len := 1 + length ls\<rparr>) \<and>
        length buf = 16 \<and> take (1 + length ls) buf = 0x10 # ls"
      using assms ls eb by (intro exI [of _ "buf1[0 := 0x10]"])
        (simp add: connect_build_fixed_header_def arr_simps del: arr_iffs get_iffs)
  qed (use ls in simp_all)
qed

lemma connect_variable_builds:
  assumes "get_connect hp (sv_value v) = Some (a, c)"
  shows "builds connect_build_variable_header v hp
    ([0, 4, 0x4D, 0x51, 0x54, 0x54, 4, connect_flags c] @ be16 (uint (cn_keep_alive c)))" (is "builds _ v hp ?bs")
proof (rule buildsI [of _ 10])
  fix eb :: encode_buffer
  assume "length (eb_buf eb) = 16"
  then obtain x0 x1 x2 x3 x4 x5 x6 x7 x8 x9 xs where
    "eb_buf eb = [x0, x1, x2, x3, x4, x5, x6, x7, x8, x9] @ xs" "length xs = 6"
    by (auto simp: numeral_eq_Suc length_Suc_conv)
  then show "\<exists>buf. connect_build_variable_header v hp eb = Some (eb\<lparr>eb_buf := buf, eb_buf_len := 10\<rparr>) \<and>
      length buf = 16 \<and> take 10 buf = ?bs"
    using assms by (intro exI [of _ "?bs @ xs"])
      (simp add: connect_build_variable_header_def arr_simps be16_def del: arr_iffs get_iffs)
qed (simp_all add: be16_def)

lemma packet_id_builds:
  assumes "\<And>eb. builder v hp eb = encode_buffer_encode_packet_id eb ty len (sv_packet_id v)"
    and "0 \<le> len" and "len \<le> 268435455"
  shows "builds builder v hp (header_of (word_of_int ty) len @ be16 (uint (sv_packet_id v)))"
proof -
  obtain ls where ls: "encode_remaining_length len = Some ls" "1 \<le> length ls" "length ls \<le> 4"
    using length_of_header [OF assms(2,3)] .
  have n: "length ((word_of_int ty # ls) @ be16 (uint (sv_packet_id v))) = length ls + 3" by (simp add: be16_def)
  show ?thesis
    unfolding header_of_Some [OF ls(1)]
  proof (rule buildsI [of _ "length ls + 3"])
    fix eb :: encode_buffer
    assume "length (eb_buf eb) = 16"
    then show "\<exists>buf. builder v hp eb = Some (eb\<lparr>eb_buf := buf, eb_buf_len := length ls + 3\<rparr>) \<and> length buf = 16 \<and>
        take (length ls + 3) buf = (word_of_int ty # ls) @ be16 (uint (sv_packet_id v))"
      unfolding assms(1) using encode_packet_id_spec [OF ls(1), of eb ty "sv_packet_id v"] ls(3) by auto
  qed (use ls n in simp_all)
qed

lemma ack_builds:
  "builds puback_build v hp ([0x40, 2] @ be16 (uint (sv_packet_id v)))"
  "builds pubrec_build v hp ([0x50, 2] @ be16 (uint (sv_packet_id v)))"
  "builds pubrel_build v hp ([0x62, 2] @ be16 (uint (sv_packet_id v)))"
  "builds pubcomp_build v hp ([0x70, 2] @ be16 (uint (sv_packet_id v)))"
proof -
  have two: "header_of b 2 = [b, 2]" for b by (simp add: header_of_def encode_remaining_length_def encode_loop_small)
  show "builds puback_build v hp ([0x40, 2] @ be16 (uint (sv_packet_id v)))"
    using packet_id_builds [of puback_build v hp "push_bit 4 TYPE_PUBACK" 2] by (simp add: puback_build_def two)
  show "builds pubrec_build v hp ([0x50, 2] @ be16 (uint (sv_packet_id v)))"
    using packet_id_builds [of pubrec_build v hp "push_bit 4 TYPE_PUBREC" 2] by (simp add: pubrec_build_def two)
  show "builds pubrel_build v hp ([0x62, 2] @ be16 (uint (sv_packet_id v)))"
    using packet_id_builds [of pubrel_build v hp "push_bit 4 TYPE_PUBREL OR 0x02" 2] by (simp add: pubrel_build_def two)
  show "builds pubcomp_build v hp ([0x70, 2] @ be16 (uint (sv_packet_id v)))"
    using packet_id_builds [of pubcomp_build v hp "push_bit 4 TYPE_PUBCOMP" 2] by (simp add: pubcomp_build_def two)
qed

lemma ping_builds: "builds pingreq_build v hp [0xC0, 0]" "builds disconnect_build v hp [0xE0, 0]"
proof -
  have two: "\<exists>buf. (eb\<lparr>eb_buf := (eb_buf eb)[0 := b, Suc 0 := 0], eb_buf_len := 2\<rparr>) = eb\<lparr>eb_buf := buf, eb_buf_len := 2\<rparr> \<and>
      length buf = 16 \<and> take 2 buf = [b, 0]" if eb: "length (eb_buf eb) = 16" for eb and b :: byte
  proof -
    obtain x y xs where "eb_buf eb = x # y # xs" "length xs = 14" using buffer_two [OF eb] by blast
    then show ?thesis by (intro exI [of _ "b # 0 # xs"]) simp
  qed
  show "builds pingreq_build v hp [0xC0, 0]"
    by (rule buildsI [of _ 2]) (simp_all add: pingreq_build_def arr_simps two del: arr_iffs)
  show "builds disconnect_build v hp [0xE0, 0]"
    by (rule buildsI [of _ 2]) (simp_all add: disconnect_build_def arr_simps two del: arr_iffs)
qed

end
