(* ===== verification/Packet_Source.thy ===== *)
theory Packet_Source
  imports Packet_Parts
begin

text \<open>
  The contract between a finder, the encoders it finds and the loop of \<open>lmqtt_tx_buffer_encode\<close>
  over the parts of one packet, as a locale, and what the loop does with every finder that
  keeps it: it puts out what is left of the packet, or as much of it as there is room for.
\<close>

section \<open>The contract of a request\<close>

text \<open>
  \<open>ready i off eb hp\<close>: \<open>off\<close> bytes of part \<open>i\<close> are out. The finder and the encoder it finds put out the
  rest of the part as far as there is room, and when all parts are out the finder finds no more.
\<close>

locale packet_source =
  fixes finder :: "'w finder" and sval :: store_value
    and parts :: "heap \<Rightarrow> byte list list" and valid :: "heap \<Rightarrow> bool"
    and ready :: "nat \<Rightarrow> nat \<Rightarrow> encode_buffer \<Rightarrow> heap \<Rightarrow> bool"
    and finished :: "heap \<Rightarrow> heap \<Rightarrow> bool"
  assumes ready_valid: "ready i off eb hp \<Longrightarrow> valid hp \<and> i \<le> length (parts hp)"
    and valid_similar: "valid hp \<Longrightarrow> similar hp hp' \<Longrightarrow> valid hp' \<and> parts hp' = parts hp"
    and start: "valid hp \<Longrightarrow> fresh_buffer eb \<Longrightarrow> i \<le> length (parts hp) \<Longrightarrow> ready i 0 eb hp"
    and step: "ready i off eb hp \<Longrightarrow> i < length (parts hp) \<Longrightarrow> off \<le> length (parts hp ! i) \<and>
      (\<exists>enc hp1. finder i sval hp = Some (Some enc, hp1) \<and>
        (\<forall>io room w. \<exists>eb' hp'. enc io sval eb off room hp1 w =
            Some (encoded_to room (drop off (parts hp ! i)), take room (drop off (parts hp ! i)), eb', hp', w) \<and>
          similar hp hp' \<and>
          (if length (drop off (parts hp ! i)) \<le> room then fresh_buffer eb' else ready i (off + room) eb' hp')))"
    and finish: "ready (length (parts hp)) off eb hp \<Longrightarrow> off = 0 \<and> fresh_buffer eb \<and>
      (\<exists>hp'. finder (length (parts hp)) sval hp = Some (None, hp') \<and> finished hp hp')"

text \<open>What is still to be put out of a packet.\<close>

definition parts_rest :: "byte list list \<Rightarrow> nat \<Rightarrow> nat \<Rightarrow> byte list" where
  "parts_rest ps i off = (if i < length ps then drop off (ps ! i) @ concat (drop (Suc i) ps) else [])"

definition tx_at :: "nat \<Rightarrow> nat \<Rightarrow> encode_buffer \<Rightarrow> heap \<Rightarrow> 'w sys \<Rightarrow> 'w sys" where
  "tx_at i off eb hp s = (upd_ti (\<lambda>t. t\<lparr>ti_pos := i, ti_offset := off, ti_buffer := eb\<rparr>) s)\<lparr>sy_heap := hp\<rparr>"

lemma tx_at_simps [simp]:
  "ti_pos (ti (tx_at i off eb hp s)) = i" "ti_offset (ti (tx_at i off eb hp s)) = off"
  "ti_buffer (ti (tx_at i off eb hp s)) = eb" "sy_heap (tx_at i off eb hp s) = hp"
  "tx_at i off eb hp (tx_at i' off' eb' hp' s) = tx_at i off eb hp s"
  "sy_world (tx_at i off eb hp s) = sy_world s" "get_store r (tx_at i off eb hp s) = get_store r s"
  "tx_store (cl_tx (tx_at i off eb hp s)) = tx_store (cl_tx s)" "tx_closed (cl_tx (tx_at i off eb hp s)) = tx_closed (cl_tx s)"
  "ti_error (ti (tx_at i off eb hp s)) = ti_error (ti s)"
  by (simp_all add: tx_at_def upd_ti_def)

definition packet_return :: "byte list \<Rightarrow> bool \<times> 'w sys \<Rightarrow> (io_result \<times> byte list \<times> 'w sys) + (byte list \<times> 'w sys)" where
  "packet_return out = (\<lambda>(ok, s). if ok then Inr (out, s) else Inl (IO_ERROR, out, s))"

lemma packet_return_bind:
  "(m \<bind> (\<lambda>(ok, s). Some (if ok then Inr (out, s) else Inl (IO_ERROR, out, s)))) = map_option (packet_return out) m"
  by (cases m) (auto simp: packet_return_def)

lemma tx_at_next:
  "upd_ti (\<lambda>t. t\<lparr>ti_pos := Suc (ti_pos t), ti_offset := 0\<rparr>)
     ((upd_ti (\<lambda>t. t\<lparr>ti_buffer := eb\<rparr>) (s\<lparr>sy_heap := hp1\<rparr>))\<lparr>sy_heap := hp, sy_world := sy_world s\<rparr>) =
   tx_at (Suc (ti_pos (ti s))) 0 eb hp s"
  by (simp add: tx_at_def upd_ti_def)

lemma tx_at_more:
  "upd_ti (\<lambda>t. t\<lparr>ti_offset := ti_offset t + k\<rparr>)
     ((upd_ti (\<lambda>t. t\<lparr>ti_buffer := eb\<rparr>) (s\<lparr>sy_heap := hp1\<rparr>))\<lparr>sy_heap := hp, sy_world := sy_world s\<rparr>) =
   tx_at (ti_pos (ti s)) (ti_offset (ti s) + k) eb hp s"
  by (simp add: tx_at_def upd_ti_def)

lemma parts_rest_Suc: "i \<le> length ps \<Longrightarrow> parts_rest ps i 0 = concat (drop i ps)"
  by (simp add: parts_rest_def Cons_nth_drop_Suc [symmetric])

context packet_source
begin

lemma packet_loop_all:
  assumes "ready (ti_pos (ti s)) (ti_offset (ti s)) (ti_buffer (ti s)) (sy_heap s)"
    and "length (parts (sy_heap s)) - ti_pos (ti s) < n" and "length out \<le> buf_len"
    and "length (parts_rest (parts (sy_heap s)) (ti_pos (ti s)) (ti_offset (ti s))) \<le> buf_len - length out"
  shows "\<exists>m eb hp hp'. similar (sy_heap s) hp \<and> finished hp hp' \<and> fresh_buffer eb \<and>
    tx_buffer_packet_loop n env k finder sval buf_len out s =
      map_option (packet_return (out @ parts_rest (parts (sy_heap s)) (ti_pos (ti s)) (ti_offset (ti s))))
        (tx_buffer_packet_done m env k sval (tx_at (length (parts (sy_heap s))) 0 eb hp' s))"
  using assms
proof (induction n arbitrary: s out)
  case 0
  then show ?case by simp
next
  case (Suc n)
  let ?ps = "parts (sy_heap s)" and ?i = "ti_pos (ti s)" and ?off = "ti_offset (ti s)"
  note rd = Suc.prems(1)
  show ?case
  proof (cases "?i < length ?ps")
    case False
    then have i: "?i = length ?ps" and rest: "parts_rest ?ps ?i ?off = []"
      using ready_valid [OF rd] by (simp_all add: parts_rest_def)
    obtain hp' where "?off = 0" "fresh_buffer (ti_buffer (ti s))" "finder (length ?ps) sval (sy_heap s) = Some (None, hp')" "finished (sy_heap s) hp'"
      using finish [of "sy_heap s"] rd i by metis
    moreover have "s\<lparr>sy_heap := hp'\<rparr> = tx_at (length ?ps) 0 (ti_buffer (ti s)) hp' s"
      using i calculation(1) by (simp add: tx_at_def upd_ti_def)
    ultimately show ?thesis
      using i rest
      by - (rule exI [of _ n], rule exI [of _ "ti_buffer (ti s)"], rule exI [of _ "sy_heap s"], rule exI [of _ hp'],
        simp add: packet_return_bind)
  next
    case True
    let ?bs = "drop ?off (?ps ! ?i)" and ?room = "buf_len - length out"
    obtain enc hp1 where enc: "finder ?i sval (sy_heap s) = Some (Some enc, hp1)"
      and st: "\<forall>io room w. \<exists>eb' hp'. enc io sval (ti_buffer (ti s)) ?off room hp1 w = Some (encoded_to room ?bs, take room ?bs, eb', hp', w) \<and>
          similar (sy_heap s) hp' \<and> (if length ?bs \<le> room then fresh_buffer eb' else ready ?i (?off + room) eb' hp')"
      using step [OF rd True] by blast
    have fit: "length ?bs \<le> ?room" using Suc.prems(4) True by (simp add: parts_rest_def)
    obtain eb' hp' where e: "enc (en_io env) sval (ti_buffer (ti s)) ?off ?room hp1 (sy_world s) = Some (ENCODE_FINISHED, ?bs, eb', hp', sy_world s)"
        "similar (sy_heap s) hp'" "fresh_buffer eb'"
      using st fit by (metis encoded_to_def take_all)
    let ?s = "tx_at (Suc ?i) 0 eb' hp' s"
    have same: "parts hp' = ?ps" "valid hp'" using valid_similar [OF _ e(2)] ready_valid [OF rd] by simp_all
    have rest: "parts_rest ?ps ?i ?off = ?bs @ parts_rest ?ps (Suc ?i) 0"
      using True parts_rest_Suc [of "Suc ?i" ?ps] by (simp add: parts_rest_def [of ?ps ?i ?off])
    have "ready (ti_pos (ti ?s)) (ti_offset (ti ?s)) (ti_buffer (ti ?s)) (sy_heap ?s)"
      using start [OF same(2) e(3), of "Suc ?i"] True same(1) by simp
    note rd' = this
    have b: "length (out @ ?bs) \<le> buf_len" using fit Suc.prems(3) by auto
    have a: "length (parts (sy_heap ?s)) - ti_pos (ti ?s) < n" using Suc.prems(2) True same(1) by simp
    have c: "length (parts_rest (parts (sy_heap ?s)) (ti_pos (ti ?s)) (ti_offset (ti ?s))) \<le> buf_len - length (out @ ?bs)"
      using Suc.prems(4) same(1) unfolding rest by simp
    obtain m eb hp hp'' where ih: "similar hp' hp" "finished hp hp''" "fresh_buffer eb"
        "tx_buffer_packet_loop n env k finder sval buf_len (out @ ?bs) ?s =
          map_option (packet_return ((out @ ?bs) @ parts_rest ?ps (Suc ?i) 0)) (tx_buffer_packet_done m env k sval (tx_at (length ?ps) 0 eb hp'' s))"
      using Suc.IH [OF rd' a b c] same(1) by (simp del: append_assoc length_append) blast
    have "tx_buffer_packet_loop (Suc n) env k finder sval buf_len out s = tx_buffer_packet_loop n env k finder sval buf_len (out @ ?bs) ?s"
      using enc e(1) by (simp add: tx_at_next)
    then show ?thesis using ih similar_trans [OF e(2) ih(1)] by (metis append_assoc rest)
  qed
qed

lemma packet_loop_some:
  assumes "ready (ti_pos (ti s)) (ti_offset (ti s)) (ti_buffer (ti s)) (sy_heap s)"
    and "length (parts (sy_heap s)) - ti_pos (ti s) < n" and "length out \<le> buf_len"
    and "buf_len - length out < length (parts_rest (parts (sy_heap s)) (ti_pos (ti s)) (ti_offset (ti s)))"
  shows "\<exists>i off eb hp. similar (sy_heap s) hp \<and> ready i off eb hp \<and>
    parts_rest (parts hp) i off = drop (buf_len - length out) (parts_rest (parts (sy_heap s)) (ti_pos (ti s)) (ti_offset (ti s))) \<and>
    tx_buffer_packet_loop n env k finder sval buf_len out s =
      Some (Inl (IO_SUCCESS, out @ take (buf_len - length out) (parts_rest (parts (sy_heap s)) (ti_pos (ti s)) (ti_offset (ti s))),
        tx_at i off eb hp s))"
  using assms
proof (induction n arbitrary: s out)
  case 0
  then show ?case by simp
next
  case (Suc n)
  let ?ps = "parts (sy_heap s)" and ?i = "ti_pos (ti s)" and ?off = "ti_offset (ti s)"
  let ?bs = "drop ?off (?ps ! ?i)" and ?room = "buf_len - length out"
  note rd = Suc.prems(1)
  have True: "?i < length ?ps" using Suc.prems(4) by (auto simp: parts_rest_def split: if_splits)
  obtain enc hp1 where enc: "finder ?i sval (sy_heap s) = Some (Some enc, hp1)" and off: "?off \<le> length (?ps ! ?i)"
    and st: "\<forall>io room w. \<exists>eb' hp'. enc io sval (ti_buffer (ti s)) ?off room hp1 w = Some (encoded_to room ?bs, take room ?bs, eb', hp', w) \<and>
        similar (sy_heap s) hp' \<and> (if length ?bs \<le> room then fresh_buffer eb' else ready ?i (?off + room) eb' hp')"
    using step [OF rd True] by blast
  obtain eb' hp' where e: "enc (en_io env) sval (ti_buffer (ti s)) ?off ?room hp1 (sy_world s) = Some (encoded_to ?room ?bs, take ?room ?bs, eb', hp', sy_world s)"
      "similar (sy_heap s) hp'" "if length ?bs \<le> ?room then fresh_buffer eb' else ready ?i (?off + ?room) eb' hp'"
    using st by blast
  have same: "parts hp' = ?ps" "valid hp'" using valid_similar [OF _ e(2)] ready_valid [OF rd] by simp_all
  have rest: "parts_rest ?ps ?i ?off = ?bs @ parts_rest ?ps (Suc ?i) 0"
    using True parts_rest_Suc [of "Suc ?i" ?ps] by (simp add: parts_rest_def [of ?ps ?i ?off])
  show ?case
  proof (cases "length ?bs \<le> ?room")
    case fit: True
    let ?s = "tx_at (Suc ?i) 0 eb' hp' s"
    have "ready (ti_pos (ti ?s)) (ti_offset (ti ?s)) (ti_buffer (ti ?s)) (sy_heap ?s)"
      using start [OF same(2), of eb' "Suc ?i"] True same(1) e(3) fit by simp
    note rd' = this
    let ?room2 = "buf_len - length (out @ ?bs)"
    have room: "?room = length ?bs + ?room2" and b: "length (out @ ?bs) \<le> buf_len" using fit Suc.prems(3) by auto
    have a: "length (parts (sy_heap ?s)) - ti_pos (ti ?s) < n" using Suc.prems(2) True same(1) by simp
    have c: "?room2 < length (parts_rest (parts (sy_heap ?s)) (ti_pos (ti ?s)) (ti_offset (ti ?s)))"
      using Suc.prems(4) same(1) unfolding rest room by simp
    obtain i off eb hp where ih: "similar hp' hp" "ready i off eb hp"
        "parts_rest (parts hp) i off = drop ?room2 (parts_rest ?ps (Suc ?i) 0)"
        "tx_buffer_packet_loop n env k finder sval buf_len (out @ ?bs) ?s =
          Some (Inl (IO_SUCCESS, (out @ ?bs) @ take ?room2 (parts_rest ?ps (Suc ?i) 0), tx_at i off eb hp s))"
      using Suc.IH [OF rd' a b c] same(1) by (simp del: append_assoc length_append) blast
    have "tx_buffer_packet_loop (Suc n) env k finder sval buf_len out s = tx_buffer_packet_loop n env k finder sval buf_len (out @ ?bs) ?s"
      using enc e(1) fit by (simp add: tx_at_next tx_at_more encoded_to_def)
    then show ?thesis
      using ih similar_trans [OF e(2) ih(1)] fit
      by - (rule exI [of _ i], rule exI [of _ off], rule exI [of _ eb], rule exI [of _ hp], simp add: rest room)
  next
    case False
    then have "tx_buffer_packet_loop (Suc n) env k finder sval buf_len out s =
        Some (Inl (IO_SUCCESS, out @ take ?room ?bs, tx_at ?i (?off + ?room) eb' hp' s))"
      using enc e(1) by (simp add: tx_at_next tx_at_more encoded_to_def)
    moreover have "parts_rest ?ps ?i (?off + ?room) = drop ?room (parts_rest ?ps ?i ?off)"
      using True False by (simp add: parts_rest_def add.commute)
    ultimately show ?thesis
      using e False same(1)
      by - (rule exI [of _ ?i], rule exI [of _ "?off + ?room"], rule exI [of _ eb'], rule exI [of _ hp'], simp add: rest)
  qed
qed

end

end
