(* ===== verification/Packet_Requests.thy ===== *)
theory Packet_Requests
  imports Packet_Source
begin

text \<open>
  Every kind of request keeps the contract of \<open>Packet_Source\<close>: the finders and encoders of
  \<open>src/lmqtt_packet.c\<close> one by one, then the interpretation of the locale.
\<close>

section \<open>Requests fulfil the contract\<close>

fun connect_string :: "connect \<Rightarrow> nat \<Rightarrow> lstring option" where
  "connect_string c i = (if i = 2 then Some (cn_client_id c) else if i = 3 then Some (cn_will_topic c)
     else if i = 4 then Some (cn_will_message c) else if i = 5 then Some (cn_user_name c)
     else if i = 6 then Some (cn_password c) else None)"

definition publish_string :: "publish \<Rightarrow> nat \<Rightarrow> (bool \<times> lstring) option" where
  "publish_string m i = (if i = 1 then Some (True, pb_topic m)
     else if i = (if pb_qos m = QOS_0 then 2 else 3) then Some (False, pb_payload m) else None)"

definition subscribe_string :: "subscription list \<Rightarrow> nat \<Rightarrow> lstring option" where
  "subscribe_string subs i = (if odd i \<and> i div 2 < length subs then Some (sn_topic (subs ! (i div 2))) else None)"

definition unsubscribe_string :: "subscription list \<Rightarrow> nat \<Rightarrow> lstring option" where
  "unsubscribe_string subs i = (if 0 < i \<and> i - 1 < length subs then Some (sn_topic (subs ! (i - 1))) else None)"

text \<open>The string that part \<open>i\<close> puts out, if it is not a header, and whether its length comes first.\<close>

fun request_string :: "heap \<Rightarrow> kind \<Rightarrow> store_value \<Rightarrow> nat \<Rightarrow> (bool \<times> lstring) option" where
  "request_string hp KIND_CONNECT v i =
     (case get_connect hp (sv_value v) of Some (a, c) \<Rightarrow> map_option (Pair True) (connect_string c i) | None \<Rightarrow> None)"
| "request_string hp KIND_SUBSCRIBE v i = (case get_subscribe hp (sv_value v) of
     Some (a, s) \<Rightarrow> map_option (Pair True) (subscribe_string (subscriptions_of s) i) | None \<Rightarrow> None)"
| "request_string hp KIND_UNSUBSCRIBE v i = (case get_subscribe hp (sv_value v) of
     Some (a, s) \<Rightarrow> map_option (Pair True) (unsubscribe_string (subscriptions_of s) i) | None \<Rightarrow> None)"
| "request_string hp KIND_PUBLISH_0 v i = (case get_publish hp (sv_value v) of Some (a, m) \<Rightarrow> publish_string m i | None \<Rightarrow> None)"
| "request_string hp KIND_PUBLISH_1 v i = (case get_publish hp (sv_value v) of Some (a, m) \<Rightarrow> publish_string m i | None \<Rightarrow> None)"
| "request_string hp KIND_PUBLISH_2 v i = (case get_publish hp (sv_value v) of Some (a, m) \<Rightarrow> publish_string m i | None \<Rightarrow> None)"
| "request_string hp _ v i = None"

definition request_finder :: "kind \<Rightarrow> 'w finder" where
  "request_finder k = (case tx_buffer_finder_by_kind k of Some f \<Rightarrow> f | None \<Rightarrow> (\<lambda>_ _ _. None))"

definition request_ready :: "kind \<Rightarrow> store_value \<Rightarrow> nat \<Rightarrow> nat \<Rightarrow> encode_buffer \<Rightarrow> heap \<Rightarrow> bool" where
  "request_ready k v i off eb hp \<longleftrightarrow> request_valid hp k v \<and> i \<le> length (request_parts hp k v) \<and>
     (case request_string hp k v i of
        Some (l, str) \<Rightarrow> field_ready l str off eb
      | None \<Rightarrow> if i < length (request_parts hp k v) then part_buffer (request_parts hp k v ! i) off eb
          else off = 0 \<and> fresh_buffer eb)"

definition request_step :: "'w itself \<Rightarrow> kind \<Rightarrow> store_value \<Rightarrow> nat \<Rightarrow> nat \<Rightarrow> encode_buffer \<Rightarrow> heap \<Rightarrow> bool" where
  "request_step T k v i off eb hp \<longleftrightarrow> off \<le> length (request_parts hp k v ! i) \<and>
     (\<exists>enc hp1. (request_finder k :: 'w finder) i v hp = Some (Some enc, hp1) \<and>
       (\<forall>io room w. \<exists>eb' hp'. enc io v eb off room hp1 w =
          Some (encoded_to room (drop off (request_parts hp k v ! i)), take room (drop off (request_parts hp k v ! i)), eb', hp', w) \<and>
        similar hp hp' \<and>
        (if length (drop off (request_parts hp k v ! i)) \<le> room then fresh_buffer eb' else request_ready k v i (off + room) eb' hp')))"

lemma header_step:
  assumes "request_ready k v i off eb hp" and "i < length (request_parts hp k v)"
    and "request_string hp k v i = None" and "request_string hp1 k v i = None" and "similar hp hp1"
    and "(request_finder k :: 'w finder) i v hp = Some (Some (encode_built builder), hp1)"
    and "builds builder v hp1 (request_parts hp k v ! i)"
  shows "request_step (T :: 'w itself) k v i off eb hp"
proof -
  let ?bs = "request_parts hp k v ! i"
  have buf: "part_buffer ?bs off eb" and valid: "request_valid hp k v" using assms(1-3) by (auto simp: request_ready_def)
  have "request_valid hp1 k v" "request_parts hp1 k v = request_parts hp k v"
    using request_similar [OF valid assms(5)] by simp_all
  then have rd: "part_buffer ?bs o' eb' \<Longrightarrow> request_ready k v i o' eb' hp1" for o' eb'
    using assms(2,4) by (simp add: request_ready_def)
  have off: "off \<le> length ?bs" using buf by (simp add: part_buffer_def)
  have "\<exists>eb' hp'. encode_built builder io v eb off room hp1 w =
        Some (encoded_to room (drop off ?bs), take room (drop off ?bs), eb', hp', w) \<and> similar hp hp' \<and>
      (if length (drop off ?bs) \<le> room then fresh_buffer eb' else request_ready k v i (off + room) eb' hp')"
    for io :: "'w io_env" and room w
  proof -
    obtain eb' where "encode_built builder io v eb off room hp1 w = Some (encoded_to room (drop off ?bs), take room (drop off ?bs), eb', hp1, w)"
        "if length (drop off ?bs) \<le> room then fresh_buffer eb' else part_buffer ?bs (off + room) eb'"
      using encode_built_step [OF assms(7) buf, of io room w] by blast
    then show ?thesis
      using assms(5) rd by (intro exI [of _ eb'] exI [of _ hp1]) (auto split: if_splits)
  qed
  then show ?thesis unfolding request_step_def using off assms(6) by blast
qed

lemma string_part_step:
  assumes "request_ready k v i off eb hp" and "i < length (request_parts hp k v)"
    and "request_string hp k v i = Some (l, str)" and "request_parts hp k v ! i = string_part l str"
    and "(request_finder k :: 'w finder) i v hp = Some (Some enc, hp1)"
    and enc: "\<And>io room w. enc io v eb off room hp1 w =
      do { (res, out, str', eb', w') \<leftarrow> string_encode io self str l e off room eb w; Some (res, out, eb', hp1(a \<mapsto> put str'), w') }"
    and sim: "\<And>p. similar hp (hp1(a \<mapsto> put (str\<lparr>str_pos := p\<rparr>)))"
    and put: "\<And>p. request_string (hp1(a \<mapsto> put (str\<lparr>str_pos := p\<rparr>))) k v i = Some (l, str\<lparr>str_pos := p\<rparr>)"
    and "str_len str = 0 \<longrightarrow> \<not> e"
  shows "request_step (T :: 'w itself) k v i off eb hp"
proof -
  let ?bs = "string_part l str"
  have rdy: "field_ready l str off eb" and valid: "request_valid hp k v" using assms(1-3) by (auto simp: request_ready_def)
  have rd: "request_ready k v i o' eb' (hp1(a \<mapsto> put (str\<lparr>str_pos := p\<rparr>)))" if "field_ready l (str\<lparr>str_pos := p\<rparr>) o' eb'" for o' eb' p
    using that assms(2) request_similar [OF valid sim [of p]] put [of p] by (simp add: request_ready_def)
  have off: "off \<le> length ?bs" using rdy by (auto simp: field_ready_def string_part_def string_ready_def split: if_splits)
  have "\<exists>eb' hp'. enc io v eb off room hp1 w =
        Some (encoded_to room (drop off ?bs), take room (drop off ?bs), eb', hp', w) \<and> similar hp hp' \<and>
      (if length (drop off ?bs) \<le> room then fresh_buffer eb' else request_ready k v i (off + room) eb' hp')"
    for io :: "'w io_env" and room w
  proof -
    obtain p eb' where "string_encode io self str l e off room eb w = Some (encoded_to room (drop off ?bs), take room (drop off ?bs), str\<lparr>str_pos := p\<rparr>, eb', w)"
        "fresh_buffer eb'" "room < length (drop off ?bs) \<longrightarrow> field_ready l (str\<lparr>str_pos := p\<rparr>) (off + room) eb'"
      using string_encode_step [OF rdy assms(9), of io self room w] by blast
    then show ?thesis
      using enc [of io room w] sim [of p] rd [of p "off + room" eb']
      by (intro exI [of _ eb'] exI [of _ "hp1(a \<mapsto> put (str\<lparr>str_pos := p\<rparr>))"]) (cases "room < length (drop off ?bs)"; simp)
  qed
  then show ?thesis unfolding request_step_def assms(4) using off assms(5) by blast
qed

lemma publish_step:
  assumes rd: "request_ready k v i off eb hp" and i: "i < length (request_parts hp k v)"
    and k: "k = KIND_PUBLISH_0 \<or> k = KIND_PUBLISH_1 \<or> k = KIND_PUBLISH_2"
  shows "request_step (T :: 'w itself) k v i off eb hp"
proof -
  obtain a m where m: "get_publish hp (sv_value v) = Some (a, m)" "publish_sendable m"
    using rd k by (auto simp: request_ready_def split: option.splits simp del: get_iffs)
  then have hp: "sv_value v = Some a" "hp a = Some (OPublish m)" by simp_all
  have parts: "request_parts hp k v = publish_parts (sv_packet_id v) m" using k m by (auto simp del: get_iffs)
  have str: "request_string hp k v j = publish_string m j" for j using k m by (auto simp del: get_iffs)
  have put: "request_string (hp(a \<mapsto> OPublish m')) k v j = publish_string m' j" for m' j
    using k hp(1) by (auto simp: get_publish_def)
  have finder: "(request_finder k :: 'w finder) = tx_buffer_finder_publish" using k by (auto simp: request_finder_def)
  have n: "length (publish_parts (sv_packet_id v) m) = (if pb_qos m = QOS_0 then 3 else 4)" by (simp add: publish_parts_def)
  consider "i = 0" | "i = 1" | "i = 2" "pb_qos m \<noteq> QOS_0" | "i = (if pb_qos m = QOS_0 then 2 else 3)"
    using i unfolding parts n by (cases "pb_qos m = QOS_0"; simp; arith)
  then show ?thesis
  proof cases
    case 1
    then show ?thesis
      using header_step [OF rd i, where ?hp1.0 = hp and builder = publish_build_fixed_header and T = T] publish_header_builds [OF m] m
      by (simp add: str finder parts publish_string_def tx_buffer_finder_publish_def publish_parts_def
          publish_encode_fixed_header_def del: get_iffs)
  next
    case 2
    show ?thesis
    proof (rule string_part_step [OF rd i, of True "pb_topic m" publish_encode_topic hp "HEAP_STR a FIELD_TOPIC" True a "\<lambda>s. OPublish (m\<lparr>pb_topic := s\<rparr>)"])
      show "str_len (pb_topic m) = 0 \<longrightarrow> \<not> True" using m(2) by (auto simp: publish_sendable_def lmqtt_publish_validate_def)
    qed (use 2 m hp in \<open>simp_all add: str put finder parts publish_string_def tx_buffer_finder_publish_def publish_parts_def
          publish_encode_topic_def similar_update settle_publish_def del: get_iffs\<close>)
  next
    case 3
    then show ?thesis
      using header_step [OF rd i, where ?hp1.0 = hp and builder = publish_build_packet_id and T = T] publish_id_builds m
      by (simp add: str finder parts publish_string_def tx_buffer_finder_publish_def publish_parts_def
          publish_encode_packet_id_def del: get_iffs)
  next
    case 4
    show ?thesis
    proof (rule string_part_step [OF rd i, of False "pb_payload m" publish_encode_payload hp "HEAP_STR a FIELD_PAYLOAD" False a "\<lambda>s. OPublish (m\<lparr>pb_payload := s\<rparr>)"])
    qed (use 4 m hp in \<open>simp_all add: str put finder parts publish_string_def tx_buffer_finder_publish_def publish_parts_def
          publish_encode_payload_def similar_update settle_publish_def del: get_iffs split: if_splits\<close>)
  qed
qed

lemma get_update:
  "get_connect (hp(a \<mapsto> OConnect c)) (Some a) = Some (a, c)"
  "get_subscribe (hp(a \<mapsto> OSubscribe s)) (Some a) = Some (a, s)"
  by simp_all

lemma connect_step:
  assumes rd: "request_ready KIND_CONNECT v i off eb hp" and i: "i < length (request_parts hp KIND_CONNECT v)"
  shows "request_step (T :: 'w itself) KIND_CONNECT v i off eb hp"
proof -
  obtain a c where c: "get_connect hp (sv_value v) = Some (a, c)" "connect_sendable c"
    using rd by (auto simp: request_ready_def split: option.splits simp del: get_iffs)
  then have hp: "sv_value v = Some a" "hp a = Some (OConnect c)" by simp_all
  have valid: "lmqtt_connect_validate c" using c(2) by (simp add: connect_sendable_def)
  have n: "length (request_parts hp KIND_CONNECT v) = 7" using c(1) by (simp add: connect_parts_def del: get_iffs)
  have finder: "(request_finder KIND_CONNECT :: 'w finder) = tx_buffer_finder_connect" by (simp add: request_finder_def)
  have "i < 7" using i n by simp
  then consider "i = 0" | "i = 1" | "i = 2" | "i = 3" | "i = 4" | "i = 5" | "i = 6" by linarith
  then show ?thesis
  proof cases
    case 1
    then show ?thesis
      using header_step [OF rd i, where ?hp1.0 = hp and builder = connect_build_fixed_header and T = T]
        connect_fixed_builds [OF c(1) valid]
      by (simp add: c(1) finder tx_buffer_finder_connect_def connect_parts_def connect_encode_fixed_header_def del: get_iffs)
  next
    case 2
    then show ?thesis
      using header_step [OF rd i, where ?hp1.0 = hp and builder = connect_build_variable_header and T = T]
        connect_variable_builds [OF c(1)]
      by (simp add: c(1) finder tx_buffer_finder_connect_def connect_parts_def connect_encode_variable_header_def del: get_iffs)
  next
    case 3
    show ?thesis
    proof (rule string_part_step [OF rd i, of True "cn_client_id c" connect_encode_payload_client_id hp "HEAP_STR a FIELD_CLIENT_ID" True a "\<lambda>s. OConnect (c\<lparr>cn_client_id := s\<rparr>)"])
      show "str_len (cn_client_id c) = 0 \<longrightarrow> \<not> True" using c(2) by (simp add: connect_sendable_def)
    qed (use 3 c hp in \<open>simp_all add: get_update finder tx_buffer_finder_connect_def connect_parts_def
          connect_encode_payload_client_id_def similar_update settle_connect_def del: get_iffs\<close>)
  next
    case 4
    show ?thesis
    proof (rule string_part_step [OF rd i, of True "cn_will_topic c" connect_encode_payload_will_topic hp "HEAP_STR a FIELD_WILL_TOPIC" False a "\<lambda>s. OConnect (c\<lparr>cn_will_topic := s\<rparr>)"])
    qed (use 4 c hp in \<open>simp_all add: get_update finder tx_buffer_finder_connect_def connect_parts_def
          connect_encode_payload_will_topic_def similar_update settle_connect_def del: get_iffs\<close>)
  next
    case 5
    show ?thesis
    proof (rule string_part_step [OF rd i, of True "cn_will_message c" connect_encode_payload_will_message hp "HEAP_STR a FIELD_WILL_MESSAGE" False a "\<lambda>s. OConnect (c\<lparr>cn_will_message := s\<rparr>)"])
    qed (use 5 c hp in \<open>simp_all add: get_update finder tx_buffer_finder_connect_def connect_parts_def
          connect_encode_payload_will_message_def similar_update settle_connect_def del: get_iffs\<close>)
  next
    case 6
    show ?thesis
    proof (rule string_part_step [OF rd i, of True "cn_user_name c" connect_encode_payload_user_name hp "HEAP_STR a FIELD_USER_NAME" False a "\<lambda>s. OConnect (c\<lparr>cn_user_name := s\<rparr>)"])
    qed (use 6 c hp in \<open>simp_all add: get_update finder tx_buffer_finder_connect_def connect_parts_def
          connect_encode_payload_user_name_def similar_update settle_connect_def del: get_iffs\<close>)
  next
    case 7
    show ?thesis
    proof (rule string_part_step [OF rd i, of True "cn_password c" connect_encode_payload_password hp "HEAP_STR a FIELD_PASSWORD" False a "\<lambda>s. OConnect (c\<lparr>cn_password := s\<rparr>)"])
    qed (use 7 c hp in \<open>simp_all add: get_update finder tx_buffer_finder_connect_def connect_parts_def
          connect_encode_payload_password_def similar_update settle_connect_def del: get_iffs\<close>)
  qed
qed

lemma single_step:
  assumes rd: "request_ready k v i off eb hp" and i: "i < length (request_parts hp k v)"
    and k: "k \<in> {KIND_PUBACK, KIND_PUBREC, KIND_PUBREL, KIND_PUBCOMP, KIND_PINGREQ, KIND_DISCONNECT}"
  shows "request_step (T :: 'w itself) k v i off eb hp"
proof -
  have i0: "i = 0" using i k by auto
  note header = header_step [OF rd i, where ?hp1.0 = hp and T = T]
  have str: "request_string hp k v i = None" using k by auto
  show ?thesis
    using k
  proof (elim insertE)
    assume "k = KIND_PUBACK"
    then show ?thesis using header [OF str str, of puback_build] ack_builds i0
      by (simp add: request_finder_def tx_buffer_finder_puback_def puback_encode_fixed_header_def)
  next
    assume "k = KIND_PUBREC"
    then show ?thesis using header [OF str str, of pubrec_build] ack_builds i0
      by (simp add: request_finder_def tx_buffer_finder_pubrec_def pubrec_encode_fixed_header_def)
  next
    assume "k = KIND_PUBREL"
    then show ?thesis using header [OF str str, of pubrel_build] ack_builds i0
      by (simp add: request_finder_def tx_buffer_finder_pubrel_def pubrel_encode_fixed_header_def)
  next
    assume "k = KIND_PUBCOMP"
    then show ?thesis using header [OF str str, of pubcomp_build] ack_builds i0
      by (simp add: request_finder_def tx_buffer_finder_pubcomp_def pubcomp_encode_fixed_header_def)
  next
    assume "k = KIND_PINGREQ"
    then show ?thesis using header [OF str str, of pingreq_build] ping_builds i0
      by (simp add: request_finder_def tx_buffer_finder_pingreq_def pingreq_encode_fixed_header_def)
  next
    assume "k = KIND_DISCONNECT"
    then show ?thesis using header [OF str str, of disconnect_build] ping_builds i0
      by (simp add: request_finder_def tx_buffer_finder_disconnect_def disconnect_encode_fixed_header_def)
  qed simp
qed

lemma nth_pairs: "j < 2 * length xs \<Longrightarrow>
    concat (map (\<lambda>x. [f x, g x]) xs) ! j = (if even j then f (xs ! (j div 2)) else g (xs ! (j div 2)))"
proof (induction xs arbitrary: j)
  case Nil
  then show ?case by simp
next
  case (Cons x xs)
  then show ?case by (cases j; cases "j - 1") auto
qed

lemma length_pairs: "length (concat (map (\<lambda>x. [f x, g x]) xs)) = 2 * length xs"
  by (induction xs) simp_all

lemma subscriptions_size_pos: "\<forall>x \<in> set subs. valid_subscription x \<Longrightarrow> 0 \<le> subscriptions_size q subs"
  unfolding subscriptions_size_def
  by (intro add_nonneg_nonneg sum_list_nonneg) (auto simp: valid_subscription_def)

lemma subscribe_sendableD:
  assumes "subscribe_sendable q s"
  shows "sb_subscriptions s = Some (subscriptions_of s)" "sb_count s = int (length (subscriptions_of s))"
    "x \<in> set (subscriptions_of s) \<Longrightarrow> str_len (sn_topic x) \<noteq> 0"
    "subscribe_calc_remaining_length s q = Some (subscriptions_size q (subscriptions_of s))"
    "0 \<le> subscriptions_size q (subscriptions_of s)" "subscriptions_size q (subscriptions_of s) \<le> 268435455"
proof -
  show s: "sb_subscriptions s = Some (subscriptions_of s)" "sb_count s = int (length (subscriptions_of s))"
    using assms by (auto simp: subscribe_sendable_def subscriptions_of_def)
  show "subscribe_calc_remaining_length s q = Some (subscriptions_size q (subscriptions_of s))"
    using subscribe_calc_spec [OF s] by (simp add: subscriptions_size_def)
qed (use assms subscriptions_size_pos in \<open>auto simp: subscribe_sendable_def valid_subscription_def\<close>)

lemma settle_current: "settle_subscribe (s\<lparr>sb_current := j\<rparr>) = settle_subscribe s"
  by (simp add: settle_subscribe_def)

lemma settle_topic:
  assumes "sb_subscriptions s = Some subs" and "j < length subs"
  shows "settle_subscribe (s\<lparr>sb_current := i, sb_subscriptions := Some (subs[j := (subs ! j)\<lparr>sn_topic := (sn_topic (subs ! j))\<lparr>str_pos := p\<rparr>\<rparr>])\<rparr>) =
    settle_subscribe s"
proof -
  have "settle_subscription ((subs ! j)\<lparr>sn_topic := (sn_topic (subs ! j))\<lparr>str_pos := p\<rparr>\<rparr>) = settle_subscription (subs ! j)"
    by (simp add: settle_subscription_def)
  then have "map settle_subscription (subs[j := (subs ! j)\<lparr>sn_topic := (sn_topic (subs ! j))\<lparr>str_pos := p\<rparr>\<rparr>]) = map settle_subscription subs"
    using assms(2) by (simp add: map_update list_update_same_conv)
  then show ?thesis using assms(1) by (simp add: settle_subscribe_def)
qed

lemma topic_step:
  assumes rd: "request_ready k v i off eb hp" and i: "i < length (request_parts hp k v)"
    and s: "sv_value v = Some a" "hp a = Some (OSubscribe s)" "sb_subscriptions s = Some subs" "j < length subs"
    and len: "str_len (sn_topic (subs ! j)) \<noteq> 0" and part: "request_parts hp k v ! i = string_part True (sn_topic (subs ! j))"
    and finder: "(request_finder k :: 'w finder) i v hp = Some (Some subscribe_encode_topic, hp(a \<mapsto> OSubscribe (s\<lparr>sb_current := Some j\<rparr>)))"
    and str: "\<And>s'. length (subscriptions_of s') = length subs \<Longrightarrow>
      request_string (hp(a \<mapsto> OSubscribe s')) k v i = Some (True, sn_topic (subscriptions_of s' ! j))"
  shows "request_step (T :: 'w itself) k v i off eb hp"
proof -
  let ?str = "sn_topic (subs ! j)"
  let ?put = "\<lambda>t. OSubscribe (s\<lparr>sb_current := Some j, sb_subscriptions := Some (subs[j := (subs ! j)\<lparr>sn_topic := t\<rparr>])\<rparr>)"
  have hp: "hp(a \<mapsto> OSubscribe s) = hp" using s(2) by auto
  show ?thesis
  proof (rule string_part_step [OF rd i, of True ?str subscribe_encode_topic "hp(a \<mapsto> OSubscribe (s\<lparr>sb_current := Some j\<rparr>))"
        "HEAP_STR a (FIELD_SUBSCRIPTION j)" True a ?put])
    show "request_string hp k v i = Some (True, ?str)"
      using str [of s] s(3) by (simp add: hp subscriptions_of_def)
    show "subscribe_encode_topic io v eb off room (hp(a \<mapsto> OSubscribe (s\<lparr>sb_current := Some j\<rparr>))) w =
        do { (res, out, str', eb', w') \<leftarrow> string_encode io (HEAP_STR a (FIELD_SUBSCRIPTION j)) ?str True True off room eb w;
          Some (res, out, eb', (hp(a \<mapsto> OSubscribe (s\<lparr>sb_current := Some j\<rparr>)))(a \<mapsto> ?put str'), w') }"
      for io :: "'w io_env" and room w
      using s by (simp add: subscribe_encode_topic_def get_update current_subscription_def arr_simps del: get_iffs)
    show "similar hp ((hp(a \<mapsto> OSubscribe (s\<lparr>sb_current := Some j\<rparr>)))(a \<mapsto> ?put (?str\<lparr>str_pos := p\<rparr>)))" for p
      using similar_update [of hp a "OSubscribe s" "?put (?str\<lparr>str_pos := p\<rparr>)"] settle_topic [OF s(3,4)] s(2) by simp
    show "request_string ((hp(a \<mapsto> OSubscribe (s\<lparr>sb_current := Some j\<rparr>)))(a \<mapsto> ?put (?str\<lparr>str_pos := p\<rparr>))) k v i = Some (True, ?str\<lparr>str_pos := p\<rparr>)" for p
      using str [of "s\<lparr>sb_current := Some j, sb_subscriptions := Some (subs[j := (subs ! j)\<lparr>sn_topic := ?str\<lparr>str_pos := p\<rparr>\<rparr>])\<rparr>"] s(4)
      by (simp add: subscriptions_of_def)
  qed (use part finder len in simp_all)
qed

lemma qos_builds:
  assumes "sv_value v = Some a" and "hp a = Some (OSubscribe s)" and "sb_subscriptions s = Some subs"
    and "sb_current s = Some j" and "j < length subs"
  shows "builds subscribe_build_qos v hp [word_of_int (sn_requested_qos (subs ! j))]"
proof (rule buildsI [of _ 1])
  fix eb :: encode_buffer
  assume "length (eb_buf eb) = 16"
  then obtain x xs where "eb_buf eb = x # xs" "length xs = 15" using buffer_two [of eb] by auto
  then show "\<exists>buf. subscribe_build_qos v hp eb = Some (eb\<lparr>eb_buf := buf, eb_buf_len := 1\<rparr>) \<and>
      length buf = 16 \<and> take 1 buf = [word_of_int (sn_requested_qos (subs ! j))]"
    using assms by (intro exI [of _ "word_of_int (sn_requested_qos (subs ! j)) # xs"])
      (simp add: subscribe_build_qos_def get_subscribe_def current_subscription_def arr_simps del: arr_iffs get_iffs)
qed simp_all

lemma subscribe_step:
  assumes rd: "request_ready KIND_SUBSCRIBE v i off eb hp" and i: "i < length (request_parts hp KIND_SUBSCRIBE v)"
  shows "request_step (T :: 'w itself) KIND_SUBSCRIBE v i off eb hp"
proof -
  obtain a s where s: "get_subscribe hp (sv_value v) = Some (a, s)" "subscribe_sendable True s"
    using rd by (auto simp: request_ready_def split: option.splits simp del: get_iffs)
  then have hp: "sv_value v = Some a" "hp a = Some (OSubscribe s)" by simp_all
  note ok = subscribe_sendableD [OF s(2)]
  let ?subs = "subscriptions_of s"
  have parts: "request_parts hp KIND_SUBSCRIBE v = subscribe_parts (sv_packet_id v) ?subs" using s by (simp del: get_iffs)
  have str: "request_string (hp(a \<mapsto> OSubscribe s')) KIND_SUBSCRIBE v j = map_option (Pair True) (subscribe_string (subscriptions_of s') j)" for s' j
    using hp(1) by (simp add: get_update del: get_iffs)
  have finder: "(request_finder KIND_SUBSCRIBE :: 'w finder) = tx_buffer_finder_subscribe" by (simp add: request_finder_def)
  have pos: "i \<le> 2 * length ?subs" using i unfolding parts by (simp add: subscribe_parts_def length_pairs)
  have sim: "similar hp (hp(a \<mapsto> OSubscribe (s\<lparr>sb_current := c\<rparr>)))" for c
    using similar_update [of hp a "OSubscribe s"] hp(2) settle_current by simp
  show ?thesis
  proof (cases "i = 0")
    case True
    have "builds subscribe_build_header_subscribe v (hp(a \<mapsto> OSubscribe (s\<lparr>sb_current := None\<rparr>)))
        (header_of (word_of_int (push_bit 4 TYPE_SUBSCRIBE OR 0x02)) (subscriptions_size True ?subs) @ be16 (uint (sv_packet_id v)))"
      by (rule packet_id_builds)
        (use ok(4-6) hp in \<open>simp_all add: subscribe_build_header_subscribe_def get_update subscribe_calc_remaining_length_def del: get_iffs\<close>)
    then show ?thesis
      using header_step [OF rd i, where ?hp1.0 = "hp(a \<mapsto> OSubscribe (s\<lparr>sb_current := None\<rparr>))" and
          builder = subscribe_build_header_subscribe and T = T] sim str [of s] hp s True
      by (simp add: finder tx_buffer_finder_subscribe_def subscribe_parts_def subscribe_string_def get_update
          subscribe_encode_header_subscribe_def fun_upd_idem del: get_iffs)
  next
    case False
    then obtain j where j: "i = Suc j" "j < 2 * length ?subs" using pos by (cases i) auto
    then have half: "j div 2 < length ?subs" by simp
    have part: "request_parts hp KIND_SUBSCRIBE v ! i = (if even j then string_part True (sn_topic (?subs ! (j div 2)))
        else [word_of_int (sn_requested_qos (?subs ! (j div 2)))])"
      unfolding parts subscribe_parts_def j(1) by (simp add: nth_pairs [OF j(2)])
    have find: "(request_finder KIND_SUBSCRIBE :: 'w finder) i v hp =
        Some (Some (if even j then subscribe_encode_topic else subscribe_encode_qos), hp(a \<mapsto> OSubscribe (s\<lparr>sb_current := Some (j div 2)\<rparr>)))"
      using s(1) ok(2) j by (simp add: finder tx_buffer_finder_subscribe_def even_iff_mod_2_eq_zero del: get_iffs)
    show ?thesis
    proof (cases "even j")
      case True
      show ?thesis
      proof (rule topic_step [OF rd i hp ok(1) half])
        show "str_len (sn_topic (?subs ! (j div 2))) \<noteq> 0" using ok(3) half by simp
        show "request_string (hp(a \<mapsto> OSubscribe s')) KIND_SUBSCRIBE v i = Some (True, sn_topic (subscriptions_of s' ! (j div 2)))"
          if "length (subscriptions_of s') = length ?subs" for s'
          using that half True j(1) unfolding str subscribe_string_def by (simp add: even_Suc_div_two)
      qed (use part find True in simp_all)
    next
      case no: False
      let ?hp = "hp(a \<mapsto> OSubscribe (s\<lparr>sb_current := Some (j div 2)\<rparr>))"
      have none: "request_string (hp(a \<mapsto> OSubscribe s')) KIND_SUBSCRIBE v i = None" for s'
        using no j(1) unfolding str subscribe_string_def by simp
      have same: "hp(a \<mapsto> OSubscribe s) = hp" using hp(2) by auto
      have "builds subscribe_build_qos v ?hp [word_of_int (sn_requested_qos (?subs ! (j div 2)))]"
        by (rule qos_builds [of v a ?hp "s\<lparr>sb_current := Some (j div 2)\<rparr>"]) (use hp ok(1) half in simp_all)
      then show ?thesis
        using header_step [OF rd i, where ?hp1.0 = ?hp and builder = subscribe_build_qos and T = T] sim none [of s] none
          part find no same by (simp add: subscribe_encode_qos_def)
    qed
  qed
qed

lemma unsubscribe_step:
  assumes rd: "request_ready KIND_UNSUBSCRIBE v i off eb hp" and i: "i < length (request_parts hp KIND_UNSUBSCRIBE v)"
  shows "request_step (T :: 'w itself) KIND_UNSUBSCRIBE v i off eb hp"
proof -
  obtain a s where s: "get_subscribe hp (sv_value v) = Some (a, s)" "subscribe_sendable False s"
    using rd by (auto simp: request_ready_def split: option.splits simp del: get_iffs)
  then have hp: "sv_value v = Some a" "hp a = Some (OSubscribe s)" by simp_all
  note ok = subscribe_sendableD [OF s(2)]
  let ?subs = "subscriptions_of s"
  have parts: "request_parts hp KIND_UNSUBSCRIBE v = unsubscribe_parts (sv_packet_id v) ?subs" using s by (simp del: get_iffs)
  have str: "request_string (hp(a \<mapsto> OSubscribe s')) KIND_UNSUBSCRIBE v j = map_option (Pair True) (unsubscribe_string (subscriptions_of s') j)" for s' j
    using hp(1) by (simp add: get_update del: get_iffs)
  have finder: "(request_finder KIND_UNSUBSCRIBE :: 'w finder) = tx_buffer_finder_unsubscribe" by (simp add: request_finder_def)
  have pos: "i \<le> length ?subs" using i unfolding parts by (simp add: unsubscribe_parts_def)
  show ?thesis
  proof (cases i)
    case 0
    have "builds subscribe_build_header_unsubscribe v (hp(a \<mapsto> OSubscribe (s\<lparr>sb_current := None\<rparr>)))
        (header_of (word_of_int (push_bit 4 TYPE_UNSUBSCRIBE OR 0x02)) (subscriptions_size False ?subs) @ be16 (uint (sv_packet_id v)))"
      by (rule packet_id_builds)
        (use ok(4-6) hp in \<open>simp_all add: subscribe_build_header_unsubscribe_def get_update subscribe_calc_remaining_length_def del: get_iffs\<close>)
    moreover have "similar hp (hp(a \<mapsto> OSubscribe (s\<lparr>sb_current := None\<rparr>)))"
      using similar_update [of hp a "OSubscribe s"] hp(2) settle_current by simp
    ultimately show ?thesis
      using header_step [OF rd i, where ?hp1.0 = "hp(a \<mapsto> OSubscribe (s\<lparr>sb_current := None\<rparr>))" and
          builder = subscribe_build_header_unsubscribe and T = T] str [of s] hp s 0
      by (simp add: finder tx_buffer_finder_unsubscribe_def unsubscribe_parts_def unsubscribe_string_def get_update
          subscribe_encode_header_unsubscribe_def fun_upd_idem del: get_iffs)
  next
    case (Suc j)
    then have j: "j < length ?subs" using pos by simp
    show ?thesis
    proof (rule topic_step [OF rd i hp ok(1) j])
      show "str_len (sn_topic (?subs ! j)) \<noteq> 0" using ok(3) j by simp
      show "request_parts hp KIND_UNSUBSCRIBE v ! i = string_part True (sn_topic (?subs ! j))"
        unfolding parts using Suc j by (simp add: unsubscribe_parts_def)
      show "(request_finder KIND_UNSUBSCRIBE :: 'w finder) i v hp = Some (Some subscribe_encode_topic, hp(a \<mapsto> OSubscribe (s\<lparr>sb_current := Some j\<rparr>)))"
        using s(1) ok(2) Suc j by (simp add: finder tx_buffer_finder_unsubscribe_def del: get_iffs)
      show "request_string (hp(a \<mapsto> OSubscribe s')) KIND_UNSUBSCRIBE v i = Some (True, sn_topic (subscriptions_of s' ! j))"
        if "length (subscriptions_of s') = length ?subs" for s'
        using that j Suc unfolding str unsubscribe_string_def by simp
    qed
  qed
qed

lemma request_steps:
  assumes "request_ready k v i off eb hp" and "i < length (request_parts hp k v)"
  shows "request_step (T :: 'w itself) k v i off eb hp"
  using assms publish_step [OF assms] single_step [OF assms] connect_step subscribe_step unsubscribe_step
  by (cases k) auto

section \<open>The end of a packet\<close>

definition publish_kind :: "kind \<Rightarrow> bool" where
  "publish_kind k \<longleftrightarrow> k = KIND_PUBLISH_0 \<or> k = KIND_PUBLISH_1 \<or> k = KIND_PUBLISH_2"

text \<open>Only the duplicate flag of a PUBLISH changes for good.\<close>

definition request_finished :: "kind \<Rightarrow> store_value \<Rightarrow> heap \<Rightarrow> heap \<Rightarrow> bool" where
  "request_finished k v hp hp' \<longleftrightarrow> similar_but (if publish_kind k then sv_value v else None) hp hp'"

lemma ready_at_end:
  assumes "request_ready k v (length (request_parts hp k v)) off eb hp"
  shows "off = 0 \<and> fresh_buffer eb"
proof -
  have "request_string hp k v (length (request_parts hp k v)) = None"
    by (cases k) (auto simp: connect_parts_def subscribe_parts_def unsubscribe_parts_def publish_parts_def length_pairs
        publish_string_def subscribe_string_def unsubscribe_string_def split: option.splits simp del: get_iffs)
  then show ?thesis using assms by (simp add: request_ready_def)
qed

lemma request_end:
  assumes "request_valid hp k v"
  shows "\<exists>hp'. (request_finder k :: 'w finder) (length (request_parts hp k v)) v hp = Some (None, hp') \<and>
    request_finished k v hp hp'"
proof (cases "publish_kind k")
  case True
  then obtain a m where m: "get_publish hp (sv_value v) = Some (a, m)"
    using assms by (auto simp: publish_kind_def split: option.splits simp del: get_iffs)
  then have "sv_value v = Some a" by simp
  moreover have "(request_finder k :: 'w finder) = tx_buffer_finder_publish" "request_parts hp k v = publish_parts (sv_packet_id v) m"
    using True m by (auto simp: publish_kind_def request_finder_def simp del: get_iffs)
  ultimately show ?thesis
    using m True
    by (auto simp: tx_buffer_finder_publish_def publish_parts_def request_finished_def similar_but_def simp del: get_iffs)
next
  case False
  have "\<exists>a s. get_subscribe hp (sv_value v) = Some (a, s) \<and> sb_count s = int (length (subscriptions_of s))"
    if "k = KIND_SUBSCRIBE \<or> k = KIND_UNSUBSCRIBE"
    using assms that by (auto simp: subscribe_sendable_def split: option.splits simp del: get_iffs)
  moreover have "\<exists>a c. get_connect hp (sv_value v) = Some (a, c)" if "k = KIND_CONNECT"
    using assms that by (auto split: option.splits simp del: get_iffs)
  ultimately show ?thesis
    using False assms
    by (cases k) (auto simp: request_finder_def publish_kind_def request_finished_def connect_parts_def subscribe_parts_def unsubscribe_parts_def
        tx_buffer_finder_connect_def tx_buffer_finder_subscribe_def tx_buffer_finder_unsubscribe_def tx_buffer_finder_puback_def
        tx_buffer_finder_pubrec_def tx_buffer_finder_pubrel_def tx_buffer_finder_pubcomp_def tx_buffer_finder_pingreq_def
        tx_buffer_finder_disconnect_def length_pairs simp del: get_iffs)
qed

lemma request_string_start:
  assumes "request_valid hp k v" and "request_string hp k v i = Some (l, str)"
  shows "str_len str = 0 \<or> string_ready l str 0"
proof -
  have own: "str_len t = 0 \<or> string_ready l t 0" if "sendable t" "0 \<le> str_len t" "str_len t < 2 ^ 62" for l t
    using that by (auto simp: sendable_def own_buffer_def string_ready_def string_offset_def string_bytes_def be16_def split: option.splits)
  have buf: "own_buffer t \<Longrightarrow> sendable t" for t by (simp add: sendable_def)
  have publish: "str_len t = 0 \<or> string_ready l' t 0" if "publish_sendable m" "publish_string m i = Some (l', t)" for m l' t
    using that publish_validate_bounds [of m] own [of "pb_topic m" l'] own [of "pb_payload m" l'] buf [of "pb_topic m"]
    by (auto simp: publish_sendable_def publish_string_def publish_calc_remaining_length_def lmqtt_publish_validate_def
        string_validate_field_length_def own split: if_splits)
  have connect: "str_len t = 0 \<or> string_ready True t 0" if "connect_sendable c" "connect_string c i = Some t" for c t
    using that own [of t] buf [of t]
    by (auto simp: connect_sendable_def lmqtt_connect_validate_def string_validate_field_length_def split: if_splits)
  have subscribe: "str_len t = 0 \<or> string_ready True t 0"
    if sub: "subscribe_sendable q s" "subscribe_string (subscriptions_of s) i = Some t \<or> unsubscribe_string (subscriptions_of s) i = Some t" for q s t
  proof -
    have "\<exists>j < length (subscriptions_of s). t = sn_topic (subscriptions_of s ! j)"
      using sub(2) by (auto simp: subscribe_string_def unsubscribe_string_def split: if_splits)
    then obtain x where "x \<in> set (subscriptions_of s)" "t = sn_topic x" using nth_mem by blast
    then show ?thesis
      using sub(1) own [of t] buf [of t] by (auto simp: subscribe_sendable_def valid_subscription_def)
  qed
  show ?thesis
    using assms publish connect subscribe
    by (cases k) (force split: option.splits simp del: get_iffs connect_string.simps)+
qed

lemma request_header_not_Nil:
  assumes "request_string hp k v i = None" and "request_valid hp k v" and "i < length (request_parts hp k v)"
  shows "request_parts hp k v ! i \<noteq> []"
proof -
  have publish: "publish_parts pid m ! i \<noteq> []" if "publish_string m i = None" "i < length (publish_parts pid m)" for pid m
  proof -
    have "i = 0 \<or> i = 2 \<and> pb_qos m \<noteq> QOS_0"
      using that by (cases "pb_qos m = QOS_0"; simp add: publish_string_def publish_parts_def split: if_splits; arith)
    then show ?thesis by (auto simp: publish_parts_def header_of_def be16_def)
  qed
  have connect: "connect_parts c ! i \<noteq> []" if "connect_string c i = None" "i < length (connect_parts c)" for c
  proof -
    have "i = 0 \<or> i = 1" using that by (simp add: connect_parts_def split: if_splits) arith
    then show ?thesis by (auto simp: connect_parts_def header_of_def)
  qed
  have subscribe: "subscribe_parts pid subs ! i \<noteq> []"
    if "subscribe_string subs i = None" "i < length (subscribe_parts pid subs)" for pid subs
  proof (cases i)
    case 0
    then show ?thesis by (simp add: subscribe_parts_def header_of_def)
  next
    case (Suc j)
    then have "j < 2 * length subs" using that(2) by (simp add: subscribe_parts_def length_pairs)
    then show ?thesis
      using that(1) Suc nth_pairs [of j subs "\<lambda>x. string_part True (sn_topic x)" "\<lambda>x. [word_of_int (sn_requested_qos x)]"]
      by (auto simp: subscribe_parts_def subscribe_string_def even_Suc_div_two split: if_splits)
  qed
  have unsubscribe: "unsubscribe_parts pid subs ! i \<noteq> []"
    if "unsubscribe_string subs i = None" "i < length (unsubscribe_parts pid subs)" for pid subs
    using that by (cases i) (auto simp: unsubscribe_parts_def unsubscribe_string_def header_of_def split: if_splits)
  show ?thesis
    using assms publish connect subscribe unsubscribe
    by (cases k) (auto split: option.splits simp del: get_iffs connect_string.simps)
qed

lemma request_start:
  assumes "request_valid hp k v" and "fresh_buffer eb" and "i \<le> length (request_parts hp k v)"
  shows "request_ready k v i 0 eb hp"
proof (cases "request_string hp k v i")
  case None
  then show ?thesis
    using assms request_header_not_Nil [OF None assms(1)] by (simp add: request_ready_def part_buffer_start)
next
  case (Some q)
  then show ?thesis
    using assms request_string_start [OF assms(1)] by (cases q) (auto simp: request_ready_def field_ready_def)
qed

interpretation request: packet_source "request_finder k" v "\<lambda>hp. request_parts hp k v" "\<lambda>hp. request_valid hp k v"
  "request_ready k v" "request_finished k v" for k v
proof
  fix i off eb hp
  assume "request_ready k v i off eb hp"
  then show "request_valid hp k v \<and> i \<le> length (request_parts hp k v)" by (simp add: request_ready_def)
next
  fix hp hp'
  assume "request_valid hp k v" "similar hp hp'"
  then show "request_valid hp' k v \<and> request_parts hp' k v = request_parts hp k v" using request_similar by blast
next
  fix hp eb i
  assume "request_valid hp k v" "fresh_buffer eb" "i \<le> length (request_parts hp k v)"
  then show "request_ready k v i 0 eb hp" by (rule request_start)
next
  fix i off eb hp
  assume "request_ready k v i off eb hp" "i < length (request_parts hp k v)"
  then show "off \<le> length (request_parts hp k v ! i) \<and>
      (\<exists>enc hp1. (request_finder k :: 'a finder) i v hp = Some (Some enc, hp1) \<and>
        (\<forall>io room w. \<exists>eb' hp'. enc io v eb off room hp1 w =
            Some (encoded_to room (drop off (request_parts hp k v ! i)), take room (drop off (request_parts hp k v ! i)), eb', hp', w) \<and>
          similar hp hp' \<and>
          (if length (drop off (request_parts hp k v ! i)) \<le> room then fresh_buffer eb' else request_ready k v i (off + room) eb' hp')))"
    using request_steps [where T = "TYPE('a)"] unfolding request_step_def by blast
next
  fix hp off eb
  assume "request_ready k v (length (request_parts hp k v)) off eb hp"
  then show "off = 0 \<and> fresh_buffer eb \<and>
      (\<exists>hp'. (request_finder k :: 'a finder) (length (request_parts hp k v)) v hp = Some (None, hp') \<and> request_finished k v hp hp')"
    using ready_at_end request_end request_ready_def by metis
qed

end
