(* ===== verification/Tx_Stream.thy ===== *)
theory Tx_Stream
  imports Packet_Requests Example_Client
begin

text \<open>
  What the transmit buffer promises its client: seen from outside it is a stream of bytes, the
  packets of the requests to be sent one after the other. \<open>lmqtt_tx_buffer_encode\<close> takes from the
  front of the stream as many bytes as the output has room for, marks or drops the requests whose
  packets are out, and after a DISCONNECT there is nothing more.
\<close>

section \<open>The stream\<close>

abbreviation entry_parts :: "heap \<Rightarrow> store_entry \<Rightarrow> byte list list" where
  "entry_parts hp e \<equiv> request_parts hp (se_kind e) (se_value e)"

fun entries_bytes :: "heap \<Rightarrow> store_entry list \<Rightarrow> byte list" where
  "entries_bytes hp [] = []"
| "entries_bytes hp (e # es) = concat (entry_parts hp e) @
     (if se_kind e = KIND_DISCONNECT then [] else entries_bytes hp es)"

definition tx_pending :: "'w sys \<Rightarrow> store_entry list" where
  "tx_pending s = store_pending (get_store (tx_store (cl_tx s)) s)"

definition tx_marked :: "'w sys \<Rightarrow> store_entry list" where
  "tx_marked s = store_marked (get_store (tx_store (cl_tx s)) s)"

fun packets_rest :: "heap \<Rightarrow> nat \<Rightarrow> nat \<Rightarrow> store_entry list \<Rightarrow> byte list" where
  "packets_rest hp i off [] = []"
| "packets_rest hp i off (e # es) = parts_rest (entry_parts hp e) i off @
     (if se_kind e = KIND_DISCONNECT then [] else entries_bytes hp es)"

definition tx_stream :: "'w sys \<Rightarrow> byte list" where
  "tx_stream s = (if tx_closed (cl_tx s) then []
     else packets_rest (sy_heap s) (ti_pos (ti s)) (ti_offset (ti s)) (tx_pending s))"

section \<open>When the promise holds\<close>

text \<open>
  The callback of a PUBLISH at the end of its transmission leaves the client alone. It may change
  the outside world, but not what \<open>wire\<close> reads there: the bytes that the connection has taken.
\<close>

definition publish_callback_quiet :: "('w \<Rightarrow> 'x) \<Rightarrow> 'w env \<Rightarrow> bool" where
  "publish_callback_quiet wire env \<longleftrightarrow> (\<forall>f d v b s. \<exists>w. wire w = wire (sy_world s) \<and>
     en_on_publish env f d v b s = Some (True, s\<lparr>sy_world := w\<rparr>))"

definition entry_quiet :: "store_entry \<Rightarrow> bool" where
  "entry_quiet e \<longleftrightarrow> kind_expects_response (se_kind e) \<or> sv_callback (se_value e) = None \<or>
     sv_callback (se_value e) = Some ON_PUBLISH \<and> sv_callback_data (se_value e) \<noteq> DATA_NULL"

definition entry_object :: "store_entry \<Rightarrow> addr option" where
  "entry_object e = (if publish_kind (se_kind e) then sv_value (se_value e) else None)"

fun entries_good :: "heap \<Rightarrow> store_entry list \<Rightarrow> bool" where
  "entries_good hp [] = True"
| "entries_good hp (e # es) \<longleftrightarrow> request_valid hp (se_kind e) (se_value e) \<and> entry_quiet e \<and>
     (\<forall>x \<in> set es. entry_object e = None \<or> entry_object e \<noteq> sv_value (se_value x)) \<and> entries_good hp es"

text \<open>Between two calls: the current packet is somewhere before its end, or there is none.\<close>

fun current_ready :: "heap \<Rightarrow> tx_internal \<Rightarrow> store_entry list \<Rightarrow> bool" where
  "current_ready hp t [] \<longleftrightarrow> ti_pos t = 0 \<and> ti_offset t = 0 \<and> fresh_buffer (ti_buffer t)"
| "current_ready hp t (e # es) \<longleftrightarrow> request_ready (se_kind e) (se_value e) (ti_pos t) (ti_offset t) (ti_buffer t) hp"

definition tx_good :: "'w sys \<Rightarrow> bool" where
  "tx_good s \<longleftrightarrow> ti_error (ti s) = NO_ERROR \<and> store_inv (get_store (tx_store (cl_tx s)) s) \<and>
     (tx_closed (cl_tx s) \<or> entries_good (sy_heap s) (tx_pending s) \<and> current_ready (sy_heap s) (ti s) (tx_pending s) \<and>
       (tx_pending s \<noteq> [] \<longrightarrow> tx_stream s \<noteq> []))"

text \<open>One round for each part of each packet, and one more for the end of the packet.\<close>

definition tx_fuel :: "'w sys \<Rightarrow> nat" where
  "tx_fuel s = (\<Sum>e \<leftarrow> tx_pending s. Suc (length (entry_parts (sy_heap s) e))) + 1"

section \<open>Requests that are not under way\<close>

lemma entries_similar:
  assumes "entries_good hp es" and "similar_but p hp hp'"
    and "\<forall>x \<in> set es. p = None \<or> p \<noteq> sv_value (se_value x)"
  shows "entries_good hp' es \<and> entries_bytes hp' es = entries_bytes hp es \<and>
    map (entry_parts hp') es = map (entry_parts hp) es"
  using assms
proof (induction es)
  case Nil
  then show ?case by simp
next
  case (Cons e es)
  have "request_valid hp' (se_kind e) (se_value e) \<and> entry_parts hp' e = entry_parts hp e"
    using Cons.prems by (intro request_similar) auto
  then show ?case using Cons by auto
qed

lemma entry_parts_not_Nil:
  assumes "request_valid hp (se_kind e) (se_value e)"
  shows "entry_parts hp e \<noteq> [] \<and> concat (entry_parts hp e) \<noteq> []"
proof -
  have ne: "entry_parts hp e \<noteq> []"
    using assms
    by (cases "se_kind e") (auto simp: connect_parts_def subscribe_parts_def unsubscribe_parts_def publish_parts_def
        split: option.splits simp del: get_iffs)
  moreover have "request_string hp (se_kind e) (se_value e) 0 = None"
    using assms
    by (cases "se_kind e") (auto simp: publish_string_def subscribe_string_def unsubscribe_string_def
        split: option.splits simp del: get_iffs)
  ultimately have "entry_parts hp e ! 0 \<noteq> []" using request_header_not_Nil assms by blast
  then show ?thesis using ne by (cases "entry_parts hp e") auto
qed

lemma tx_start:
  assumes "entries_good hp es" and "ti_pos t = 0" and "ti_offset t = 0" and "fresh_buffer (ti_buffer t)"
  shows "current_ready hp t es \<and> packets_rest hp 0 0 es = entries_bytes hp es \<and> (es \<noteq> [] \<longrightarrow> entries_bytes hp es \<noteq> [])"
proof (cases es)
  case Nil
  then show ?thesis using assms by simp
next
  case (Cons e es')
  then have v: "request_valid hp (se_kind e) (se_value e)" using assms(1) by simp
  then show ?thesis
    using Cons assms request_start [OF v assms(4), of 0] entry_parts_not_Nil [OF v] by (simp add: parts_rest_Suc)
qed


section \<open>One packet\<close>

lemma quiet_callback:
  assumes "publish_callback_quiet wire env"
    and "sv_callback v = None \<or> sv_callback v = Some ON_PUBLISH \<and> sv_callback_data v \<noteq> DATA_NULL"
  shows "\<exists>w. wire w = wire (sy_world s) \<and> (\<forall>flush. value_callback flush env v s = Some (True, s\<lparr>sy_world := w\<rparr>))"
proof (cases "sv_callback v")
  case None
  then show ?thesis by (intro exI [of _ "sy_world s"]) (simp add: value_callback_def)
next
  case (Some cb)
  then have call: "value_callback flush env v s = client_on_publish env (sv_value v) s" for flush
    using assms(2) by (simp add: value_callback_def entry_callback_call_def)
  show ?thesis
  proof (cases "cl_on_publish s")
    case None
    then show ?thesis unfolding call by (intro exI [of _ "sy_world s"]) (simp add: client_on_publish_def)
  next
    case (Some f)
    then show ?thesis using assms(1) unfolding call by (simp add: client_on_publish_def publish_callback_quiet_def)
  qed
qed

lemma quiet_value_callback:
  assumes "publish_callback_quiet wire env" and "entry_quiet e" and "\<not> kind_expects_response (se_kind e)"
  shows "\<exists>w. wire w = wire (sy_world s) \<and> value_callback flush env (se_value e) s = Some (True, s\<lparr>sy_world := w\<rparr>)"
  using quiet_callback [OF assms(1)] assms(2,3) unfolding entry_quiet_def by blast

text \<open>What the transmit buffer never touches.\<close>

definition outside :: "('w \<Rightarrow> 'x) \<Rightarrow> 'w sys \<Rightarrow>
    byte list \<times> nat \<times> nat \<times> lmqtt_error \<times> store_ref \<times> store_ref \<times> rx_buffer \<times> message_callbacks \<times> 'x" where
  "outside wire s = (cl_write_buf s, cl_write_buf_pos s, cl_write_buf_capacity s, cl_error s, cl_current_store s,
     tx_store (cl_tx s), cl_rx s, cl_message_callbacks s, wire (sy_world s))"

definition tx_capacity :: "'w sys \<Rightarrow> nat" where
  "tx_capacity s = st_capacity (get_store (tx_store (cl_tx s)) s)"

lemma outside_simps [simp]:
  "outside wire (set_store r st s) = outside wire s" "outside wire (lmqtt_tx_buffer_reset s) = outside wire s"
  "outside wire (lmqtt_tx_buffer_finish s) = outside wire s"
  by (simp_all add: outside_def set_store_def lmqtt_tx_buffer_reset_def lmqtt_tx_buffer_finish_def split: store_ref.split)

lemma outside_world: "wire w = wire (sy_world s) \<Longrightarrow> outside wire (s\<lparr>sy_world := w\<rparr>) = outside wire s"
  by (simp add: outside_def)

lemma outside_tx_at [simp]: "outside wire (tx_at i off eb hp s) = outside wire s"
  by (simp add: outside_def tx_at_def upd_ti_def)

text \<open>The requests whose packets went out between two states.\<close>

definition sent_between :: "store_entry list \<Rightarrow> 'w sys \<Rightarrow> 'w sys \<Rightarrow> bool" where
  "sent_between sent s s' \<longleftrightarrow> tx_pending s = sent @ tx_pending s' \<and>
     tx_marked s' = tx_marked s @ filter (\<lambda>e. kind_expects_response (se_kind e)) sent \<and>
     (tx_closed (cl_tx s') \<longleftrightarrow> tx_closed (cl_tx s) \<or> (\<exists>e \<in> set sent. se_kind e = KIND_DISCONNECT))"

lemma sent_between_trans:
  "sent_between sent s s' \<Longrightarrow> sent_between sent' s' s'' \<Longrightarrow> sent_between (sent @ sent') s s''"
  by (auto simp: sent_between_def)

lemma sent_nothing: "tx_pending s' = tx_pending s \<Longrightarrow> tx_marked s' = tx_marked s \<Longrightarrow> tx_closed (cl_tx s') = tx_closed (cl_tx s) \<Longrightarrow>
    sent_between [] s s'"
  by (simp add: sent_between_def)

lemma get_store_reset [simp]: "get_store r (lmqtt_tx_buffer_reset s) = get_store r s"
  "get_store r (lmqtt_tx_buffer_finish s) = get_store r s"
  by (simp_all add: lmqtt_tx_buffer_reset_def lmqtt_tx_buffer_finish_def)

lemma tx_packet_done:
  assumes q: "publish_callback_quiet wire env" "entry_quiet e" and inv: "store_inv (get_store (tx_store (cl_tx s)) s)"
    and pend: "tx_pending s = e # es" and "\<not> tx_closed (cl_tx s)"
  shows "\<exists>s'. tx_buffer_packet_done m env (se_kind e) (se_value e) s = Some (True, s') \<and>
    sy_heap s' = sy_heap s \<and> store_inv (get_store (tx_store (cl_tx s')) s') \<and> tx_pending s' = es \<and> sent_between [e] s s' \<and>
    outside wire s' = outside wire s \<and> tx_capacity s' = tx_capacity s \<and> ti s' = (if se_kind e = KIND_DISCONNECT then ti s else tx_internal_zero)"
proof -
  let ?r = "tx_store (cl_tx s)"
  have pend': "store_pending (get_store ?r s) = e # es" using pend by (simp add: tx_pending_def)
  show ?thesis
  proof (cases "kind_expects_response (se_kind e)")
    case True
    then have "se_kind e \<noteq> KIND_DISCONNECT" by (auto simp: kind_expects_response_def)
    moreover obtain st where "lmqtt_store_mark_current (get_store ?r s) = (True, st)" "store_inv st"
        "store_marked st = store_marked (get_store ?r s) @ [e]" "store_pending st = es"
        "st_capacity st = st_capacity (get_store ?r s)"
      using store_mark_current_spec(2) [OF inv pend'] by (auto simp: store_settings_def)
    ultimately show ?thesis
      using True assms(5) pend
      by (simp add: tx_buffer_packet_done_def sent_between_def)
        (simp add: tx_pending_def tx_marked_def tx_capacity_def lmqtt_tx_buffer_reset_def)
  next
    case False
    obtain st where st: "lmqtt_store_drop_current (get_store ?r s) = Some (True, st)" "store_inv st"
        "store_marked st = store_marked (get_store ?r s)" "store_pending st = es" "st_capacity st = st_capacity (get_store ?r s)"
      using store_drop_current_spec(2) [OF inv pend'] by (auto simp: store_settings_def)
    show ?thesis
    proof (cases "se_kind e = KIND_DISCONNECT")
      case True
      then show ?thesis
        using False st assms(5) pend
        by (simp add: tx_buffer_packet_done_def sent_between_def)
          (simp add: tx_pending_def tx_marked_def tx_capacity_def lmqtt_tx_buffer_finish_def)
    next
      case nd: False
      obtain w where "wire w = wire (sy_world (set_store ?r st s))"
          "value_callback (client_flush_store m env) env (se_value e) (set_store ?r st s) =
          Some (True, (set_store ?r st s)\<lparr>sy_world := w\<rparr>)"
        using quiet_value_callback [OF q False] by blast
      then show ?thesis
        using False nd st assms(5) pend outside_world [of wire w "set_store ?r st s"]
        by (simp add: tx_buffer_packet_done_def sent_between_def)
          (simp add: tx_pending_def tx_marked_def tx_capacity_def lmqtt_tx_buffer_reset_def)
    qed
  qed
qed


section \<open>The loop over the requests\<close>

lemma tx_at_pending [simp]:
  "tx_pending (tx_at i off eb hp s) = tx_pending s" "tx_marked (tx_at i off eb hp s) = tx_marked s"
  "tx_capacity (tx_at i off eb hp s) = tx_capacity s"
  by (simp_all add: tx_pending_def tx_marked_def tx_capacity_def)

definition tx_after :: "('w \<Rightarrow> 'x) \<Rightarrow> nat \<Rightarrow> 'w sys \<Rightarrow> 'w sys \<Rightarrow> bool" where
  "tx_after wire k s s' \<longleftrightarrow> tx_good s' \<and> outside wire s' = outside wire s \<and> tx_stream s' = drop k (tx_stream s) \<and> tx_fuel s' \<le> tx_fuel s \<and>
     tx_capacity s' = tx_capacity s \<and> (\<exists>sent. sent_between sent s s')"

lemma tx_after_trans: "tx_after wire k s s' \<Longrightarrow> tx_after wire k' s' s'' \<Longrightarrow> tx_after wire (k + k') s s''"
  unfolding tx_after_def using sent_between_trans by (fastforce simp: add.commute)

lemma tx_after_refl: "tx_good s \<Longrightarrow> tx_after wire 0 s s"
  unfolding tx_after_def using sent_nothing [of s s] by auto

lemma sum_parts_cong: "map (entry_parts hp') es = map (entry_parts hp) es \<Longrightarrow>
    (\<Sum>e \<leftarrow> es. Suc (length (entry_parts hp' e))) = (\<Sum>e \<leftarrow> es. Suc (length (entry_parts hp e)))"
  by (induction es) auto

lemma tx_goodD:
  assumes "tx_good s" and "\<not> tx_closed (cl_tx s)"
  shows "ti_error (ti s) = NO_ERROR" and "store_inv (get_store (tx_store (cl_tx s)) s)"
    and "entries_good (sy_heap s) (tx_pending s)" and "current_ready (sy_heap s) (ti s) (tx_pending s)"
    and "tx_pending s \<noteq> [] \<Longrightarrow> tx_stream s \<noteq> []"
  using assms by (simp_all add: tx_good_def)

lemma good_finder: "request_valid hp k v \<Longrightarrow> tx_buffer_finder_by_kind k = Some (request_finder k)"
  by (cases k) (simp_all add: request_finder_def)

text \<open>The packet fits: the loop over its parts ends with its request marked or dropped.\<close>

lemma tx_packet_all:
  assumes q: "publish_callback_quiet wire env" and good: "tx_good s" "\<not> tx_closed (cl_tx s)" and pend: "tx_pending s = e # es"
    and n: "length (entry_parts (sy_heap s) e) < n" and out: "length out \<le> buf_len"
    and fit: "length (parts_rest (entry_parts (sy_heap s) e) (ti_pos (ti s)) (ti_offset (ti s))) \<le> buf_len - length out"
  shows "\<exists>s'. tx_buffer_packet_loop n env (se_kind e) (request_finder (se_kind e)) (se_value e) buf_len out s =
      Some (Inr (out @ parts_rest (entry_parts (sy_heap s) e) (ti_pos (ti s)) (ti_offset (ti s)), s')) \<and>
    tx_after wire (length (parts_rest (entry_parts (sy_heap s) e) (ti_pos (ti s)) (ti_offset (ti s)))) s s' \<and>
    tx_fuel s' < tx_fuel s"
proof -
  let ?rest = "parts_rest (entry_parts (sy_heap s) e) (ti_pos (ti s)) (ti_offset (ti s))"
  note g = tx_goodD [OF good]
  have rd: "request_ready (se_kind e) (se_value e) (ti_pos (ti s)) (ti_offset (ti s)) (ti_buffer (ti s)) (sy_heap s)"
    using g(4) pend by simp
  have n': "length (entry_parts (sy_heap s) e) - ti_pos (ti s) < n" using n by simp
  obtain m eb hp hp' where l: "similar (sy_heap s) hp" "request_finished (se_kind e) (se_value e) hp hp'" "fresh_buffer eb"
      "tx_buffer_packet_loop n env (se_kind e) (request_finder (se_kind e)) (se_value e) buf_len out s =
        map_option (packet_return (out @ ?rest)) (tx_buffer_packet_done m env (se_kind e) (se_value e)
          (tx_at (length (entry_parts (sy_heap s) e)) 0 eb hp' s))"
    using request.packet_loop_all [OF rd n' out fit] by blast
  let ?s = "tx_at (length (entry_parts (sy_heap s) e)) 0 eb hp' s"
  have "store_inv (get_store (tx_store (cl_tx ?s)) ?s)" "tx_pending ?s = e # es" "\<not> tx_closed (cl_tx ?s)" "entry_quiet e"
    using g pend good by simp_all
  then obtain s' where d: "tx_buffer_packet_done m env (se_kind e) (se_value e) ?s = Some (True, s')" "sy_heap s' = hp'"
      "store_inv (get_store (tx_store (cl_tx s')) s')" "tx_pending s' = es" "sent_between [e] ?s s'"
      "outside wire s' = outside wire ?s" "tx_capacity s' = tx_capacity ?s" "ti s' = (if se_kind e = KIND_DISCONNECT then ti ?s else tx_internal_zero)"
    using tx_packet_done [OF q, of e ?s es m] by auto
  have sim: "similar_but (entry_object e) (sy_heap s) hp'"
    using similar_trans [OF similar_weaken [OF l(1)]] l(2) by (simp add: request_finished_def entry_object_def)
  have es: "entries_good hp' es" "entries_bytes hp' es = entries_bytes (sy_heap s) es"
      "map (entry_parts hp') es = map (entry_parts (sy_heap s)) es"
    using entries_similar [OF _ sim, of es] g(3) pend by auto
  have sb: "sent_between [e] s s'" using d(5) by (simp add: sent_between_def)
  have cl: "tx_closed (cl_tx s') \<longleftrightarrow> se_kind e = KIND_DISCONNECT" using sb good by (simp add: sent_between_def)
  have err: "ti_error (ti s') = NO_ERROR" using d(8) g(1) by (simp add: tx_internal_zero_def)
  have str: "tx_stream s = ?rest @ (if se_kind e = KIND_DISCONNECT then [] else entries_bytes (sy_heap s) es)"
    using good pend by (simp add: tx_stream_def)
  have "tx_good s' \<and> tx_stream s' = (if se_kind e = KIND_DISCONNECT then [] else entries_bytes (sy_heap s) es)"
  proof (cases "se_kind e = KIND_DISCONNECT")
    case True
    then show ?thesis using cl d(3) err by (simp add: tx_good_def tx_stream_def)
  next
    case False
    then have t: "ti s' = tx_internal_zero" using d(8) by simp
    have "current_ready hp' (ti s') es \<and> packets_rest hp' 0 0 es = entries_bytes hp' es \<and> (es \<noteq> [] \<longrightarrow> entries_bytes hp' es \<noteq> [])"
      using tx_start [OF es(1), of "ti s'"] by (simp add: t tx_internal_zero_def)
    then show ?thesis using False cl d es t err by (simp add: tx_good_def tx_stream_def tx_internal_zero_def)
  qed
  moreover have fuel: "tx_fuel s' < tx_fuel s" using d(2,4) pend sum_parts_cong [OF es(3)] by (simp add: tx_fuel_def)
  ultimately have "tx_after wire (length ?rest) s s'" using sb str d(6,7) by (auto simp: tx_after_def)
  then show ?thesis using l(4) d(1) fuel by (simp add: packet_return_def)
qed

text \<open>The packet does not fit: the function returns inside it.\<close>

lemma tx_packet_some:
  assumes good: "tx_good s" "\<not> tx_closed (cl_tx s)" and pend: "tx_pending s = e # es"
    and n: "length (entry_parts (sy_heap s) e) < n" and out: "length out \<le> buf_len"
    and big: "buf_len - length out < length (parts_rest (entry_parts (sy_heap s) e) (ti_pos (ti s)) (ti_offset (ti s)))"
  shows "\<exists>s'. tx_buffer_packet_loop n env (se_kind e) (request_finder (se_kind e)) (se_value e) buf_len out s =
      Some (Inl (IO_SUCCESS, out @ take (buf_len - length out) (tx_stream s), s')) \<and> tx_after wire (buf_len - length out) s s'"
proof -
  let ?rest = "parts_rest (entry_parts (sy_heap s) e) (ti_pos (ti s)) (ti_offset (ti s))" and ?room = "buf_len - length out"
  note g = tx_goodD [OF good]
  have rd: "request_ready (se_kind e) (se_value e) (ti_pos (ti s)) (ti_offset (ti s)) (ti_buffer (ti s)) (sy_heap s)"
    using g(4) pend by simp
  have n': "length (entry_parts (sy_heap s) e) - ti_pos (ti s) < n" using n by simp
  obtain i off eb hp where l: "similar (sy_heap s) hp" "request_ready (se_kind e) (se_value e) i off eb hp"
      "parts_rest (entry_parts hp e) i off = drop ?room ?rest"
      "tx_buffer_packet_loop n env (se_kind e) (request_finder (se_kind e)) (se_value e) buf_len out s =
        Some (Inl (IO_SUCCESS, out @ take ?room ?rest, tx_at i off eb hp s))"
    using request.packet_loop_some [OF rd n' out big] by blast
  let ?s = "tx_at i off eb hp s"
  have es: "entries_good hp (e # es)" "entries_bytes hp (e # es) = entries_bytes (sy_heap s) (e # es)"
      "map (entry_parts hp) (e # es) = map (entry_parts (sy_heap s)) (e # es)"
    using entries_similar [OF _ l(1), of "e # es"] g(3) pend by auto
  then have more: "entries_bytes hp es = entries_bytes (sy_heap s) es" if "se_kind e \<noteq> KIND_DISCONNECT"
    using that by simp
  have str: "tx_stream s = ?rest @ (if se_kind e = KIND_DISCONNECT then [] else entries_bytes (sy_heap s) es)"
    using good pend by (simp add: tx_stream_def)
  have "tx_stream ?s = drop ?room (tx_stream s)"
    using good pend l(3) big more unfolding str by (simp add: tx_stream_def)
  moreover have "drop ?room (tx_stream s) \<noteq> []" using big by (simp add: str)
  ultimately have "tx_good ?s" using good(2) g(1,2) es(1) l(2) pend by (simp add: tx_good_def)
  moreover have "tx_fuel ?s \<le> tx_fuel s" using pend sum_parts_cong [OF es(3)] by (simp add: tx_fuel_def)
  ultimately have "tx_after wire ?room s ?s"
    using \<open>tx_stream ?s = drop ?room (tx_stream s)\<close> sent_nothing [of ?s s] by (auto simp: tx_after_def)
  moreover have "take ?room ?rest = take ?room (tx_stream s)" using big by (simp add: str)
  ultimately show ?thesis using l(4) by auto
qed


definition tx_result :: "bool \<Rightarrow> io_result" where
  "tx_result active = (if active then IO_SUCCESS else IO_WOULD_BLOCK)"

lemma tx_encode_loop:
  assumes "publish_callback_quiet wire env" and "tx_good s" and "tx_fuel s \<le> n" and "length out \<le> buf_len"
  shows "\<exists>s'. tx_buffer_encode_loop n env buf_len out s =
      Some (tx_result (out \<noteq> [] \<or> tx_stream s \<noteq> [] \<or> tx_closed (cl_tx s)), out @ take (buf_len - length out) (tx_stream s), s') \<and>
    tx_after wire (buf_len - length out) s s'"
  using assms(2-)
proof (induction n arbitrary: s out)
  case 0
  then show ?case by (simp add: tx_fuel_def)
next
  case (Suc n)
  let ?room = "buf_len - length out"
  show ?case
  proof (cases "tx_closed (cl_tx s) \<or> tx_pending s = []")
    case True
    have inv: "store_inv (get_store (tx_store (cl_tx s)) s)" using Suc.prems(1) by (simp add: tx_good_def)
    have str: "tx_stream s = []" using True by (auto simp: tx_stream_def)
    have "tx_after wire ?room s s" using tx_after_refl [OF Suc.prems(1)] str by (simp add: tx_after_def)
    then show ?thesis
      using True str by (auto simp: store_peek_spec [OF inv] tx_pending_def tx_result_def)
  next
    case False
    then obtain e es where pend: "tx_pending s = e # es" and open': "\<not> tx_closed (cl_tx s)" by (auto simp: neq_Nil_conv)
    note g = tx_goodD [OF Suc.prems(1) open']
    let ?rest = "parts_rest (entry_parts (sy_heap s) e) (ti_pos (ti s)) (ti_offset (ti s))"
    let ?loop = "tx_buffer_packet_loop n env (se_kind e) (request_finder (se_kind e)) (se_value e) buf_len out s"
    have n: "length (entry_parts (sy_heap s) e) < n" using Suc.prems(2) pend by (simp add: tx_fuel_def)
    have "lmqtt_store_peek (get_store (tx_store (cl_tx s)) s) = Some (True, se_kind e, se_value e)"
      using pend by (simp add: store_peek_spec [OF g(2)] tx_pending_def)
    moreover have "tx_buffer_finder_by_kind (se_kind e) = Some (request_finder (se_kind e) :: 'a finder)"
      using g(3) pend by (intro good_finder) auto
    ultimately have loop: "tx_buffer_encode_loop (Suc n) env buf_len out s =
        ?loop \<bind> (\<lambda>r. case r of Inl res \<Rightarrow> Some res | Inr (out', s') \<Rightarrow> tx_buffer_encode_loop n env buf_len out' s')"
      using open' by simp
    have ne: "tx_stream s \<noteq> []" using g(5) pend by simp
    show ?thesis
    proof (cases "length ?rest \<le> ?room")
      case True
      obtain s1 where s1: "?loop = Some (Inr (out @ ?rest, s1))" "tx_after wire (length ?rest) s s1" "tx_fuel s1 < tx_fuel s"
        using tx_packet_all [OF assms(1) Suc.prems(1) open' pend n Suc.prems(3) True] by blast
      have str: "tx_stream s = ?rest @ tx_stream s1"
      proof -
        have "\<exists>xs. tx_stream s = ?rest @ xs" using open' pend by (simp add: tx_stream_def)
        then show ?thesis using s1(2) by (auto simp: tx_after_def)
      qed
      have "tx_good s1" "tx_fuel s1 \<le> n" "length (out @ ?rest) \<le> buf_len"
        using s1 Suc.prems True by (auto simp: tx_after_def)
      then obtain s' where s': "tx_buffer_encode_loop n env buf_len (out @ ?rest) s1 =
            Some (tx_result (out @ ?rest \<noteq> [] \<or> tx_stream s1 \<noteq> [] \<or> tx_closed (cl_tx s1)),
              (out @ ?rest) @ take (buf_len - length (out @ ?rest)) (tx_stream s1), s')"
          "tx_after wire (buf_len - length (out @ ?rest)) s1 s'"
        using Suc.IH by blast
      have "length ?rest + (buf_len - length (out @ ?rest)) = ?room" using True Suc.prems(3) by simp
      then have "tx_after wire ?room s s'" using tx_after_trans [OF s1(2) s'(2)] by simp
      moreover have "out @ ?rest \<noteq> [] \<or> tx_stream s1 \<noteq> [] \<or> tx_closed (cl_tx s1)" using ne str by auto
      moreover have "(out @ ?rest) @ take (buf_len - length (out @ ?rest)) (tx_stream s1) = out @ take ?room (tx_stream s)"
        using True by (simp add: str)
      ultimately show ?thesis using s'(1) ne unfolding loop s1(1) by (auto simp: tx_result_def)
    next
      case False
      then obtain s' where s': "?loop = Some (Inl (IO_SUCCESS, out @ take ?room (tx_stream s), s'))" "tx_after wire ?room s s'"
        using tx_packet_some [OF Suc.prems(1) open' pend n Suc.prems(3), of env] by auto
      then show ?thesis using ne unfolding loop s'(1) by (auto simp: tx_result_def)
    qed
  qed
qed


lemma tx_buffer_encode_step:
  assumes "publish_callback_quiet wire env" and "tx_good s" and "tx_fuel s \<le> n"
  shows "\<exists>s'. lmqtt_tx_buffer_encode n env room s =
      Some (tx_result (tx_stream s \<noteq> [] \<or> tx_closed (cl_tx s)), take room (tx_stream s), s') \<and> tx_after wire room s s'"
proof -
  have "ti_error (ti s) = NO_ERROR" using assms(2) by (simp add: tx_good_def)
  then show ?thesis
    using tx_encode_loop [OF assms, of "[]" room] by (simp add: lmqtt_tx_buffer_encode_def)
qed

section \<open>Properties\<close>

text \<open>
  C8. The transmit buffer refines a stream of bytes. One call of \<open>lmqtt_tx_buffer_encode\<close> puts out
  exactly the next bytes of the packets still to be sent, as many as there is room for, in the
  middle of a header or a string if need be, and would block only when there is nothing to send;
  the requests that leave the queue are the first ones, and those of them that expect a response
  are marked, in order.
\<close>

theorem tx_buffer_sends_stream:
  assumes "publish_callback_quiet wire env" and "tx_good s" and "tx_fuel s \<le> n"
  shows "\<exists>s' sent. lmqtt_tx_buffer_encode n env room s =
      Some (tx_result (tx_stream s \<noteq> [] \<or> tx_closed (cl_tx s)), take room (tx_stream s), s') \<and>
    tx_good s' \<and> tx_fuel s' \<le> tx_fuel s \<and> tx_stream s' = drop room (tx_stream s) \<and>
    tx_pending s = sent @ tx_pending s' \<and>
    tx_marked s' = tx_marked s @ filter (\<lambda>e. kind_expects_response (se_kind e)) sent \<and>
    outside wire s' = outside wire s"
  using tx_buffer_encode_step [OF assms, of room] unfolding tx_after_def sent_between_def by blast

text \<open>
  Three requests to be sent, and a connection that takes up to three bytes at a time until there are
  \<open>limit\<close> of them, then would block. The outside world is what it has taken.
\<close>

definition example_requests :: "store_entry list" where
  "example_requests = [example_request KIND_PUBLISH_1 ON_PUBLISH,
     \<lparr>se_kind = KIND_PUBACK, se_value = store_value_zero\<lparr>sv_packet_id := 9\<rparr>\<rparr>,
     \<lparr>se_kind = KIND_DISCONNECT, se_value = store_value_zero\<rparr>]"

definition example_queue :: "nat \<Rightarrow> store" where
  "example_queue k = (fresh_store 4)\<lparr>st_count := k, st_entries := example_requests @ [store_entry_zero]\<rparr>"

definition example_sender :: "nat \<Rightarrow> byte list sys" where
  "example_sender k = (client_setup example_buffers [7 \<mapsto> OPublish example_message] [])
     \<lparr>cl_main_store := example_queue k, cl_current_store := MAIN_STORE, cl_on_publish := Some 1,
      cl_tx := \<lparr>tx_store = MAIN_STORE, tx_closed = False, tx_internal = tx_internal_zero\<rparr>\<rparr>"

definition wire_env :: "nat \<Rightarrow> byte list env" where
  "wire_env limit = \<lparr>
     en_io = \<lparr>cb_read = \<lambda>f d k w. (IO_ERROR, [], 1, w), cb_write = \<lambda>f d bs w. (IO_ERROR, 0, 1, w)\<rparr>,
     en_get_time = \<lambda>w. (\<lparr>tm_secs = 100, tm_nsecs = 0\<rparr>, w),
     en_net_read = \<lambda>k w. (IO_WOULD_BLOCK, [], 0, w),
     en_net_write = \<lambda>bs w. if length w < limit then (IO_SUCCESS, min 3 (length bs), 0, w @ take 3 bs) else (IO_WOULD_BLOCK, 0, 0, w),
     en_on_connect = \<lambda>f d v ok s. Some (True, s), en_on_subscribe = \<lambda>f d v ok s. Some (True, s),
     en_on_unsubscribe = \<lambda>f d v ok s. Some (True, s), en_on_publish = \<lambda>f d v ok s. Some (True, s),
     en_message = \<lambda>f d s. Some (True, s),
     en_allocate = \<lambda>f d m len w. (ALLOCATE_SUCCESS, m, w), en_deallocate = \<lambda>f d m w. (m, w)\<rparr>"

lemma wire_env_quiet: "publish_callback_quiet wire (wire_env limit)"
  unfolding publish_callback_quiet_def
  by (intro allI, rule_tac x = "sy_world s" in exI) (simp add: wire_env_def)

lemma example_sender_stream:
  "tx_stream (example_sender 3) = [0x3A, 7, 0, 3, 0x61, 0x2F, 0x62, 0, 5, 0x40, 2, 0, 9, 0xE0, 0]"
  "tx_stream (example_sender 2) = [0x3A, 7, 0, 3, 0x61, 0x2F, 0x62, 0, 5, 0x40, 2, 0, 9]"
  by code_simp+

lemma example_sender_good: "tx_good (example_sender 3)" "tx_good (example_sender 2)"
  by code_simp+

theorem tx_buffer_sends_stream_witness:
  "\<exists>s'. lmqtt_tx_buffer_encode 20 (wire_env 0) 10 (example_sender 3) =
      Some (IO_SUCCESS, [0x3A, 7, 0, 3, 0x61, 0x2F, 0x62, 0, 5, 0x40], s') \<and> tx_stream s' = [2, 0, 9, 0xE0, 0]"
proof -
  have "tx_fuel (example_sender 3) \<le> 20" by code_simp
  from tx_buffer_sends_stream [OF wire_env_quiet [where limit = 0] example_sender_good(1) this, where room = 10]
  show ?thesis by (auto simp: example_sender_stream tx_result_def)
qed

end
