(* ===== verification/Output_Delivery.thy ===== *)
theory Output_Delivery
  imports Tx_Stream
begin

text \<open>
  The way of the bytes out of the client, \<open>client_process_output\<close> in \<open>src/lmqtt_client.c\<close>: the
  transmit buffer fills the write buffer, the connection empties it. What the connection has
  taken, what lies in the write buffer and what is still to be encoded are together the same
  bytes at all times, whatever the connection takes at once; and a connection that takes at
  least one byte each time gets all of them in one call.
\<close>

section \<open>The connection\<close>

text \<open>
  \<open>wire\<close> reads off the outside world what the write callback has been given and taken. The
  documented behaviour: it takes some of the bytes, from the front, and success with no byte
  would be the end of the connection. The clock does not touch it.
\<close>

definition wire_network :: "('w \<Rightarrow> byte list) \<Rightarrow> 'w env \<Rightarrow> bool" where
  "wire_network wire env \<longleftrightarrow>
     (\<forall>bs w. case en_net_write env bs w of (res, cnt, os, w') \<Rightarrow>
        cnt \<le> length bs \<and> wire w' = wire w @ take cnt bs \<and> (res = IO_SUCCESS \<and> bs \<noteq> [] \<longrightarrow> 0 < cnt)) \<and>
     (\<forall>w. wire (snd (en_get_time env w)) = wire w)"

definition keen_network :: "'w env \<Rightarrow> bool" where
  "keen_network env \<longleftrightarrow> (\<forall>bs w. bs \<noteq> [] \<longrightarrow>
     (case en_net_write env bs w of (res, cnt, _) \<Rightarrow> res = IO_SUCCESS \<and> 0 < cnt))"

definition buffered :: "'w sys \<Rightarrow> byte list" where
  "buffered s = take (cl_write_buf_pos s) (cl_write_buf s)"

text \<open>All bytes on their way out, in order.\<close>

definition outgoing :: "('w \<Rightarrow> byte list) \<Rightarrow> 'w sys \<Rightarrow> byte list" where
  "outgoing wire s = wire (sy_world s) @ buffered s @ tx_stream s"

definition output_good :: "'w sys \<Rightarrow> bool" where
  "output_good s \<longleftrightarrow> tx_good s \<and> \<not> tx_closed (cl_tx s) \<and> (\<forall>e \<in> set (tx_pending s). se_kind e \<noteq> KIND_DISCONNECT) \<and>
     0 < cl_write_buf_capacity s \<and> cl_write_buf_pos s \<le> cl_write_buf_capacity s \<and>
     cl_write_buf_capacity s \<le> length (cl_write_buf s)"

definition delivers :: "('w \<Rightarrow> byte list) \<Rightarrow> 'w sys \<Rightarrow> 'w sys \<Rightarrow> bool" where
  "delivers wire s s' \<longleftrightarrow> output_good s' \<and> outgoing wire s' = outgoing wire s \<and>
     cl_write_buf_capacity s' = cl_write_buf_capacity s \<and> tx_fuel s' \<le> tx_fuel s \<and> (\<exists>sent. sent_between sent s s')"

lemma delivers_refl: "output_good s \<Longrightarrow> delivers wire s s"
  unfolding delivers_def using sent_nothing [of s s] by auto

lemma delivers_trans: "delivers wire s s' \<Longrightarrow> delivers wire s' s'' \<Longrightarrow> delivers wire s s''"
  unfolding delivers_def using sent_between_trans by (metis le_trans)

section \<open>What leaves the transmit buffer alone\<close>

text \<open>The write buffer and the world may change; nothing of what the stream depends on.\<close>

definition same_source :: "'w sys \<Rightarrow> 'w sys \<Rightarrow> bool" where
  "same_source s s' \<longleftrightarrow> cl_tx s' = cl_tx s \<and> sy_heap s' = sy_heap s \<and> tx_pending s' = tx_pending s \<and>
     tx_marked s' = tx_marked s \<and>
     (store_inv (get_store (tx_store (cl_tx s)) s) \<longrightarrow> store_inv (get_store (tx_store (cl_tx s)) s'))"

lemma same_source_stream:
  assumes "same_source s s'"
  shows "tx_good s \<Longrightarrow> tx_good s'" and "tx_stream s' = tx_stream s" and "tx_fuel s' = tx_fuel s" and "sent_between [] s s'"
proof -
  note d = assms [unfolded same_source_def]
  show st: "tx_stream s' = tx_stream s" using d by (simp add: tx_stream_def)
  show "tx_good s'" if "tx_good s" using d that st by (simp add: tx_good_def)
  show "tx_fuel s' = tx_fuel s" using d by (simp add: tx_fuel_def)
  show "sent_between [] s s'" using d by (simp add: sent_between_def)
qed

lemma same_source_simps:
  "same_source s (s\<lparr>cl_write_buf := b\<rparr>)" "same_source s (s\<lparr>cl_write_buf_pos := p\<rparr>)" "same_source s (s\<lparr>sy_world := w\<rparr>)"
  "same_source s (s\<lparr>cl_error := e\<rparr>)" "same_source s (s\<lparr>cl_os_error := os\<rparr>)"
  by (simp_all add: same_source_def tx_pending_def tx_marked_def)

lemma same_source_trans: "same_source s s' \<Longrightarrow> same_source s' s'' \<Longrightarrow> same_source s s''"
  by (simp add: same_source_def)

section \<open>Filling the write buffer\<close>

definition exec_result :: "'w transfer \<Rightarrow> io_result \<Rightarrow> nat \<Rightarrow> 'w transfer" where
  "exec_result t res cnt = t\<lparr>tr_available := res = IO_SUCCESS \<and> 0 < cnt, tr_result := res, tr_count := cnt,
     tr_stale := tr_stale t \<and> \<not> (res = IO_SUCCESS \<and> 0 < cnt)\<rparr>"

lemma transfer_exec_step:
  assumes "tr_available t" and "left < right" and "arr_slice (get_buf b s) left (right - left) = Some region"
    and "tr_wrapper t region s = Some (res, bytes, cnt, err, os, s1)" and "arr_write (get_buf b s1) left bytes = Some buf"
    and "\<And>t2. tr_count t2 = cnt \<Longrightarrow> aft t2 b (set_buf b buf s1) = Some s2"
  shows "transfer_exec t b aft left right s =
    Some (if res = IO_ERROR then (False, exec_result t res cnt, s2\<lparr>cl_error := err, cl_os_error := os\<rparr>)
      else (True, exec_result t res cnt, s2))"
proof -
  have "t\<lparr>tr_available := tr_available t \<and> left < right\<rparr> = t" using assms(1,2) by simp
  then show ?thesis
    using assms by (simp add: transfer_exec_def exec_result_def Let_def del: arr_iffs)
qed

definition encode_transfer :: "nat \<Rightarrow> 'w env \<Rightarrow> 'w transfer \<Rightarrow> bool" where
  "encode_transfer n env t \<longleftrightarrow> tr_wrapper t = client_wrapper_encode n env \<and> tr_result t \<noteq> IO_ERROR \<and>
     tr_block_status t = STATUS_BLOCK_DATA"

lemma take_min_length [simp]: "take (min (length xs) n) xs = take n xs" "drop (min (length xs) n) xs = drop n xs"
  "take (min n (length xs)) xs = take n xs"
  by (cases "n \<le> length xs"; simp)+

lemma fill_step:
  assumes q: "publish_callback_quiet wire env" and t: "encode_transfer n env t" "tr_available t"
    and good: "output_good s" and n: "tx_fuel s \<le> n" and room: "cl_write_buf_pos s < cl_write_buf_capacity s"
  defines "k \<equiv> min (cl_write_buf_capacity s - cl_write_buf_pos s) (length (tx_stream s))"
  shows "\<exists>t' s'. transfer_exec t WRITE_BUF transfer_append (cl_write_buf_pos s) (cl_write_buf_capacity s) s = Some (True, t', s') \<and>
    encode_transfer n env t' \<and> delivers wire s s' \<and> tr_available t' = (tx_stream s \<noteq> []) \<and> cl_error s' = cl_error s \<and>
    (tr_result t' = IO_WOULD_BLOCK \<longleftrightarrow> tx_stream s = []) \<and> tr_count t' = k \<and>
    tx_stream s' = drop k (tx_stream s) \<and> cl_write_buf_pos s' = cl_write_buf_pos s + k"
proof -
  let ?room = "cl_write_buf_capacity s - cl_write_buf_pos s" and ?p = "cl_write_buf_pos s"
  note g = good [unfolded output_good_def]
  obtain s1 where s1: "lmqtt_tx_buffer_encode n env ?room s = Some (tx_result (tx_stream s \<noteq> []), take ?room (tx_stream s), s1)"
      "tx_after wire ?room s s1"
    using tx_buffer_encode_step [OF q _ n, of ?room] g by auto
  note after = s1(2) [unfolded tx_after_def outside_def, simplified]
  obtain sent where sent: "sent_between sent s s1" using after by blast
  then have pend: "tx_pending s = sent @ tx_pending s1" and closed: "\<not> tx_closed (cl_tx s1)"
    using g by (auto simp: sent_between_def)
  have slice: "arr_slice (cl_write_buf s) ?p ?room = Some (take ?room (drop ?p (cl_write_buf s)))"
    using g room by (simp add: arr_simps)
  have len: "length (take ?room (drop ?p (cl_write_buf s))) = ?room" using g room by (auto simp: min_def)
  let ?bs = "take ?room (tx_stream s)"
  let ?buf = "take ?p (cl_write_buf s) @ ?bs @ drop (?p + length ?bs) (cl_write_buf s)"
  let ?s' = "s1\<lparr>cl_write_buf := ?buf, cl_write_buf_pos := ?p + k\<rparr>"
  have wr: "arr_write (cl_write_buf s) ?p ?bs = Some ?buf" using g room by (intro arr_write_in) auto
  have same: "same_source s1 ?s'" by (rule same_source_trans [OF same_source_simps(1) same_source_simps(2)])
  have k: "k = length ?bs" by (simp add: k_def min.commute)
  have "drop ?room (tx_stream s) = drop k (tx_stream s)" unfolding k_def by (cases "?room \<le> length (tx_stream s)") auto
  then have str: "tx_stream ?s' = drop k (tx_stream s)" using same_source_stream(2) [OF same] after by simp
  have buf: "buffered ?s' = buffered s @ ?bs"
    using g room by (simp add: buffered_def k)
  have "outgoing wire ?s' = outgoing wire s"
    using buf str after by (simp add: outgoing_def k)
  moreover have "output_good ?s'"
    using same_source_stream(1) [OF same] after g closed pend room same by (auto simp: output_good_def same_source_def k)
  moreover have "tx_fuel ?s' \<le> tx_fuel s" using same_source_stream(3) [OF same] after by simp
  moreover have "sent_between (sent @ []) s ?s'" by (rule sent_between_trans [OF sent same_source_stream(4) [OF same]])
  ultimately have del: "delivers wire s ?s'" using after unfolding delivers_def by auto
  let ?t = "exec_result t (tx_result (tx_stream s \<noteq> [])) k"
  have wrap: "tr_wrapper t (take ?room (drop ?p (cl_write_buf s))) s =
      Some (tx_result (tx_stream s \<noteq> []), ?bs, k, ti_error (ti s1), ti_os_error (ti s1), s1)"
    using t(1) s1(1) unfolding encode_transfer_def client_wrapper_encode_def k
    by (simp add: len lmqtt_tx_buffer_get_error_def del: length_take)
  have "transfer_append t2 WRITE_BUF (set_buf WRITE_BUF ?buf s1) = Some ?s'" if "tr_count t2 = k" for t2 :: "'a transfer"
    using that after by (simp add: transfer_append_def)
  note aft = this
  have "transfer_exec t WRITE_BUF transfer_append ?p (cl_write_buf_capacity s) s = Some (True, ?t, ?s')"
    using transfer_exec_step [where b = WRITE_BUF and aft = transfer_append and buf = ?buf and ?s2.0 = ?s',
        OF t(2) room _ wrap _ aft] slice wr after
    by (simp add: tx_result_def del: arr_iffs split: if_splits)
  moreover have "encode_transfer n env ?t" using t by (simp add: encode_transfer_def exec_result_def tx_result_def)
  ultimately show ?thesis using del str after room by (auto simp: tx_result_def exec_result_def k_def)
qed


lemma transfer_exec_skip:
  assumes "\<not> (tr_available t \<and> left < right)" and "tr_result t \<noteq> IO_ERROR"
  shows "transfer_exec t b aft left right s = Some (True, t\<lparr>tr_available := False\<rparr>, s)"
  using assms by (cases "tr_available t") (auto simp: transfer_exec_def Let_def)

text \<open>The state of the first transfer between two rounds, and one round of it.\<close>

definition input_ok :: "nat \<Rightarrow> 'w env \<Rightarrow> 'w transfer \<Rightarrow> 'w sys \<Rightarrow> bool" where
  "input_ok n env t s \<longleftrightarrow> encode_transfer n env t \<and> (tr_result t = IO_WOULD_BLOCK \<longrightarrow> tx_stream s = []) \<and> \<not> transfer_is_eof t"

lemma fill_round:
  assumes "publish_callback_quiet wire env" and "input_ok n env t s" and "output_good s" and "tx_fuel s \<le> n"
  shows "\<exists>t' s' k. transfer_exec t WRITE_BUF transfer_append (cl_write_buf_pos s) (cl_write_buf_capacity s) s = Some (True, t', s') \<and>
    input_ok n env t' s' \<and> delivers wire s s' \<and> cl_error s' = cl_error s \<and>
    length (tx_stream s') + k = length (tx_stream s) \<and> cl_write_buf_pos s' = cl_write_buf_pos s + k \<and>
    (tr_available t' \<longrightarrow> tr_available t \<and> 0 < k) \<and>
    (tr_available t \<and> cl_write_buf_pos s < cl_write_buf_capacity s \<longrightarrow> tr_available t' \<or> tr_result t' = IO_WOULD_BLOCK) \<and>
    (tr_result t = IO_WOULD_BLOCK \<longrightarrow> tr_result t' = IO_WOULD_BLOCK)"
proof (cases "tr_available t \<and> cl_write_buf_pos s < cl_write_buf_capacity s")
  case True
  let ?k = "min (cl_write_buf_capacity s - cl_write_buf_pos s) (length (tx_stream s))"
  obtain t' s' where "transfer_exec t WRITE_BUF transfer_append (cl_write_buf_pos s) (cl_write_buf_capacity s) s = Some (True, t', s')"
      "encode_transfer n env t'" "delivers wire s s'" "tr_available t' = (tx_stream s \<noteq> [])" "cl_error s' = cl_error s"
      "tr_result t' = IO_WOULD_BLOCK \<longleftrightarrow> tx_stream s = []" "tr_count t' = ?k"
      "tx_stream s' = drop ?k (tx_stream s)" "cl_write_buf_pos s' = cl_write_buf_pos s + ?k"
    using fill_step [of wire env n t s] assms True unfolding input_ok_def by blast
  then show ?thesis
    using True assms(2)
    by - (rule exI [of _ t'], rule exI [of _ s'], rule exI [of _ ?k], auto simp: input_ok_def transfer_is_eof_def)
next
  case False
  then show ?thesis
    using transfer_exec_skip [OF False, of WRITE_BUF transfer_append s] assms delivers_refl [of s wire]
    by - (rule exI [of _ "t\<lparr>tr_available := False\<rparr>"], rule exI [of _ s], rule exI [of _ 0],
      auto simp: input_ok_def encode_transfer_def transfer_is_eof_def)
qed

section \<open>Emptying the write buffer\<close>

definition output_ok :: "'w env \<Rightarrow> 'w transfer \<Rightarrow> bool" where
  "output_ok env t \<longleftrightarrow> tr_wrapper t = client_wrapper_write env \<and> tr_result t \<noteq> IO_ERROR \<and>
     tr_block_status t = STATUS_BLOCK_CONN \<and> \<not> transfer_is_eof t"

lemma drain_round:
  assumes net: "wire_network wire env" and t: "output_ok env t" and good: "output_good s"
  shows "\<exists>ok t' s' c. transfer_exec t WRITE_BUF transfer_shift 0 (cl_write_buf_pos s) s = Some (ok, t', s') \<and>
    delivers wire s s' \<and> tx_stream s' = tx_stream s \<and> c \<le> cl_write_buf_pos s \<and> cl_write_buf_pos s' = cl_write_buf_pos s - c \<and>
    (ok \<longrightarrow> output_ok env t' \<and> cl_error s' = cl_error s) \<and> (\<not> ok \<longrightarrow> cl_error s' = ERROR_CONNECTION_WRITE) \<and>
    (tr_available t' \<longrightarrow> tr_available t \<and> 0 < c) \<and>
    (keen_network env \<longrightarrow> ok \<and> (tr_available t \<and> 0 < cl_write_buf_pos s \<longrightarrow> tr_available t'))"
proof (cases "tr_available t \<and> 0 < cl_write_buf_pos s")
  case True
  let ?p = "cl_write_buf_pos s"
  note g = good [unfolded output_good_def]
  obtain res c os w where nw: "en_net_write env (buffered s) (sy_world s) = (res, c, os, w)"
    by (cases "en_net_write env (buffered s) (sy_world s)") auto
  have len: "length (buffered s) = ?p" using g by (simp add: buffered_def)
  have c: "c \<le> ?p" "wire w = wire (sy_world s) @ take c (buffered s)" "res = IO_SUCCESS \<longrightarrow> 0 < c"
    using net nw len True unfolding wire_network_def by (metis (mono_tags, lifting) case_prod_conv length_0_conv less_irrefl)+
  let ?buf = "take (?p - c) (drop c (cl_write_buf s)) @ drop (?p - c) (cl_write_buf s)"
  let ?s1 = "s\<lparr>sy_world := w, cl_write_buf := ?buf, cl_write_buf_pos := ?p - c\<rparr>"
  have move: "arr_move (cl_write_buf s) 0 c (?p - c) = Some ?buf"
  proof -
    have "length (take (?p - c) (drop c (cl_write_buf s))) = ?p - c" "c + (?p - c) \<le> length (cl_write_buf s)"
        "?p - c \<le> length (cl_write_buf s)"
      using g c by auto
    then show ?thesis by (simp add: arr_move_def arr_simps del: length_take)
  qed
  have wrap: "tr_wrapper t (buffered s) s = Some (res, [], c, ERROR_CONNECTION_WRITE, os, s\<lparr>sy_world := w\<rparr>)"
    using t nw by (simp add: output_ok_def client_wrapper_write_def)
  have aft: "transfer_shift t2 WRITE_BUF (set_buf WRITE_BUF (cl_write_buf s) (s\<lparr>sy_world := w\<rparr>)) = Some ?s1"
    if "tr_count t2 = c" for t2 :: "'a transfer"
    using that move c by (simp add: transfer_shift_def)
  let ?s' = "if res = IO_ERROR then ?s1\<lparr>cl_error := ERROR_CONNECTION_WRITE, cl_os_error := os\<rparr> else ?s1"
  have exec: "transfer_exec t WRITE_BUF transfer_shift 0 ?p s = Some (res \<noteq> IO_ERROR, exec_result t res c, ?s')"
    using transfer_exec_step [where b = WRITE_BUF and aft = transfer_shift and buf = "cl_write_buf s" and ?s2.0 = ?s1,
        OF _ _ _ wrap _ aft] True g
    by (simp add: arr_simps buffered_def del: arr_iffs)
  have same: "same_source s ?s'"
    by (simp add: same_source_trans [OF same_source_trans [OF same_source_trans [OF same_source_trans
        [OF same_source_simps(3) same_source_simps(1)] same_source_simps(2)] same_source_simps(4)] same_source_simps(5)]
      same_source_trans [OF same_source_trans [OF same_source_simps(3) same_source_simps(1)] same_source_simps(2)])
  have buf: "buffered ?s' = drop c (buffered s)"
    using g c by (simp add: buffered_def drop_take min_def)
  have "output_good ?s'"
    using same_source_stream(1) [OF same] g same c by (auto simp: output_good_def same_source_def)
  moreover have "outgoing wire ?s' = outgoing wire s"
    using buf c(2) same_source_stream(2) [OF same] by (simp add: outgoing_def)
  ultimately have "delivers wire s ?s'"
    using same_source_stream(3,4) [OF same] unfolding delivers_def by auto
  moreover have "keen_network env \<Longrightarrow> res = IO_SUCCESS"
    using nw len True unfolding keen_network_def by (metis (mono_tags, lifting) case_prod_conv length_0_conv less_irrefl)
  ultimately show ?thesis
    using exec same_source_stream(2) [OF same] c t True
    by - (rule exI [of _ "res \<noteq> IO_ERROR"], rule exI [of _ "exec_result t res c"], rule exI [of _ ?s'], rule exI [of _ c],
      auto simp: output_ok_def exec_result_def transfer_is_eof_def)
next
  case False
  then show ?thesis
    using transfer_exec_skip [OF False, of WRITE_BUF transfer_shift s] assms delivers_refl [of s wire]
    by - (rule exI [of _ True], rule exI [of _ "t\<lparr>tr_available := False\<rparr>"], rule exI [of _ s], rule exI [of _ 0],
      auto simp: output_ok_def transfer_is_eof_def)
qed


section \<open>Back and forth\<close>

text \<open>With a connection that always takes something, neither transfer stops early.\<close>

definition keeps_going :: "'w transfer \<Rightarrow> 'w transfer \<Rightarrow> 'w sys \<Rightarrow> bool" where
  "keeps_going input output s \<longleftrightarrow> cl_write_buf_pos s < cl_write_buf_capacity s \<and>
     (tr_available input \<or> tr_result input = IO_WOULD_BLOCK) \<and>
     (tr_available output \<or> cl_write_buf_pos s = 0 \<and> tx_stream s = [])"

lemma output_loop:
  assumes q: "publish_callback_quiet wire env" and net: "wire_network wire env"
    and "input_ok m env tin s" and "output_ok env tout" and "output_good s" and "tx_fuel s \<le> m"
    and "2 * length (tx_stream s) + cl_write_buf_pos s + of_bool (tr_available tin) + of_bool (tr_available tout) < n"
  shows "\<exists>ok tin' tout' s'. transfer_loop n WRITE_BUF tin tout s = Some (ok, tin', tout', s') \<and>
    delivers wire s s' \<and> (ok \<longrightarrow> input_ok m env tin' s' \<and> output_ok env tout' \<and> cl_error s' = cl_error s) \<and>
    (\<not> ok \<longrightarrow> cl_error s' = ERROR_CONNECTION_WRITE) \<and>
    (keen_network env \<and> keeps_going tin tout s \<longrightarrow>
       ok \<and> tr_result tin' = IO_WOULD_BLOCK \<and> tx_stream s' = [] \<and> cl_write_buf_pos s' = 0)"
  using assms(3-)
proof (induction n arbitrary: tin tout s)
  case 0
  then show ?case by simp
next
  case (Suc n)
  show ?case
  proof (cases "tr_available tin \<or> tr_available tout")
    case False
    then show ?thesis
      using Suc.prems delivers_refl [OF Suc.prems(3), of wire]
      by (auto simp: keeps_going_def input_ok_def)
  next
    case True
    obtain in1 s1 k where f: "transfer_exec tin WRITE_BUF transfer_append (cl_write_buf_pos s) (cl_write_buf_capacity s) s = Some (True, in1, s1)"
        "input_ok m env in1 s1" "delivers wire s s1" "cl_error s1 = cl_error s"
        "length (tx_stream s1) + k = length (tx_stream s)" "cl_write_buf_pos s1 = cl_write_buf_pos s + k"
        "tr_available in1 \<longrightarrow> tr_available tin \<and> 0 < k"
        "tr_available tin \<and> cl_write_buf_pos s < cl_write_buf_capacity s \<longrightarrow> tr_available in1 \<or> tr_result in1 = IO_WOULD_BLOCK"
        "tr_result tin = IO_WOULD_BLOCK \<longrightarrow> tr_result in1 = IO_WOULD_BLOCK"
      using fill_round [OF q Suc.prems(1,3,4)] by blast
    have good1: "output_good s1" using f(3) by (simp add: delivers_def)
    obtain ok out1 s2 c where d: "transfer_exec tout WRITE_BUF transfer_shift 0 (cl_write_buf_pos s1) s1 = Some (ok, out1, s2)"
        "delivers wire s1 s2" "tx_stream s2 = tx_stream s1" "c \<le> cl_write_buf_pos s1" "cl_write_buf_pos s2 = cl_write_buf_pos s1 - c"
        "ok \<longrightarrow> output_ok env out1 \<and> cl_error s2 = cl_error s1" "\<not> ok \<longrightarrow> cl_error s2 = ERROR_CONNECTION_WRITE"
        "tr_available out1 \<longrightarrow> tr_available tout \<and> 0 < c"
        "keen_network env \<longrightarrow> ok \<and> (tr_available tout \<and> 0 < cl_write_buf_pos s1 \<longrightarrow> tr_available out1)"
      using drain_round [OF net Suc.prems(2) good1] by blast
    note del = delivers_trans [OF f(3) d(2)]
    have loop: "transfer_loop (Suc n) WRITE_BUF tin tout s =
        (if \<not> ok then Some (False, in1, out1, s2) else transfer_loop n WRITE_BUF in1 out1 s2)"
      using True f(1) d(1) by (cases "tr_available tin") simp_all
    show ?thesis
    proof (cases ok)
      case False
      then show ?thesis using loop del d(7,9) by auto
    next
      case ok: True
      have in2: "input_ok m env in1 s2" using f(2) d(3) by (simp add: input_ok_def)
      have good2: "output_good s2" and fuel2: "tx_fuel s2 \<le> m" using del Suc.prems(4) by (simp_all add: delivers_def)
      have less: "2 * length (tx_stream s2) + cl_write_buf_pos s2 + of_bool (tr_available in1) + of_bool (tr_available out1) < n"
        using Suc.prems(5) f(5-7) d(3-5,8) True by (auto simp: of_bool_def split: if_splits)
      have cap: "cl_write_buf_capacity s2 = cl_write_buf_capacity s" using del by (simp add: delivers_def)
      have keep: "keeps_going in1 out1 s2" if "keen_network env" "keeps_going tin tout s"
      proof -
        note kg = that(2) [unfolded keeps_going_def]
        have res: "tr_available in1 \<or> tr_result in1 = IO_WOULD_BLOCK" using kg f(8,9) by blast
        have out: "tr_available out1 \<and> 0 < c \<or> cl_write_buf_pos s1 = 0 \<and> tx_stream s1 = []"
        proof (cases "tr_available tout \<and> 0 < cl_write_buf_pos s1")
          case True
          then show ?thesis using d(8,9) that(1) by blast
        next
          case False
          then have "cl_write_buf_pos s1 = 0" using kg f(5,6) by auto
          then have "k = 0" using f(6) by simp
          then have "tr_result in1 = IO_WOULD_BLOCK" using res f(7) by simp
          then show ?thesis using f(2) \<open>cl_write_buf_pos s1 = 0\<close> by (simp add: input_ok_def)
        qed
        have "cl_write_buf_pos s2 < cl_write_buf_capacity s2"
          using out d(4,5) good1 cap f(3) kg by (auto simp: output_good_def delivers_def)
        then show ?thesis using res out d(3,5) unfolding keeps_going_def by auto
      qed
      obtain ok' in3 out3 s3 where "transfer_loop n WRITE_BUF in1 out1 s2 = Some (ok', in3, out3, s3)"
          "delivers wire s2 s3" "ok' \<longrightarrow> input_ok m env in3 s3 \<and> output_ok env out3 \<and> cl_error s3 = cl_error s2"
          "\<not> ok' \<longrightarrow> cl_error s3 = ERROR_CONNECTION_WRITE"
          "keen_network env \<and> keeps_going in1 out1 s2 \<longrightarrow>
            ok' \<and> tr_result in3 = IO_WOULD_BLOCK \<and> tx_stream s3 = [] \<and> cl_write_buf_pos s3 = 0"
        using Suc.IH [OF in2 _ good2 fuel2 less] d(6) ok by blast
      then show ?thesis
        using loop ok keep delivers_trans [OF del] f(4) d(6)
        by - (rule exI [of _ ok'], rule exI [of _ in3], rule exI [of _ out3], rule exI [of _ s3], auto)
    qed
  qed
qed


section \<open>One call\<close>

lemma touch_same: "same_source s ((set_store r (st\<lparr>st_last_touch := tm\<rparr>) s)\<lparr>sy_world := w\<rparr>)"
  if "st = get_store r s"
proof -
  have "store_pending (st\<lparr>st_last_touch := tm\<rparr>) = store_pending st" "store_marked (st\<lparr>st_last_touch := tm\<rparr>) = store_marked st"
    "store_inv (st\<lparr>st_last_touch := tm\<rparr>) = store_inv st"
    by (simp_all add: store_pending_def store_marked_def store_live_def store_inv_def)
  then show ?thesis
    using that get_set_store_other [of r "tx_store (cl_tx s)" "st\<lparr>st_last_touch := tm\<rparr>" s]
    by (cases "r = tx_store (cl_tx s)") (simp_all add: same_source_def tx_pending_def tx_marked_def)
qed

lemma write_buf_set_store [simp]:
  "cl_write_buf (set_store r st s) = cl_write_buf s" "cl_write_buf_pos (set_store r st s) = cl_write_buf_pos s"
  "cl_write_buf_capacity (set_store r st s) = cl_write_buf_capacity s"
  by (simp_all add: set_store_def split: store_ref.split)

lemma delivers_same:
  assumes "same_source s s'" and "output_good s" and "wire (sy_world s') = wire (sy_world s)"
    and "cl_write_buf s' = cl_write_buf s" and "cl_write_buf_pos s' = cl_write_buf_pos s"
    and "cl_write_buf_capacity s' = cl_write_buf_capacity s"
  shows "delivers wire s s'"
  using assms(2-) same_source_stream [OF assms(1)] assms(1)
  unfolding delivers_def output_good_def outgoing_def buffered_def same_source_def by auto

definition everything_taken :: "'w sys \<Rightarrow> bool" where
  "everything_taken s \<longleftrightarrow> buffered s = [] \<and> tx_stream s = []"

definition output_fuel :: "'w sys \<Rightarrow> nat" where
  "output_fuel s = tx_fuel s + 2 * length (tx_stream s) + cl_write_buf_pos s + 2"

lemma process_output:
  assumes q: "publish_callback_quiet wire env" and net: "wire_network wire env" and good: "output_good s"
    and err: "cl_error s = NO_ERROR" and n: "output_fuel s < n"
  shows "\<exists>st s'. client_process_output n env s = Some (st, s') \<and> delivers wire s s' \<and>
    st \<in> {STATUS_BLOCK_CONN, STATUS_BLOCK_DATA, STATUS_ERROR} \<and> (st = STATUS_BLOCK_DATA \<longrightarrow> everything_taken s') \<and>
    (keen_network env \<and> cl_write_buf_pos s < cl_write_buf_capacity s \<longrightarrow> st = STATUS_BLOCK_DATA)"
proof -
  let ?in = "transfer_initialize (client_wrapper_encode n env) STATUS_BLOCK_DATA :: 'a transfer"
  let ?out = "transfer_initialize (client_wrapper_write env) STATUS_BLOCK_CONN :: 'a transfer"
  have ok: "input_ok n env ?in s" "output_ok env ?out" "tr_available ?in" "tr_available ?out"
    by (simp_all add: transfer_initialize_def input_ok_def output_ok_def encode_transfer_def transfer_is_eof_def)
  have fuel: "tx_fuel s \<le> n" "2 * length (tx_stream s) + cl_write_buf_pos s + of_bool (tr_available ?in) + of_bool (tr_available ?out) < n"
    using n ok(3,4) by (simp_all add: output_fuel_def)
  obtain b tin tout s1 where l: "transfer_loop n WRITE_BUF ?in ?out s = Some (b, tin, tout, s1)" "delivers wire s s1"
      "b \<longrightarrow> input_ok n env tin s1 \<and> output_ok env tout \<and> cl_error s1 = cl_error s" "\<not> b \<longrightarrow> cl_error s1 = ERROR_CONNECTION_WRITE"
      "keen_network env \<and> keeps_going ?in ?out s \<longrightarrow>
       b \<and> tr_result tin = IO_WOULD_BLOCK \<and> tx_stream s1 = [] \<and> cl_write_buf_pos s1 = 0"
    using output_loop [OF q net ok(1,2) good fuel] by blast
  have good1: "output_good s1" using l(2) by (simp add: delivers_def)
  have keen: "keeps_going ?in ?out s" if "cl_write_buf_pos s < cl_write_buf_capacity s"
    using that ok(3,4) by (simp add: keeps_going_def)
  show ?thesis
  proof (cases b)
    case False
    let ?s2 = "set_ops_fail (s1\<lparr>cl_closed := True, cl_op_connect := OP_FAIL\<rparr>)"
    have "client_process_output n env s = Some (STATUS_ERROR, ?s2)"
      using False err l(1,4) by (simp add: client_process_output_def client_buffer_transfer_def client_set_state_failed_def)
    moreover have "delivers wire s1 ?s2"
      by (rule delivers_same [OF _ good1]) (simp_all add: set_ops_fail_def same_source_def tx_pending_def tx_marked_def get_store_def split: store_ref.split)
    ultimately show ?thesis using delivers_trans [OF l(2)] False l(5) keen by auto
  next
    case True
    define touched where "touched = (let r = cl_current_store s1; (st, w) = lmqtt_store_touch (en_get_time env) (get_store r s1) (sy_world s1)
       in (set_store r st s1)\<lparr>sy_world := w\<rparr>)"
    have "wire w = wire (sy_world s1)" if "en_get_time env (sy_world s1) = (tm, w)" for tm w
      using net that unfolding wire_network_def by (metis snd_conv)
    then have t: "same_source s1 touched \<and> wire (sy_world touched) = wire (sy_world s1) \<and> cl_write_buf touched = cl_write_buf s1 \<and>
        cl_write_buf_pos touched = cl_write_buf_pos s1 \<and> cl_write_buf_capacity touched = cl_write_buf_capacity s1"
      unfolding touched_def Let_def lmqtt_store_touch_def lmqtt_time_touch_def
      by (auto split: prod.split intro: touch_same)
    define s2 where "s2 = (if \<not> tr_stale tin \<or> \<not> tr_stale tout then touched else s1)"
    have s2: "delivers wire s1 s2" "cl_write_buf_pos s2 = cl_write_buf_pos s1" "tx_stream s2 = tx_stream s1"
      using delivers_refl [OF good1] t delivers_same [of s1 touched wire] good1 same_source_stream(2) [of s1 touched]
      by (auto simp: s2_def)
    have eof: "\<not> (transfer_is_eof tin \<or> transfer_is_eof tout)" "tr_block_status tin = STATUS_BLOCK_DATA" "tr_block_status tout = STATUS_BLOCK_CONN"
      using l(3) True by (auto simp: input_ok_def output_ok_def encode_transfer_def)
    have "client_process_output n env s = Some
        (if tr_result tin = IO_WOULD_BLOCK \<and> get_buf_pos WRITE_BUF s2 = 0 then STATUS_BLOCK_DATA else STATUS_BLOCK_CONN, s2)"
      using True err l(1) eof
      by (simp add: client_process_output_def client_buffer_transfer_def s2_def touched_def Let_def)
    then show ?thesis
      using delivers_trans [OF l(2) s2(1)] l(3,5) True keen s2(2,3)
      by (auto simp: everything_taken_def buffered_def input_ok_def)
  qed
qed


section \<open>Properties\<close>

text \<open>
  C7. No byte is lost, repeated or reordered on the way out: after a call of
  \<open>client_process_output\<close>, the bytes the connection has taken, those left in the write buffer and
  those still to be encoded are, one after the other, what they were before, however the
  connection cuts them. The call reports that it waits for data only when nothing is left.
\<close>

theorem output_keeps_bytes_in_order:
  assumes "publish_callback_quiet wire env" and "wire_network wire env" and "output_good s"
    and "cl_error s = NO_ERROR" and "output_fuel s < n"
  shows "\<exists>st s'. client_process_output n env s = Some (st, s') \<and> output_good s' \<and>
    wire (sy_world s') @ buffered s' @ tx_stream s' = wire (sy_world s) @ buffered s @ tx_stream s \<and>
    st \<in> {STATUS_BLOCK_CONN, STATUS_BLOCK_DATA, STATUS_ERROR} \<and>
    (st = STATUS_BLOCK_DATA \<longrightarrow> buffered s' = [] \<and> tx_stream s' = [])"
  using process_output [OF assms] unfolding delivers_def outgoing_def everything_taken_def by blast

lemma recording_network: "wire_network (\<lambda>w. w) (wire_env limit)"
  by (auto simp: wire_network_def wire_env_def)

lemma example_output_good: "output_good (example_sender 2)" "cl_error (example_sender 2) = NO_ERROR" "output_fuel (example_sender 2) < 60"
  by code_simp+

theorem output_keeps_bytes_in_order_witness:
  "\<exists>st s'. client_process_output 60 (wire_env 4) (example_sender 2) = Some (st, s') \<and>
    sy_world s' @ buffered s' @ tx_stream s' = [0x3A, 7, 0, 3, 0x61, 0x2F, 0x62, 0, 5, 0x40, 2, 0, 9]"
proof -
  have "sy_world (example_sender 2) = [] \<and> buffered (example_sender 2) = []" by code_simp
  then show ?thesis
    using output_keeps_bytes_in_order [OF wire_env_quiet recording_network example_output_good, of 4]
    by (auto simp: example_sender_stream)
qed

text \<open>
  C6. Every queued request gets out: when the connection takes at least one byte each time, one
  call of \<open>client_process_output\<close> puts the packets of all requests on it, after what was in the
  write buffer. Then no request is left to be sent, and those that expect a response are
  marked, in the order in which they were queued.
\<close>

theorem output_sends_every_request:
  assumes "publish_callback_quiet wire env" and "wire_network wire env" and "keen_network env" and "output_good s"
    and "cl_error s = NO_ERROR" and "output_fuel s < n" and "cl_write_buf_pos s < cl_write_buf_capacity s"
  shows "\<exists>s'. client_process_output n env s = Some (STATUS_BLOCK_DATA, s') \<and>
    wire (sy_world s') = wire (sy_world s) @ buffered s @ tx_stream s \<and> tx_pending s' = [] \<and>
    tx_marked s' = tx_marked s @ filter (\<lambda>e. kind_expects_response (se_kind e)) (tx_pending s)"
proof -
  obtain s' sent where s': "client_process_output n env s = Some (STATUS_BLOCK_DATA, s')" "everything_taken s'"
      "output_good s'" "outgoing wire s' = outgoing wire s" "sent_between sent s s'"
    using process_output [OF assms(1,2,4,5,6)] assms(3,7) unfolding delivers_def by blast
  then have "tx_pending s' = []" by (auto simp: output_good_def tx_good_def everything_taken_def)
  then show ?thesis using s' by (auto simp: sent_between_def everything_taken_def outgoing_def)
qed


definition eager_env :: "byte list env" where
  "eager_env = (wire_env 0)\<lparr>en_net_write := \<lambda>bs w. (IO_SUCCESS, min 3 (length bs), 0, w @ take 3 bs)\<rparr>"

theorem output_sends_every_request_witness:
  "\<exists>s'. client_process_output 60 eager_env (example_sender 2) = Some (STATUS_BLOCK_DATA, s') \<and>
    sy_world s' = [0x3A, 7, 0, 3, 0x61, 0x2F, 0x62, 0, 5, 0x40, 2, 0, 9] \<and> tx_pending s' = [] \<and>
    tx_marked s' = [example_request KIND_PUBLISH_1 ON_PUBLISH]"
proof -
  have quiet: "publish_callback_quiet (\<lambda>w. w) eager_env"
    using wire_env_quiet [of "\<lambda>w. w" 0] by (simp add: publish_callback_quiet_def eager_env_def)
  have net: "wire_network (\<lambda>w. w) eager_env" "keen_network eager_env"
    by (auto simp: wire_network_def keen_network_def eager_env_def wire_env_def)
  have "sy_world (example_sender 2) = [] \<and> buffered (example_sender 2) = [] \<and> tx_marked (example_sender 2) = []"
      "cl_write_buf_pos (example_sender 2) < cl_write_buf_capacity (example_sender 2)"
      "filter (\<lambda>e. kind_expects_response (se_kind e)) (tx_pending (example_sender 2)) = [example_request KIND_PUBLISH_1 ON_PUBLISH]"
    by code_simp+
  then show ?thesis
    using output_sends_every_request [OF quiet net example_output_good]
    by (auto simp: example_sender_stream)
qed

end
