(* ===== verification/Publish_Delivery.thy ===== *)
theory Publish_Delivery
  imports Rx_Pieces Rx_Properties Output_Delivery
begin

text \<open>
  A PUBLISH from one end to the other: the bytes that a sender's \<open>lmqtt_tx_buffer_encode\<close> puts out
  for its messages, cut into any pieces, make a receiver's \<open>lmqtt_rx_buffer_decode\<close> hand the same
  messages to the user, in the same order, and queue the acknowledgement of each.
\<close>

section \<open>What a receiver hears\<close>

text \<open>Topic, payload, quality of service and retain flag of a message.\<close>

type_synonym message = "byte list \<times> byte list \<times> qos \<times> bool"

definition message_of :: "publish \<Rightarrow> message" where
  "message_of m = (string_part False (pb_topic m), string_part False (pb_payload m), pb_qos m, pb_retain m \<noteq> 0)"

text \<open>
  The callbacks: memory for both strings, and a list of the messages that came in, which is the
  outside world.
\<close>

definition listens :: "message list env \<Rightarrow> message_callbacks \<Rightarrow> bool" where
  "listens env mc \<longleftrightarrow> plain_receiver env \<and> mc_on_publish_deallocate mc = None \<and>
     (\<exists>f. mc_on_publish mc = Some f \<and> (\<forall>s. en_message env f (mc_on_publish_data mc) s =
        Some (True, s\<lparr>sy_world := sy_world s @ [message_of (ri_publish (ri s))]\<rparr>))) \<and>
     (\<exists>f. mc_on_publish_allocate_topic mc = Some f \<and> (\<forall>m len w. en_allocate env f (mc_on_publish_data mc) m len w =
        (ALLOCATE_SUCCESS, m\<lparr>pb_topic := own_string len\<rparr>, w))) \<and>
     (\<exists>f. mc_on_publish_allocate_payload mc = Some f \<and> (\<forall>m len w. en_allocate env f (mc_on_publish_data mc) m len w =
        (ALLOCATE_SUCCESS, m\<lparr>pb_payload := own_string len\<rparr>, w)))"

definition filled :: "byte list \<Rightarrow> lstring" where
  "filled bs = lstring_zero\<lparr>str_len := int (length bs), str_pos := int (length bs), str_buf := Some bs\<rparr>"

lemma own_write_filled: "bs \<noteq> [] \<Longrightarrow> own_write (own_string (length bs)) bs = Some (filled bs)"
  by (simp add: own_write_def own_string_def filled_def lstring_zero_def arr_simps c_assert_bind del: arr_iffs)

lemma filled_part [simp]: "string_part False (filled bs) = bs"
  by (simp add: string_part_def filled_def string_bytes_def)

section \<open>Rounds of the loop\<close>

definition reaches :: "'w env \<Rightarrow> byte list \<Rightarrow> 'w sys \<Rightarrow> byte list \<Rightarrow> 'w sys \<Rightarrow> bool" where
  "reaches env x s y t \<longleftrightarrow> (\<forall>n c r. rx_buffer_decode_loop n env y (c + (length x - length y)) t = Some r \<longrightarrow>
     (\<exists>m. rx_buffer_decode_loop m env x c s = Some r)) \<and> length y \<le> length x"

lemma reaches_refl: "reaches env x s x s"
  by (auto simp: reaches_def)

lemma reaches_trans: "reaches env x s y t \<Longrightarrow> reaches env y t z u \<Longrightarrow> reaches env x s z u"
proof -
  assume a: "reaches env x s y t" "reaches env y t z u"
  have len: "length z \<le> length y" "length y \<le> length x" using a by (simp_all add: reaches_def)
  have "\<exists>m. rx_buffer_decode_loop m env x c s = Some r"
    if "rx_buffer_decode_loop n env z (c + (length x - length z)) u = Some r" for n c r
  proof -
    have "c + (length x - length z) = c + (length x - length y) + (length y - length z)" using len by simp
    then show ?thesis using a that unfolding reaches_def by metis
  qed
  then show ?thesis using len unfolding reaches_def by auto
qed

lemma reaches_round:
  assumes "x @ y \<noteq> []" and "rx_round env (x @ y) s = Some (nx, length x, t)" and "nx = RX_CHECK \<or> nx = RX_CONTINUE"
    and "nx = RX_CHECK \<longrightarrow> \<not> rx_buffer_is_packet_finished t"
  shows "reaches env (x @ y) s y t"
  using loop_stepI [OF assms(1-3), where ?s2.0 = t] assms(4) unfolding reaches_def by (auto, blast+)

lemma reaches_packet_end:
  assumes "x @ y \<noteq> []" and "rx_round env (x @ y) s = Some (RX_CHECK, length x, t)" and "rx_buffer_is_packet_finished t"
    and "ri_decoder (ri t) = Some DECODER_PUBLISH" and "sv_callback (ri_value (ri t)) = None"
  shows "reaches env (x @ y) s y (lmqtt_rx_buffer_reset t)"
proof -
  have "rx_buffer_finish_packet m env t = Some (True, lmqtt_rx_buffer_reset t)" for m
    using assms(4,5) by (simp add: rx_buffer_finish_packet_def rx_buffer_call_callback_def value_callback_def)
  then show ?thesis
    using loop_stepI [OF assms(1,2) _ _, where ?s2.0 = "lmqtt_rx_buffer_reset t"] assms(3) unfolding reaches_def by (auto, blast)
qed

text \<open>The bytes of a header.\<close>

definition in_header :: "fixed_header \<Rightarrow> 'w sys \<Rightarrow> 'w sys" where
  "in_header h = upd_ri (\<lambda>i. i\<lparr>ri_header := h\<rparr>)"

definition after_header :: "fixed_header \<Rightarrow> 'w sys \<Rightarrow> 'w sys" where
  "after_header h = upd_ri (\<lambda>i. i\<lparr>ri_header := h, ri_header_finished := True, ri_decoder := Some DECODER_PUBLISH\<rparr>)"

lemma header_reaches:
  assumes "header_run h0 hs = (h, DECODE_FINISHED, rest)" and "\<not> ri_header_finished (ri s)" and "ri_remain_buf_pos (ri s) = 0"
    and "fh_type h = TYPE_PUBLISH" and "3 \<le> fh_remaining_length h"
  shows "reaches env hs (in_header h0 s) rest (after_header h s)"
  using assms(1)
proof (induction h0 hs rule: header_run.induct)
  case (1 h0)
  then show ?case by simp
next
  case (2 h0 b bs)
  obtain h' res err where d: "fixed_header_decode h0 b = (h', res, err)" by (cases "fixed_header_decode h0 b") auto
  show ?case
  proof (cases "res = DECODE_CONTINUE")
    case True
    have "rx_round env ([b] @ bs) (in_header h0 s) = Some (RX_CONTINUE, length [b], in_header h' s)"
      using d True assms(2) by (simp add: rx_round_def rx_buffer_header_byte_def in_header_def comp_def)
    then have "reaches env ([b] @ bs) (in_header h0 s) bs (in_header h' s)"
      by (intro reaches_round) auto
    then show ?thesis using 2 d True reaches_trans by fastforce
  next
    case False
    then have h: "h' = h" "res = DECODE_FINISHED" "rest = bs" using 2 d by auto
    have "arr_get rx_buffer_decoders (nat (fh_type h)) = Some (Some DECODER_PUBLISH)" "0 \<le> fh_type h"
      using assms(4) by (simp_all add: rx_buffer_decoders_def arr_get_def TYPE_PUBLISH_def)
    then have "rx_round env ([b] @ bs) (in_header h0 s) = Some (RX_CHECK, length [b], after_header h s)"
      using d h assms(2,5)
      by (simp add: rx_round_def rx_buffer_header_byte_def in_header_def after_header_def comp_def rx_buffer_pop_def del: arr_iffs)
    then show ?thesis
      using reaches_round [of "[b]" bs env "in_header h0 s" RX_CHECK "after_header h s"] assms(3,5) h(3)
      by (simp add: after_header_def rx_buffer_is_packet_finished_def)
  qed
qed


section \<open>Inside a PUBLISH\<close>

definition mid :: "fixed_header \<Rightarrow> int \<Rightarrow> ushort \<Rightarrow> packet_id \<Rightarrow> publish \<Rightarrow> 'w sys \<Rightarrow> 'w sys" where
  "mid h p tlen pid m = upd_ri (\<lambda>_. rx_internal_zero\<lparr>ri_header := h, ri_header_finished := True,
     ri_decoder := Some DECODER_PUBLISH, ri_remain_buf_pos := p, ri_topic_len := tlen, ri_packet_id := pid, ri_publish := m\<rparr>)"

lemma mid_simps [simp]:
  "ri_header (ri (mid h p tlen pid m s)) = h" "ri_header_finished (ri (mid h p tlen pid m s))"
  "ri_decoder (ri (mid h p tlen pid m s)) = Some DECODER_PUBLISH" "ri_remain_buf_pos (ri (mid h p tlen pid m s)) = p"
  "ri_topic_len (ri (mid h p tlen pid m s)) = tlen" "ri_packet_id (ri (mid h p tlen pid m s)) = pid"
  "ri_publish (ri (mid h p tlen pid m s)) = m" "ri_blocking_str (ri (mid h p tlen pid m s)) = None"
  "ri_error (ri (mid h p tlen pid m s)) = NO_ERROR" "\<not> ri_ignore_publish (ri (mid h p tlen pid m s))"
  "ri_value (ri (mid h p tlen pid m s)) = store_value_zero"
  "cl_message_callbacks (mid h p tlen pid m s) = cl_message_callbacks s" "get_store r (mid h p tlen pid m s) = get_store r s"
  "rx_store (cl_rx (mid h p tlen pid m s)) = rx_store (cl_rx s)" "rx_id_set (cl_rx (mid h p tlen pid m s)) = rx_id_set (cl_rx s)"
  "sy_world (mid h p tlen pid m s) = sy_world s"
  by (simp_all add: mid_def rx_internal_zero_def)

lemma after_header_mid: "ri s = rx_internal_zero \<Longrightarrow> after_header h s = mid h 0 0 0 publish_zero s"
  by (simp add: after_header_def mid_def upd_ri_def rx_internal_zero_def)

lemma advance_mid: "advance k (mid h p tlen pid m s) = mid h (p + int k) tlen pid m s"
  by (simp add: advance_def mid_def upd_ri_def)

lemma put_string_mid: "put_string part str (mid h p tlen pid m s) = mid h p tlen pid (part_set_string part str m) s"
  by (simp add: put_string_def mid_def upd_ri_def)

lemma mid_reaches:
  assumes "publish_rest env (x @ y) (mid h p tlen pid m s) = Some (True, length x, mid h p tlen' pid' m' s)" and "x \<noteq> []"
    and "p + int (length x) < fh_remaining_length h"
  shows "reaches env (x @ y) (mid h p tlen pid m s) y (mid h (p + int (length x)) tlen' pid' m' s)"
proof -
  let ?s = "mid h p tlen pid m s" and ?t = "mid h p tlen' pid' m' s"
  have "rx_buffer_decode_publish env (x @ y) ?s = Some (DECODE_CONTINUE, length x, ?t)"
    using decode_publish_iff [of env "x @ y" ?s DECODE_CONTINUE "length x" ?t] assms by auto
  then have "rx_buffer_rest_bytes env (x @ y) ?s = Some (RX_CHECK, length x, mid h (p + int (length x)) tlen' pid' m' s)"
    using rest_publish [of ?s env "x @ y" "length x"] assms(3) by (auto simp: advance_mid)
  then show ?thesis
    using assms(2,3) by (intro reaches_round [where nx = RX_CHECK]) (auto simp: rx_round_def rx_buffer_is_packet_finished_def)
qed

lemma mid_reaches_end:
  assumes "publish_rest env (x @ y) (mid h p tlen pid m s) = Some (True, length x, mid h p tlen' pid' m' s)" and "x \<noteq> []"
    and "p + int (length x) = fh_remaining_length h"
    and "rx_buffer_publish_finish env (fh_qos h) (mid h p tlen' pid' m' s) = Some (DECODE_FINISHED, mid h p tlen' pid' m'' u)"
  shows "reaches env (x @ y) (mid h p tlen pid m s) y (lmqtt_rx_buffer_reset u)"
proof -
  let ?s = "mid h p tlen pid m s" and ?u = "mid h p tlen' pid' m'' u"
  have "rx_buffer_decode_publish env (x @ y) ?s = Some (DECODE_FINISHED, length x, ?u)"
    using decode_publish_iff [of env "x @ y" ?s DECODE_FINISHED "length x" ?u] assms by auto
  then have r: "rx_buffer_rest_bytes env (x @ y) ?s = Some (RX_CHECK, length x, mid h (p + int (length x)) tlen' pid' m'' u)"
    using rest_publish [of ?s env "x @ y" "length x"] assms(3) by (auto simp: advance_mid)
  have "lmqtt_rx_buffer_reset (mid h q tlen' pid' m'' u) = lmqtt_rx_buffer_reset u" for q
    by (simp add: lmqtt_rx_buffer_reset_def mid_def upd_ri_def)
  then show ?thesis
    using reaches_packet_end [of x y env ?s "mid h (p + int (length x)) tlen' pid' m'' u"] r assms(2,3)
    by (simp add: rx_round_def rx_buffer_is_packet_finished_def store_value_zero_def)
qed

section \<open>The fields of a PUBLISH\<close>

lemma topic_len_first:
  "publish_rest env (b # y) (mid h 0 0 pid m s) = Some (True, 1, mid h 0 (push_bit 8 (ucast b)) pid m s)"
  by (simp add: publish_rest_def rx_buffer_publish_bytes_def Let_def) (simp add: mid_def upd_ri_def)

lemma topic_len_second:
  assumes "push_bit 8 (ucast b1) OR ucast b2 = tlen" and "0 < uint tlen"
    and "uint tlen + 2 + (if fh_qos h = QOS_0 then 0 else 2) \<le> fh_remaining_length h"
  shows "publish_rest env (b2 # y) (mid h 1 (push_bit 8 (ucast b1)) pid m s) = Some (True, 1, mid h 1 tlen pid m s)"
proof -
  have e: "upd_ri (\<lambda>i. i\<lparr>ri_topic_len := ri_topic_len i OR ucast b2\<rparr>) (mid h 1 (push_bit 8 (ucast b1)) pid m s) = mid h 1 tlen pid m s"
    using assms(1) by (simp add: mid_def upd_ri_def rx_internal_zero_def)
  show ?thesis
    using assms(2,3) by (simp add: publish_rest_def rx_buffer_publish_bytes_def Let_def e id_size_def)
qed

lemma id_byte:
  assumes "fh_qos h \<noteq> QOS_0" and "p = uint tlen + 2 \<and> pid' = pid OR push_bit 8 (ucast b) \<or> p = uint tlen + 3 \<and> pid' = pid OR ucast b"
    and "0 < uint tlen"
  shows "publish_rest env (b # y) (mid h p tlen pid m s) = Some (True, 1, mid h p tlen pid' m s)"
proof -
  have e: "upd_ri (\<lambda>i. i\<lparr>ri_packet_id := ri_packet_id i OR v\<rparr>) (mid h p tlen pid m s) = mid h p tlen (pid OR v) m s" for v
    by (simp add: mid_def upd_ri_def rx_internal_zero_def)
  show ?thesis
    using assms by (auto simp: publish_rest_def rx_buffer_publish_bytes_def Let_def e id_size_def)
qed


lemma listens_allocate:
  assumes "listens env (cl_message_callbacks s)" and "w = p + 1"
  shows "rx_buffer_allocate env w part len (mid h p tlen pid m s) = (True, mid h p tlen pid (part_set_string part (own_string len) m) s)"
proof -
  have e: "upd_ri (\<lambda>i. i\<lparr>ri_ignore_publish := False\<rparr>) ((upd_ri (\<lambda>i. i\<lparr>ri_publish := m'\<rparr>) (mid h p tlen pid m s))\<lparr>sy_world := sy_world s\<rparr>) =
      mid h p tlen pid m' s" for m'
    by (simp add: mid_def upd_ri_def rx_internal_zero_def)
  show ?thesis
    using assms by (cases part) (auto simp: listens_def rx_buffer_allocate_def Let_def e)
qed

lemma part_filled:
  assumes "listens env (cl_message_callbacks s)" and "own_strings m" and "w = p + 1" and "bs \<noteq> []" and "int (length bs) < 2 ^ 63"
  shows "rx_buffer_allocate_write env w part (length bs) (bs @ y) (mid h p tlen pid m s) =
    Some (True, length bs, mid h p tlen pid (part_set_string part (filled bs) m) s)"
proof -
  have "part_room w (length bs) (mid h p tlen pid m s) = length bs"
    using assms(3,5) by (simp add: part_room_def size_of_long_def nat_mod_distrib)
  moreover have "plain_receiver env" using assms(1) by (simp add: listens_def)
  ultimately show ?thesis
    using allocate_write_own [of env "mid h p tlen pid m s" w part "length bs" "bs @ y"] assms(2)
      listens_allocate [OF assms(1,3), of part "length bs" h tlen pid m] own_write_filled [OF assms(4)]
    by (auto simp: put_string_mid)
qed

lemma listens_wanted:
  "listens env (cl_message_callbacks s) \<Longrightarrow> mark_unwanted (mid h p tlen pid m s) = mid h p tlen pid m s"
  by (auto simp: listens_def mark_unwanted_def)

lemma topic_field:
  assumes "listens env (cl_message_callbacks s)" and "own_strings m" and "bs \<noteq> []" and "int (length bs) = uint tlen"
  shows "publish_rest env (bs @ y) (mid h 2 tlen pid m s) = Some (True, length bs, mid h 2 tlen pid (m\<lparr>pb_topic := filled bs\<rparr>) s)"
proof -
  have "in_topic (mid h 2 tlen pid m s)" using assms(3,4) by (cases bs) (simp_all add: in_topic_def)
  moreover have "nat (uint tlen) = length bs" using assms(4) by linarith
  moreover have "int (length bs) < 2 ^ 63" using assms(4) uint_lt2p [of tlen] by simp
  ultimately show ?thesis
    using part_filled [OF assms(1,2) _ assms(3), of 3 2 PART_TOPIC y h tlen pid] listens_wanted [OF assms(1)]
    by (simp add: publish_rest_topic)
qed

lemma payload_field:
  assumes "listens env (cl_message_callbacks s)" and "own_strings m" and "bs \<noteq> []"
    and "p = uint tlen + 2 + (if fh_qos h = QOS_0 then 0 else 2)" and "p + int (length bs) = fh_remaining_length h"
    and "fh_remaining_length h < 2 ^ 62"
  shows "publish_rest env (bs @ y) (mid h p tlen pid m s) = Some (True, length bs, mid h p tlen pid (m\<lparr>pb_payload := filled bs\<rparr>) s)"
proof -
  let ?s = "mid h p tlen pid m s"
  have pl: "in_payload ?s" using assms(4) by (simp add: in_payload_def id_size_def)
  have st: "payload_start ?s = p + 1" using assms(4) by (simp add: payload_start_def id_size_def)
  have "0 \<le> p" using assms(4) by simp
  then have len: "int (length bs) < 2 ^ 63" using assms(5,6) by simp
  have "fh_remaining_length h - id_size ?s - (2 + uint tlen) = int (length bs)"
    using assms(4,5) by (simp add: id_size_def)
  then have "payload_size ?s = length bs" using len by (simp add: payload_size_def size_of_long_def nat_mod_distrib)
  then show ?thesis
    using part_filled [OF assms(1,2) _ assms(3) len, of "p + 1" p PART_PAYLOAD y h tlen pid] listens_wanted [OF assms(1)] pl st
    by (simp add: publish_rest_payload)
qed

section \<open>The end of a PUBLISH\<close>

text \<open>The state after a message, and what the receiver needs to take \<open>k\<close> more.\<close>

definition acknowledgement :: "qos \<Rightarrow> packet_id \<Rightarrow> store_entry list" where
  "acknowledgement q pid = (if q = QOS_0 then [] else
     [\<lparr>se_kind = if q = QOS_2 then KIND_PUBREC else KIND_PUBACK, se_value = store_value_zero\<lparr>sv_packet_id := pid\<rparr>\<rparr>])"

definition known_after :: "qos \<Rightarrow> packet_id \<Rightarrow> packet_id set \<Rightarrow> packet_id set" where
  "known_after q pid known = (if q = QOS_2 then insert pid known else known)"

abbreviation known_ids :: "'w sys \<Rightarrow> packet_id set" where
  "known_ids s \<equiv> ids_members (rx_id_set (cl_rx s))"

text \<open>What stays as it is on the side that receives.\<close>

definition same_side :: "'w sys \<Rightarrow> 'w sys \<Rightarrow> bool" where
  "same_side s s' \<longleftrightarrow> cl_tx s' = cl_tx s \<and> sy_heap s' = sy_heap s \<and> rx_store (cl_rx s') = rx_store (cl_rx s) \<and>
     st_capacity (rx_queue s') = st_capacity (rx_queue s)"

lemma same_side_refl [simp]: "same_side s s"
  by (simp add: same_side_def)

lemma same_side_trans: "same_side s s' \<Longrightarrow> same_side s' s'' \<Longrightarrow> same_side s s''"
  unfolding same_side_def by metis

lemma same_side_upd_ri [simp]: "same_side s (upd_ri f u) = same_side s u"
  by (simp add: same_side_def)

definition heard :: "qos \<Rightarrow> packet_id \<Rightarrow> message list \<Rightarrow> message list sys \<Rightarrow> message list sys \<Rightarrow> bool" where
  "heard q pid ms s s' \<longleftrightarrow> sy_world s' = sy_world s @ ms \<and> cl_message_callbacks s' = cl_message_callbacks s \<and>
     store_pending (rx_queue s') = store_pending (rx_queue s) @ acknowledgement q pid \<and>
     store_marked (rx_queue s') = store_marked (rx_queue s) \<and> known_ids s' = known_after q pid (known_ids s) \<and> same_side s s'"

lemma mid_set_store: "set_store r st (mid h p tlen pid m s) = mid h p tlen pid m (set_store r st s)"
  by (simp add: mid_def set_store_upd_ri)

lemma mid_world: "(mid h p tlen pid m s)\<lparr>sy_world := w\<rparr> = mid h p tlen pid m (s\<lparr>sy_world := w\<rparr>)"
  by (simp add: mid_def upd_ri_def)

lemma mid_ids: "(mid h p tlen pid m s)\<lparr>cl_rx := (cl_rx (mid h p tlen pid m s))\<lparr>rx_id_set := ids\<rparr>\<rparr> =
    mid h p tlen pid m (s\<lparr>cl_rx := (cl_rx s)\<lparr>rx_id_set := ids\<rparr>\<rparr>)"
  by (simp add: mid_def upd_ri_def)

definition received :: "fixed_header \<Rightarrow> publish \<Rightarrow> publish" where
  "received h m = m\<lparr>pb_qos := fh_qos h, pb_retain := word_of_int (fh_retain h)\<rparr>"

lemma mid_deliver:
  assumes "listens env (cl_message_callbacks s)"
  shows "rx_buffer_publish_deliver env (fh_qos h) (mid h p tlen pid m s) =
    Some (DECODE_FINISHED, mid h p tlen pid (received h m) (s\<lparr>sy_world := sy_world s @ [message_of (received h m)]\<rparr>))"
proof -
  have e: "upd_ri (\<lambda>i. i\<lparr>ri_publish := (ri_publish i)\<lparr>pb_qos := fh_qos h, pb_retain := word_of_int (fh_retain (ri_header i))\<rparr>\<rparr>)
      (mid h p tlen pid m s) = mid h p tlen pid (received h m) s"
    by (simp add: mid_def upd_ri_def received_def)
  show ?thesis
    using assms unfolding rx_buffer_publish_deliver_def Let_def
    by (auto simp: listens_def e rx_buffer_deallocate_publish_def mid_world)
qed

lemma mid_forget: "mc_on_publish_deallocate (cl_message_callbacks s) = None \<Longrightarrow>
    rx_buffer_deallocate_publish env (mid h p tlen pid m s) = mid h p tlen pid m s"
  by (simp add: rx_buffer_deallocate_publish_def)


definition new_message :: "qos \<Rightarrow> packet_id \<Rightarrow> packet_id set \<Rightarrow> message \<Rightarrow> message list" where
  "new_message q pid known x = (if q = QOS_2 \<and> pid \<in> known then [] else [x])"

lemma qos2_room_less: "qos2_room (Suc k) s \<Longrightarrow> qos2_room k s"
  by (simp add: qos2_room_def)

lemma mid_finish:
  assumes l: "listens env (cl_message_callbacks s)" and room: "qos2_room (Suc k) s" and q: "fh_qos h = q" "q = QOS_0 \<or> q = QOS_1 \<or> q = QOS_2"
  shows "\<exists>u m'. rx_buffer_publish_finish env (fh_qos h) (mid h p tlen pid m s) = Some (DECODE_FINISHED, mid h p tlen pid m' u) \<and>
    heard q pid (new_message q pid (known_ids s) (message_of (received h m))) s u \<and> qos2_room k u"
proof -
  let ?ids = "rx_id_set (cl_rx s)" and ?m = "received h m"
  let ?said = "\<lambda>t. t\<lparr>sy_world := sy_world t @ [message_of (received h m)]\<rparr>"
  note deliver = mid_deliver [of env _ h p tlen pid m]
  have forget: "mc_on_publish_deallocate (cl_message_callbacks s) = None" using l by (simp add: listens_def)
  show ?thesis
  proof (cases "q = QOS_0")
    case True
    then show ?thesis
      using deliver [OF l] room qos2_room_less [OF room] q
      by (intro exI [of _ "?said s"] exI [of _ ?m])
        (auto simp: rx_buffer_publish_finish_def Let_def heard_def same_side_def acknowledgement_def known_after_def new_message_def qos2_room_def)
  next
    case False
    let ?kind = "if q = QOS_2 then KIND_PUBREC else KIND_PUBACK"
    have st: "store_inv (rx_queue s)" "st_count (rx_queue s) < st_capacity (rx_queue s)"
      and ids: "id_set_roomy ?ids" "ids_count ?ids < ids_capacity ?ids"
      using room by (simp_all add: qos2_room_def)
    obtain st' where st': "lmqtt_store_append (rx_queue s) ?kind (Some (store_value_zero\<lparr>sv_packet_id := pid\<rparr>)) = Some (True, st')"
        "store_inv st'" "st_count st' = Suc (st_count (rx_queue s))" "st_capacity st' = st_capacity (rx_queue s)"
        "store_marked st' = store_marked (rx_queue s)"
        "store_pending st' = store_pending (rx_queue s) @ acknowledgement q pid"
      using store_append_room [OF st, of ?kind "store_value_zero\<lparr>sv_packet_id := pid\<rparr>"] False by (auto simp: acknowledgement_def)
    let ?s1 = "set_rx_queue st' s"
    have l1: "listens env (cl_message_callbacks ?s1)" using l by simp
    show ?thesis
    proof (cases "q = QOS_2")
      case no: False
      have "rx_buffer_publish_finish env (fh_qos h) (mid h p tlen pid m s) = Some (DECODE_FINISHED, mid h p tlen pid ?m (?said ?s1))"
        using False no st'(1) deliver [OF l1] q by (simp add: rx_buffer_publish_finish_def mid_set_store)
      then show ?thesis
        using False no st' room by (auto simp: heard_def same_side_def known_after_def new_message_def qos2_room_def)
    next
      case two: True
      have mem: "lmqtt_id_set_contains ?ids pid = Some (pid \<in> known_ids s)" by (rule ids.contains_law [OF ids(1)])
      show ?thesis
      proof (cases "pid \<in> known_ids s")
        case True
        then have "rx_buffer_publish_finish env (fh_qos h) (mid h p tlen pid m s) = Some (DECODE_FINISHED, mid h p tlen pid m ?s1)"
          using two st'(1) q mem mid_forget [of ?s1 env h p tlen pid m] forget by (simp add: rx_buffer_publish_finish_def mid_set_store)
        then show ?thesis
          using True two st' room by (auto simp: heard_def same_side_def known_after_def new_message_def qos2_room_def insert_absorb)
      next
        case new: False
        obtain ids' where ids': "lmqtt_id_set_put ?ids pid = Some (True, ids')" "id_set_roomy ids'"
            "ids_members ids' = insert pid (known_ids s)" "ids_capacity ids' = ids_capacity ?ids" "ids_count ids' = Suc (ids_count ?ids)"
          using id_set_put_roomy [OF ids new] by blast
        let ?s2 = "?s1\<lparr>cl_rx := (cl_rx ?s1)\<lparr>rx_id_set := ids'\<rparr>\<rparr>"
        have l2: "listens env (cl_message_callbacks ?s2)" using l by simp
        have "rx_buffer_publish_finish env (fh_qos h) (mid h p tlen pid m s) = Some (DECODE_FINISHED, mid h p tlen pid ?m (?said ?s2))"
          using two new st'(1) q mem ids'(1) deliver [OF l2] mid_ids [where h = h and p = p and tlen = tlen and pid = pid and m = m and s = ?s1 and ids = ids']
          by (simp add: rx_buffer_publish_finish_def mid_set_store)
        then show ?thesis
          using two new st' ids' room by (auto simp: heard_def same_side_def known_after_def new_message_def qos2_room_def)
      qed
    qed
  qed
qed


section \<open>A whole PUBLISH\<close>

definition idle :: "message list env \<Rightarrow> nat \<Rightarrow> message list sys \<Rightarrow> bool" where
  "idle env k s \<longleftrightarrow> ri s = rx_internal_zero \<and> listens env (cl_message_callbacks s) \<and> qos2_room k s"

lemma mid_last:
  assumes "publish_rest env (x @ y) (mid h p tlen pid m s) = Some (True, length x, mid h p tlen pid' m' s)" and "x \<noteq> []"
    and "p + int (length x) = fh_remaining_length h" and "idle env (Suc k) s"
    and "fh_qos h = q" "q = QOS_0 \<or> q = QOS_1 \<or> q = QOS_2"
  shows "\<exists>s'. reaches env (x @ y) (mid h p tlen pid m s) y s' \<and> idle env k s' \<and>
    heard q pid' (new_message q pid' (known_ids s) (message_of (received h m'))) s s'"
proof -
  have l: "listens env (cl_message_callbacks s)" and room: "qos2_room (Suc k) s" using assms(4) by (simp_all add: idle_def)
  obtain u m'' where u: "rx_buffer_publish_finish env (fh_qos h) (mid h p tlen pid' m' s) = Some (DECODE_FINISHED, mid h p tlen pid' m'' u)"
      "heard q pid' (new_message q pid' (known_ids s) (message_of (received h m'))) s u" "qos2_room k u"
    using mid_finish [OF l room assms(5,6)] by blast
  have "reaches env (x @ y) (mid h p tlen pid m s) y (lmqtt_rx_buffer_reset u)"
    by (rule mid_reaches_end [OF assms(1-3) u(1)])
  then show ?thesis
    using u(2,3) l by (intro exI [of _ "lmqtt_rx_buffer_reset u"]) (simp add: idle_def heard_def qos2_room_def lmqtt_rx_buffer_reset_def)
qed

lemma publish_sent_fields:
  assumes "publish_sendable m"
  shows "0 < str_len (pb_topic m)" "str_len (pb_topic m) \<le> 65535" "int (length (string_part False (pb_topic m))) = str_len (pb_topic m)"
    "string_part True (pb_topic m) = be16 (str_len (pb_topic m)) @ string_part False (pb_topic m)"
    "int (length (string_part False (pb_payload m))) = str_len (pb_payload m)"
    "pb_qos m = QOS_0 \<or> pb_qos m = QOS_1 \<or> pb_qos m = QOS_2"
proof -
  have own: "int (length (string_part False t)) = str_len t" if "sendable t" "0 \<le> str_len t" for t
    using that by (auto simp: sendable_def own_buffer_def string_part_def string_bytes_def split: option.splits)
  have v: "lmqtt_publish_validate m" "0 \<le> str_len (pb_payload m)" "own_buffer (pb_topic m)" "sendable (pb_payload m)"
    using assms by (simp_all add: publish_sendable_def)
  show t: "0 < str_len (pb_topic m)" "str_len (pb_topic m) \<le> 65535" "pb_qos m = QOS_0 \<or> pb_qos m = QOS_1 \<or> pb_qos m = QOS_2"
    using v(1) by (auto simp: lmqtt_publish_validate_def string_validate_field_length_def is_valid_qos_def)
  show "int (length (string_part False (pb_topic m))) = str_len (pb_topic m)" "int (length (string_part False (pb_payload m))) = str_len (pb_payload m)"
    using own v t by (simp_all add: sendable_def)
  show "string_part True (pb_topic m) = be16 (str_len (pb_topic m)) @ string_part False (pb_topic m)"
    using v(3) t by (auto simp: own_buffer_def string_part_def string_bytes_def split: option.splits)
qed


lemma own_strings_zero [simp]: "own_strings publish_zero" "str_write (filled bs) = None"
  by (simp_all add: own_strings_def publish_zero_def filled_def lstring_zero_def)

lemma topic_len_reaches:
  assumes "0 < uint tlen" and "uint tlen + 2 + (if fh_qos h = QOS_0 then 0 else 2) \<le> fh_remaining_length h"
  shows "reaches env (be16 (uint tlen) @ y) (mid h 0 0 pid m s) y (mid h 2 tlen pid m s)"
proof -
  obtain b1 b2 where b: "be16 (uint tlen) = [b1, b2]" "push_bit 8 (ucast b1) OR ucast b2 = tlen"
    using be16_join [of tlen] by (simp add: be16_def)
  have len: "2 < fh_remaining_length h" using assms by (simp split: if_splits)
  have "reaches env ([b1] @ b2 # y) (mid h 0 0 pid m s) (b2 # y) (mid h (0 + int (length [b1])) (push_bit 8 (ucast b1)) pid m s)"
    using topic_len_first [of env b1 "b2 # y" h pid m s] len by (intro mid_reaches) simp_all
  moreover have "reaches env ([b2] @ y) (mid h 1 (push_bit 8 (ucast b1)) pid m s) y (mid h (1 + int (length [b2])) tlen pid m s)"
    using topic_len_second [OF b(2) assms] len by (intro mid_reaches) simp_all
  ultimately show ?thesis using b(1) reaches_trans by fastforce
qed

text \<open>The rest of the packet behind the topic.\<close>

lemma payload_heard:
  assumes "idle env (Suc k) s" and "own_strings m" and "fh_qos h = q" "q = QOS_0 \<or> q = QOS_1 \<or> q = QOS_2"
    and "p = uint tlen + 2 + (if q = QOS_0 then 0 else 2)" and "p + int (length bs) = fh_remaining_length h" and "bs \<noteq> []"
    and "fh_remaining_length h < 2 ^ 62"
  shows "\<exists>s'. reaches env (bs @ y) (mid h p tlen pid m s) y s' \<and> idle env k s' \<and>
    heard q pid (new_message q pid (known_ids s) (message_of (received h (m\<lparr>pb_payload := filled bs\<rparr>)))) s s'"
proof -
  have l: "listens env (cl_message_callbacks s)" using assms(1) by (simp add: idle_def)
  have "p = uint tlen + 2 + (if fh_qos h = QOS_0 then 0 else 2)" using assms(3,5) by simp
  from payload_field [OF l assms(2,7) this assms(6,8), of y pid]
  show ?thesis by (rule mid_last [OF _ assms(7,6,1,3,4)])
qed

lemma id_heard:
  assumes "idle env (Suc k) s" and "own_strings m" and "fh_qos h = q" "q = QOS_1 \<or> q = QOS_2" and "0 < uint tlen"
    and "uint tlen + 4 + int (length bs) = fh_remaining_length h" and "fh_remaining_length h < 2 ^ 62"
    and "pb_payload m = lstring_zero"
  shows "\<exists>s'. reaches env (be16 (uint pid) @ bs @ y) (mid h (uint tlen + 2) tlen 0 m s) y s' \<and> idle env k s' \<and>
    heard q pid (new_message q pid (known_ids s) (message_of (received h (m\<lparr>pb_payload := (if bs = [] then lstring_zero else filled bs)\<rparr>)))) s s'"
proof -
  obtain b1 b2 where b: "be16 (uint pid) = [b1, b2]" "push_bit 8 (ucast b1) OR ucast b2 = pid"
    using be16_join [of pid] by (simp add: be16_def)
  have q: "fh_qos h \<noteq> QOS_0" "q = QOS_0 \<or> q = QOS_1 \<or> q = QOS_2" using assms(3,4) by auto
  let ?p = "uint tlen + 2"
  have "reaches env ([b1] @ b2 # bs @ y) (mid h ?p tlen 0 m s) (b2 # bs @ y) (mid h (?p + int (length [b1])) tlen (push_bit 8 (ucast b1)) m s)"
    using assms(6) by (intro mid_reaches) (simp_all add: id_byte [OF q(1) _ assms(5)])
  then have first: "reaches env (be16 (uint pid) @ bs @ y) (mid h ?p tlen 0 m s) (b2 # bs @ y) (mid h (uint tlen + 3) tlen (push_bit 8 (ucast b1)) m s)"
    using b(1) by (simp add: add.commute)
  have second: "publish_rest env ([b2] @ bs @ y) (mid h (uint tlen + 3) tlen (push_bit 8 (ucast b1)) m s) =
      Some (True, length [b2], mid h (uint tlen + 3) tlen pid m s)"
    using id_byte [OF q(1) _ assms(5), of "uint tlen + 3" pid "push_bit 8 (ucast b1)" b2] b(2) by simp
  show ?thesis
  proof (cases "bs = []")
    case True
    then have "m\<lparr>pb_payload := (if bs = [] then lstring_zero else filled bs)\<rparr> = m" using assms(8) by simp
    then show ?thesis
      using mid_last [OF second _ _ assms(1,3) q(2)] assms(6) True reaches_trans [OF first] by fastforce
  next
    case False
    have "reaches env ([b2] @ bs @ y) (mid h (uint tlen + 3) tlen (push_bit 8 (ucast b1)) m s) (bs @ y)
        (mid h (uint tlen + 3 + int (length [b2])) tlen pid m s)"
      using assms(6) False by (intro mid_reaches [OF second]) (cases bs; simp)+
    then have "reaches env (be16 (uint pid) @ bs @ y) (mid h ?p tlen 0 m s) (bs @ y) (mid h (uint tlen + 4) tlen pid m s)"
      using reaches_trans [OF first] by (simp add: add.commute)
    moreover have "uint tlen + 4 = uint tlen + 2 + (if q = QOS_0 then 0 else 2)" using assms(4) by auto
    ultimately show ?thesis
      using payload_heard [OF assms(1-3) q(2) _ assms(6) False assms(7), where pid = pid and y = y] False reaches_trans by fastforce
  qed
qed


definition publish_bytes :: "packet_id \<times> publish \<Rightarrow> byte list" where
  "publish_bytes = (\<lambda>(pid, m). concat (publish_parts pid m))"

text \<open>A message that can be sent; the duplicate flag of a QoS 0 message would be refused.\<close>

definition deliverable :: "publish \<Rightarrow> bool" where
  "deliverable m \<longleftrightarrow> publish_sendable m \<and> (pb_qos m = QOS_0 \<longrightarrow> pb_encode_count m \<le> 0)"

lemma publish_header_run:
  assumes "deliverable m"
  shows "\<exists>h. header_run fixed_header_zero (header_of (publish_type_byte m) (publish_calc_remaining_length m) @ rest) =
      (h, DECODE_FINISHED, rest) \<and> fh_type h = TYPE_PUBLISH \<and> fh_qos h = pb_qos m \<and>
    fh_retain h = (if pb_retain m \<noteq> 0 then 1 else 0) \<and> fh_remaining_length h = publish_calc_remaining_length m \<and>
    publish_calc_remaining_length m \<le> 268435455"
proof -
  have v: "lmqtt_publish_validate m" "0 \<le> str_len (pb_payload m)" "pb_qos m = 0 \<longrightarrow> pb_encode_count m \<le> 0"
    using assms by (simp_all add: deliverable_def publish_sendable_def)
  obtain h1 where h1: "fixed_header_decode fixed_header_zero (publish_type_byte m) = (h1, DECODE_CONTINUE, NO_ERROR)"
      "fh_type h1 = 3" "fh_qos h1 = pb_qos m" "fh_retain h1 = (if pb_retain m \<noteq> 0 then 1 else 0)"
    using publish_type_byte_decode [OF v(1,3)] by metis
  show ?thesis
    using header_run_packet [OF h1(1), of "publish_calc_remaining_length m" rest] publish_validate_bounds [OF v(1,2)] h1
    by (auto simp: header_of_def same_first_byte_def)
qed

lemma heard_qos0:
  "heard 0 p (new_message 0 p known x) s s' = heard 0 0 [x] s s'"
  by (simp_all add: heard_def acknowledgement_def known_after_def new_message_def)

lemma publish_heard:
  assumes idle: "idle env (Suc k) s" and m: "deliverable m"
  shows "\<exists>s'. reaches env (publish_bytes (pid, m) @ y) s y s' \<and> idle env k s' \<and>
    heard (pb_qos m) pid (new_message (pb_qos m) pid (known_ids s) (message_of m)) s s'"
proof -
  let ?tb = "string_part False (pb_topic m)" and ?pb = "string_part False (pb_payload m)" and ?q = "pb_qos m"
  define tlen :: ushort where "tlen = word_of_int (str_len (pb_topic m))"
  note f = publish_sent_fields [OF m [unfolded deliverable_def, THEN conjunct1]]
  have tlen: "uint tlen = str_len (pb_topic m)" using f(1,2) by (simp add: tlen_def unsigned_of_int take_bit_eq_mod)
  let ?rest = "be16 (uint tlen) @ ?tb @ (if ?q = QOS_0 then [] else be16 (uint pid)) @ ?pb @ y"
  have bytes: "publish_bytes (pid, m) @ y = header_of (publish_type_byte m) (publish_calc_remaining_length m) @ ?rest"
    using f(4) tlen by (simp add: publish_bytes_def publish_parts_def)
  obtain h where h: "header_run fixed_header_zero (header_of (publish_type_byte m) (publish_calc_remaining_length m) @ ?rest) = (h, DECODE_FINISHED, ?rest)"
      "fh_type h = TYPE_PUBLISH" "fh_qos h = ?q" "fh_retain h = (if pb_retain m \<noteq> 0 then 1 else 0)"
      "fh_remaining_length h = publish_calc_remaining_length m" "publish_calc_remaining_length m \<le> 268435455"
    using publish_header_run [OF m] by blast
  have len: "fh_remaining_length h = uint tlen + 2 + (if ?q = QOS_0 then 0 else 2) + int (length ?pb)"
    using h(5) f(5) tlen by (simp add: publish_calc_remaining_length_def)
  have ri: "ri s = rx_internal_zero" and l: "listens env (cl_message_callbacks s)" using idle by (simp_all add: idle_def)
  have "in_header fixed_header_zero s = s" using ri by (simp add: in_header_def upd_ri_same rx_internal_zero_def)
  then have "reaches env (publish_bytes (pid, m) @ y) s ?rest (mid h 0 0 0 publish_zero s)"
    using header_reaches [OF h(1) _ _ h(2), of s env] ri len f(1) tlen after_header_mid [OF ri] bytes
    by (simp add: rx_internal_zero_def)
  moreover have "reaches env ?rest (mid h 0 0 0 publish_zero s) (?tb @ (if ?q = QOS_0 then [] else be16 (uint pid)) @ ?pb @ y)
      (mid h 2 tlen 0 publish_zero s)"
    using f(1) tlen len h(3) by (intro topic_len_reaches) simp_all
  ultimately have first: "reaches env (publish_bytes (pid, m) @ y) s (?tb @ (if ?q = QOS_0 then [] else be16 (uint pid)) @ ?pb @ y)
      (mid h 2 tlen 0 publish_zero s)"
    by (rule reaches_trans)
  let ?m1 = "publish_zero\<lparr>pb_topic := filled ?tb\<rparr>"
  have ne: "?tb \<noteq> []" using f(1,3) by auto
  have topic: "publish_rest env (?tb @ z) (mid h 2 tlen 0 publish_zero s) = Some (True, length ?tb, mid h 2 tlen 0 ?m1 s)" for z
    using topic_field [OF l _ ne, of publish_zero tlen z h 0] f(3) tlen by simp
  have pz: "pb_payload publish_zero = lstring_zero" by (simp add: publish_zero_def)
  have own: "own_strings ?m1" by (simp add: own_strings_def) (simp add: publish_zero_def lstring_zero_def)
  have msg: "message_of (received h (?m1\<lparr>pb_payload := (if ?pb = [] then lstring_zero else filled ?pb)\<rparr>)) = message_of m"
    using h(3,4) by (simp add: message_of_def received_def) (simp add: string_part_def lstring_zero_def)
  have small: "fh_remaining_length h < 2 ^ 62" using h(5,6) by simp
  show ?thesis
  proof (cases "?q \<noteq> QOS_0 \<or> ?pb \<noteq> []")
    case False
    then have "?m1\<lparr>pb_payload := (if ?pb = [] then lstring_zero else filled ?pb)\<rparr> = ?m1" using pz by simp
    then obtain s' where s': "reaches env (?tb @ y) (mid h 2 tlen 0 publish_zero s) y s'" "idle env k s'"
        "heard ?q 0 (new_message ?q 0 (known_ids s) (message_of m)) s s'"
      using mid_last [OF topic ne _ idle h(3) f(6), of y] len f(3) tlen False msg by auto
    then have "heard ?q pid (new_message ?q pid (known_ids s) (message_of m)) s s'"
      using False by (simp add: heard_qos0)
    then show ?thesis using s'(1,2) first False reaches_trans by fastforce
  next
    case True
    have "reaches env (?tb @ (if ?q = QOS_0 then [] else be16 (uint pid)) @ ?pb @ y) (mid h 2 tlen 0 publish_zero s)
        ((if ?q = QOS_0 then [] else be16 (uint pid)) @ ?pb @ y) (mid h (2 + int (length ?tb)) tlen 0 ?m1 s)"
      using len f(3) tlen True by (intro mid_reaches [OF topic ne]) (cases ?pb; auto)
    then have second: "reaches env (publish_bytes (pid, m) @ y) s ((if ?q = QOS_0 then [] else be16 (uint pid)) @ ?pb @ y)
        (mid h (uint tlen + 2) tlen 0 ?m1 s)"
      using reaches_trans [OF first] f(3) tlen by (simp add: add.commute)
    show ?thesis
    proof (cases "?q = QOS_0")
      case qos0: True
      then have pb: "?pb \<noteq> []" using True by simp
      then obtain s' where s': "reaches env (?pb @ y) (mid h (uint tlen + 2) tlen 0 ?m1 s) y s'" "idle env k s'"
          "heard ?q 0 (new_message ?q 0 (known_ids s) (message_of m)) s s'"
        using payload_heard [OF idle own h(3) f(6) _ _ pb small, of "uint tlen + 2" tlen y 0] len qos0 msg by auto
      then have "heard ?q pid (new_message ?q pid (known_ids s) (message_of m)) s s'"
        using qos0 by (simp add: heard_qos0)
      then show ?thesis using s'(1,2) second qos0 reaches_trans by fastforce
    next
      case False
      have pz1: "pb_payload ?m1 = lstring_zero" using pz by simp
      obtain s' where "reaches env (be16 (uint pid) @ ?pb @ y) (mid h (uint tlen + 2) tlen 0 ?m1 s) y s'" "idle env k s'"
          "heard ?q pid (new_message ?q pid (known_ids s) (message_of m)) s s'"
        using id_heard [OF idle own h(3) _ _ _ small pz1, of tlen ?pb pid y] len False f(1,6) tlen msg by auto
      then show ?thesis using second False reaches_trans by fastforce
    qed
  qed
qed


section \<open>Many messages\<close>

fun heard_all :: "(packet_id \<times> publish) list \<Rightarrow> packet_id set \<Rightarrow> message list" where
  "heard_all [] known = []"
| "heard_all ((pid, m) # ms) known = new_message (pb_qos m) pid known (message_of m) @ heard_all ms (known_after (pb_qos m) pid known)"

definition acknowledgements :: "(packet_id \<times> publish) list \<Rightarrow> store_entry list" where
  "acknowledgements ms = concat (map (\<lambda>(pid, m). acknowledgement (pb_qos m) pid) ms)"

definition known_after_all :: "(packet_id \<times> publish) list \<Rightarrow> packet_id set \<Rightarrow> packet_id set" where
  "known_after_all ms known = fold (\<lambda>(pid, m). known_after (pb_qos m) pid) ms known"

lemma publishes_heard:
  assumes "idle env (length ms) s" and "\<forall>x \<in> set ms. deliverable (snd x)"
  shows "\<exists>s'. reaches env (concat (map publish_bytes ms)) s [] s' \<and>
    sy_world s' = sy_world s @ heard_all ms (known_ids s) \<and>
    store_pending (rx_queue s') = store_pending (rx_queue s) @ acknowledgements ms \<and>
    store_marked (rx_queue s') = store_marked (rx_queue s) \<and> known_ids s' = known_after_all ms (known_ids s) \<and>
    idle env 0 s' \<and> same_side s s'"
  using assms
proof (induction ms arbitrary: s)
  case Nil
  then show ?case by (intro exI [of _ s]) (simp add: reaches_refl acknowledgements_def known_after_all_def)
next
  case (Cons x ms)
  obtain pid m where x: "x = (pid, m)" by (cases x) auto
  obtain s1 where s1: "reaches env (publish_bytes x @ concat (map publish_bytes ms)) s (concat (map publish_bytes ms)) s1"
      "idle env (length ms) s1" "heard (pb_qos m) pid (new_message (pb_qos m) pid (known_ids s) (message_of m)) s s1"
    using publish_heard [of env "length ms" s m pid "concat (map publish_bytes ms)"] Cons.prems by (auto simp: x)
  obtain s2 where s2: "reaches env (concat (map publish_bytes ms)) s1 [] s2"
      "sy_world s2 = sy_world s1 @ heard_all ms (known_ids s1)"
      "store_pending (rx_queue s2) = store_pending (rx_queue s1) @ acknowledgements ms"
      "store_marked (rx_queue s2) = store_marked (rx_queue s1)" "known_ids s2 = known_after_all ms (known_ids s1)"
      "idle env 0 s2" "same_side s1 s2"
    using Cons.IH [OF s1(2)] Cons.prems(2) by auto
  have "reaches env (concat (map publish_bytes (x # ms))) s [] s2"
    using reaches_trans [OF s1(1) s2(1)] by simp
  then show ?case
    using s1(3) s2(2-6) same_side_trans [OF _ s2(7), of s]
    by (intro exI [of _ s2]) (simp add: heard_def x acknowledgements_def known_after_all_def)
qed

lemma reaches_pieces:
  assumes "reaches env (concat xs) s [] s'" and "plain_receiver env" and "receiving s"
  shows "\<exists>n. decode_pieces n env xs s = Some s'"
proof -
  have "rx_buffer_decode_loop (Suc 0) env [] (0 + (length (concat xs) - length ([] :: byte list))) s' = Some (True, 0 + length (concat xs), s')"
    by simp
  then have "\<exists>n. rx_buffer_decode_loop n env (concat xs) 0 s = Some (True, 0 + length (concat xs), s')"
    using assms(1) unfolding reaches_def by blast
  then show ?thesis using decode_pieces_iff [OF assms(2,3)] by blast
qed

text \<open>A run of the sender: calls of \<open>lmqtt_tx_buffer_encode\<close> with any room, and what they put out.\<close>

primrec encode_pieces :: "nat \<Rightarrow> 'w env \<Rightarrow> nat list \<Rightarrow> 'w sys \<Rightarrow> (byte list list \<times> 'w sys) option" where
  "encode_pieces n env [] t = Some ([], t)"
| "encode_pieces n env (room # rooms) t =
     do {
       (res, out, t1) \<leftarrow> lmqtt_tx_buffer_encode n env room t;
       if res = IO_ERROR then None
       else do { (outs, t2) \<leftarrow> encode_pieces n env rooms t1; Some (out # outs, t2) }
     }"

lemma encode_pieces_stream:
  assumes "publish_callback_quiet wire env" and "tx_good t" and "tx_fuel t \<le> n"
  shows "\<exists>outs t'. encode_pieces n env rooms t = Some (outs, t') \<and> concat outs = take (sum_list rooms) (tx_stream t) \<and>
    tx_after wire (sum_list rooms) t t'"
  using assms(2,3)
proof (induction rooms arbitrary: t)
  case Nil
  then show ?case using tx_after_refl by simp
next
  case (Cons room rooms)
  obtain t1 where t1: "lmqtt_tx_buffer_encode n env room t =
      Some (tx_result (tx_stream t \<noteq> [] \<or> tx_closed (cl_tx t)), take room (tx_stream t), t1)" "tx_after wire room t t1"
    using tx_buffer_encode_step [OF assms(1) Cons.prems, of room] by blast
  obtain outs t2 where t2: "encode_pieces n env rooms t1 = Some (outs, t2)"
      "concat outs = take (sum_list rooms) (drop room (tx_stream t))" "tx_after wire (sum_list rooms) t1 t2"
    using Cons.IH [of t1] t1(2) Cons.prems(2) by (auto simp: tx_after_def)
  then show ?case
    using t1 tx_after_trans [OF t1(2) t2(3)] by (simp add: tx_result_def take_add)
qed

definition entry_message :: "heap \<Rightarrow> store_entry \<Rightarrow> packet_id \<times> publish" where
  "entry_message hp e = (sv_packet_id (se_value e), case get_publish hp (sv_value (se_value e)) of Some (a, m) \<Rightarrow> m | None \<Rightarrow> publish_zero)"

lemma entries_bytes_messages:
  assumes "entries_good hp es" and "\<forall>e \<in> set es. publish_kind (se_kind e)"
  shows "entries_bytes hp es = concat (map (\<lambda>e. publish_bytes (entry_message hp e)) es)"
  using assms
  by (induction es) (auto simp: publish_kind_def publish_bytes_def entry_message_def simp del: get_iffs split: option.splits)


lemma idle_receiving: "idle env k s \<Longrightarrow> receiving s"
  using receiving_reset [of s] by (simp add: idle_def lmqtt_rx_buffer_reset_def receiving_def rx_buffer_is_packet_finished_def)

section \<open>Property\<close>

text \<open>
  C5. Messages arrive. A sender with PUBLISH requests in its queue, whose transmit buffer is asked
  for bytes until there was room for all of them, in any portions, sends each request; and a
  receiver that gets those bytes cut in any other way hands the topic, payload, quality of service
  and retain flag of every message to its user, in order, a QoS 2 message whose identifier is known
  excepted, and queues the acknowledgement of every message.
\<close>

theorem messages_arrive:
  assumes "publish_callback_quiet wire env" and "tx_good t" and "\<not> tx_closed (cl_tx t)" and "ti_pos (ti t) = 0" and "ti_offset (ti t) = 0"
    and "\<forall>e \<in> set (tx_pending t). publish_kind (se_kind e) \<and> deliverable (snd (entry_message (sy_heap t) e))"
    and "tx_fuel t \<le> n" and "length (tx_stream t) \<le> sum_list rooms"
    and "idle env' (length (tx_pending t)) s"
  defines "ms \<equiv> map (entry_message (sy_heap t)) (tx_pending t)"
  shows "\<exists>outs t'. encode_pieces n env rooms t = Some (outs, t') \<and> tx_pending t' = [] \<and>
    (\<forall>xs. concat xs = concat outs \<longrightarrow> (\<exists>m s'. decode_pieces m env' xs s = Some s' \<and>
       sy_world s' = sy_world s @ heard_all ms (known_ids s) \<and>
       store_pending (rx_queue s') = store_pending (rx_queue s) @ acknowledgements ms))"
proof -
  obtain outs t' sent where o: "encode_pieces n env rooms t = Some (outs, t')" "concat outs = tx_stream t" "tx_good t'"
      "tx_stream t' = []" "sent_between sent t t'"
    using encode_pieces_stream [OF assms(1,2,7), of rooms] assms(8) unfolding tx_after_def by auto
  have kinds: "se_kind e \<noteq> KIND_DISCONNECT" if "e \<in> set (tx_pending t)" for e
    using assms(6) that by (force simp: publish_kind_def)
  have "\<not> tx_closed (cl_tx t')" using o(5) assms(3) kinds by (auto simp: sent_between_def)
  then have "tx_pending t' = []" using o(3,4) by (auto simp: tx_good_def)
  moreover have good: "entries_good (sy_heap t) (tx_pending t)" using assms(2,3) by (simp add: tx_good_def)
  have "tx_stream t = entries_bytes (sy_heap t) (tx_pending t)"
    using assms(3-5) tx_start [OF good, of "tx_internal_zero"] by (simp add: tx_stream_def tx_internal_zero_def)
  then have str: "concat outs = concat (map publish_bytes ms)"
    using o(2) entries_bytes_messages [OF good] assms(6) by (simp add: ms_def comp_def)
  have idle: "idle env' (length ms) s" and msgs: "\<forall>x \<in> set ms. deliverable (snd x)"
    using assms(6,9) by (auto simp: ms_def)
  obtain s' where s': "reaches env' (concat (map publish_bytes ms)) s [] s'" "sy_world s' = sy_world s @ heard_all ms (known_ids s)"
      "store_pending (rx_queue s') = store_pending (rx_queue s) @ acknowledgements ms"
    using publishes_heard [OF idle msgs] by blast
  have "\<exists>m. decode_pieces m env' xs s = Some s'" if "concat xs = concat outs" for xs
    using reaches_pieces [of env' xs s s'] s'(1) str that idle_receiving [OF idle] idle
    by (auto simp: idle_def listens_def)
  ultimately show ?thesis using o(1) s'(2,3) by blast
qed

definition listening_env :: "message list env" where
  "listening_env = \<lparr>
     en_io = \<lparr>cb_read = \<lambda>f d k w. (IO_ERROR, [], 1, w), cb_write = \<lambda>f d bs w. (IO_ERROR, 0, 1, w)\<rparr>,
     en_get_time = \<lambda>w. (\<lparr>tm_secs = 100, tm_nsecs = 0\<rparr>, w),
     en_net_read = \<lambda>k w. (IO_WOULD_BLOCK, [], 0, w), en_net_write = \<lambda>bs w. (IO_SUCCESS, length bs, 0, w),
     en_on_connect = \<lambda>f d v ok s. Some (True, s), en_on_subscribe = \<lambda>f d v ok s. Some (True, s),
     en_on_unsubscribe = \<lambda>f d v ok s. Some (True, s), en_on_publish = \<lambda>f d v ok s. Some (True, s),
     en_message = \<lambda>f d s. Some (True, s\<lparr>sy_world := sy_world s @ [message_of (ri_publish (ri s))]\<rparr>),
     en_allocate = \<lambda>f d m len w. (ALLOCATE_SUCCESS,
       if f = 2 then m\<lparr>pb_topic := own_string len\<rparr> else m\<lparr>pb_payload := own_string len\<rparr>, w),
     en_deallocate = \<lambda>f d m w. (m, w)\<rparr>"

definition example_listener :: "message list sys" where
  "example_listener = (client_setup example_buffers Map.empty [])\<lparr>cl_main_store := fresh_store 4, cl_message_callbacks :=
     \<lparr>mc_on_publish = Some 1, mc_on_publish_allocate_topic = Some 2, mc_on_publish_allocate_payload = Some 3,
      mc_on_publish_deallocate = None, mc_on_publish_data = 0\<rparr>\<rparr>"

theorem messages_arrive_witness:
  "\<exists>m s'. decode_pieces m listening_env [[0x3A], [7, 0, 3, 0x61], [0x2F, 0x62, 0], [5]] example_listener = Some s' \<and>
    sy_world s' = [([0x61, 0x2F, 0x62], [], QOS_1, False)]"
proof -
  have plain: "plain_receiver listening_env"
    by (auto simp: plain_receiver_def listening_env_def own_strings_def own_string_def lstring_zero_def at_pos_def upd_ri_def)
  have "listens listening_env (cl_message_callbacks example_listener)"
    using plain by (simp add: listens_def example_listener_def) (simp add: listening_env_def)
  moreover have "ri example_listener = rx_internal_zero" "rx_queue example_listener = fresh_store 4"
      "rx_id_set (cl_rx example_listener) = empty_id_set 16 4"
    by (simp_all add: example_listener_def client_setup_def get_store_def example_buffers_def empty_id_set_def)
  moreover have pend: "tx_pending (example_sender 1) = [example_request KIND_PUBLISH_1 ON_PUBLISH]"
    by code_simp
  moreover have "qos2_room 1 example_listener"
    using calculation(3,4) by (simp add: qos2_room_def)
  ultimately have idle: "idle listening_env (length (tx_pending (example_sender 1))) example_listener"
    by (simp add: idle_def)
  have t: "tx_good (example_sender 1)" "\<not> tx_closed (cl_tx (example_sender 1))" "ti_pos (ti (example_sender 1)) = 0"
      "ti_offset (ti (example_sender 1)) = 0"
      "\<forall>e \<in> set (tx_pending (example_sender 1)). publish_kind (se_kind e) \<and>
         deliverable (snd (entry_message (sy_heap (example_sender 1)) e))"
      "tx_fuel (example_sender 1) \<le> 20" "length (tx_stream (example_sender 1)) \<le> sum_list [3, 7]"
    by code_simp+
  have bytes: "tx_stream (example_sender 1) = [0x3A, 7, 0, 3, 0x61, 0x2F, 0x62, 0, 5]"
      "heard_all (map (entry_message (sy_heap (example_sender 1))) (tx_pending (example_sender 1))) (known_ids example_listener) =
        [([0x61, 0x2F, 0x62], [], QOS_1, False)]" "sy_world example_listener = []"
      "map_option fst (encode_pieces 20 (wire_env 0) [3, 7] (example_sender 1)) = Some [[0x3A, 7, 0], [3, 0x61, 0x2F, 0x62, 0, 5]]"
    by code_simp+
  have "fst r = [[0x3A, 7, 0], [3, 0x61, 0x2F, 0x62, 0, 5]]" if "encode_pieces 20 (wire_env 0) [3, 7] (example_sender 1) = Some r" for r
    using that bytes(4) by (simp del: encode_pieces.simps)
  note outs = this
  obtain outs t' where "encode_pieces 20 (wire_env 0) [3, 7] (example_sender 1) = Some (outs, t')"
    and all: "\<forall>xs. concat xs = concat outs \<longrightarrow> (\<exists>m s'. decode_pieces m listening_env xs example_listener = Some s' \<and>
       sy_world s' = [([0x61, 0x2F, 0x62], [], QOS_1, False)] \<and> store_pending (rx_queue s') = store_pending (rx_queue example_listener) @
        acknowledgements (map (entry_message (sy_heap (example_sender 1))) (tx_pending (example_sender 1))))"
    using messages_arrive [OF wire_env_quiet [where limit = 0] t idle] bytes by auto
  then have "concat [[0x3A], [7, 0, 3, 0x61], [0x2F, 0x62, 0], [5]] = concat outs" using outs by fastforce
  then show ?thesis using all by blast
qed

end
