(* ===== verification/Message_Exchange.thy ===== *)
theory Message_Exchange
  imports Publish_Delivery
begin

text \<open>
  Two clients that exchange messages and acknowledgements until nothing is left to do: after two
  round trips every message of the sender has been handed to the user of the receiver, every
  request is completed, and the receiver has forgotten the identifiers again.
\<close>

section \<open>One acknowledgement among other bytes\<close>

lemma ack_packet_split: "ack_packet d pid @ y = ack_first_byte d # 2 # be16 (uint pid) @ y"
  by (simp add: ack_packet_def)

lemma ack_packet_length [simp]: "length (ack_packet d pid) = 4"
  by (simp add: ack_packet_def be16_def)

lemma ack_reaches:
  assumes d: "is_ack d" and z: "ri s = rx_internal_zero"
    and pop: "rx_buffer_pop (decoder_pop_packet_with_id d) d (upd_ri (\<lambda>_. ack_state d 1 pid) s) = Some (True, s2)"
    and s3: "upd_ri (\<lambda>i. i\<lparr>ri_remain_buf_pos := ri_remain_buf_pos i + 1\<rparr>) s2 = s3"
    and fin: "rx_buffer_is_packet_finished s3" "\<And>n. rx_buffer_finish_packet n env s3 = Some (True, s4)"
  shows "reaches env (ack_packet d pid @ y) s y s4"
proof -
  have run: "rx_buffer_decode_loop (Suc (Suc (Suc (Suc n)))) env (ack_packet d pid @ y) 0 s = rx_buffer_decode_loop n env y 4 s4" for n
    unfolding ack_packet_split ack_loop_header [OF d z] ack_loop_id [OF d] using pop s3 fin by (simp add: Let_def)
  have "rx_buffer_decode_loop (Suc (Suc (Suc (Suc n)))) env (ack_packet d pid @ y) c s = rx_buffer_decode_loop n env y (c + 4) s4" for n c
    using loop_shift [of _ env "ack_packet d pid @ y" 0 c s] loop_shift [of n env y 4 c s4] run [of n] by (simp add: add.commute)
  then have "\<exists>m. rx_buffer_decode_loop m env (ack_packet d pid @ y) c s = Some r"
    if "rx_buffer_decode_loop n env y (c + 4) s4 = Some r" for n c r
    using that by metis
  then show ?thesis unfolding reaches_def by auto
qed

section \<open>Responses at the sender\<close>

fun response_to :: "kind \<Rightarrow> decoder" where
  "response_to KIND_PUBLISH_1 = DECODER_PUBACK"
| "response_to KIND_PUBLISH_2 = DECODER_PUBREC"
| "response_to _ = DECODER_PUBCOMP"

definition response_due :: "kind \<Rightarrow> bool" where
  "response_due k \<longleftrightarrow> k = KIND_PUBLISH_1 \<or> k = KIND_PUBLISH_2 \<or> k = KIND_PUBREL"

definition follow_up :: "store_entry \<Rightarrow> store_entry list" where
  "follow_up e = (if se_kind e = KIND_PUBLISH_2 then [\<lparr>se_kind = KIND_PUBREL, se_value = se_value e\<rparr>] else [])"

definition publish_callback :: "store_value \<Rightarrow> bool" where
  "publish_callback v \<longleftrightarrow> sv_callback v = None \<or> sv_callback v = Some ON_PUBLISH \<and> sv_callback_data v \<noteq> DATA_NULL"

lemma response_simps:
  "response_due k \<Longrightarrow> is_ack (response_to k)" "response_due k \<Longrightarrow> decoder_kind (response_to k) = k"
  "response_due k \<Longrightarrow> decoder_pop_packet_with_id (response_to k) = POP_WITH_ID"
  by (auto simp: response_due_def is_ack_def)

text \<open>Between two packets, with nothing changed but the requests and what \<open>wire\<close> does not see.\<close>

definition settled :: "('w \<Rightarrow> 'x) \<Rightarrow> 'w sys \<Rightarrow> 'w sys \<Rightarrow> bool" where
  "settled wire t t' \<longleftrightarrow> ri t' = rx_internal_zero \<and> store_inv (rx_queue t') \<and> same_side t t' \<and>
     cl_message_callbacks t' = cl_message_callbacks t \<and> wire (sy_world t') = wire (sy_world t)"

lemma settled_trans: "settled wire t t' \<Longrightarrow> settled wire t' t'' \<Longrightarrow> settled wire t t''"
  using same_side_trans by (auto simp: settled_def)

lemma response_heard:
  assumes q: "publish_callback_quiet wire env" and cb: "publish_callback (se_value e)" and z: "ri t = rx_internal_zero"
    and inv: "store_inv (rx_queue t)" and marked: "store_marked (rx_queue t) = ys @ e # zs" and due: "response_due (se_kind e)"
    and new: "\<forall>y \<in> set ys. sv_packet_id (se_value y) \<noteq> sv_packet_id (se_value e)"
  shows "\<exists>t'. reaches env (ack_packet (response_to (se_kind e)) (sv_packet_id (se_value e)) @ y) t y t' \<and> settled wire t t' \<and>
    store_marked (rx_queue t') = ys @ zs \<and> store_pending (rx_queue t') = store_pending (rx_queue t) @ follow_up e"
proof -
  let ?d = "response_to (se_kind e)" and ?pid = "sv_packet_id (se_value e)"
  note d = response_simps [OF due]
  let ?s1 = "upd_ri (\<lambda>_. ack_state ?d 1 ?pid) t"
  obtain st1 where st1: "rx_buffer_pop_packet ?d ?pid ?s1 =
      Some (True, upd_ri (\<lambda>i. i\<lparr>ri_value := se_value e\<rparr>) (set_rx_queue st1 ?s1))"
    "store_inv st1" "store_marked st1 = ys @ zs" "store_pending st1 = store_pending (rx_queue t)"
    "st_capacity st1 = st_capacity (rx_queue t)"
    using rx_pop_packet_found [of ?s1 ys e zs ?d ?pid] inv marked new d(2) by (auto simp: has_key_def)
  have pop: "rx_buffer_pop (decoder_pop_packet_with_id ?d) ?d ?s1 =
      Some (True, upd_ri (\<lambda>i. i\<lparr>ri_value := se_value e\<rparr>) (set_rx_queue st1 ?s1))"
    using st1(1) d(3) by (simp add: rx_buffer_pop_def ack_state_def)
  let ?s3 = "upd_ri (\<lambda>_. (ack_state ?d 2 ?pid)\<lparr>ri_value := se_value e\<rparr>) (set_rx_queue st1 t)"
  have s3: "upd_ri (\<lambda>i. i\<lparr>ri_remain_buf_pos := ri_remain_buf_pos i + 1\<rparr>)
      (upd_ri (\<lambda>i. i\<lparr>ri_value := se_value e\<rparr>) (set_rx_queue st1 ?s1)) = ?s3"
    by (simp add: set_store_upd_ri, rule upd_ri_cong) (simp add: ack_state_def)
  have fin: "rx_buffer_is_packet_finished ?s3" and f3: "rx_queue ?s3 = st1" "ri_value (ri ?s3) = se_value e" "ri_decoder (ri ?s3) = Some ?d"
    by (simp_all add: rx_buffer_is_packet_finished_def ack_state_def ack_header_fields)
  have ready: "lmqtt_rx_buffer_reset (upd_ri (\<lambda>_. x) u) = u" if "ri u = rx_internal_zero" for x and u :: "'a sys"
    using that by (simp add: lmqtt_rx_buffer_reset_def upd_ri_same comp_def)
  show ?thesis
  proof (cases "se_kind e = KIND_PUBLISH_2")
    case True
    have room: "length (store_marked st1) + length (store_pending st1) < st_capacity st1"
      using pq.bounded [OF inv] marked st1(3-5) by simp
    obtain st2 where st2: "lmqtt_store_append st1 KIND_PUBREL (Some (se_value e)) = Some (True, st2)"
        "store_inv st2" "st_capacity st2 = st_capacity st1" "store_marked st2 = ys @ zs"
        "store_pending st2 = store_pending (rx_queue t) @ [\<lparr>se_kind = KIND_PUBREL, se_value = se_value e\<rparr>]"
      using pq.append_room [OF st1(2) room, of KIND_PUBREL "Some (se_value e)"] st1(3,4) by auto
    have "rx_buffer_finish_packet n env ?s3 = Some (True, set_rx_queue st2 t)" for n
      unfolding rx_buffer_finish_packet_def f3
      using st2(1) True z ready [of "set_rx_queue st2 t"] by (simp add: set_store_upd_ri)
    from ack_reaches [OF d(1) z pop s3 fin this] show ?thesis
      using st2 st1 True z by (intro exI [of _ "set_rx_queue st2 t"]) (auto simp: settled_def same_side_def follow_up_def)
  next
    case False
    obtain w where w: "wire w = wire (sy_world ?s3)" "\<And>flush. value_callback flush env (se_value e) ?s3 = Some (True, ?s3\<lparr>sy_world := w\<rparr>)"
      using quiet_callback [OF q cb [unfolded publish_callback_def], of ?s3] by blast
    let ?t = "(set_rx_queue st1 t)\<lparr>sy_world := w\<rparr>"
    have world: "?s3\<lparr>sy_world := w\<rparr> = upd_ri (\<lambda>_. (ack_state ?d 2 ?pid)\<lparr>ri_value := se_value e\<rparr>) ?t"
      by (simp add: upd_ri_def)
    have "rx_buffer_finish_packet n env ?s3 = Some (True, ?t)" for n
      unfolding rx_buffer_finish_packet_def f3 rx_buffer_call_callback_def w(2) world
      using False d(2) z ready [of ?t] by simp
    from ack_reaches [OF d(1) z pop s3 fin this] show ?thesis
      using w(1) st1 False z by (intro exI [of _ ?t]) (auto simp: settled_def same_side_def follow_up_def)
  qed
qed

section \<open>Releases at the receiver\<close>

definition releases_ready :: "nat \<Rightarrow> 'w sys \<Rightarrow> bool" where
  "releases_ready k s \<longleftrightarrow> ri s = rx_internal_zero \<and> store_inv (rx_queue s) \<and> id_set_roomy (rx_id_set (cl_rx s)) \<and>
     length (store_marked (rx_queue s)) + length (store_pending (rx_queue s)) + k \<le> st_capacity (rx_queue s)"

lemma pubrel_heard:
  assumes "releases_ready (Suc k) s"
  shows "\<exists>s'. reaches env (ack_packet DECODER_PUBREL pid @ y) s y s' \<and> settled wire s s' \<and> releases_ready k s' \<and>
    store_marked (rx_queue s') = store_marked (rx_queue s) \<and> known_ids s' = known_ids s - {pid} \<and>
    store_pending (rx_queue s') = store_pending (rx_queue s) @ [pubcomp_entry pid]"
proof -
  note s = assms [unfolded releases_ready_def]
  have z: "ri s = rx_internal_zero" and room: "length (store_marked (rx_queue s)) + length (store_pending (rx_queue s)) < st_capacity (rx_queue s)"
    using s by (simp_all del: length_store_marked length_store_pending)
  obtain st' ids' where pop: "rx_buffer_pop POP_PUBREL DECODER_PUBREL (upd_ri (\<lambda>_. ack_state DECODER_PUBREL 1 pid) s) =
      Some (True, upd_ri (\<lambda>_. ack_state DECODER_PUBREL 1 pid) (set_rx_queue st' (s\<lparr>cl_rx := (cl_rx s)\<lparr>rx_id_set := ids'\<rparr>\<rparr>)))"
    and n: "id_set_roomy ids'" "ids_members ids' = ids_members (rx_id_set (cl_rx s)) - {pid}"
      "store_inv st'" "st_capacity st' = st_capacity (rx_queue s)" "store_marked st' = store_marked (rx_queue s)"
      "store_pending st' = store_pending (rx_queue s) @ [pubcomp_entry pid]"
    using pubrel_pop [of s pid] s room by blast
  let ?t = "set_rx_queue st' (s\<lparr>cl_rx := (cl_rx s)\<lparr>rx_id_set := ids'\<rparr>\<rparr>)"
  have zt: "ri ?t = rx_internal_zero" using z by simp
  have pop': "rx_buffer_pop (decoder_pop_packet_with_id DECODER_PUBREL) DECODER_PUBREL (upd_ri (\<lambda>_. ack_state DECODER_PUBREL 1 pid) s) =
      Some (True, upd_ri (\<lambda>_. ack_state DECODER_PUBREL 1 pid) ?t)"
    using pop by simp
  have s3: "upd_ri (\<lambda>i. i\<lparr>ri_remain_buf_pos := ri_remain_buf_pos i + 1\<rparr>) (upd_ri (\<lambda>_. ack_state DECODER_PUBREL 1 pid) ?t) =
      upd_ri (\<lambda>_. ack_state DECODER_PUBREL 2 pid) ?t"
    by (simp, rule upd_ri_cong) (simp add: ack_state_def)
  have fin: "rx_buffer_is_packet_finished (upd_ri (\<lambda>_. ack_state DECODER_PUBREL 2 pid) ?t)"
    by (simp add: rx_buffer_is_packet_finished_def ack_state_def ack_header_fields)
  have ack: "is_ack DECODER_PUBREL" by (simp add: is_ack_def)
  have "reaches env (ack_packet DECODER_PUBREL pid @ y) s y ?t"
    by (rule ack_reaches [OF ack z pop' s3 fin pubrel_finish [OF zt]])
  then show ?thesis
    using n s z
    by (intro exI [of _ ?t]) (simp add: settled_def same_side_def releases_ready_def del: length_store_marked length_store_pending)
qed

section \<open>Many of them\<close>

abbreviation entry_id :: "store_entry \<Rightarrow> packet_id" where
  "entry_id e \<equiv> sv_packet_id (se_value e)"

definition responses :: "store_entry list \<Rightarrow> byte list" where
  "responses es = concat (map (\<lambda>e. ack_packet (response_to (se_kind e)) (entry_id e)) es)"

lemma responses_heard:
  assumes "publish_callback_quiet wire env"
    and "\<forall>e \<in> set es. publish_callback (se_value e) \<and> response_due (se_kind e) \<and> (\<forall>y \<in> set old. entry_id y \<noteq> entry_id e)"
    and "ri t = rx_internal_zero" and "store_inv (rx_queue t)" and "store_marked (rx_queue t) = old @ es"
  shows "\<exists>t'. reaches env (responses es) t [] t' \<and> settled wire t t' \<and> store_marked (rx_queue t') = old \<and>
    store_pending (rx_queue t') = store_pending (rx_queue t) @ concat (map follow_up es)"
  using assms(2-)
proof (induction es arbitrary: t)
  case Nil
  then show ?case by (intro exI [of _ t]) (simp add: reaches_refl responses_def settled_def)
next
  case (Cons e es)
  have e: "publish_callback (se_value e)" "response_due (se_kind e)" "\<forall>y \<in> set old. entry_id y \<noteq> entry_id e"
    using Cons.prems(1) by simp_all
  obtain t1 where t1: "reaches env (ack_packet (response_to (se_kind e)) (entry_id e) @ responses es) t (responses es) t1"
      "settled wire t t1" "store_marked (rx_queue t1) = old @ es" "store_pending (rx_queue t1) = store_pending (rx_queue t) @ follow_up e"
    using response_heard [OF assms(1) e(1) Cons.prems(2-4) e(2,3)] by blast
  obtain t2 where t2: "reaches env (responses es) t1 [] t2" "settled wire t1 t2" "store_marked (rx_queue t2) = old"
      "store_pending (rx_queue t2) = store_pending (rx_queue t1) @ concat (map follow_up es)"
    using Cons.IH [of t1] Cons.prems(1) t1(2,3) by (auto simp: settled_def)
  have "reaches env (responses (e # es)) t [] t2" using reaches_trans [OF t1(1) t2(1)] by (simp add: responses_def)
  then show ?case using settled_trans [OF t1(2) t2(2)] t1(4) t2(3,4) by auto
qed

lemma releases_heard:
  assumes "releases_ready (length pids) s"
  shows "\<exists>s'. reaches env (concat (map (ack_packet DECODER_PUBREL) pids)) s [] s' \<and> settled wire s s' \<and>
    store_marked (rx_queue s') = store_marked (rx_queue s) \<and> known_ids s' = known_ids s - set pids \<and>
    store_pending (rx_queue s') = store_pending (rx_queue s) @ map pubcomp_entry pids"
  using assms
proof (induction pids arbitrary: s)
  case Nil
  then show ?case by (intro exI [of _ s]) (simp add: reaches_refl settled_def releases_ready_def)
next
  case (Cons pid pids)
  obtain s1 where s1: "reaches env (ack_packet DECODER_PUBREL pid @ concat (map (ack_packet DECODER_PUBREL) pids)) s
        (concat (map (ack_packet DECODER_PUBREL) pids)) s1"
      "settled wire s s1" "releases_ready (length pids) s1" "store_marked (rx_queue s1) = store_marked (rx_queue s)"
      "known_ids s1 = known_ids s - {pid}" "store_pending (rx_queue s1) = store_pending (rx_queue s) @ [pubcomp_entry pid]"
    using pubrel_heard [of "length pids" s] Cons.prems by (simp del: length_store_marked length_store_pending) blast
  obtain s2 where s2: "reaches env (concat (map (ack_packet DECODER_PUBREL) pids)) s1 [] s2" "settled wire s1 s2"
      "store_marked (rx_queue s2) = store_marked (rx_queue s1)" "known_ids s2 = known_ids s1 - set pids"
      "store_pending (rx_queue s2) = store_pending (rx_queue s1) @ map pubcomp_entry pids"
    using Cons.IH [OF s1(3)] by blast
  have "reaches env (concat (map (ack_packet DECODER_PUBREL) (pid # pids))) s [] s2" using reaches_trans [OF s1(1) s2(1)] by simp
  then show ?case using settled_trans [OF s1(2) s2(2)] s1(4-6) s2(3-5) by (intro exI [of _ s2]) auto
qed

section \<open>A side with all of its requests sent\<close>

definition at_rest :: "'w sys \<Rightarrow> bool" where
  "at_rest s \<longleftrightarrow> ri s = rx_internal_zero \<and> rx_store (cl_rx s) = tx_store (cl_tx s) \<and> tx_good s \<and> \<not> tx_closed (cl_tx s) \<and>
     ti_pos (ti s) = 0 \<and> ti_offset (ti s) = 0"

text \<open>Requests that need nothing but their identifier.\<close>

definition bare :: "store_entry \<Rightarrow> bool" where
  "bare e \<longleftrightarrow> se_kind e \<in> {KIND_PUBACK, KIND_PUBREC, KIND_PUBREL, KIND_PUBCOMP} \<and> publish_callback (se_value e)"

lemma bare_good: "\<forall>e \<in> set es. bare e \<Longrightarrow> entries_good hp es"
  by (induction es) (auto simp: bare_def publish_callback_def entry_quiet_def entry_object_def publish_kind_def)

lemma bare_bytes:
  "\<forall>e \<in> set es. bare e \<Longrightarrow> entries_bytes hp es = concat (map (\<lambda>e. concat (entry_parts hp e)) es)"
  by (induction es) (auto simp: bare_def)

lemma queue_rx_tx: "rx_store (cl_rx s) = tx_store (cl_tx s) \<Longrightarrow>
    store_pending (rx_queue s) = tx_pending s \<and> store_marked (rx_queue s) = tx_marked s \<and> st_capacity (rx_queue s) = tx_capacity s"
  by (simp add: tx_pending_def tx_marked_def tx_capacity_def)

text \<open>New requests in an empty queue.\<close>

lemma refill:
  assumes rest: "at_rest s" "tx_pending s = []" and s': "ri s' = rx_internal_zero" "store_inv (rx_queue s')" "same_side s s'"
    and bare: "\<forall>e \<in> set (tx_pending s'). bare e"
  shows "at_rest s' \<and> tx_stream s' = entries_bytes (sy_heap s') (tx_pending s')"
proof -
  have cl: "cl_tx s' = cl_tx s" "rx_store (cl_rx s') = tx_store (cl_tx s')"
    using s'(3) rest(1) by (simp_all add: same_side_def at_rest_def)
  have t: "ti_pos (ti s) = 0" "ti_offset (ti s) = 0" "fresh_buffer (ti_buffer (ti s))" "ti_error (ti s) = NO_ERROR" "\<not> tx_closed (cl_tx s)"
    using rest by (auto simp: at_rest_def tx_good_def)
  note st = tx_start [OF bare_good [OF bare, of "sy_heap s'"] t(1-3)]
  have str: "tx_stream s' = entries_bytes (sy_heap s') (tx_pending s')"
    using st t cl(1) by (simp add: tx_stream_def)
  have inv: "store_inv (get_store (tx_store (cl_tx s)) s')" using s'(2) cl by simp
  have "tx_good s'"
    unfolding tx_good_def str using st inv t cl(1) bare_good [OF bare] by simp
  then show ?thesis using str s' cl t by (simp add: at_rest_def)
qed

definition all_sent :: "('w \<Rightarrow> 'x) \<Rightarrow> 'w sys \<Rightarrow> 'w sys \<Rightarrow> bool" where
  "all_sent wire t t' \<longleftrightarrow> at_rest t' \<and> tx_pending t' = [] \<and>
     tx_marked t' = tx_marked t @ filter (\<lambda>e. kind_expects_response (se_kind e)) (tx_pending t) \<and>
     cl_rx t' = cl_rx t \<and> cl_message_callbacks t' = cl_message_callbacks t \<and> tx_store (cl_tx t') = tx_store (cl_tx t) \<and>
     tx_capacity t' = tx_capacity t \<and> wire (sy_world t') = wire (sy_world t)"

lemma send_all:
  assumes q: "publish_callback_quiet wire env" and rest: "at_rest t" and kinds: "\<forall>e \<in> set (tx_pending t). se_kind e \<noteq> KIND_DISCONNECT"
    and n: "tx_fuel t \<le> n" and room: "length (tx_stream t) \<le> sum_list rooms"
  shows "\<exists>outs t'. encode_pieces n env rooms t = Some (outs, t') \<and> concat outs = tx_stream t \<and> all_sent wire t t'"
proof -
  have good: "tx_good t" "\<not> tx_closed (cl_tx t)" using rest by (simp_all add: at_rest_def)
  obtain outs t' sent where o: "encode_pieces n env rooms t = Some (outs, t')" "concat outs = tx_stream t" "tx_good t'"
      "tx_stream t' = []" "outside wire t' = outside wire t" "tx_capacity t' = tx_capacity t" "sent_between sent t t'"
    using encode_pieces_stream [OF q good(1) n, of rooms] room unfolding tx_after_def by auto
  have "\<not> tx_closed (cl_tx t')" using o(7) good(2) kinds by (auto simp: sent_between_def)
  moreover from this have "tx_pending t' = []" using o(3,4) by (auto simp: tx_good_def)
  moreover from calculation have "ti_pos (ti t') = 0 \<and> ti_offset (ti t') = 0" using o(3) by (simp add: tx_good_def)
  ultimately have "all_sent wire t t'"
    using o(3,5-7) rest by (auto simp: all_sent_def at_rest_def outside_def sent_between_def)
  then show ?thesis using o(1,2) by blast
qed

section \<open>From one side to the other\<close>

text \<open>How much room the sender has at each call, and where the connection cuts the bytes.\<close>

type_synonym schedule = "nat list \<times> nat list"

fun cut_at :: "nat list \<Rightarrow> byte list \<Rightarrow> byte list list" where
  "cut_at [] bs = [bs]"
| "cut_at (k # ks) bs = take k bs # cut_at ks (drop k bs)"

lemma concat_cut_at [simp]: "concat (cut_at ks bs) = bs"
  by (induction ks bs rule: cut_at.induct) auto

definition convey :: "nat \<Rightarrow> 'a env \<Rightarrow> 'b env \<Rightarrow> schedule \<Rightarrow> 'a sys \<Rightarrow> 'b sys \<Rightarrow> ('a sys \<times> 'b sys) option" where
  "convey n env env' sched t s =
     do {
       (outs, t') \<leftarrow> encode_pieces n env (fst sched) t;
       s' \<leftarrow> decode_pieces n env' (cut_at (snd sched) (concat outs)) s;
       Some (t', s')
     }"

definition round_trip ::
    "nat \<Rightarrow> 'a env \<Rightarrow> 'b env \<Rightarrow> schedule \<Rightarrow> schedule \<Rightarrow> 'a sys \<times> 'b sys \<Rightarrow> ('a sys \<times> 'b sys) option" where
  "round_trip n env env' there return = (\<lambda>(t, s).
     do {
       (t1, s1) \<leftarrow> convey n env env' there t s;
       (s2, t2) \<leftarrow> convey n env' env return s1 t1;
       Some (t2, s2)
     })"

lemma encode_pieces_stays: "n \<le> m \<Longrightarrow> stays (encode_pieces n env rooms t) (encode_pieces m env rooms t)"
  by (induction rooms arbitrary: t) (auto intro!: stays_intros tx_encode_stays)

lemma convey_stays: "n \<le> m \<Longrightarrow> stays (convey n env env' sched t s) (convey m env env' sched t s)"
  unfolding convey_def by (intro stays_intros encode_pieces_stays decode_pieces_stays)

lemma round_trip_stays: "n \<le> m \<Longrightarrow> stays (round_trip n env env' there return x) (round_trip m env env' there return x)"
  unfolding round_trip_def by (intro stays_intros convey_stays)

lemma conveyed:
  assumes "publish_callback_quiet wire env" and "at_rest t" and "\<forall>e \<in> set (tx_pending t). se_kind e \<noteq> KIND_DISCONNECT"
    and "length (tx_stream t) \<le> sum_list (fst sched)"
    and "plain_receiver env'" and "receiving s" and "reaches env' (tx_stream t) s [] s'"
  shows "\<exists>n t'. convey n env env' sched t s = Some (t', s') \<and> all_sent wire t t'"
proof -
  obtain outs t' where o: "encode_pieces (tx_fuel t) env (fst sched) t = Some (outs, t')" "concat outs = tx_stream t" "all_sent wire t t'"
    using send_all [OF assms(1-3) order.refl assms(4)] by blast
  obtain m where m: "decode_pieces m env' (cut_at (snd sched) (concat outs)) s = Some s'"
    using reaches_pieces [of env' "cut_at (snd sched) (concat outs)" s s'] assms(5-7) o(2) by auto
  let ?n = "max (tx_fuel t) m"
  have "convey ?n env env' sched t s = Some (t', s')"
    using staysD [OF encode_pieces_stays o(1), of ?n] staysD [OF decode_pieces_stays m, of ?n] by (simp add: convey_def)
  then show ?thesis using o(3) by blast
qed

lemma zero_receiving: "ri s = rx_internal_zero \<Longrightarrow> receiving s"
  using receiving_reset [of s] by (simp add: lmqtt_rx_buffer_reset_def receiving_def rx_buffer_is_packet_finished_def)

section \<open>The first round trip\<close>

abbreviation expects :: "store_entry \<Rightarrow> bool" where
  "expects e \<equiv> kind_expects_response (se_kind e)"

definition publish_request :: "heap \<Rightarrow> store_entry \<Rightarrow> bool" where
  "publish_request hp e \<longleftrightarrow> publish_callback (se_value e) \<and>
     (let m = snd (entry_message hp e) in deliverable m \<and>
       (pb_qos m = QOS_0 \<and> se_kind e = KIND_PUBLISH_0 \<or> pb_qos m = QOS_1 \<and> se_kind e = KIND_PUBLISH_1 \<or>
        pb_qos m = QOS_2 \<and> se_kind e = KIND_PUBLISH_2))"

lemma publish_requestD:
  assumes "publish_request hp e"
  shows "publish_kind (se_kind e)" "publish_callback (se_value e)" "deliverable (snd (entry_message hp e))"
    "expects e \<Longrightarrow> response_due (se_kind e)" "se_kind e \<noteq> KIND_DISCONNECT"
  using assms by (auto simp: publish_request_def Let_def publish_kind_def kind_expects_response_def response_due_def)

lemma acknowledgement_parts:
  assumes "publish_request hp e"
  shows "concat (map (\<lambda>a. concat (entry_parts hp' a)) (acknowledgement (pb_qos (snd (entry_message hp e))) (entry_id e))) =
      (if expects e then ack_packet (response_to (se_kind e)) (entry_id e) else [])"
    and "\<forall>a \<in> set (acknowledgement (pb_qos (snd (entry_message hp e))) (entry_id e)). bare a \<and> \<not> expects a"
  using assms
  by (auto simp: publish_request_def Let_def acknowledgement_def kind_expects_response_def ack_packet_def bare_def
      publish_callback_def store_value_zero_def)

lemma fst_entry_message [simp]: "fst (entry_message hp e) = entry_id e"
  by (simp add: entry_message_def)

lemma acknowledgements_map:
  "acknowledgements (map (entry_message hp) es) =
     concat (map (\<lambda>e. acknowledgement (pb_qos (snd (entry_message hp e))) (entry_id e)) es)"
  by (simp add: acknowledgements_def comp_def split_def)

lemma acknowledgements_bytes:
  assumes "\<forall>e \<in> set es. publish_request hp e"
  shows "entries_bytes hp' (acknowledgements (map (entry_message hp) es)) = responses (filter expects es)"
    and "\<forall>a \<in> set (acknowledgements (map (entry_message hp) es)). bare a \<and> \<not> expects a"
    and "length (acknowledgements (map (entry_message hp) es)) \<le> length es"
proof -
  show all: "\<forall>a \<in> set (acknowledgements (map (entry_message hp) es)). bare a \<and> \<not> expects a"
    using assms acknowledgement_parts(2) unfolding acknowledgements_map by fastforce
  show "length (acknowledgements (map (entry_message hp) es)) \<le> length es"
    unfolding acknowledgements_map by (induction es) (auto simp: acknowledgement_def)
  have "concat (map (\<lambda>a. concat (entry_parts hp' a)) (acknowledgements (map (entry_message hp) es))) = responses (filter expects es)"
    using assms unfolding acknowledgements_map
  proof (induction es)
    case (Cons e es)
    then show ?case using acknowledgement_parts(1) [of hp e hp'] by (simp add: responses_def)
  qed (simp add: responses_def)
  then show "entries_bytes hp' (acknowledgements (map (entry_message hp) es)) = responses (filter expects es)"
    using bare_bytes all by metis
qed

lemma publishes_bytes:
  assumes "at_rest t" and "\<forall>e \<in> set (tx_pending t). publish_request (sy_heap t) e"
  shows "tx_stream t = concat (map publish_bytes (map (entry_message (sy_heap t)) (tx_pending t)))"
proof -
  have good: "entries_good (sy_heap t) (tx_pending t)" using assms(1) by (auto simp: at_rest_def tx_good_def)
  have "tx_stream t = entries_bytes (sy_heap t) (tx_pending t)"
    using assms(1) tx_start [OF good, of "tx_internal_zero"] by (simp add: at_rest_def tx_stream_def tx_internal_zero_def)
  moreover have "\<forall>e \<in> set (tx_pending t). publish_kind (se_kind e)" using assms(2) publish_requestD(1) by blast
  ultimately show ?thesis using entries_bytes_messages [OF good] by (simp add: comp_def)
qed

text \<open>What the receiver is like before and after.\<close>

definition listener :: "message list env \<Rightarrow> nat \<Rightarrow> message list sys \<Rightarrow> bool" where
  "listener env k s \<longleftrightarrow> publish_callback_quiet (\<lambda>w. w) env \<and> at_rest s \<and> tx_pending s = [] \<and> idle env k s"

lemma listener_plain: "listener env k s \<Longrightarrow> plain_receiver env"
  by (simp add: listener_def idle_def listens_def)

definition acked :: "message list env \<Rightarrow> (packet_id \<times> publish) list \<Rightarrow> message list sys \<Rightarrow> message list sys \<Rightarrow> bool" where
  "acked env ms s s' \<longleftrightarrow> at_rest s' \<and> tx_pending s' = [] \<and> tx_marked s' = tx_marked s \<and> tx_capacity s' = tx_capacity s \<and>
     id_set_roomy (rx_id_set (cl_rx s')) \<and> known_ids s' = known_after_all ms (known_ids s) \<and>
     sy_world s' = sy_world s @ heard_all ms (known_ids s)"

lemma messages_there:
  assumes q: "publish_callback_quiet wire env" and rest: "at_rest t"
    and req: "\<forall>e \<in> set (tx_pending t). publish_request (sy_heap t) e" and l: "listener env' (length (tx_pending t)) s"
    and room: "length (tx_stream t) \<le> sum_list (fst sched)"
  defines "ms \<equiv> map (entry_message (sy_heap t)) (tx_pending t)"
  shows "\<exists>n t' s'. convey n env env' sched t s = Some (t', s') \<and> all_sent wire t t' \<and> at_rest s' \<and> same_side s s' \<and>
    tx_pending s' = acknowledgements ms \<and> tx_marked s' = tx_marked s \<and> idle env' 0 s' \<and>
    tx_stream s' = responses (filter expects (tx_pending t)) \<and>
    known_ids s' = known_after_all ms (known_ids s) \<and> sy_world s' = sy_world s @ heard_all ms (known_ids s)"
proof -
  note d = l [unfolded listener_def]
  have ms: "idle env' (length ms) s" "\<forall>x \<in> set ms. deliverable (snd x)"
    using d req publish_requestD(3) by (auto simp: ms_def)
  obtain s' where s': "reaches env' (concat (map publish_bytes ms)) s [] s'" "sy_world s' = sy_world s @ heard_all ms (known_ids s)"
      "store_pending (rx_queue s') = store_pending (rx_queue s) @ acknowledgements ms"
      "store_marked (rx_queue s') = store_marked (rx_queue s)" "known_ids s' = known_after_all ms (known_ids s)" "idle env' 0 s'" "same_side s s'"
    using publishes_heard [OF ms] by blast
  have r: "rx_store (cl_rx s) = tx_store (cl_tx s)" "rx_store (cl_rx s') = tx_store (cl_tx s')"
    using d s'(7) by (auto simp: at_rest_def same_side_def)
  have p: "tx_pending s' = acknowledgements ms" "tx_marked s' = tx_marked s"
    using s'(3,4) queue_rx_tx [OF r(1)] queue_rx_tx [OF r(2)] d by auto
  have bare: "\<forall>e \<in> set (tx_pending s'). bare e" using acknowledgements_bytes(2) [OF req] p(1) by (simp add: ms_def)
  have "ri s' = rx_internal_zero" "store_inv (rx_queue s')" using s'(6) by (simp_all add: idle_def qos2_room_def)
  then have "at_rest s' \<and> tx_stream s' = entries_bytes (sy_heap s') (tx_pending s')"
    using refill [of s s'] d s'(7) bare by blast
  moreover have "entries_bytes (sy_heap s') (tx_pending s') = responses (filter expects (tx_pending t))"
    using acknowledgements_bytes(1) [OF req] p(1) by (simp add: ms_def)
  moreover obtain n t' where "convey n env env' sched t s = Some (t', s')" "all_sent wire t t'"
    using conveyed [OF q rest _ room listener_plain [OF l] _ s'(1) [folded publishes_bytes [OF rest req, folded ms_def]]]
      req publish_requestD(5) idle_receiving d by blast
  ultimately show ?thesis using s' p by auto
qed

lemma length_responses [simp]: "length (responses es) = 4 * length es"
  by (induction es) (simp_all add: responses_def)

definition awaits :: "store_entry list \<Rightarrow> store_entry list \<Rightarrow> bool" where
  "awaits old es \<longleftrightarrow> (\<forall>e \<in> set es. publish_callback (se_value e) \<and> response_due (se_kind e) \<and> (\<forall>y \<in> set old. entry_id y \<noteq> entry_id e))"

lemma follow_up_bare: "awaits old es \<Longrightarrow> \<forall>e \<in> set (concat (map follow_up es)). bare e"
  by (auto simp: awaits_def follow_up_def bare_def)

lemma at_rest_queue:
  "at_rest s \<Longrightarrow> store_inv (rx_queue s) \<and> store_pending (rx_queue s) = tx_pending s \<and> store_marked (rx_queue s) = tx_marked s \<and>
     st_capacity (rx_queue s) = tx_capacity s \<and> ri s = rx_internal_zero"
  using queue_rx_tx [of s] by (auto simp: at_rest_def tx_good_def)

lemma responses_back:
  assumes q: "publish_callback_quiet wire env" and plain: "plain_receiver env" and t: "at_rest t" "tx_pending t = []" "tx_marked t = old @ es"
    and es: "awaits old es" and q': "publish_callback_quiet (\<lambda>w. w) env'"
    and s: "at_rest s" "\<forall>e \<in> set (tx_pending s). bare e \<and> \<not> expects e" "tx_stream s = responses es"
    and room: "4 * length es \<le> sum_list (fst sched)"
  shows "\<exists>n t' s'. convey n env' env sched s t = Some (s', t') \<and> all_sent (\<lambda>w. w) s s' \<and> tx_marked s' = tx_marked s \<and>
    at_rest t' \<and> tx_pending t' = concat (map follow_up es) \<and> tx_marked t' = old \<and>
    tx_stream t' = entries_bytes (sy_heap t') (concat (map follow_up es))"
proof -
  note t0 = at_rest_queue [OF t(1)]
  obtain t' where t': "reaches env (responses es) t [] t'" "settled wire t t'" "store_marked (rx_queue t') = old"
      "store_pending (rx_queue t') = store_pending (rx_queue t) @ concat (map follow_up es)"
    using responses_heard [OF q, of es old t] es t0 t(3) unfolding awaits_def by auto
  have side: "same_side t t'" "ri t' = rx_internal_zero" "store_inv (rx_queue t')" using t'(2) by (simp_all add: settled_def)
  then have "rx_store (cl_rx t') = tx_store (cl_tx t')" using t(1) by (simp add: same_side_def at_rest_def)
  then have p: "tx_pending t' = concat (map follow_up es)" "tx_marked t' = old"
    using queue_rx_tx [of t'] t'(3,4) t0 t(2) by auto
  have rest: "at_rest t' \<and> tx_stream t' = entries_bytes (sy_heap t') (tx_pending t')"
    using refill [OF t(1,2) side(2,3,1)] follow_up_bare [OF es] p(1) by simp
  have "\<forall>e \<in> set (tx_pending s). se_kind e \<noteq> KIND_DISCONNECT" using s(2) by (auto simp: bare_def)
  then obtain n s' where c: "convey n env' env sched s t = Some (s', t')" "all_sent (\<lambda>w. w) s s'"
    using conveyed [OF q' s(1) _ _ plain zero_receiving, of sched t t'] s(3) room t0 t'(1) by auto
  have "filter expects (tx_pending s) = []" using s(2) by (auto simp: filter_empty_conv)
  then have "tx_marked s' = tx_marked s" using c(2) by (simp add: all_sent_def)
  then show ?thesis using c rest p by auto
qed

section \<open>The second round trip\<close>

lemma follow_up_kinds:
  "\<forall>e \<in> set (concat (map follow_up es)). se_kind e = KIND_PUBREL"
  "map entry_id (concat (map follow_up es)) = map entry_id (filter (\<lambda>e. se_kind e = KIND_PUBLISH_2) es)"
  "length (concat (map follow_up es)) \<le> length es"
  by (induction es) (auto simp: follow_up_def)

lemma pubrel_bytes:
  "\<forall>e \<in> set rs. se_kind e = KIND_PUBREL \<Longrightarrow> entries_bytes hp rs = concat (map (ack_packet DECODER_PUBREL) (map entry_id rs))"
  by (induction rs) (auto simp: ack_packet_def)

lemma pubcomp_bytes:
  "\<forall>e \<in> set rs. se_kind e = KIND_PUBREL \<Longrightarrow> entries_bytes hp (map pubcomp_entry (map entry_id rs)) = responses rs"
  by (induction rs) (auto simp: responses_def ack_packet_def store_value_zero_def)

lemma releases_there:
  assumes q: "publish_callback_quiet wire env" and t: "at_rest t" "tx_pending t = rs" "tx_stream t = entries_bytes (sy_heap t) rs"
    and rs: "\<forall>e \<in> set rs. se_kind e = KIND_PUBREL" and plain: "plain_receiver env'"
    and s: "at_rest s" "tx_pending s = []" "id_set_roomy (rx_id_set (cl_rx s))" "length (tx_marked s) + length rs \<le> tx_capacity s"
    and room: "4 * length rs \<le> sum_list (fst sched)"
  shows "\<exists>n t' s'. convey n env env' sched t s = Some (t', s') \<and> all_sent wire t t' \<and> tx_marked t' = tx_marked t @ rs \<and>
    at_rest s' \<and> tx_pending s' = map pubcomp_entry (map entry_id rs) \<and> tx_marked s' = tx_marked s \<and> tx_stream s' = responses rs \<and>
    known_ids s' = known_ids s - entry_id ` set rs \<and> sy_world s' = sy_world s"
proof -
  note s0 = at_rest_queue [OF s(1)]
  have bytes: "tx_stream t = concat (map (ack_packet DECODER_PUBREL) (map entry_id rs))" using t(3) pubrel_bytes [OF rs] by simp
  have "releases_ready (length (map entry_id rs)) s"
    using s0 s(2-4) by (simp add: releases_ready_def del: length_store_marked length_store_pending)
  then obtain s' where s': "reaches env' (tx_stream t) s [] s'" "settled (\<lambda>w. w) s s'"
      "store_marked (rx_queue s') = store_marked (rx_queue s)" "known_ids s' = known_ids s - entry_id ` set rs"
      "store_pending (rx_queue s') = store_pending (rx_queue s) @ map pubcomp_entry (map entry_id rs)"
    using releases_heard [of "map entry_id rs" s env' "\<lambda>w. w"] unfolding bytes by (auto simp: image_image)
  have side: "same_side s s'" "ri s' = rx_internal_zero" "store_inv (rx_queue s')" using s'(2) by (simp_all add: settled_def)
  then have "rx_store (cl_rx s') = tx_store (cl_tx s')" using s(1) by (simp add: same_side_def at_rest_def)
  then have p: "tx_pending s' = map pubcomp_entry (map entry_id rs)" "tx_marked s' = tx_marked s"
    using queue_rx_tx [of s'] s'(3,5) s0 s(2) by auto
  have bare: "\<forall>e \<in> set (tx_pending s'). bare e"
    unfolding p(1) by (auto simp: bare_def publish_callback_def store_value_zero_def)
  have rest: "at_rest s' \<and> tx_stream s' = responses rs"
    using refill [OF s(1,2) side(2,3,1) bare] pubcomp_bytes [OF rs] p(1) by simp
  have k: "\<forall>e \<in> set (tx_pending t). se_kind e \<noteq> KIND_DISCONNECT" using rs t(2) by auto
  have "length (tx_stream t) = 4 * length rs" unfolding bytes by (induction rs) simp_all
  then obtain n t' where c: "convey n env env' sched t s = Some (t', s')" "all_sent wire t t'"
    using conveyed [OF q t(1) k _ plain zero_receiving s'(1), of sched] room s0 by auto
  have "filter expects rs = rs" using rs by (auto simp: filter_id_conv kind_expects_response_def)
  then have "tx_marked t' = tx_marked t @ rs" using c(2) t(2) by (simp add: all_sent_def)
  then show ?thesis using c rest p s'(2,4) by (auto simp: settled_def)
qed

section \<open>Two round trips\<close>

definition qos2_ids :: "store_entry list \<Rightarrow> packet_id list" where
  "qos2_ids es = map entry_id (filter (\<lambda>e. se_kind e = KIND_PUBLISH_2) es)"

lemma publish_request_qos2:
  "publish_request hp e \<Longrightarrow> pb_qos (snd (entry_message hp e)) = QOS_2 \<longleftrightarrow> se_kind e = KIND_PUBLISH_2"
  by (auto simp: publish_request_def Let_def)

lemma known_ids_after:
  "\<forall>e \<in> set es. publish_request hp e \<Longrightarrow>
     known_after_all (map (entry_message hp) es) known = known \<union> set (qos2_ids es)"
proof (induction es arbitrary: known)
  case Nil
  then show ?case by (simp add: known_after_all_def qos2_ids_def)
next
  case (Cons e es)
  obtain pid m where x: "entry_message hp e = (pid, m)" by (cases "entry_message hp e")
  then have "pid = entry_id e" using fst_entry_message [of hp e] by simp
  then show ?case
    using Cons x publish_request_qos2 [of hp e]
    by (auto simp: known_after_all_def qos2_ids_def known_after_def)
qed

lemma fresh_all_heard:
  "\<forall>e \<in> set es. publish_request hp e \<Longrightarrow> distinct (qos2_ids es) \<Longrightarrow> set (qos2_ids es) \<inter> known = {} \<Longrightarrow>
     heard_all (map (entry_message hp) es) known = map (\<lambda>e. message_of (snd (entry_message hp e))) es"
proof (induction es arbitrary: known)
  case Nil
  then show ?case by simp
next
  case (Cons e es)
  obtain pid m where x: "entry_message hp e = (pid, m)" by (cases "entry_message hp e")
  then have "pid = entry_id e" using fst_entry_message [of hp e] by simp
  then show ?case
    using Cons x publish_request_qos2 [of hp e]
    by (auto simp: qos2_ids_def known_after_def new_message_def)
qed

lemma follow_up_ids: "entry_id ` set (concat (map follow_up (filter expects es))) = set (qos2_ids es)"
  by (induction es) (auto simp: follow_up_def qos2_ids_def kind_expects_response_def)

text \<open>Where the first round trip ends: the messages are heard, PUBRELs are to be sent.\<close>

definition acknowledged :: "'v sys \<Rightarrow> message list sys \<Rightarrow> 'v sys \<Rightarrow> message list sys \<Rightarrow> bool" where
  "acknowledged t s t2 s2 \<longleftrightarrow>
     (let ms = map (entry_message (sy_heap t)) (tx_pending t); rs = concat (map follow_up (filter expects (tx_pending t)))
      in at_rest t2 \<and> tx_pending t2 = rs \<and> tx_marked t2 = tx_marked t \<and> tx_stream t2 = entries_bytes (sy_heap t2) rs \<and>
        at_rest s2 \<and> tx_pending s2 = [] \<and> tx_marked s2 = tx_marked s \<and> id_set_roomy (rx_id_set (cl_rx s2)) \<and>
        length (tx_marked s2) + length rs \<le> tx_capacity s2 \<and>
        known_ids s2 = known_after_all ms (known_ids s) \<and> sy_world s2 = sy_world s @ heard_all ms (known_ids s))"

lemma first_round_trip:
  assumes q: "publish_callback_quiet wire env" and plain: "plain_receiver env" and t: "at_rest t"
    and req: "\<forall>e \<in> set (tx_pending t). publish_request (sy_heap t) e"
    and await: "awaits (tx_marked t) (filter expects (tx_pending t))" and l: "listener env' (length (tx_pending t)) s"
    and room: "length (tx_stream t) \<le> sum_list (fst there)" "4 * length (tx_pending t) \<le> sum_list (fst return)"
  shows "\<exists>n t2 s2. round_trip n env env' there return (t, s) = Some (t2, s2) \<and> acknowledged t s t2 s2"
proof -
  let ?ms = "map (entry_message (sy_heap t)) (tx_pending t)" and ?es = "filter expects (tx_pending t)"
  let ?rs = "concat (map follow_up ?es)"
  have q': "publish_callback_quiet (\<lambda>w. w) env'" and ids: "idle env' (length (tx_pending t)) s" using l by (simp_all add: listener_def)
  have len: "length ?es \<le> length (tx_pending t)" "length ?rs \<le> length ?es"
    using follow_up_kinds(3) by simp_all
  have room': "4 * length ?es \<le> sum_list (fst return)" using room(2) len by linarith
  obtain n1 t1 s1 where 1: "convey n1 env env' there t s = Some (t1, s1)" "all_sent wire t t1" "at_rest s1" "same_side s s1"
      "tx_pending s1 = acknowledgements ?ms" "tx_marked s1 = tx_marked s" "idle env' 0 s1" "tx_stream s1 = responses ?es"
      "known_ids s1 = known_after_all ?ms (known_ids s)" "sy_world s1 = sy_world s @ heard_all ?ms (known_ids s)"
    using messages_there [OF q t req l room(1)] by blast
  have t1: "at_rest t1" "tx_pending t1 = []" "tx_marked t1 = tx_marked t @ ?es" using 1(2) by (simp_all add: all_sent_def)
  have bare1: "\<forall>e \<in> set (tx_pending s1). bare e \<and> \<not> expects e" using acknowledgements_bytes(2) [OF req] 1(5) by simp
  obtain n2 t2 s2 where 2: "convey n2 env' env return s1 t1 = Some (s2, t2)" "all_sent (\<lambda>w. w) s1 s2" "tx_marked s2 = tx_marked s1"
      "at_rest t2" "tx_pending t2 = ?rs" "tx_marked t2 = tx_marked t" "tx_stream t2 = entries_bytes (sy_heap t2) ?rs"
    using responses_back [OF q plain t1 await q' 1(3) bare1 1(8) room'] by blast
  have s2: "at_rest s2" "tx_pending s2 = []" "cl_rx s2 = cl_rx s1" "tx_capacity s2 = tx_capacity s1" "sy_world s2 = sy_world s1"
    using 2(2) by (simp_all add: all_sent_def)
  have roomy: "id_set_roomy (rx_id_set (cl_rx s2))" using 1(7) s2(3) by (simp add: idle_def qos2_room_def)
  have "tx_capacity s1 = tx_capacity s"
    using 1(3,4) l by (auto simp: listener_def at_rest_def same_side_def tx_capacity_def)
  moreover have "length (tx_marked s) + length (tx_pending t) \<le> tx_capacity s"
    using ids l at_rest_queue [of s] length_store_pending [of "rx_queue s"] length_store_marked [of "rx_queue s"] store_inv_bounds(1) [of "rx_queue s"]
    by (auto simp: listener_def idle_def qos2_room_def)
  ultimately have cap: "length (tx_marked s2) + length ?rs \<le> tx_capacity s2" unfolding 1(6) 2(3) s2(4) using len by linarith
  have "round_trip (max n1 n2) env env' there return (t, s) = Some (t2, s2)"
    using staysD [OF convey_stays 1(1), of "max n1 n2"] staysD [OF convey_stays 2(1), of "max n1 n2"] by (simp add: round_trip_def)
  moreover have "acknowledged t s t2 s2"
    using 2(3-7) s2 roomy cap 1(6,9,10) by (simp add: acknowledged_def Let_def)
  ultimately show ?thesis by blast
qed

lemma second_round_trip:
  assumes q: "publish_callback_quiet wire env" and plain: "plain_receiver env" and l: "listener env' m s"
    and await: "awaits (tx_marked t) (concat (map follow_up (filter expects (tx_pending t))))" and a: "acknowledged t s t2 s2"
    and room: "4 * length (tx_pending t2) \<le> sum_list (fst there)" "4 * length (tx_pending t2) \<le> sum_list (fst return)"
  shows "\<exists>n t4 s4. round_trip n env env' there return (t2, s2) = Some (t4, s4) \<and>
    tx_pending t4 = [] \<and> tx_marked t4 = tx_marked t \<and> tx_pending s4 = [] \<and> tx_marked s4 = tx_marked s \<and>
    known_ids s4 = known_ids s2 - entry_id ` set (tx_pending t2) \<and> sy_world s4 = sy_world s2"
proof -
  let ?rs = "concat (map follow_up (filter expects (tx_pending t)))"
  have q': "publish_callback_quiet (\<lambda>w. w) env'" using l by (simp add: listener_def)
  have t2: "at_rest t2" "tx_pending t2 = ?rs" "tx_marked t2 = tx_marked t" "tx_stream t2 = entries_bytes (sy_heap t2) ?rs"
    and s2: "at_rest s2" "tx_pending s2 = []" "tx_marked s2 = tx_marked s" "id_set_roomy (rx_id_set (cl_rx s2))"
      "length (tx_marked s2) + length ?rs \<le> tx_capacity s2"
    using a unfolding acknowledged_def Let_def by blast+
  note room' = room [unfolded t2(2)]
  obtain n3 t3 s3 where 3: "convey n3 env env' there t2 s2 = Some (t3, s3)" "all_sent wire t2 t3" "tx_marked t3 = tx_marked t2 @ ?rs"
      "at_rest s3" "tx_pending s3 = map pubcomp_entry (map entry_id ?rs)" "tx_marked s3 = tx_marked s2" "tx_stream s3 = responses ?rs"
      "known_ids s3 = known_ids s2 - entry_id ` set ?rs" "sy_world s3 = sy_world s2"
    using releases_there [OF q t2(1,2,4) follow_up_kinds(1) listener_plain [OF l] s2(1,2,4,5) room'(1)] by blast
  have t3: "at_rest t3" "tx_pending t3 = []" "tx_marked t3 = tx_marked t @ ?rs" using 3(2,3) t2(3) by (simp_all add: all_sent_def)
  have bare3: "\<forall>e \<in> set (tx_pending s3). bare e \<and> \<not> expects e"
    unfolding 3(5) by (auto simp: bare_def publish_callback_def store_value_zero_def kind_expects_response_def)
  obtain n4 t4 s4 where 4: "convey n4 env' env return s3 t3 = Some (s4, t4)" "all_sent (\<lambda>w. w) s3 s4" "tx_marked s4 = tx_marked s3"
      "tx_pending t4 = concat (map follow_up ?rs)" "tx_marked t4 = tx_marked t"
    using responses_back [OF q plain t3 await q' 3(4) bare3 3(7) room'(2)] by blast
  have none: "concat (map follow_up ?rs) = []" using follow_up_kinds(1) [of "filter expects (tx_pending t)"] by (auto simp: follow_up_def)
  have "round_trip (max n3 n4) env env' there return (t2, s2) = Some (t4, s4)"
    using staysD [OF convey_stays 3(1), of "max n3 n4"] staysD [OF convey_stays 4(1), of "max n3 n4"] by (simp add: round_trip_def)
  moreover have "tx_pending s4 = []" "sy_world s4 = sy_world s3" "cl_rx s4 = cl_rx s3"
    using 4(2) by (simp_all add: all_sent_def)
  ultimately show ?thesis
    using none 4(3-5) 3(6,8,9) s2(3) t2(2) by (intro exI [of _ "max n3 n4"] exI [of _ t4] exI [of _ s4]) simp
qed

text \<open>
  C1. Every message is handed over exactly once. A sender with any PUBLISH requests in its queue and
  a receiver exchange packets in two round trips, however the output is portioned and the
  connection cuts the bytes: messages one way and PUBACK and PUBREC back, then PUBREL and PUBCOMP.
  Then the user of the receiver has got each message once, in order; at the sender nothing is left
  to be sent or answered but what was waiting before; and the receiver has nothing left to send and
  knows the same identifiers as before.
\<close>

theorem messages_complete:
  assumes "publish_callback_quiet wire env" and "plain_receiver env" and "at_rest t"
    and "\<forall>e \<in> set (tx_pending t). publish_request (sy_heap t) e"
    and "\<forall>y \<in> set (tx_marked t). \<forall>e \<in> set (tx_pending t). entry_id y \<noteq> entry_id e"
    and "listener env' (length (tx_pending t)) s"
    and "distinct (qos2_ids (tx_pending t))" and "set (qos2_ids (tx_pending t)) \<inter> known_ids s = {}"
    and "length (tx_stream t) \<le> sum_list (fst there)"
    and "\<forall>sched \<in> {return, there', return'}. 4 * length (tx_pending t) \<le> sum_list (fst sched)"
  shows "\<exists>n x t' s'. round_trip n env env' there return (t, s) = Some x \<and> round_trip n env env' there' return' x = Some (t', s') \<and>
    sy_world s' = sy_world s @ map (\<lambda>e. message_of (snd (entry_message (sy_heap t) e))) (tx_pending t) \<and>
    tx_pending t' = [] \<and> tx_marked t' = tx_marked t \<and>
    tx_pending s' = [] \<and> tx_marked s' = tx_marked s \<and> known_ids s' = known_ids s"
proof -
  let ?ms = "map (entry_message (sy_heap t)) (tx_pending t)" and ?es = "filter expects (tx_pending t)"
  let ?rs = "concat (map follow_up ?es)"
  note req = assms(4)
  have await: "awaits (tx_marked t) ?es"
    using assms(5) req publish_requestD(2,4) by (auto simp: awaits_def)
  then have await': "awaits (tx_marked t) ?rs"
    by (auto simp: awaits_def follow_up_def response_due_def)
  have room: "4 * length (tx_pending t) \<le> sum_list (fst return)" "4 * length (tx_pending t) \<le> sum_list (fst there')"
      "4 * length (tx_pending t) \<le> sum_list (fst return')"
    using assms(10) by simp_all
  obtain n t2 s2 where 1: "round_trip n env env' there return (t, s) = Some (t2, s2)" "acknowledged t s t2 s2"
    using first_round_trip [OF assms(1,2,3) req await assms(6,9) room(1)] by blast
  then have 2: "tx_pending t2 = ?rs" "known_ids s2 = known_after_all ?ms (known_ids s)" "sy_world s2 = sy_world s @ heard_all ?ms (known_ids s)"
    by (simp_all add: acknowledged_def Let_def)
  have "length ?rs \<le> length (tx_pending t)"
    using follow_up_kinds(3) [of ?es] length_filter_le [of expects "tx_pending t"] by linarith
  then have room': "4 * length (tx_pending t2) \<le> sum_list (fst there')" "4 * length (tx_pending t2) \<le> sum_list (fst return')"
    unfolding 2(1) using room by linarith+
  obtain k t4 s4 where 3: "round_trip k env env' there' return' (t2, s2) = Some (t4, s4)" "tx_pending t4 = []" "tx_marked t4 = tx_marked t"
      "tx_pending s4 = []" "tx_marked s4 = tx_marked s" "known_ids s4 = known_ids s2 - entry_id ` set ?rs" "sy_world s4 = sy_world s2"
    using second_round_trip [OF assms(1,2,6) await' 1(2) room'] unfolding 2(1) by blast
  have "round_trip (max n k) env env' there return (t, s) = Some (t2, s2)"
      "round_trip (max n k) env env' there' return' (t2, s2) = Some (t4, s4)"
    using staysD [OF round_trip_stays 1(1), of "max n k"] staysD [OF round_trip_stays 3(1), of "max n k"] by simp_all
  moreover have "known_ids s4 = known_ids s"
    using 3(6) 2(2) known_ids_after [OF req] follow_up_ids [of "tx_pending t"] assms(8) by auto
  moreover have "sy_world s4 = sy_world s @ map (\<lambda>e. message_of (snd (entry_message (sy_heap t) e))) (tx_pending t)"
    using 3(7) 2(3) fresh_all_heard [OF req assms(7,8)] by simp
  ultimately show ?thesis using 3(2-5) by blast
qed

text \<open>A sender with a QoS 1 and a QoS 2 message, packets asked for and cut in odd places.\<close>

definition example_publisher :: "byte list sys" where
  "example_publisher = (example_sender 0)\<lparr>cl_main_store := (fresh_store 4)\<lparr>st_count := 2, st_entries :=
       [example_request KIND_PUBLISH_1 ON_PUBLISH,
        \<lparr>se_kind = KIND_PUBLISH_2, se_value = \<lparr>sv_packet_id = 6, sv_value = Some 8, sv_callback = Some ON_PUBLISH, sv_callback_data = DATA_CLIENT\<rparr>\<rparr>,
        store_entry_zero, store_entry_zero]\<rparr>,
     sy_heap := [7 \<mapsto> OPublish example_message, 8 \<mapsto> OPublish (example_message\<lparr>pb_qos := 2, pb_retain := 1\<rparr>)]\<rparr>"

lemma example_listener_idle: "idle listening_env 2 example_listener"
proof -
  have "plain_receiver listening_env"
    by (auto simp: plain_receiver_def listening_env_def own_strings_def own_string_def lstring_zero_def at_pos_def upd_ri_def)
  then have "listens listening_env (cl_message_callbacks example_listener)"
    by (simp add: listens_def example_listener_def) (simp add: listening_env_def)
  moreover have "ri example_listener = rx_internal_zero" "rx_queue example_listener = fresh_store 4"
      "rx_id_set (cl_rx example_listener) = empty_id_set 16 4"
    by (simp_all add: example_listener_def client_setup_def get_store_def example_buffers_def empty_id_set_def)
  ultimately show ?thesis by (simp add: idle_def qos2_room_def)
qed

theorem messages_complete_witness:
  "\<exists>n x t' s'. round_trip n (wire_env 0) listening_env ([7, 40], [3, 1, 4]) ([1, 1, 9], []) (example_publisher, example_listener) = Some x \<and>
    round_trip n (wire_env 0) listening_env ([9], [2]) ([9], [3]) x = Some (t', s') \<and>
    sy_world s' = [([0x61, 0x2F, 0x62], [], 1, False), ([0x61, 0x2F, 0x62], [], 2, True)] \<and> tx_pending t' = [] \<and> tx_marked t' = []"
proof -
  let ?t = example_publisher and ?s = example_listener
  have "plain_receiver (wire_env 0)" by (simp add: plain_receiver_def wire_env_def)
  moreover have "publish_callback_quiet (\<lambda>w. w) listening_env" by (simp add: publish_callback_quiet_def listening_env_def)
  ultimately have env: "publish_callback_quiet (\<lambda>w. w) (wire_env 0)" "plain_receiver (wire_env 0)"
      "publish_callback_quiet (\<lambda>w. w) listening_env"
    using wire_env_quiet [of "\<lambda>w. w" 0] by blast+
  have t: "at_rest ?t" "\<forall>e \<in> set (tx_pending ?t). publish_request (sy_heap ?t) e"
      "\<forall>y \<in> set (tx_marked ?t). \<forall>e \<in> set (tx_pending ?t). entry_id y \<noteq> entry_id e"
      "distinct (qos2_ids (tx_pending ?t))" "set (qos2_ids (tx_pending ?t)) \<inter> known_ids ?s = {}"
      "length (tx_stream ?t) \<le> 47" "length (tx_pending ?t) = 2" "tx_marked ?t = []"
      "map (\<lambda>e. message_of (snd (entry_message (sy_heap ?t) e))) (tx_pending ?t) =
        [([0x61, 0x2F, 0x62], [], 1, False), ([0x61, 0x2F, 0x62], [], 2, True)]"
      "at_rest ?s" "tx_pending ?s = []" "sy_world ?s = []"
    by code_simp+
  have l: "listener listening_env (length (tx_pending ?t)) ?s"
    using env(3) t(7,10,11) example_listener_idle by (simp add: listener_def)
  have room: "length (tx_stream ?t) \<le> sum_list (fst ([7, 40], [3, 1, 4 :: nat]))"
      "\<forall>sched \<in> {([1, 1, 9], []), ([9], [2]), ([9], [3])}. 4 * length (tx_pending ?t) \<le> sum_list (fst (sched :: schedule))"
    using t(6,7) by simp_all
  show ?thesis
    using messages_complete [OF env(1,2) t(1-3) l t(4,5) room] unfolding t(8,9,12) append_Nil by blast
qed

end
