(* ===== verification/Queued_Requests.thy ===== *)
theory Queued_Requests
  imports Output_Delivery
begin

text \<open>
  What the operations of the user do to the stream of bytes on its way out: an accepted request adds
  exactly its packet at the end, a refused one adds nothing.
\<close>

section \<open>Queueing a request\<close>

lemma entries_bytes_append:
  "\<forall>e \<in> set es. se_kind e \<noteq> KIND_DISCONNECT \<Longrightarrow> entries_bytes hp (es @ [x]) = entries_bytes hp es @ concat (entry_parts hp x)"
  by (induction es) simp_all

lemma entries_good_append:
  assumes "entries_good hp es" and "request_valid hp (se_kind x) (se_value x)" and "entry_quiet x"
    and "\<forall>e \<in> set es. entry_object e = None \<or> entry_object e \<noteq> sv_value (se_value x)"
  shows "entries_good hp (es @ [x])"
  using assms by (induction es) auto

definition all_before_disconnect :: "'w sys \<Rightarrow> bool" where
  "all_before_disconnect s \<longleftrightarrow> \<not> tx_closed (cl_tx s) \<and> (\<forall>e \<in> set (tx_pending s). se_kind e \<noteq> KIND_DISCONNECT)"

text \<open>The state of the user-facing operations in the connected state.\<close>

definition connected :: "'w sys \<Rightarrow> bool" where
  "connected s \<longleftrightarrow> tx_store (cl_tx s) = MAIN_STORE \<and> cl_op_subscribe s = OP_DO \<and> cl_op_unsubscribe s = OP_DO \<and>
     cl_op_publish s = OP_DO \<and> cl_op_pingreq s = OP_DO \<and> cl_op_disconnect s = OP_DO"

definition queued :: "store_entry \<Rightarrow> 'w sys \<Rightarrow> 'w sys \<Rightarrow> bool" where
  "queued e s s' \<longleftrightarrow> tx_good s' \<and> connected s' \<and> sy_heap s' = sy_heap s \<and> tx_pending s' = tx_pending s @ [e] \<and>
     tx_marked s' = tx_marked s \<and> tx_stream s' = tx_stream s @ concat (entry_parts (sy_heap s) e)"

definition unqueued :: "'w sys \<Rightarrow> 'w sys \<Rightarrow> bool" where
  "unqueued s s' \<longleftrightarrow> tx_good s' \<and> connected s' \<and> sy_heap s' = sy_heap s \<and> tx_pending s' = tx_pending s \<and>
     tx_marked s' = tx_marked s \<and> tx_stream s' = tx_stream s"

definition new_entry :: "heap \<Rightarrow> store_entry list \<Rightarrow> store_entry \<Rightarrow> bool" where
  "new_entry hp es x \<longleftrightarrow> request_valid hp (se_kind x) (se_value x) \<and> entry_quiet x \<and>
     (\<forall>e \<in> set es. entry_object e = None \<or> entry_object e \<noteq> sv_value (se_value x))"

lemma main_store_stream:
  assumes "connected s"
  shows "tx_pending (s\<lparr>cl_main_store := st\<rparr>) = store_pending st" "tx_marked (s\<lparr>cl_main_store := st\<rparr>) = store_marked st"
    "connected (s\<lparr>cl_main_store := st\<rparr>)" "tx_pending s = store_pending (cl_main_store s)" "tx_marked s = store_marked (cl_main_store s)"
  using assms by (simp_all add: connected_def tx_pending_def tx_marked_def get_store_def)

lemma queue_request:
  assumes good: "tx_good s" and con: "connected s" and open': "all_before_disconnect s" and e: "new_entry (sy_heap s) (tx_pending s) e"
    and st: "store_inv st" "store_pending st = tx_pending s @ [e]" "store_marked st = tx_marked s"
  shows "queued e s (s\<lparr>cl_main_store := st\<rparr>)"
proof -
  let ?s = "s\<lparr>cl_main_store := st\<rparr>"
  have ncl: "\<not> tx_closed (cl_tx s)" using open' by (simp add: all_before_disconnect_def)
  note g = tx_goodD [OF good ncl] and mss = main_store_stream [OF con]
  have v: "request_valid (sy_heap s) (se_kind e) (se_value e)" using e by (simp add: new_entry_def)
  have all: "entries_good (sy_heap s) (tx_pending s @ [e])"
    using entries_good_append [OF g(3) v] e by (simp add: new_entry_def)
  have ready: "current_ready (sy_heap s) (ti s) (tx_pending s @ [e])"
    using g(4) request_start [OF v, of "ti_buffer (ti s)" 0] by (cases "tx_pending s") simp_all
  have str: "tx_stream ?s = tx_stream s @ concat (entry_parts (sy_heap s) e)"
  proof (cases "tx_pending s")
    case Nil
    then show ?thesis using g(4) ncl mss st(2) by (simp add: tx_stream_def parts_rest_Suc)
  next
    case (Cons x xs)
    then have "\<forall>y \<in> set (x # xs). se_kind y \<noteq> KIND_DISCONNECT" using open' by (simp add: all_before_disconnect_def)
    then show ?thesis using ncl mss(1) st(2) Cons entries_bytes_append [of xs "sy_heap s" e] by (simp add: tx_stream_def)
  qed
  have "tx_good ?s"
    using g(1) ncl con mss(1) st all ready str entry_parts_not_Nil [OF v] by (simp add: tx_good_def connected_def get_store_def)
  then show ?thesis using mss st str by (simp add: queued_def)
qed

lemma unqueued_same:
  assumes good: "tx_good s" and con: "connected s"
    and st: "store_inv st" "store_pending st = tx_pending s" "store_marked st = tx_marked s"
  shows "unqueued s (s\<lparr>cl_main_store := st\<rparr>)"
proof -
  let ?s = "s\<lparr>cl_main_store := st\<rparr>"
  note mss = main_store_stream [OF con]
  have str: "tx_stream ?s = tx_stream s" using mss st(2) by (simp add: tx_stream_def)
  then have "tx_good ?s" using good con mss st by (simp add: tx_good_def connected_def get_store_def)
  then show ?thesis using mss st str by (simp add: unqueued_def)
qed

text \<open>The next identifier does not touch the queue.\<close>

lemma get_id_view [simp]:
  "store_inv (st\<lparr>st_next_packet_id := i\<rparr>) = store_inv st" "store_pending (st\<lparr>st_next_packet_id := i\<rparr>) = store_pending st"
  "store_marked (st\<lparr>st_next_packet_id := i\<rparr>) = store_marked st"
  by (simp_all add: store_inv_def store_pending_def store_marked_def store_live_def)

lemma append_request:
  assumes good: "tx_good s" and con: "connected s" and open': "all_before_disconnect s"
    and e: "new_entry (sy_heap s) (tx_pending s) \<lparr>se_kind = k, se_value = (case v of Some x \<Rightarrow> x | None \<Rightarrow> store_value_zero)\<rparr>"
    and st0: "store_inv st0" "store_pending st0 = tx_pending s" "store_marked st0 = tx_marked s"
      "st_count st0 = st_count (cl_main_store s)" "st_capacity st0 = st_capacity (cl_main_store s)"
  shows "\<exists>ok st. lmqtt_store_append st0 k v = Some (ok, st) \<and> (ok \<longleftrightarrow> lmqtt_store_is_queueable (cl_main_store s)) \<and>
    (if ok then queued \<lparr>se_kind = k, se_value = (case v of Some x \<Rightarrow> x | None \<Rightarrow> store_value_zero)\<rparr> s (s\<lparr>cl_main_store := st\<rparr>)
     else unqueued s (s\<lparr>cl_main_store := st\<rparr>))"
proof (cases "st_count st0 < st_capacity st0")
  case True
  then obtain st where "lmqtt_store_append st0 k v = Some (True, st)" "store_inv st" "store_marked st = store_marked st0"
      "store_pending st = store_pending st0 @ [\<lparr>se_kind = k, se_value = (case v of Some x \<Rightarrow> x | None \<Rightarrow> store_value_zero)\<rparr>]"
    using store_append_spec(2) [OF st0(1)] by blast
  then show ?thesis
    using queue_request [OF good con open' e] st0 True by (auto simp: lmqtt_store_is_queueable_def)
next
  case False
  then show ?thesis
    using unqueued_same [OF good con st0(1-3)] store_append_spec(1) [OF st0(1)] st0(4,5)
    by (intro exI [of _ False]) (simp add: lmqtt_store_is_queueable_def)
qed


section \<open>The operations of the user\<close>

datatype user_request = ASK_PUBLISH addr | ASK_SUBSCRIBE addr | ASK_UNSUBSCRIBE addr | ASK_DISCONNECT

fun ask :: "user_request \<Rightarrow> 'w sys \<Rightarrow> (bool \<times> 'w sys) option" where
  "ask (ASK_PUBLISH a) s = lmqtt_client_publish a s"
| "ask (ASK_SUBSCRIBE a) s = lmqtt_client_subscribe a s"
| "ask (ASK_UNSUBSCRIBE a) s = lmqtt_client_unsubscribe a s"
| "ask ASK_DISCONNECT s = lmqtt_client_disconnect s"

text \<open>The object can be sent; a message that is still queued is not published again.\<close>

fun askable :: "user_request \<Rightarrow> heap \<Rightarrow> store_entry list \<Rightarrow> bool" where
  "askable (ASK_PUBLISH a) hp es \<longleftrightarrow> (case get_publish hp (Some a) of Some (_, m) \<Rightarrow> publish_sendable m | None \<Rightarrow> False) \<and>
     (\<forall>e \<in> set es. entry_object e \<noteq> Some a)"
| "askable (ASK_SUBSCRIBE a) hp es \<longleftrightarrow>
     (case get_subscribe hp (Some a) of Some (_, x) \<Rightarrow> subscribe_sendable True x \<and> sb_count x \<noteq> 0 | None \<Rightarrow> False)"
| "askable (ASK_UNSUBSCRIBE a) hp es \<longleftrightarrow>
     (case get_subscribe hp (Some a) of Some (_, x) \<Rightarrow> subscribe_sendable False x \<and> sb_count x \<noteq> 0 | None \<Rightarrow> False)"
| "askable ASK_DISCONNECT hp es \<longleftrightarrow> True"

text \<open>Kind and object of the entry, and whether it gets an identifier.\<close>

fun asks_for :: "user_request \<Rightarrow> heap \<Rightarrow> kind \<times> addr option \<times> bool" where
  "asks_for (ASK_PUBLISH a) hp = (case get_publish hp (Some a) of
     Some (_, m) \<Rightarrow> (if pb_qos m = QOS_0 then (KIND_PUBLISH_0, Some a, False)
       else (if pb_qos m = QOS_1 then KIND_PUBLISH_1 else KIND_PUBLISH_2, Some a, True))
   | None \<Rightarrow> (KIND_NONE, None, False))"
| "asks_for (ASK_SUBSCRIBE a) hp = (KIND_SUBSCRIBE, Some a, True)"
| "asks_for (ASK_UNSUBSCRIBE a) hp = (KIND_UNSUBSCRIBE, Some a, True)"
| "asks_for ASK_DISCONNECT hp = (KIND_DISCONNECT, None, False)"

lemma good_objects:
  assumes "entries_good hp es" and "e \<in> set es" and "entry_object e = Some a"
  shows "\<exists>m. hp a = Some (OPublish m)"
  using assms
proof (induction es)
  case Nil
  then show ?case by simp
next
  case (Cons x es)
  show ?case
  proof (cases "e = x")
    case True
    then show ?thesis
      using Cons.prems by (auto simp: entry_object_def publish_kind_def split: if_splits option.splits)
  next
    case False
    then show ?thesis using Cons by auto
  qed
qed

definition asked :: "user_request \<Rightarrow> 'w sys \<Rightarrow> bool" where
  "asked r s \<longleftrightarrow> (\<exists>ok s' e. ask r s = Some (ok, s') \<and> (ok \<longleftrightarrow> lmqtt_store_is_queueable (cl_main_store s)) \<and>
     (if ok then queued e s s' else unqueued s s') \<and>
     (\<exists>has_id. asks_for r (sy_heap s) = (se_kind e, sv_value (se_value e), has_id) \<and>
       sv_packet_id (se_value e) = (if has_id then st_next_packet_id (cl_main_store s) else 0)))"

lemma askedI:
  assumes good: "tx_good s" "connected s" "all_before_disconnect s"
    and e: "e = \<lparr>se_kind = k, se_value = (case v of Some x \<Rightarrow> x | None \<Rightarrow> store_value_zero)\<rparr>" "new_entry (sy_heap s) (tx_pending s) e"
    and st0: "st0 = (if has_id then snd (lmqtt_store_get_id (cl_main_store s)) else cl_main_store s)"
    and call: "ask r s = map_option (\<lambda>(ok, st). (ok, s\<lparr>cl_main_store := st\<rparr>)) (lmqtt_store_append st0 k v)"
    and asks: "asks_for r (sy_heap s) = (se_kind e, sv_value (se_value e), has_id)"
      "sv_packet_id (se_value e) = (if has_id then st_next_packet_id (cl_main_store s) else 0)"
  shows "asked r s"
proof -
  have ncl: "\<not> tx_closed (cl_tx s)" using good(3) by (simp add: all_before_disconnect_def)
  have inv: "store_inv (cl_main_store s)" using tx_goodD(2) [OF good(1) ncl] good(2) by (simp add: connected_def get_store_def)
  have view: "store_inv st0" "store_pending st0 = tx_pending s" "store_marked st0 = tx_marked s"
      "st_count st0 = st_count (cl_main_store s)" "st_capacity st0 = st_capacity (cl_main_store s)"
    using inv main_store_stream(4,5) [OF good(2)] by (auto simp: st0 lmqtt_store_get_id_def)
  obtain ok st where app: "lmqtt_store_append st0 k v = Some (ok, st)" "ok \<longleftrightarrow> lmqtt_store_is_queueable (cl_main_store s)"
      "if ok then queued e s (s\<lparr>cl_main_store := st\<rparr>) else unqueued s (s\<lparr>cl_main_store := st\<rparr>)"
    using append_request [OF good e(2) [unfolded e(1)] view] unfolding e(1) by blast
  have "ask r s = Some (ok, s\<lparr>cl_main_store := st\<rparr>)" using call app(1) by simp
  then show ?thesis using app(2,3) asks unfolding asked_def by blast
qed

lemma asked_publish:
  assumes good: "tx_good s" "connected s" "all_before_disconnect s" and a: "askable (ASK_PUBLISH a) (sy_heap s) (tx_pending s)"
  shows "asked (ASK_PUBLISH a) s"
proof -
  obtain m where m: "sy_heap s a = Some (OPublish m)" "publish_sendable m" using a by (auto split: option.splits)
  have get: "get_publish (sy_heap s) (Some a) = Some (a, m)" using m(1) by (simp add: get_publish_def)
  have v: "lmqtt_publish_validate m" using m(2) by (simp add: publish_sendable_def)
  have apart: "\<forall>e \<in> set (tx_pending s). entry_object e \<noteq> Some a" using a by simp
  let ?v = "\<lambda>pid. \<lparr>sv_packet_id = pid, sv_value = Some a, sv_callback = Some ON_PUBLISH, sv_callback_data = DATA_CLIENT\<rparr>"
  have new: "new_entry (sy_heap s) (tx_pending s) \<lparr>se_kind = k, se_value = ?v pid\<rparr>" if "publish_kind k" for k pid
    using that get m apart by (auto simp: new_entry_def entry_quiet_def publish_kind_def simp del: get_iffs)
  have op: "cl_op_publish s = OP_DO" using good(2) by (simp add: connected_def)
  show ?thesis
  proof (cases "pb_qos m = QOS_0")
    case True
    show ?thesis
      by (rule askedI [OF good, of "\<lparr>se_kind = KIND_PUBLISH_0, se_value = ?v 0\<rparr>" KIND_PUBLISH_0 "Some (?v 0)" "cl_main_store s" False])
        (use True get v op new [of KIND_PUBLISH_0 0] in \<open>auto simp: lmqtt_client_publish_def call_op_def client_do_publish_def publish_kind_def
          map_option_case simp del: get_iffs split: option.split\<close>)
  next
    case False
    let ?k = "if pb_qos m = QOS_1 then KIND_PUBLISH_1 else KIND_PUBLISH_2" and ?pid = "st_next_packet_id (cl_main_store s)"
    show ?thesis
      by (rule askedI [OF good, of "\<lparr>se_kind = ?k, se_value = ?v ?pid\<rparr>" ?k "Some (?v ?pid)" "snd (lmqtt_store_get_id (cl_main_store s))" True])
        (use False get v op new [of ?k ?pid] in \<open>auto simp: lmqtt_client_publish_def call_op_def client_do_publish_def publish_kind_def
          lmqtt_store_get_id_def map_option_case simp del: get_iffs split: option.split\<close>)
  qed
qed


lemma asked_subscribe:
  assumes good: "tx_good s" "connected s" "all_before_disconnect s" and ob: "sy_heap s a = Some (OSubscribe x)"
    and x: "subscribe_sendable q x" "sb_count x \<noteq> 0"
    and r: "r = ASK_SUBSCRIBE a \<and> k = KIND_SUBSCRIBE \<and> q \<or> r = ASK_UNSUBSCRIBE a \<and> k = KIND_UNSUBSCRIBE \<and> \<not> q"
  shows "asked r s"
proof -
  have a: "get_subscribe (sy_heap s) (Some a) = Some (a, x)" using ob by simp
  have ncl: "\<not> tx_closed (cl_tx s)" using good(3) by (simp add: all_before_disconnect_def)
  have apart: "\<forall>e \<in> set (tx_pending s). entry_object e \<noteq> Some a"
    using good_objects [OF tx_goodD(3) [OF good(1) ncl]] ob by fastforce
  obtain subs where subs: "sb_subscriptions x = Some subs" "sb_count x = int (length subs)" "\<forall>y \<in> set subs. valid_subscription y"
    using x(1) by (auto simp: subscribe_sendable_def subscriptions_of_def split: option.splits)
  then have v: "lmqtt_subscribe_validate x = Some True" using subscribe_validate_spec [OF subs(1,2)] x(2) by auto
  let ?cb = "if q then ON_SUBACK else ON_UNSUBACK" and ?pid = "st_next_packet_id (cl_main_store s)"
  let ?v = "\<lparr>sv_packet_id = ?pid, sv_value = Some a, sv_callback = Some ?cb, sv_callback_data = DATA_CLIENT\<rparr>"
  have new: "new_entry (sy_heap s) (tx_pending s) \<lparr>se_kind = k, se_value = ?v\<rparr>"
    using r a x(1) apart by (auto simp: new_entry_def entry_quiet_def kind_expects_response_def simp del: get_iffs)
  have op: "cl_op_subscribe s = OP_DO" "cl_op_unsubscribe s = OP_DO" using good(2) by (simp_all add: connected_def)
  show ?thesis
    by (rule askedI [OF good, of "\<lparr>se_kind = k, se_value = ?v\<rparr>" k "Some ?v" "snd (lmqtt_store_get_id (cl_main_store s))" True])
      (use r a v op new in \<open>auto simp: lmqtt_client_subscribe_def lmqtt_client_unsubscribe_def call_op_def client_do_subscribe_def
        client_do_unsubscribe_def client_subscribe_with_kind_def lmqtt_store_get_id_def map_option_case simp del: get_iffs split: option.split\<close>)
qed

lemma asked_disconnect:
  assumes good: "tx_good s" "connected s" "all_before_disconnect s"
  shows "asked ASK_DISCONNECT s"
proof -
  have new: "new_entry (sy_heap s) (tx_pending s) \<lparr>se_kind = KIND_DISCONNECT, se_value = store_value_zero\<rparr>"
    by (auto simp: new_entry_def entry_quiet_def store_value_zero_def)
  have op: "cl_op_disconnect s = OP_DO" using good(2) by (simp add: connected_def)
  show ?thesis
    by (rule askedI [OF good, of "\<lparr>se_kind = KIND_DISCONNECT, se_value = store_value_zero\<rparr>" KIND_DISCONNECT None "cl_main_store s" False])
      (use op new in \<open>auto simp: lmqtt_client_disconnect_def call_op_def client_do_disconnect_def map_option_case store_value_zero_def
        split: option.split\<close>)
qed

section \<open>Properties\<close>

text \<open>
  C9. In the connected state a request of the user is accepted exactly when the store has room.
  An accepted request is queued last, with the kind, the object and the identifier it should have,
  and puts its packet at the end of the bytes to be sent; a refused one changes nothing there.
\<close>

theorem request_adds_its_packet:
  assumes "tx_good s" and "connected s" and "all_before_disconnect s" and "askable r (sy_heap s) (tx_pending s)"
  shows "\<exists>ok s' e has_id. ask r s = Some (ok, s') \<and> (ok \<longleftrightarrow> lmqtt_store_is_queueable (cl_main_store s)) \<and>
    tx_good s' \<and> tx_pending s' = tx_pending s @ (if ok then [e] else []) \<and>
    tx_stream s' = tx_stream s @ (if ok then concat (request_parts (sy_heap s) (se_kind e) (se_value e)) else []) \<and>
    asks_for r (sy_heap s) = (se_kind e, sv_value (se_value e), has_id) \<and>
    sv_packet_id (se_value e) = (if has_id then st_next_packet_id (cl_main_store s) else 0)"
proof -
  have "asked r s"
  proof (cases r)
    case (ASK_PUBLISH a)
    then show ?thesis using asked_publish assms by simp
  next
    case (ASK_SUBSCRIBE a)
    then show ?thesis using asked_subscribe [OF assms(1-3)] assms(4) by (auto split: option.splits)
  next
    case (ASK_UNSUBSCRIBE a)
    then show ?thesis using asked_subscribe [OF assms(1-3)] assms(4) by (auto split: option.splits)
  next
    case ASK_DISCONNECT
    then show ?thesis using asked_disconnect [OF assms(1-3)] by simp
  qed
  then obtain ok s' e has_id where x: "ask r s = Some (ok, s')" "ok \<longleftrightarrow> lmqtt_store_is_queueable (cl_main_store s)"
      "if ok then queued e s s' else unqueued s s'" "asks_for r (sy_heap s) = (se_kind e, sv_value (se_value e), has_id)"
      "sv_packet_id (se_value e) = (if has_id then st_next_packet_id (cl_main_store s) else 0)"
    unfolding asked_def by blast
  then show ?thesis
    by - (rule exI [of _ ok], rule exI [of _ s'], rule exI [of _ e], rule exI [of _ has_id],
      cases ok, auto simp: queued_def unqueued_def)
qed

definition example_subscriber :: "byte list sys" where
  "example_subscriber = (example_sender 2)\<lparr>cl_op_subscribe := OP_DO, cl_op_unsubscribe := OP_DO, cl_op_publish := OP_DO,
     cl_op_pingreq := OP_DO, cl_op_disconnect := OP_DO, sy_heap := [7 \<mapsto> OPublish example_message, 8 \<mapsto> OSubscribe
       \<lparr>sb_count = 1, sb_subscriptions = Some [\<lparr>sn_requested_qos = 1, sn_topic = example_topic, sn_return_code = 0\<rparr>], sb_current = None\<rparr>]\<rparr>"

theorem request_adds_its_packet_witness:
  "\<exists>s'. ask (ASK_SUBSCRIBE 8) example_subscriber = Some (True, s') \<and>
    tx_stream s' = [0x3A, 7, 0, 3, 0x61, 0x2F, 0x62, 0, 5, 0x40, 2, 0, 9, 0x82, 8, 0, 0, 0, 3, 0x61, 0x2F, 0x62, 1]"
proof -
  let ?s = example_subscriber and ?v = "\<lparr>sv_packet_id = 0, sv_value = Some 8, sv_callback = None, sv_callback_data = DATA_NULL\<rparr>"
  have h: "tx_good ?s" "connected ?s" "all_before_disconnect ?s" "askable (ASK_SUBSCRIBE 8) (sy_heap ?s) (tx_pending ?s)"
    by code_simp+
  have f: "tx_stream ?s = [0x3A, 7, 0, 3, 0x61, 0x2F, 0x62, 0, 5, 0x40, 2, 0, 9]" "lmqtt_store_is_queueable (cl_main_store ?s)"
      "st_next_packet_id (cl_main_store ?s) = 0"
      "concat (request_parts (sy_heap ?s) KIND_SUBSCRIBE ?v) = [0x82, 8, 0, 0, 0, 3, 0x61, 0x2F, 0x62, 1]"
    by code_simp+
  obtain ok s' and e :: store_entry and has_id where s': "ask (ASK_SUBSCRIBE 8) ?s = Some (ok, s')" "ok \<longleftrightarrow> lmqtt_store_is_queueable (cl_main_store ?s)"
      "tx_stream s' = tx_stream ?s @ (if ok then concat (request_parts (sy_heap ?s) (se_kind e) (se_value e)) else [])"
      "asks_for (ASK_SUBSCRIBE 8) (sy_heap ?s) = (se_kind e, sv_value (se_value e), has_id)"
      "sv_packet_id (se_value e) = (if has_id then st_next_packet_id (cl_main_store ?s) else 0)"
    using request_adds_its_packet [OF h] by blast
  then have e: "se_kind e = KIND_SUBSCRIBE" "sv_value (se_value e) = Some 8" "sv_packet_id (se_value e) = 0" using f(3) by simp_all
  have "request_parts (sy_heap ?s) KIND_SUBSCRIBE (se_value e) = request_parts (sy_heap ?s) KIND_SUBSCRIBE ?v"
    by (simp add: e(2,3) del: get_iffs cong: option.case_cong)
  then show ?thesis using s'(1-3) f(1,2,4) e(1) by auto
qed

end
