(* ===== verification/Ranges.thy ===== *)
theory Ranges
  imports Transfer_Invariant Rx_Properties
begin

text \<open>
  Bounds that hold in every state and with every callback: the transmit buffer never puts out more
  bytes than there is room for, and the receive buffer goes on only with headers whose fields are
  in the ranges that the tables and the arithmetic behind them rely on.
\<close>

section \<open>Room for output\<close>

lemma packet_loop_room:
  "tx_buffer_finder_by_kind k = Some finder \<Longrightarrow> tx_buffer_packet_loop n env k finder v room out s = Some r \<Longrightarrow> length out \<le> room \<Longrightarrow>
    (case r of Inl (res, out', s') \<Rightarrow> length out' \<le> room | Inr (out', s') \<Rightarrow> length out' \<le> room)"
proof (induction n arbitrary: out s)
  case 0
  then show ?case by simp
next
  case (Suc n)
  obtain e hp where e: "finder (ti_pos (ti s)) v (sy_heap s) = Some (e, hp)"
    using Suc.prems(2) by (auto simp: bind_eq_Some_conv)
  show ?case
  proof (cases e)
    case None
    then show ?thesis using Suc.prems e by (auto simp: bind_eq_Some_conv split: if_splits)
  next
    case (Some encode)
    obtain res bytes eb hp' w' where r: "encode (en_io env) v (ti_buffer (ti s)) (ti_offset (ti s)) (room - length out) hp
        (sy_world s) = Some (res, bytes, eb, hp', w')"
      using Suc.prems(2) e Some by (auto simp: bind_eq_Some_conv Let_def)
    have "within_room encode" using finder_room [OF Suc.prems(1)] e Some by simp
    then have "length out + length bytes \<le> room"
      using r Suc.prems(3) unfolding within_room_def by fastforce
    then show ?thesis using Suc.prems e Some r by (cases res) (auto simp: Let_def dest!: Suc.IH)
  qed
qed

lemma encode_loop_room:
  "tx_buffer_encode_loop n env room out s = Some (res, out', s') \<Longrightarrow> length out \<le> room \<Longrightarrow> length out' \<le> room"
proof (induction n arbitrary: out s)
  case 0
  then show ?case by simp
next
  case (Suc n)
  obtain ok k v where p: "(if tx_closed (cl_tx s) then Some (False, KIND_NONE, store_value_zero)
         else lmqtt_store_peek (get_store (tx_store (cl_tx s)) s)) = Some (ok, k, v)"
    using Suc.prems(1) by (auto simp: bind_eq_Some_conv)
  show ?case
  proof (cases ok)
    case False
    then show ?thesis using Suc.prems p by auto
  next
    case True
    then obtain finder r where r: "tx_buffer_finder_by_kind k = Some finder"
        "tx_buffer_packet_loop n env k finder v room out s = Some r"
        "(case r of Inl res \<Rightarrow> Some res | Inr (out', s') \<Rightarrow> tx_buffer_encode_loop n env room out' s') = Some (res, out', s')"
      using Suc.prems(1) p by (auto simp: bind_eq_Some_conv)
    show ?thesis
      using packet_loop_room [OF r(1,2) Suc.prems(2)] r(3) Suc.IH by (cases r) auto
  qed
qed

section \<open>Headers\<close>

definition header_typed :: "fixed_header \<Rightarrow> bool" where
  "header_typed h \<longleftrightarrow> 1 \<le> fh_type h \<and> fh_type h \<le> 14 \<and> 0 \<le> fh_qos h \<and> fh_qos h \<le> 2 \<and>
     (fh_dup h = 0 \<or> fh_dup h = 1) \<and> (fh_retain h = 0 \<or> fh_retain h = 1) \<and>
     (fh_type h \<noteq> TYPE_PUBLISH \<longrightarrow> fh_dup h = 0 \<and> fh_qos h = 0 \<and> fh_retain h = 0)"

lemma later_byte_keeps:
  assumes "fixed_header_decode h b = (h', r, e)" and "0 < fh_bytes_read h"
  shows "same_first_byte h h' \<and> 0 < fh_bytes_read h'"
  using assms by (auto simp: fixed_header_decode_def fixed_header_length_byte_def same_first_byte_def Let_def split: if_splits)

lemma header_run_keeps: "header_run h bs = (h', r, rest) \<Longrightarrow> 0 < fh_bytes_read h \<Longrightarrow> same_first_byte h h'"
proof (induction h bs rule: header_run.induct)
  case (1 h)
  then show ?case by (simp add: same_first_byte_def)
next
  case (2 h b bs)
  obtain h1 r1 e1 where d: "fixed_header_decode h b = (h1, r1, e1)" by (cases "fixed_header_decode h b") auto
  note k = later_byte_keeps [OF d "2.prems"(2)]
  show ?case
  proof (cases "r1 = DECODE_CONTINUE")
    case True
    then have "same_first_byte h1 h'" using 2 d k by auto
    then show ?thesis using k by (simp add: same_first_byte_def)
  next
    case False
    then show ?thesis using 2 d k by auto
  qed
qed

lemma flag_ranges:
  fixes x :: int
  assumes "0 \<le> x" and "x < 16"
  shows "x div 8 = 0 \<or> x div 8 = 1" "0 \<le> x div 2 mod 4" "x div 2 mod 4 \<noteq> 3 \<Longrightarrow> x div 2 mod 4 \<le> 2" "x mod 2 = 0 \<or> x mod 2 = 1"
  using assms by presburger+

lemma header_typedI:
  assumes "1 \<le> fh_type h" "fh_type h \<le> 14"
    and "fh_type h = 3 \<Longrightarrow> (fh_dup h = 0 \<or> fh_dup h = 1) \<and> 0 \<le> fh_qos h \<and> fh_qos h \<le> 2 \<and> (fh_retain h = 0 \<or> fh_retain h = 1)"
    and "fh_type h \<noteq> 3 \<Longrightarrow> fh_dup h = 0 \<and> fh_qos h = 0 \<and> fh_retain h = 0"
  shows "header_typed h"
  using assms unfolding header_typed_def TYPE_PUBLISH_def by (cases "fh_type h = 3") auto

lemma first_byte_typed:
  assumes "fixed_header_decode fixed_header_zero b = (h, DECODE_CONTINUE, e)"
  shows "header_typed h \<and> header_at 0 0 h \<and> 0 < fh_bytes_read h"
proof -
  define ty fl where ty: "ty = uint b div 16" and fl: "fl = uint b mod 16"
  have al: "allowed_first_byte ty fl"
    unfolding ty fl using first_byte_decode [of b] assms by (auto split: if_splits)
  have h: "header_at 0 0 h" "fh_type h = ty"
      "ty = 3 \<longrightarrow> fh_dup h = fl div 8 \<and> fh_qos h = fl div 2 mod 4 \<and> fh_retain h = fl mod 2"
      "ty \<noteq> 3 \<longrightarrow> fh_dup h = 0 \<and> fh_qos h = 0 \<and> fh_retain h = 0"
    unfolding ty fl using first_byte_decode [of b] assms al [unfolded ty fl] by auto
  have r: "0 \<le> fl" "fl < 16" by (simp_all add: fl)
  have t: "1 \<le> ty" "ty \<le> 14" "ty = 3 \<longrightarrow> fl div 2 mod 4 \<noteq> 3"
    using al by (auto simp: allowed_first_byte_def)
  have "header_typed h"
    by (rule header_typedI) (use h t flag_ranges [OF r] in \<open>simp_all\<close>)
  moreover have "0 < fh_bytes_read h"
    using assms by (auto simp: fixed_header_decode_def split: if_splits prod.splits)
  ultimately show ?thesis using h(1) by simp
qed

section \<open>Properties\<close>


text \<open>
  C22. A header that is accepted is well-typed: type 1 to 14, quality of service 0 to 2, one bit each
  for the other flags, all of them zero unless it is a PUBLISH, and a remaining length of at most
  four times seven bits; so the lookup of its decoder stays inside the table.
\<close>

theorem accepted_header_typed:
  assumes "header_run fixed_header_zero bs = (h, DECODE_FINISHED, rest)"
  shows "header_typed h \<and> 0 \<le> fh_remaining_length h \<and> fh_remaining_length h \<le> 268435455 \<and>
    arr_get rx_buffer_decoders (nat (fh_type h)) \<noteq> None"
proof -
  obtain b bs' where bs: "bs = b # bs'" using assms by (cases bs) auto
  obtain h1 r1 e1 where d: "fixed_header_decode fixed_header_zero b = (h1, r1, e1)"
    by (cases "fixed_header_decode fixed_header_zero b") auto
  have c: "r1 = DECODE_CONTINUE"
    using assms d first_byte_decode [of b] by (auto simp: bs split: if_splits)
  note t = first_byte_typed [OF d [unfolded c]]
  have run: "header_run h1 bs' = (h, DECODE_FINISHED, rest)" using assms d c by (simp add: bs)
  have same: "same_first_byte h1 h" using header_run_keeps [OF run] t by simp
  obtain n where n: "n < 128 ^ (4 - 0)" "fh_remaining_length h = 0 + int n * 128 ^ 0"
    using header_run_decoded [OF _ _ run, of 0 0] t by auto
  have "header_typed h" using t same by (simp add: header_typed_def same_first_byte_def)
  moreover have "length rx_buffer_decoders = 15" by (simp add: rx_buffer_decoders_def)
  moreover have "nat (fh_type h) < 15" using calculation(1) by (simp add: header_typed_def nat_less_iff)
  ultimately show ?thesis using n by (simp add: arr_get_def del: arr_iffs)
qed

theorem accepted_header_typed_witness:
  "\<exists>h. header_run fixed_header_zero [0x34, 0x80, 1, 0] = (h, DECODE_FINISHED, [0]) \<and> fh_remaining_length h = 128 \<and> header_typed h"
proof -
  have "snd (header_run fixed_header_zero [0x34, 0x80, 1, 0]) = (DECODE_FINISHED, [0])"
      "fh_remaining_length (fst (header_run fixed_header_zero [0x34, 0x80, 1, 0])) = 128"
    by code_simp+
  moreover obtain h r rest where "header_run fixed_header_zero [0x34, 0x80, 1, 0] = (h, r, rest)"
    by (cases "header_run fixed_header_zero [0x34, 0x80, 1, 0]") auto
  ultimately show ?thesis using accepted_header_typed [of "[0x34, 0x80, 1, 0]" h rest] by auto
qed

end
