(* ===== verification/Helpers.thy ===== *)
theory Helpers
  imports Client
begin

text \<open>
  \<open>examples/helpers.c\<close>, which both example programs use: the clock, and files and sockets as the
  connection and the string callbacks of the library; and what the programs take from the C
  library and from \<open>client.h\<close> beside the functions.

  The operating system is a parameter, the record \<open>'o os\<close> of the calls the examples make, on
  a state \<open>'o\<close> of its own. A call returns its result, or the value of \<open>errno\<close>, and the new
  state. Strings are lists of bytes without their final zero where they are arguments, and with
  it where they lie in an array. What the examples print is left out, and so are signals.
\<close>

section \<open>The operating system\<close>

record sockaddr_in =
  sin_port :: "byte list"
  sin_addr :: "byte list"

datatype whence = SEEK_SET | SEEK_END

text \<open>
  \<open>os_fcntl_nonblock\<close> is \<open>fcntl(fd, F_SETFL, O_NONBLOCK)\<close>, \<open>os_open_nonblock\<close> is \<open>open\<close>
  with \<open>O_RDONLY | O_NONBLOCK\<close>, and \<open>os_mkostemp\<close> is called with \<open>O_NONBLOCK\<close>. A result
  \<open>-1\<close> of \<open>os_socket\<close>, \<open>os_open_nonblock\<close>, \<open>os_lseek\<close> and \<open>os_mkostemp\<close> is a failure.
  \<open>os_inet_pton\<close> gives the address in network order, or nothing for one it cannot read;
  \<open>os_select\<close> gets the number of descriptors to look at, the two sets and the time to wait,
  and says whether it succeeded.
\<close>

record 'o os =
  os_clock_gettime :: "'o \<Rightarrow> time option \<times> 'o"
  os_read :: "int \<Rightarrow> nat \<Rightarrow> 'o \<Rightarrow> (int + byte list) \<times> 'o"
  os_write :: "int \<Rightarrow> byte list \<Rightarrow> 'o \<Rightarrow> (int + nat) \<times> 'o"
  os_close :: "int \<Rightarrow> 'o \<Rightarrow> 'o"
  os_socket :: "'o \<Rightarrow> int \<times> 'o"
  os_fcntl_nonblock :: "int \<Rightarrow> 'o \<Rightarrow> 'o"
  os_inet_pton :: "byte list \<Rightarrow> byte list option"
  os_connect :: "int \<Rightarrow> sockaddr_in \<Rightarrow> 'o \<Rightarrow> int option \<times> 'o"
  os_select :: "int \<Rightarrow> int list \<Rightarrow> int list \<Rightarrow> (int \<times> int) option \<Rightarrow> 'o \<Rightarrow> bool \<times> 'o"
  os_sleep :: "nat \<Rightarrow> 'o \<Rightarrow> 'o"
  os_open_nonblock :: "byte list \<Rightarrow> 'o \<Rightarrow> int \<times> 'o"
  os_lseek :: "int \<Rightarrow> int \<Rightarrow> whence \<Rightarrow> 'o \<Rightarrow> int \<times> 'o"
  os_mkostemp :: "byte list \<Rightarrow> 'o \<Rightarrow> int \<times> 'o"

text \<open>The values of \<open>errno\<close> on Linux.\<close>

definition EAGAIN :: int where "EAGAIN = 11"
definition EWOULDBLOCK :: int where "EWOULDBLOCK = 11"
definition EPIPE :: int where "EPIPE = 32"
definition EINPROGRESS :: int where "EINPROGRESS = 115"

section \<open>The functions of helpers.c\<close>

text \<open>The out-parameters keep their values \<open>tm\<close> when the clock fails.\<close>

definition get_time :: "'o os \<Rightarrow> time \<Rightarrow> 'o \<Rightarrow> io_result \<times> time \<times> 'o" where
  "get_time os tm o1 =
     (case os_clock_gettime os o1 of
        (Some tim, o2) \<Rightarrow> (IO_SUCCESS, tim, o2)
      | (None, o2) \<Rightarrow> (IO_ERROR, tm, o2))"

text \<open>
  The results of \<open>file_read\<close> are the result code, the bytes and \<open>*os_error\<close>, which is set
  only with \<open>IO_ERROR\<close>; \<open>file_write\<close> returns the number of bytes instead.
\<close>

definition file_read :: "'o os \<Rightarrow> int \<Rightarrow> nat \<Rightarrow> 'o \<Rightarrow> io_result \<times> byte list \<times> int \<times> 'o" where
  "file_read os fd buf_len o1 =
     (case os_read os fd buf_len o1 of
        (Inr bytes, o2) \<Rightarrow> (IO_SUCCESS, bytes, 0, o2)
      | (Inl errno, o2) \<Rightarrow>
          if errno = EAGAIN \<or> errno = EWOULDBLOCK then (IO_WOULD_BLOCK, [], 0, o2)
          else (IO_ERROR, [], errno, o2))"

definition file_write :: "'o os \<Rightarrow> int \<Rightarrow> byte list \<Rightarrow> 'o \<Rightarrow> io_result \<times> nat \<times> int \<times> 'o" where
  "file_write os fd bytes o1 =
     (case os_write os fd bytes o1 of
        (Inr cnt, o2) \<Rightarrow> (IO_SUCCESS, cnt, 0, o2)
      | (Inl errno, o2) \<Rightarrow>
          if errno = EAGAIN \<or> errno = EWOULDBLOCK \<or> errno = EPIPE then (IO_WOULD_BLOCK, 0, 0, o2)
          else (IO_ERROR, 0, errno, o2))"

text \<open>\<open>htons\<close>: the two bytes of a port as they lie in memory, the high one first.\<close>

definition htons :: "ushort \<Rightarrow> byte list" where
  "htons port = [ucast (drop_bit 8 port), ucast port]"

definition socket_open :: "'o os \<Rightarrow> byte list \<Rightarrow> ushort \<Rightarrow> 'o \<Rightarrow> int \<times> 'o" where
  "socket_open os address port o1 =
     (let (result, o2) = os_socket os o1;
          o3 = os_fcntl_nonblock os result o2
      in case os_inet_pton os address of
           None \<Rightarrow> (-1, os_close os result o3)
         | Some a \<Rightarrow>
             (case os_connect os result \<lparr>sin_port = htons port, sin_addr = a\<rparr> o3 of
                (None, o4) \<Rightarrow> (result, o4)
              | (Some errno, o4) \<Rightarrow>
                  if errno \<noteq> EINPROGRESS then (-1, os_close os result o4) else (result, o4)))"

definition socket_close :: "'o os \<Rightarrow> int \<Rightarrow> 'o \<Rightarrow> 'o" where
  "socket_close os fd o1 = os_close os fd o1"

section \<open>The flags of a result\<close>

text \<open>The macros of \<open>client.h\<close> that the library itself does not use.\<close>

definition RES_EOF_RD :: int where "RES_EOF_RD = RES_EOF OR RES_WOULD_BLOCK_CONN_RD"
definition RES_EOF_WR :: int where "RES_EOF_WR = RES_EOF OR RES_WOULD_BLOCK_CONN_WR"

definition res_would_block_conn_rd :: "int \<Rightarrow> bool" where
  "res_would_block_conn_rd res \<longleftrightarrow> res AND RES_EOF_RD = RES_WOULD_BLOCK_CONN_RD"

definition res_would_block_data_rd :: "int \<Rightarrow> bool" where
  "res_would_block_data_rd res \<longleftrightarrow> res AND RES_WOULD_BLOCK_DATA_RD \<noteq> 0"

definition res_would_block_data_wr :: "int \<Rightarrow> bool" where
  "res_would_block_data_wr res \<longleftrightarrow> res AND RES_WOULD_BLOCK_DATA_WR \<noteq> 0"

definition res_is_eof_rd :: "int \<Rightarrow> bool" where
  "res_is_eof_rd res \<longleftrightarrow> res AND RES_EOF_RD = RES_EOF_RD"

definition res_is_eof_wr :: "int \<Rightarrow> bool" where
  "res_is_eof_wr res \<longleftrightarrow> res AND RES_EOF_WR = RES_EOF_WR"

definition res_is_queueable :: "int \<Rightarrow> bool" where
  "res_is_queueable res \<longleftrightarrow> res AND RES_QUEUEABLE \<noteq> 0"

definition res_error_num :: "int \<Rightarrow> int" where
  "res_error_num res = res AND RES_ERROR"

lemmas res_macro_defs = RES_EOF_RD_def RES_EOF_WR_def res_would_block_conn_rd_def
  res_would_block_data_rd_def res_would_block_data_wr_def res_is_eof_rd_def res_is_eof_wr_def
  res_is_queueable_def res_error_num_def res_is_error_def res_is_eof_def res_would_block_conn_wr_def

section \<open>Strings in arrays\<close>

text \<open>
  \<open>strcpy\<close> into an array, without a result when the array is too small; \<open>strlen\<close>; \<open>atoi\<close>,
  without a result when the number does not fit an \<open>int\<close>; and the conversion of an \<open>int\<close>
  to \<open>unsigned short\<close> is \<open>word_of_int\<close>.
\<close>

definition c_strcpy :: "byte list \<Rightarrow> byte list \<Rightarrow> byte list option" where
  "c_strcpy dest src = arr_write dest 0 (src @ [0])"

definition c_strlen :: "byte list \<Rightarrow> nat" where
  "c_strlen s = length (takeWhile (\<lambda>b. b \<noteq> 0) s)"

definition c_digits :: "byte list \<Rightarrow> int" where
  "c_digits s = foldl (\<lambda>v b. v * 10 + (uint b - 48)) 0 (takeWhile (\<lambda>b. 48 \<le> b \<and> b \<le> 57) s)"

definition c_atoi :: "byte list \<Rightarrow> int option" where
  "c_atoi s =
     (let t = dropWhile (\<lambda>b. b = 32 \<or> 9 \<le> b \<and> b \<le> 13) s;
          v = (case t of
                 [] \<Rightarrow> 0
               | b # bs \<Rightarrow> if b = 45 then - c_digits bs else if b = 43 then c_digits bs else c_digits t)
      in if - (2 ^ 31) \<le> v \<and> v < 2 ^ 31 then Some v else None)"

text \<open>The name of an option of the command line, as the programs write it.\<close>

definition option_name :: "string \<Rightarrow> byte list" where
  "option_name s = map of_char s"

section \<open>What both programs hand to the library\<close>

text \<open>
  The object of the CONNECT, which lies on the stack of \<open>run\<close>, and the function \<open>on_connect\<close>; both
  programs have one of each.
\<close>

definition CONNECT_DATA :: addr where "CONNECT_DATA = 1"
definition FN_ON_CONNECT :: fnptr where "FN_ON_CONNECT = 1"

text \<open>A string object for the text in an array.\<close>

definition array_string :: "byte list \<Rightarrow> lstring" where
  "array_string a = lstring_zero\<lparr>str_len := int (c_strlen a), str_buf := Some a\<rparr>"

end
