(* ===== verification/Result_Flags.thy ===== *)
theory Result_Flags
  imports Helpers Example_Client
begin

text \<open>
  What the result of \<open>lmqtt_client_run_once\<close> tells its caller: an error, the end of the stream in
  one of the two directions, or the flags of what the client waits for. The example programs test
  the result with the macros of \<open>client.h\<close>, which tell these cases apart.
\<close>

section \<open>The values of a result\<close>

lemmas res_values = res_defs res_macro_defs

lemma masks [simp]:
  "(0xff :: int) AND 0x1000 = 0" "int (error_code e) AND 255 = int (error_code e)"
  by (cases e; simp add: error_code_def lmqtt_errors_def)+

text \<open>
  The three kinds of results: what the client waits for, with the blocking strings and the room in
  the store it is about; the end of the stream; an error.
\<close>

definition open_result :: "int \<Rightarrow> str_ref option \<Rightarrow> str_ref option \<Rightarrow> bool \<Rightarrow> bool" where
  "open_result res str_rd str_wr queueable \<longleftrightarrow> \<not> res_is_error res \<and> \<not> res_is_eof res \<and>
     \<not> res_is_eof_rd res \<and> \<not> res_is_eof_wr res \<and>
     (res_would_block_data_rd res \<longleftrightarrow> str_rd \<noteq> None) \<and> (res_would_block_data_wr res \<longleftrightarrow> str_wr \<noteq> None) \<and>
     (res_is_queueable res \<longleftrightarrow> queueable) \<and>
     \<not> (res_would_block_conn_rd res \<and> res_would_block_data_wr res) \<and>
     \<not> (res_would_block_conn_wr res \<and> res_would_block_data_rd res)"

definition end_result :: "int \<Rightarrow> bool" where
  "end_result res \<longleftrightarrow> \<not> res_is_error res \<and> res_is_eof res \<and> res_is_eof_rd res \<noteq> res_is_eof_wr res \<and>
     \<not> res_would_block_conn_rd res \<and> \<not> res_would_block_conn_wr res \<and> \<not> res_is_queueable res"

definition error_result :: "int \<Rightarrow> lmqtt_error \<Rightarrow> bool" where
  "error_result res e \<longleftrightarrow> e \<noteq> NO_ERROR \<and> res_is_error res \<and> res_error_num res = int (error_code e) \<and>
     \<not> res_is_eof res \<and> \<not> res_is_eof_rd res \<and> \<not> res_is_eof_wr res \<and> \<not> res_would_block_conn_rd res \<and>
     \<not> res_would_block_conn_wr res \<and> \<not> res_would_block_data_rd res \<and> \<not> res_would_block_data_wr res \<and>
     \<not> res_is_queueable res"

lemma error_values: "e \<noteq> NO_ERROR \<Longrightarrow> error_result (int (error_code e) AND RES_ERROR) e"
  by (cases e) (simp_all add: error_result_def res_values error_code_def lmqtt_errors_def)

lemma eof_values: "end_result (RES_EOF OR RES_WOULD_BLOCK_CONN_RD)" "end_result (RES_EOF OR RES_WOULD_BLOCK_CONN_WR)"
  by (simp_all add: end_result_def res_values)

section \<open>The two halves of a round\<close>

text \<open>The output sets one of the two flags for writing, the input one of those for reading.\<close>

definition half_result :: "int \<Rightarrow> int \<Rightarrow> int \<Rightarrow> int \<Rightarrow> str_ref option \<Rightarrow> bool" where
  "half_result conn_val data_val before res blk \<longleftrightarrow>
     res = before OR conn_val \<and> blk = None \<or> res = before OR data_val \<and> blk \<noteq> None \<or> res = before \<and> blk = None"

lemma process_buffer_result:
  assumes "client_process_buffer process conn_val data_val blocking before None s = Some (go, res, blk, s')"
  shows "if go then half_result conn_val data_val before res blk
    else res = RES_EOF OR conn_val \<or> error_result res (cl_error s')"
proof -
  obtain st s1 where st: "process s = Some (st, s1)"
    using assms by (auto simp: client_process_buffer_def bind_eq_Some_conv)
  then show ?thesis
    using assms by (cases st) (auto simp: client_process_buffer_def half_result_def bind_eq_Some_conv error_values
      split: if_splits)
qed

lemma open_values:
  assumes "half_result RES_WOULD_BLOCK_CONN_WR RES_WOULD_BLOCK_DATA_RD 0 r1 rd"
    and "half_result RES_WOULD_BLOCK_CONN_RD RES_WOULD_BLOCK_DATA_WR r1 r2 wr"
  shows "open_result (if q then r2 OR RES_QUEUEABLE else r2) rd wr q"
  using assms unfolding half_result_def
  by (elim disjE conjE) (simp_all add: open_result_def res_values)

lemma run_once_loop_result:
  "run_once_loop n env s = Some (res, rd, wr, s') \<Longrightarrow>
     error_result res (cl_error s') \<or> end_result res \<or>
     open_result res rd wr (lmqtt_store_is_queueable (cl_main_store s'))"
proof (induction n arbitrary: s)
  case 0
  then show ?case by simp
next
  case (Suc n)
  obtain go r1 rd1 s1 where o: "client_process_buffer (client_process_output n env)
         RES_WOULD_BLOCK_CONN_WR RES_WOULD_BLOCK_DATA_RD lmqtt_tx_buffer_get_blocking_str 0 None s = Some (go, r1, rd1, s1)"
    using Suc.prems by (auto simp: bind_eq_Some_conv)
  note half1 = process_buffer_result [OF o]
  show ?case
  proof (cases go)
    case False
    then show ?thesis using Suc.prems o half1 eof_values by auto
  next
    case True
    then obtain go' r2 wr1 s2 where i: "client_process_buffer (client_process_input n env)
           RES_WOULD_BLOCK_CONN_RD RES_WOULD_BLOCK_DATA_WR lmqtt_rx_buffer_get_blocking_str r1 None s1 = Some (go', r2, wr1, s2)"
      using Suc.prems o by (auto simp: bind_eq_Some_conv)
    note half2 = process_buffer_result [OF i]
    show ?thesis
    proof (cases go')
      case no: False
      then show ?thesis using Suc.prems o i True half2 eof_values by (auto simp: bind_eq_Some_conv)
    next
      case yes: True
      then show ?thesis
        using Suc.prems o i True half1 half2 Suc.IH [of s2]
          open_values [of r1 rd1 r2 wr1 "lmqtt_store_is_queueable (cl_main_store s2)"]
        by (auto simp: bind_eq_Some_conv split: if_split_asm)
    qed
  qed
qed

text \<open>
  C19. Every result of \<open>lmqtt_client_run_once\<close> is exactly one of three: an error, with the code of
  the error the client keeps and no other flag; the end of the stream, in exactly one direction; or
  what the client waits for, where a blocking string is returned exactly if its flag is set, the
  flag for room in the store is true, and each direction waits for one thing at most.
\<close>

theorem run_once_result_typed:
  assumes "lmqtt_client_run_once n env s = Some (res, str_rd, str_wr, s')"
  shows "error_result res (cl_error s') \<or> end_result res \<or>
     open_result res str_rd str_wr (lmqtt_store_is_queueable (cl_main_store s'))"
  using assms run_once_loop_result [of n env _ res str_rd str_wr s']
  by (auto simp: lmqtt_client_run_once_def bind_eq_Some_conv error_values split: if_splits)

theorem run_once_result_typed_witness:
  "\<exists>res s'. lmqtt_client_run_once 9 example_env ((example_sys (fresh_store 4) Map.empty)\<lparr>cl_error := ERROR_TIMEOUT\<rparr>) =
      Some (res, None, None, s') \<and> error_result res ERROR_TIMEOUT"
proof -
  let ?s = "(example_sys (fresh_store 4) Map.empty)\<lparr>cl_error := ERROR_TIMEOUT\<rparr>"
  have r: "lmqtt_client_run_once 9 example_env ?s = Some (24, None, None, ?s)"
    by (simp add: lmqtt_client_run_once_def client_keep_alive_def error_code_def lmqtt_errors_def RES_ERROR_def)
  show ?thesis
    using run_once_result_typed [OF r] r by (auto simp: end_result_def open_result_def res_values)
qed

end
