(* ===== verification/Reconnect.thy ===== *)
theory Reconnect
  imports Helpers "HOL-Library.Signed_Division"
begin

text \<open>
  \<open>examples/reconnect.c\<close>: a program that keeps a client connected, opening a new connection
  whenever the old one fails or is closed by the server.

  The world of its client is the global \<open>socket_fd\<close> and the operating system. The endless loop
  of \<open>run\<close> is cut after a number of rounds; a round says whether the program calls \<open>exit\<close>, and
  with what status. \<open>connect_data\<close>, on the stack of \<open>run\<close>, lives in the heap at an address.
\<close>

record 'o rc_world =
  rc_socket_fd :: int
  rc_os :: 'o

section \<open>The callbacks of the client\<close>

text \<open>Both branches of \<open>on_connect\<close> return 1.\<close>

definition rc_on_connect :: "addr option \<Rightarrow> bool \<Rightarrow> 'w sys \<Rightarrow> (bool \<times> 'w sys) option" where
  "rc_on_connect connect succeeded s = (if \<not> succeeded then Some (True, s) else Some (True, s))"

text \<open>
  The environment of the client. The library ignores the result of the clock; a reading that
  fails (which \<open>CLOCK_MONOTONIC\<close> does not) is zero here. The callbacks that are not set are
  null pointers in the code and have no result.
\<close>

definition rc_env :: "'o os \<Rightarrow> 'o rc_world env" where
  "rc_env os = \<lparr>
     en_io = \<lparr>cb_read = \<lambda>f d k w. (IO_ERROR, [], 0, w), cb_write = \<lambda>f d bs w. (IO_ERROR, 0, 0, w)\<rparr>,
     en_get_time = \<lambda>w. (case get_time os \<lparr>tm_secs = 0, tm_nsecs = 0\<rparr> (rc_os w) of
         (_, tm, o1) \<Rightarrow> (tm, w\<lparr>rc_os := o1\<rparr>)),
     en_net_read = \<lambda>k w. (case file_read os (rc_socket_fd w) k (rc_os w) of
         (res, bytes, err, o1) \<Rightarrow> (res, bytes, err, w\<lparr>rc_os := o1\<rparr>)),
     en_net_write = \<lambda>bs w. (case file_write os (rc_socket_fd w) bs (rc_os w) of
         (res, cnt, err, o1) \<Rightarrow> (res, cnt, err, w\<lparr>rc_os := o1\<rparr>)),
     en_on_connect = \<lambda>f d v ok s. if f = FN_ON_CONNECT then rc_on_connect v ok s else None,
     en_on_subscribe = \<lambda>f d v ok s. None, en_on_unsubscribe = \<lambda>f d v ok s. None,
     en_on_publish = \<lambda>f d v ok s. None, en_message = \<lambda>f d s. None,
     en_allocate = \<lambda>f d m len w. (ALLOCATE_ERROR, m, w), en_deallocate = \<lambda>f d m w. (m, w)\<rparr>"

section \<open>Setting up\<close>

text \<open>
  The options of the command line, with their defaults; \<open>ro_id\<close> is the array \<open>id\<close>.
\<close>

record rc_options =
  ro_address :: "byte list option"
  ro_port :: ushort
  ro_id :: "byte list"
  ro_keep_alive :: ushort
  ro_default_timeout :: ushort

definition rc_default_options :: rc_options where
  "rc_default_options = \<lparr>ro_address = None, ro_port = 1883, ro_id = replicate 256 0,
     ro_keep_alive = 5, ro_default_timeout = 5\<rparr>"

text \<open>
  The buffers: the sizes are \<open>sizeof\<close> of the arrays, 16 entries, 128 bytes twice, and 32
  identifiers of two bytes. The arrays are not initialised in the code; they are zero here.
\<close>

definition rc_buffers :: client_buffers where
  "rc_buffers = \<lparr>cb_store_size = 16 * sizeof_store_entry, cb_store = replicate 16 store_entry_zero,
     cb_rx_buffer_size = 128, cb_rx_buffer = replicate 128 0,
     cb_tx_buffer_size = 128, cb_tx_buffer = replicate 128 0,
     cb_id_set_size = 32 * 2, cb_id_set = replicate 32 0\<rparr>"

definition rc_connect_data :: "rc_options \<Rightarrow> connect" where
  "rc_connect_data opts = \<lparr>cn_keep_alive = ro_keep_alive opts, cn_clean_session = 0, cn_will_qos = 0,
     cn_will_retain = 0, cn_client_id = array_string (ro_id opts), cn_will_topic = lstring_zero,
     cn_will_message = lstring_zero, cn_user_name = lstring_zero, cn_password = lstring_zero,
     cn_session_present = 0\<rparr>"

definition rc_setup :: "nat \<Rightarrow> 'o os \<Rightarrow> rc_options \<Rightarrow> 'o \<Rightarrow> 'o rc_world sys option" where
  "rc_setup n os opts o1 =
     do {
       s \<leftarrow> lmqtt_client_initialize n (rc_env os) rc_buffers
         [CONNECT_DATA \<mapsto> OConnect (rc_connect_data opts)] \<lparr>rc_socket_fd = -1, rc_os = o1\<rparr>;
       let s1 = lmqtt_client_set_on_connect (Some FN_ON_CONNECT) 0 s;
       Some (lmqtt_client_set_default_timeout (ro_default_timeout opts) s1)
     }"

section \<open>The loop\<close>

definition fail_connection :: "'o os \<Rightarrow> nat \<Rightarrow> 'o rc_world \<Rightarrow> 'o rc_world" where
  "fail_connection os secs w =
     \<lparr>rc_socket_fd = -1, rc_os = os_sleep os secs (socket_close os (rc_socket_fd w) (rc_os w))\<rparr>"

text \<open>The first part of a round: without a connection, open one, reset the client, connect.\<close>

definition rc_open ::
    "nat \<Rightarrow> 'o os \<Rightarrow> byte list \<Rightarrow> ushort \<Rightarrow> 'o rc_world sys \<Rightarrow> (int option \<times> 'o rc_world sys) option" where
  "rc_open n os address port s =
     (if rc_socket_fd (sy_world s) = -1
      then
        (let (fd, o1) = socket_open os address port (rc_os (sy_world s));
             s1 = s\<lparr>sy_world := \<lparr>rc_socket_fd = fd, rc_os = o1\<rparr>\<rparr>
         in if fd = -1 then Some (Some 1, s1)
            else do {
              s2 \<leftarrow> lmqtt_client_reset n (rc_env os) s1;
              (_, s3) \<leftarrow> lmqtt_client_connect CONNECT_DATA s2;
              Some (None, s3)
            })
      else Some (None, s))"

text \<open>The last part: wait until the connection or the timer wants attention.\<close>

definition rc_select ::
    "'o os \<Rightarrow> int \<Rightarrow> 'o rc_world sys \<Rightarrow> int option \<times> 'o rc_world sys" where
  "rc_select os res s =
     (let fd = rc_socket_fd (sy_world s);
          read_set = (if res_would_block_conn_rd res then [fd] else []);
          write_set = (if res_would_block_conn_wr res then [fd] else []);
          (r, secs, nsecs, w1) = lmqtt_client_get_timeout (rc_env os) s;
          timeout = (if r then Some (secs, nsecs sdiv 1000) else None);
          (ok, o1) = os_select os (fd + 1) read_set write_set timeout (rc_os w1)
      in (if ok then None else Some 1, s\<lparr>sy_world := w1\<lparr>rc_os := o1\<rparr>\<rparr>))"

definition rc_round ::
    "nat \<Rightarrow> 'o os \<Rightarrow> byte list \<Rightarrow> ushort \<Rightarrow> 'o rc_world sys \<Rightarrow> (int option \<times> 'o rc_world sys) option" where
  "rc_round n os address port s =
     do {
       (ex, s1) \<leftarrow> rc_open n os address port s;
       if ex \<noteq> None then Some (ex, s1)
       else do {
         (res, str_rd, str_wr, s2) \<leftarrow> lmqtt_client_run_once n (rc_env os) s1;
         if res_is_error res
         then Some (None, s2\<lparr>sy_world := fail_connection os 5 (sy_world s2)\<rparr>)
         else if res_is_eof_rd res
         then Some (None, s2\<lparr>sy_world := fail_connection os 5 (sy_world s2)\<rparr>)
         else if res_is_eof_wr res then Some (Some 0, s2)
         else Some (rc_select os res s2)
       }
     }"

primrec rc_loop ::
    "nat \<Rightarrow> nat \<Rightarrow> 'o os \<Rightarrow> byte list \<Rightarrow> ushort \<Rightarrow> 'o rc_world sys \<Rightarrow>
       (int option \<times> 'o rc_world sys) option" where
  "rc_loop 0 n os address port s = Some (None, s)"
| "rc_loop (Suc k) n os address port s =
     do {
       (ex, s1) \<leftarrow> rc_round n os address port s;
       if ex \<noteq> None then Some (ex, s1) else rc_loop k n os address port s1
     }"

definition rc_run ::
    "nat \<Rightarrow> nat \<Rightarrow> 'o os \<Rightarrow> rc_options \<Rightarrow> byte list \<Rightarrow> ushort \<Rightarrow> 'o \<Rightarrow>
       (int option \<times> 'o rc_world sys) option" where
  "rc_run k n os opts address port o1 =
     do { s \<leftarrow> rc_setup n os opts o1; rc_loop k n os address port s }"

section \<open>The command line\<close>

text \<open>
  The loop over the arguments; the flag is \<open>opt_error\<close>. \<open>HAS_OPT_ARG\<close> asks for an argument
  after the option, so that a last one alone is an error.
\<close>

fun rc_parse :: "byte list list \<Rightarrow> rc_options \<Rightarrow> (bool \<times> rc_options) option" where
  "rc_parse [] opts = Some (False, opts)"
| "rc_parse [x] opts = Some (True, opts)"
| "rc_parse (x # y # argv) opts =
     (if x = option_name ''-h'' then rc_parse argv (opts\<lparr>ro_address := Some y\<rparr>)
      else if x = option_name ''-p''
      then do { v \<leftarrow> c_atoi y; rc_parse argv (opts\<lparr>ro_port := word_of_int v\<rparr>) }
      else if x = option_name ''-i''
      then do { a \<leftarrow> c_strcpy (ro_id opts) y; rc_parse argv (opts\<lparr>ro_id := a\<rparr>) }
      else if x = option_name ''-k''
      then do { v \<leftarrow> c_atoi y; rc_parse argv (opts\<lparr>ro_keep_alive := word_of_int v\<rparr>) }
      else if x = option_name ''-t''
      then do { v \<leftarrow> c_atoi y; rc_parse argv (opts\<lparr>ro_default_timeout := word_of_int v\<rparr>) }
      else Some (True, opts))"

text \<open>\<open>main\<close> without the name of the program; the result is the status it ends with, if it does.\<close>

definition rc_main :: "nat \<Rightarrow> nat \<Rightarrow> 'o os \<Rightarrow> byte list list \<Rightarrow> 'o \<Rightarrow> (int option \<times> 'o) option" where
  "rc_main k n os argv o1 =
     do {
       (opt_error, opts) \<leftarrow> rc_parse argv rc_default_options;
       case ro_address opts of
         None \<Rightarrow> Some (Some 1, o1)
       | Some address \<Rightarrow>
           if opt_error \<or> c_strlen (ro_id opts) = 0 then Some (Some 1, o1)
           else do {
             (ex, s) \<leftarrow> rc_run k n os opts address (ro_port opts) o1;
             Some (ex, rc_os (sy_world s))
           }
     }"

end
