(* ===== verification/World_Keeping.thy ===== *)
theory World_Keeping
  imports Transfer_Invariant
begin

text \<open>
  What the library does to the outside world it does through its environment. A property \<open>P\<close> of
  the world that the clock, the connection, the string callbacks and the callbacks of the user
  keep is therefore kept by every function of the library. The locale states that contract of an
  environment and proves the consequence for each function, up to \<open>lmqtt_client_run_once\<close>; it is
  interpreted for the example programs, whose sockets it keeps track of.
\<close>

definition keeps_world :: "('w \<Rightarrow> bool) \<Rightarrow> 'w io_env \<Rightarrow> 'w encoder \<Rightarrow> bool" where
  "keeps_world P io encode \<longleftrightarrow> (\<forall>v eb off room hp w res out eb' hp' w'.
     encode io v eb off room hp w = Some (res, out, eb', hp', w') \<longrightarrow> P w \<longrightarrow> P w')"

definition wrapper_keeps :: "('w \<Rightarrow> bool) \<Rightarrow> 'w transfer_wrapper \<Rightarrow> bool" where
  "wrapper_keeps P wr \<longleftrightarrow> (\<forall>region s res bytes cnt err os s'.
     wr region s = Some (res, bytes, cnt, err, os, s') \<longrightarrow> P (sy_world s) \<longrightarrow> P (sy_world s'))"

locale world_keeper =
  fixes env :: "'w env" and P :: "'w \<Rightarrow> bool"
  assumes clock: "P w \<Longrightarrow> P (snd (en_get_time env w))"
    and net_read: "en_net_read env k w = (r, bytes, e, w') \<Longrightarrow> P w \<Longrightarrow> P w'"
    and net_write: "en_net_write env bytes w = (r, cnt, e, w') \<Longrightarrow> P w \<Longrightarrow> P w'"
    and callback_read: "cb_read (en_io env) f d k w = (r, bytes, e, w') \<Longrightarrow> P w \<Longrightarrow> P w'"
    and callback_write: "cb_write (en_io env) f d bytes w = (r, cnt, e, w') \<Longrightarrow> P w \<Longrightarrow> P w'"
    and allocate: "en_allocate env f d m len w = (ar, m', w') \<Longrightarrow> P w \<Longrightarrow> P w'"
    and deallocate: "en_deallocate env f d m w = (m', w') \<Longrightarrow> P w \<Longrightarrow> P w'"
    and on_connect: "en_on_connect env f d v ok s = Some (b, s') \<Longrightarrow> P (sy_world s) \<Longrightarrow> P (sy_world s')"
    and on_subscribe: "en_on_subscribe env f d v ok s = Some (b, s') \<Longrightarrow> P (sy_world s) \<Longrightarrow> P (sy_world s')"
    and on_unsubscribe: "en_on_unsubscribe env f d v ok s = Some (b, s') \<Longrightarrow> P (sy_world s) \<Longrightarrow> P (sy_world s')"
    and on_publish: "en_on_publish env f d v ok s = Some (b, s') \<Longrightarrow> P (sy_world s) \<Longrightarrow> P (sy_world s')"
    and message: "en_message env f d s = Some (b, s') \<Longrightarrow> P (sy_world s) \<Longrightarrow> P (sy_world s')"
begin

subsection \<open>Clock and strings\<close>

lemma touch_keeps: "lmqtt_store_touch (en_get_time env) st w = (st', w') \<Longrightarrow> P w \<Longrightarrow> P w'"
  using clock [of w] by (auto simp: lmqtt_store_touch_def lmqtt_time_touch_def split: prod.splits)

lemma timeout_keeps: "lmqtt_store_get_timeout (en_get_time env) st w = (r, cnt, secs, ns, w') \<Longrightarrow> P w \<Longrightarrow> P w'"
  using clock [of w]
  by (auto simp: lmqtt_store_get_timeout_def lmqtt_time_get_timeout_to_def Let_def split: prod.splits if_splits)

lemma string_read_keeps: "string_read (en_io env) str k w = Some (r, bytes, e, str', w') \<Longrightarrow> P w \<Longrightarrow> P w'"
  by (auto simp: string_read_def string_move_def bind_eq_Some_conv Let_def simp del: arr_iffs
      split: if_splits option.splits prod.splits dest: callback_read)

lemma string_write_keeps: "string_write (en_io env) str bytes w = Some (r, cnt, e, str', w') \<Longrightarrow> P w \<Longrightarrow> P w'"
  by (auto simp: string_write_def string_move_def bind_eq_Some_conv Let_def simp del: arr_iffs
      split: if_splits option.splits prod.splits dest: callback_write)

lemma string_encode_keeps:
  "string_encode (en_io env) self str el ie off room eb w = Some (res, out, str', eb', w') \<Longrightarrow> P w \<Longrightarrow> P w'"
  by (auto simp: string_encode_def bind_eq_Some_conv Let_def simp del: string_len_loop.simps
      split: if_splits sum.splits dest: string_read_keeps)

subsection \<open>Stores and requests\<close>

lemma cleanup_stores_keeps:
  assumes "client_cleanup_stores flush keep s = Some s'" and "P (sy_world s)"
    and "\<And>r s s'. flush r s = Some s' \<Longrightarrow> P (sy_world s) \<Longrightarrow> P (sy_world s')"
  shows "P (sy_world s')"
  using assms(1,2)
  by (auto simp: client_cleanup_stores_def bind_eq_Some_conv simp del: cleanup_loop.simps split: if_splits
      dest!: assms(3))

lemma state_connected_keeps:
  assumes "client_set_state_connected flush s = Some s'" and "P (sy_world s)"
    and "\<And>r s s'. flush r s = Some s' \<Longrightarrow> P (sy_world s) \<Longrightarrow> P (sy_world s')"
  shows "P (sy_world s')"
  using assms(1,2)
  by (auto simp: client_set_state_connected_def bind_eq_Some_conv Let_def client_set_current_store_def
      dest!: cleanup_stores_keeps [OF _ _ assms(3)])

lemma value_callback_keeps:
  assumes "value_callback flush env v s = Some (b, s')" and "P (sy_world s)"
    and "\<And>r s s'. flush r s = Some s' \<Longrightarrow> P (sy_world s) \<Longrightarrow> P (sy_world s')"
  shows "P (sy_world s')"
proof -
  have "client_on_connack flush env a s = Some (b, s') \<Longrightarrow> P (sy_world s')" for a
    using assms(2)
    by (auto simp: client_on_connack_def bind_eq_Some_conv simp del: get_iffs split: if_splits option.splits
        dest: on_connect dest!: state_connected_keeps [OF _ _ assms(3)])
  then show ?thesis
    using assms(1,2)
    by (auto simp: value_callback_def entry_callback_call_def client_on_pingresp_def client_on_suback_def
        client_on_unsuback_def client_on_publish_def split: if_splits option.splits entry_callback.splits
        dest: on_subscribe on_unsubscribe on_publish)
qed

lemma flush_store_keeps: "client_flush_store n env r s = Some s' \<Longrightarrow> P (sy_world s) \<Longrightarrow> P (sy_world s')"
proof (induction n arbitrary: r s s')
  case 0
  then show ?case by simp
next
  case (Suc n)
  obtain ok k v st where sh: "lmqtt_store_shift (get_store r s) = Some (ok, k, v, st)"
    using Suc.prems(1) by (auto simp: bind_eq_Some_conv)
  show ?case
  proof (cases ok)
    case False
    then show ?thesis using Suc.prems sh by auto
  next
    case True
    then obtain b s2 where s2: "value_callback (client_flush_store n env) env v (set_store r st s) = Some (b, s2)"
        "client_flush_store n env r s2 = Some s'"
      using Suc.prems(1) sh by (auto simp: bind_eq_Some_conv)
    have "P (sy_world s2)" by (rule value_callback_keeps [OF s2(1)]) (use Suc in auto)
    with Suc.IH [OF s2(2)] show ?thesis .
  qed
qed

lemmas callback_keeps = value_callback_keeps [OF _ _ flush_store_keeps]

subsection \<open>Receiving\<close>

lemma rx_allocate_keeps: "rx_buffer_allocate env when part len s = (ok, s') \<Longrightarrow> P (sy_world s) \<Longrightarrow> P (sy_world s')"
  by (auto simp: rx_buffer_allocate_def rx_buffer_fail_def Let_def split: option.splits if_splits prod.splits
      allocate_result.splits dest: allocate)

lemma rx_fail_world [simp]: "sy_world (rx_buffer_fail e os s) = sy_world s"
  by (simp add: rx_buffer_fail_def)

lemma rx_reset_world [simp]: "sy_world (lmqtt_rx_buffer_reset s) = sy_world s"
  by (simp add: lmqtt_rx_buffer_reset_def)

lemma rx_allocate_write_keeps:
  "rx_buffer_allocate_write env when part len bytes s = Some (ok, cnt, s') \<Longrightarrow> P (sy_world s) \<Longrightarrow> P (sy_world s')"
  by (auto simp: rx_buffer_allocate_write_def Let_def bind_eq_Some_conv split: if_splits prod.splits
      string_result.splits dest!: rx_allocate_keeps string_write_keeps) (metis string_result.exhaust)+

lemma rx_deallocate_keeps: "P (sy_world s) \<Longrightarrow> P (sy_world (rx_buffer_deallocate_publish env s))"
  by (auto simp: rx_buffer_deallocate_publish_def Let_def split: option.splits prod.splits dest: deallocate)

lemma connack_keeps: "rx_buffer_decode_connack bytes s = Some (r, cnt, s') \<Longrightarrow> sy_world s' = sy_world s"
  by (auto simp: rx_buffer_decode_connack_def Let_def bind_eq_Some_conv simp del: get_iffs split: if_splits)

lemma suback_keeps: "rx_buffer_decode_suback bytes s = Some (r, cnt, s') \<Longrightarrow> sy_world s' = sy_world s"
  by (auto simp: rx_buffer_decode_suback_def Let_def bind_eq_Some_conv simp del: get_iffs arr_iffs split: if_splits)

lemma publish_bytes_keeps:
  "rx_buffer_publish_bytes env rem_len p_len bytes s = Some (ok, cnt, s') \<Longrightarrow> P (sy_world s) \<Longrightarrow> P (sy_world s')"
  by (auto simp: rx_buffer_publish_bytes_def Let_def bind_eq_Some_conv split: if_splits
      dest!: rx_allocate_write_keeps intro: rx_deallocate_keeps)

lemma publish_deliver_keeps:
  "rx_buffer_publish_deliver env qos s = Some (r, s') \<Longrightarrow> P (sy_world s) \<Longrightarrow> P (sy_world s')"
  by (auto simp: rx_buffer_publish_deliver_def Let_def bind_eq_Some_conv split: if_splits option.splits
      dest!: message intro: rx_deallocate_keeps)

lemma publish_finish_holds:
  assumes "rx_buffer_publish_finish env qos s = Some (r, s')" and "P (sy_world s)"
  shows "P (sy_world s')"
  using assms
  by (auto simp: rx_buffer_publish_finish_def Let_def bind_eq_Some_conv simp del: arr_iffs split: if_splits
      dest!: publish_deliver_keeps intro!: rx_deallocate_keeps)

lemma decode_publish_keeps:
  "rx_buffer_decode_publish env bytes s = Some (r, cnt, s') \<Longrightarrow> P (sy_world s) \<Longrightarrow> P (sy_world s')"
  by (auto simp: rx_buffer_decode_publish_def Let_def bind_eq_Some_conv split: if_splits
      dest!: publish_bytes_keeps dest: publish_finish_holds)

lemma rx_pop_holds: "rx_buffer_pop p d s = Some (ok, s') \<Longrightarrow> sy_world s' = sy_world s"
  by (cases p) (auto simp: rx_buffer_pop_def rx_buffer_pop_packet_def rx_buffer_pubrel_def Let_def bind_eq_Some_conv
      split: if_splits)

lemma decode_type_keeps:
  "rx_buffer_decode_type env d bytes s = Some (r, cnt, s') \<Longrightarrow> P (sy_world s) \<Longrightarrow> P (sy_world s')"
  by (cases d) (auto simp: rx_buffer_decode_type_def connack_keeps suback_keeps dest: decode_publish_keeps)

lemma without_id_keeps:
  "rx_buffer_decode_remaining_without_id env d bytes s = Some (r, cnt, s') \<Longrightarrow> P (sy_world s) \<Longrightarrow> P (sy_world s')"
  by (auto simp: rx_buffer_decode_remaining_without_id_def bind_eq_Some_conv Let_def split: if_splits
      dest: decode_type_keeps)

lemma remaining_keeps:
  "decoder_decode_remaining env d bytes s = Some (r, cnt, s') \<Longrightarrow> P (sy_world s) \<Longrightarrow> P (sy_world s')"
  by (auto simp: decoder_decode_remaining_def rx_buffer_decode_remaining_with_id_def bind_eq_Some_conv Let_def
      split: if_splits dest: without_id_keeps rx_pop_holds)

lemma header_byte_holds:
  assumes "rx_buffer_header_byte b s = Some (r, cnt, s')"
  shows "sy_world s' = sy_world s"
proof -
  obtain header res err where h: "fixed_header_decode (ri_header (ri s)) b = (header, res, err)"
    by (cases "fixed_header_decode (ri_header (ri s)) b") auto
  show ?thesis
  proof (cases "res = DECODE_FINISHED")
    case False
    then show ?thesis using assms h by (auto simp: rx_buffer_header_byte_def Let_def split: if_splits)
  next
    case True
    then obtain decoder where "arr_get rx_buffer_decoders (nat (fh_type header)) = Some decoder"
      using assms h by (auto simp: rx_buffer_header_byte_def bind_eq_Some_conv Let_def simp del: arr_iffs)
    then show ?thesis
      using assms h True
      by (cases decoder) (auto simp: rx_buffer_header_byte_def bind_eq_Some_conv Let_def simp del: arr_iffs
        split: if_splits dest: rx_pop_holds)
  qed
qed

lemma rest_bytes_keeps:
  "rx_buffer_rest_bytes env bytes s = Some (r, cnt, s') \<Longrightarrow> P (sy_world s) \<Longrightarrow> P (sy_world s')"
  by (auto simp: rx_buffer_rest_bytes_def bind_eq_Some_conv split: if_splits dest: remaining_keeps)

lemma finish_packet_keeps:
  "rx_buffer_finish_packet n env s = Some (ok, s') \<Longrightarrow> P (sy_world s) \<Longrightarrow> P (sy_world s')"
  by (auto simp: rx_buffer_finish_packet_def rx_buffer_call_callback_def bind_eq_Some_conv Let_def split: if_splits
      dest: callback_keeps)

lemma decode_loop_keeps:
  "rx_buffer_decode_loop n env bytes cnt s = Some (ok, cnt', s') \<Longrightarrow> P (sy_world s) \<Longrightarrow> P (sy_world s')"
proof (induction n arbitrary: bytes cnt s)
  case 0
  then show ?case by simp
next
  case (Suc n)
  then show ?case
    by (auto simp: rx_buffer_decode_loop.simps(2) bind_eq_Some_conv header_byte_holds split: if_splits
        dest!: rest_bytes_keeps finish_packet_keeps Suc.IH)
qed

lemma rx_decode_keeps:
  "lmqtt_rx_buffer_decode n env bytes s = Some (r, cnt, s') \<Longrightarrow> P (sy_world s) \<Longrightarrow> P (sy_world s')"
  by (auto simp: lmqtt_rx_buffer_decode_def bind_eq_Some_conv split: if_splits dest: decode_loop_keeps)

subsection \<open>Sending\<close>

lemma built_encoders_keep [simp]: "keeps_world P (en_io env) (encode_built b)"
  by (auto simp: keeps_world_def encode_built_def bind_eq_Some_conv Let_def split: if_splits)

lemma string_encoders_keep [simp]:
  "keeps_world P (en_io env) connect_encode_payload_client_id" "keeps_world P (en_io env) connect_encode_payload_will_topic"
  "keeps_world P (en_io env) connect_encode_payload_will_message" "keeps_world P (en_io env) connect_encode_payload_user_name"
  "keeps_world P (en_io env) connect_encode_payload_password" "keeps_world P (en_io env) subscribe_encode_topic"
  "keeps_world P (en_io env) publish_encode_topic" "keeps_world P (en_io env) publish_encode_payload"
  by (auto simp: keeps_world_def string_encoder_defs bind_eq_Some_conv simp del: get_iffs dest: string_encode_keeps)

lemma finder_keeps:
  assumes "tx_buffer_finder_by_kind k = Some finder" and "finder pos v hp = Some (Some encode, hp')"
  shows "keeps_world P (en_io env) encode"
  using assms
  by (cases k) (auto simp: tx_buffer_finder_connect_def tx_buffer_finder_subscribe_def tx_buffer_finder_unsubscribe_def
      tx_buffer_finder_publish_def tx_buffer_finder_puback_def tx_buffer_finder_pubrec_def tx_buffer_finder_pubrel_def
      tx_buffer_finder_pubcomp_def tx_buffer_finder_pingreq_def tx_buffer_finder_disconnect_def built_encoder_defs
      bind_eq_Some_conv Let_def simp del: get_iffs split: if_splits)

lemma tx_frame_world [simp]:
  "sy_world (lmqtt_tx_buffer_reset s) = sy_world s" "sy_world (lmqtt_tx_buffer_finish s) = sy_world s"
  "sy_world (tx_buffer_fail e os s) = sy_world s"
  by (simp_all add: lmqtt_tx_buffer_reset_def lmqtt_tx_buffer_finish_def tx_buffer_fail_def)

lemma packet_done_keeps:
  "tx_buffer_packet_done n env k v s = Some (ok, s') \<Longrightarrow> P (sy_world s) \<Longrightarrow> P (sy_world s')"
  by (auto simp: tx_buffer_packet_done_def bind_eq_Some_conv Let_def split: if_splits dest!: callback_keeps)

lemma packet_loop_keeps:
  assumes "tx_buffer_finder_by_kind k = Some finder"
  shows "tx_buffer_packet_loop n env k finder v len out s = Some r \<Longrightarrow> P (sy_world s) \<Longrightarrow>
    (case r of Inl (res, out', s') \<Rightarrow> P (sy_world s') | Inr (out', s') \<Rightarrow> P (sy_world s'))"
proof (induction n arbitrary: out s)
  case 0
  then show ?case by simp
next
  case (Suc n)
  obtain e hp where e: "finder (ti_pos (ti s)) v (sy_heap s) = Some (e, hp)"
    using Suc.prems(1) by (auto simp: bind_eq_Some_conv)
  show ?case
  proof (cases e)
    case None
    then show ?thesis
      using Suc.prems e by (auto simp: bind_eq_Some_conv split: if_splits dest!: packet_done_keeps)
  next
    case (Some encode)
    obtain res bytes eb hp' w' where r: "encode (en_io env) v (ti_buffer (ti s)) (ti_offset (ti s)) (len - length out) hp
        (sy_world s) = Some (res, bytes, eb, hp', w')"
      using Suc.prems(1) e Some by (auto simp: bind_eq_Some_conv Let_def)
    have "keeps_world P (en_io env) encode" using finder_keeps [OF assms] e Some by simp
    then have "P w'" using r Suc.prems(2) unfolding keeps_world_def by blast
    then show ?thesis using Suc.prems e Some r by (cases res) (auto simp: Let_def dest!: Suc.IH)
  qed
qed

lemma encode_loop_keeps:
  "tx_buffer_encode_loop n env len out s = Some (res, out', s') \<Longrightarrow> P (sy_world s) \<Longrightarrow> P (sy_world s')"
proof (induction n arbitrary: out s)
  case 0
  then show ?case by simp
next
  case (Suc n)
  obtain ok k v where p: "(if tx_closed (cl_tx s) then Some (False, KIND_NONE, store_value_zero)
         else lmqtt_store_peek (get_store (tx_store (cl_tx s)) s)) = Some (ok, k, v)"
    using Suc.prems(1) by (auto simp: bind_eq_Some_conv)
  show ?case
  proof (cases ok)
    case False
    then show ?thesis using Suc.prems p by auto
  next
    case True
    then obtain finder r where r: "tx_buffer_finder_by_kind k = Some finder"
        "tx_buffer_packet_loop n env k finder v len out s = Some r"
        "(case r of Inl res \<Rightarrow> Some res | Inr (out', s') \<Rightarrow> tx_buffer_encode_loop n env len out' s') = Some (res, out', s')"
      using Suc.prems(1) p by (auto simp: bind_eq_Some_conv)
    show ?thesis
      using packet_loop_keeps [OF r(1,2) Suc.prems(2)] r(3) Suc.IH by (cases r) auto
  qed
qed

lemma tx_encode_keeps:
  "lmqtt_tx_buffer_encode n env len s = Some (res, out, s') \<Longrightarrow> P (sy_world s) \<Longrightarrow> P (sy_world s')"
  by (auto simp: lmqtt_tx_buffer_encode_def split: if_splits dest: encode_loop_keeps)

subsection \<open>The client\<close>

lemma set_state_initial_keeps: "client_set_state_initial n env s = Some s' \<Longrightarrow> P (sy_world s) \<Longrightarrow> P (sy_world s')"
  by (auto simp: client_set_state_initial_def bind_eq_Some_conv Let_def client_set_current_store_def set_ops_fail_def
      split: prod.splits dest!: cleanup_stores_keeps [OF _ _ flush_store_keeps] touch_keeps)

lemma set_state_failed_keeps: "client_set_state_failed s = Some s' \<Longrightarrow> sy_world s' = sy_world s"
  by (auto simp: client_set_state_failed_def bind_eq_Some_conv set_ops_fail_def)

lemma wrappers_keep:
  "wrapper_keeps P (client_wrapper_read env)" "wrapper_keeps P (client_wrapper_write env)"
  "wrapper_keeps P (client_wrapper_encode n env)" "wrapper_keeps P (client_wrapper_decode n env)"
  by (auto simp: wrapper_keeps_def client_wrapper_read_def client_wrapper_write_def client_wrapper_encode_def
      client_wrapper_decode_def bind_eq_Some_conv Let_def split: prod.split_asm
      dest: rx_decode_keeps tx_encode_keeps net_read net_write)

lemma buf_frame_world [simp]:
  "sy_world (set_buf b bs s) = sy_world s" "sy_world (set_buf_pos b p s) = sy_world s"
  by (cases b; simp)+

lemma exec_keeps:
  assumes "transfer_exec t b after left right s = Some (ok, t', s')" and "P (sy_world s)"
    and "wrapper_keeps P (tr_wrapper t)"
    and "\<And>t s s'. after t b s = Some s' \<Longrightarrow> sy_world s' = sy_world s"
  shows "P (sy_world s') \<and> tr_wrapper t' = tr_wrapper t"
  using assms(1,2)
  by (auto simp: transfer_exec_def bind_eq_Some_conv Let_def simp del: arr_iffs split: if_splits
      dest!: assms(4) assms(3) [unfolded wrapper_keeps_def, rule_format])

lemma after_keeps:
  "transfer_append t b s = Some s' \<Longrightarrow> sy_world s' = sy_world s"
  "transfer_shift t b s = Some s' \<Longrightarrow> sy_world s' = sy_world s"
  by (auto simp: transfer_append_def transfer_shift_def bind_eq_Some_conv simp del: arr_iffs)

lemma transfer_loop_keeps:
  "transfer_loop n b tin tout s = Some (ok, tin', tout', s') \<Longrightarrow> P (sy_world s) \<Longrightarrow>
     wrapper_keeps P (tr_wrapper tin) \<Longrightarrow> wrapper_keeps P (tr_wrapper tout) \<Longrightarrow> P (sy_world s')"
proof (induction n arbitrary: tin tout s)
  case 0
  then show ?case by simp
next
  case (Suc n)
  show ?case
  proof (cases "\<not> tr_available tin \<and> \<not> tr_available tout")
    case True
    then show ?thesis using Suc.prems by auto
  next
    case False
    then obtain ok1 tin1 s1 where s1: "transfer_exec tin b transfer_append (get_buf_pos b s) (get_buf_capacity b s) s =
        Some (ok1, tin1, s1)"
      using Suc.prems(1) by (auto simp: bind_eq_Some_conv split: if_splits)
    note k1 = exec_keeps [OF s1 Suc.prems(2,3) after_keeps(1)]
    show ?thesis
    proof (cases ok1)
      case no: False
      then show ?thesis using Suc.prems(1) False s1 k1 by (auto split: if_splits)
    next
      case True
      then obtain ok2 tout1 s2 where s2: "transfer_exec tout b transfer_shift 0 (get_buf_pos b s1) s1 = Some (ok2, tout1, s2)"
        using Suc.prems(1) False s1 by (auto simp: bind_eq_Some_conv split: if_splits)
      note k2 = exec_keeps [OF s2 conjunct1 [OF k1] Suc.prems(4) after_keeps(2)]
      show ?thesis
        using Suc.prems False s1 s2 True k1 k2 Suc.IH [of tin1 tout1 s2] by (auto split: if_splits)
    qed
  qed
qed

lemma buffer_transfer_keeps:
  assumes "client_buffer_transfer n env input output b s = Some (st, s')" and "P (sy_world s)"
    and "wrapper_keeps P (tr_wrapper input)" and "wrapper_keeps P (tr_wrapper output)"
  shows "P (sy_world s')"
proof (cases "cl_error s \<noteq> NO_ERROR")
  case True
  then show ?thesis using assms(1,2) by (simp add: client_buffer_transfer_def)
next
  case False
  then obtain ok input1 output1 s1 where s1: "transfer_loop n b input output s = Some (ok, input1, output1, s1)"
    using assms(1) by (auto simp: client_buffer_transfer_def bind_eq_Some_conv)
  have k1: "P (sy_world s1)" by (rule transfer_loop_keeps [OF s1 assms(2-4)])
  obtain st w where t: "lmqtt_store_touch (en_get_time env) (get_store (cl_current_store s1) s1) (sy_world s1) = (st, w)"
    by (cases "lmqtt_store_touch (en_get_time env) (get_store (cl_current_store s1) s1) (sy_world s1)") auto
  note kt = touch_keeps [OF t k1]
  show ?thesis
    using assms(1) False s1 k1 t kt
    by (auto simp: client_buffer_transfer_def bind_eq_Some_conv Let_def set_state_failed_keeps split: if_splits
      dest!: set_state_initial_keeps)
qed

lemma process_keeps:
  assumes "P (sy_world s)"
  shows "client_process_input n env s = Some (st, s') \<Longrightarrow> P (sy_world s')"
    and "client_process_output n env s = Some (st, s') \<Longrightarrow> P (sy_world s')"
  unfolding client_process_input_def client_process_output_def
  by (erule buffer_transfer_keeps; simp add: assms wrappers_keep transfer_initialize_def)+

lemma operations_keep:
  "lmqtt_client_connect a s = Some (b, s') \<Longrightarrow> sy_world s' = sy_world s"
  "lmqtt_client_subscribe a s = Some (b, s') \<Longrightarrow> sy_world s' = sy_world s"
  "lmqtt_client_unsubscribe a s = Some (b, s') \<Longrightarrow> sy_world s' = sy_world s"
  "lmqtt_client_publish a s = Some (b, s') \<Longrightarrow> sy_world s' = sy_world s"
  "lmqtt_client_disconnect s = Some (b, s') \<Longrightarrow> sy_world s' = sy_world s"
  "call_op p client_do_pingreq s = Some (b, s') \<Longrightarrow> sy_world s' = sy_world s"
  by (auto simp: op_defs call_op_def client_set_state_connecting_def bind_eq_Some_conv Let_def simp del: get_iffs
      split: op_ptr.splits if_splits prod.splits)

lemma keep_alive_keeps: "client_keep_alive env s = Some (st, s') \<Longrightarrow> P (sy_world s) \<Longrightarrow> P (sy_world s')"
  by (auto simp: client_keep_alive_def bind_eq_Some_conv Let_def operations_keep(6) set_state_failed_keeps
      split: if_splits prod.splits dest: timeout_keeps)

lemma process_buffer_keeps:
  assumes "client_process_buffer process cv dv blocking rv blk s = Some (go, rv', blk', s')"
    and "\<And>st s'. process s = Some (st, s') \<Longrightarrow> P (sy_world s')"
  shows "P (sy_world s')"
  using assms(1)
  by (auto simp: client_process_buffer_def bind_eq_Some_conv split: io_status.split_asm dest: assms(2))
    (metis io_status.exhaust)

lemma run_once_loop_keeps: "run_once_loop n env s = Some (r, sr, sw, s') \<Longrightarrow> P (sy_world s) \<Longrightarrow> P (sy_world s')"
proof (induction n arbitrary: s)
  case 0
  then show ?case by simp
next
  case (Suc n)
  obtain go result str_rd s1 where o: "client_process_buffer (client_process_output n env)
         RES_WOULD_BLOCK_CONN_WR RES_WOULD_BLOCK_DATA_RD lmqtt_tx_buffer_get_blocking_str 0 None s =
       Some (go, result, str_rd, s1)"
    using Suc.prems(1) by (auto simp: bind_eq_Some_conv)
  have k1: "P (sy_world s1)" by (rule process_buffer_keeps [OF o]) (rule process_keeps(2) [OF Suc.prems(2)])
  show ?case
  proof (cases go)
    case False
    then show ?thesis using Suc.prems(1) o k1 by simp
  next
    case True
    then obtain go' result' str_wr s2 where i: "client_process_buffer (client_process_input n env)
           RES_WOULD_BLOCK_CONN_RD RES_WOULD_BLOCK_DATA_WR lmqtt_rx_buffer_get_blocking_str
           result None s1 = Some (go', result', str_wr, s2)"
      using Suc.prems(1) o by (auto simp: bind_eq_Some_conv)
    have "P (sy_world s2)" by (rule process_buffer_keeps [OF i]) (rule process_keeps(1) [OF k1])
    then show ?thesis
      using Suc.prems(1) o i True Suc.IH by (auto simp: bind_eq_Some_conv split: if_splits)
  qed
qed

lemma run_once_keeps: "lmqtt_client_run_once n env s = Some (r, sr, sw, s') \<Longrightarrow> P (sy_world s) \<Longrightarrow> P (sy_world s')"
  by (auto simp: lmqtt_client_run_once_def bind_eq_Some_conv split: if_splits
      dest: keep_alive_keeps run_once_loop_keeps)

lemma reset_keeps: "lmqtt_client_reset n env s = Some s' \<Longrightarrow> P (sy_world s) \<Longrightarrow> P (sy_world s')"
  by (auto simp: lmqtt_client_reset_def split: if_splits dest: set_state_initial_keeps)

lemma initialize_keeps: "lmqtt_client_initialize n env bs hp w = Some s \<Longrightarrow> P w \<Longrightarrow> P (sy_world s)"
  by (auto simp: lmqtt_client_initialize_def client_setup_def dest!: set_state_initial_keeps)

end

end
