(* ===== verification/Steady_Client.thy ===== *)
theory Steady_Client
  imports Transfer_Invariant
begin

text \<open>
  A client whose user leaves it alone: the callbacks of the user change nothing in it, and the only
  objects it works on are valid CONNECT objects for a session that is kept. Whatever the server
  sends, and whatever the connection and the clock return, such a client stays \<open>steady\<close>: its
  queues are well-formed and all callbacks in them can be called, an error means that the client
  is closed, and a closed client stays closed until it connects again. \<open>examples/reconnect.c\<close> relies
  on this; the locale states what its callbacks promise.
\<close>

section \<open>Steady clients\<close>

definition callable :: "store_value \<Rightarrow> bool" where
  "callable v \<longleftrightarrow> sv_callback v = None \<or> sv_callback v = Some ON_PINGRESP \<or> sv_callback_data v \<noteq> DATA_NULL"

definition queue_steady :: "store \<Rightarrow> bool" where
  "queue_steady st \<longleftrightarrow> store_inv st \<and> (\<forall>e \<in> set (st_entries st). callable (se_value e))"

definition objects_steady :: "heap \<Rightarrow> bool" where
  "objects_steady hp \<longleftrightarrow> (\<forall>a ob. hp a = Some ob \<longrightarrow> (\<exists>c. ob = OConnect c \<and> lmqtt_connect_validate c \<and> cn_clean_session c = 0))"

text \<open>What never changes.\<close>

type_synonym client_frame = "addr set \<times> fnptr option \<times> fnptr option \<times> fnptr option \<times> fnptr option \<times> nat"

definition client_frame :: "'w sys \<Rightarrow> client_frame" where
  "client_frame s = (dom (sy_heap s), cl_on_connect s, cl_on_subscribe s, cl_on_unsubscribe s, cl_on_publish s,
     st_capacity (cl_connect_store s))"

definition ri_steady :: "rx_internal \<Rightarrow> bool" where
  "ri_steady i \<longleftrightarrow> callable (ri_value i) \<and> ri_error i \<noteq> ERROR_CLOSED \<and> fh_error (ri_header i) \<noteq> ERROR_CLOSED"

definition ti_steady :: "tx_internal \<Rightarrow> bool" where
  "ti_steady t \<longleftrightarrow> ti_error t \<noteq> ERROR_CLOSED \<and> eb_error (ti_buffer t) \<noteq> ERROR_CLOSED"

definition steady :: "client_frame \<Rightarrow> bool \<Rightarrow> 'w sys \<Rightarrow> bool" where
  "steady f c s \<longleftrightarrow> client_frame s = f \<and> objects_steady (sy_heap s) \<and> cl_clean_session s = 0 \<and>
     queue_steady (cl_main_store s) \<and> queue_steady (cl_connect_store s) \<and> ri_steady (ri s) \<and> ti_steady (ti s) \<and>
     cl_error s \<noteq> ERROR_CLOSED \<and>
     (cl_error s \<noteq> NO_ERROR \<longrightarrow> cl_closed s) \<and> (c \<longrightarrow> cl_closed s)"

lemma callable_zero [simp]: "callable store_value_zero" "callable (store_value_zero\<lparr>sv_packet_id := pid\<rparr>)"
  by (simp_all add: callable_def store_value_zero_def)

subsection \<open>Changes that do not matter\<close>

lemma steady_ignores [simp]:
  "steady f c (s\<lparr>sy_world := w\<rparr>) = steady f c s" "steady f c (s\<lparr>cl_os_error := i\<rparr>) = steady f c s"
  "steady f c (s\<lparr>cl_rx := (cl_rx s)\<lparr>rx_id_set := ids\<rparr>\<rparr>) = steady f c s"
  "steady f c (set_buf b bs s) = steady f c s" "steady f c (set_buf_pos b p s) = steady f c s"
  "steady f c (set_ops_fail s) = steady f c s" "steady f c (s\<lparr>cl_op_connect := op\<rparr>) = steady f c s"
  "steady f c (client_set_current_store r s) = steady f c s" "steady f c (lmqtt_tx_buffer_finish s) = steady f c s"
  "steady f c (s\<lparr>cl_op_subscribe := o1, cl_op_unsubscribe := o2, cl_op_publish := o3, cl_op_pingreq := o4,
     cl_op_disconnect := o5\<rparr>) = steady f c s"
  by (cases b; simp add: steady_def client_frame_def set_ops_fail_def client_set_current_store_def Let_def
      lmqtt_tx_buffer_finish_def)+

lemma steady_upd_ri: "steady f c s \<Longrightarrow> ri_steady (g (ri s)) \<Longrightarrow> steady f c (upd_ri g s)"
  by (simp add: steady_def client_frame_def upd_ri_def)

lemma steady_upd_ti: "steady f c s \<Longrightarrow> ti_steady (g (ti s)) \<Longrightarrow> steady f c (upd_ti g s)"
  by (simp add: steady_def client_frame_def upd_ti_def)

lemma steady_internal: "steady f c s \<Longrightarrow> ri_steady (ri s)" "steady f c s \<Longrightarrow> ti_steady (ti s)"
  by (simp_all add: steady_def)

lemma steady_ri_same [simp]:
  "(\<And>i. ri_value (g i) = ri_value i) \<Longrightarrow> (\<And>i. ri_error (g i) = ri_error i) \<Longrightarrow> (\<And>i. ri_header (g i) = ri_header i) \<Longrightarrow>
     steady f c (upd_ri g s) = steady f c s"
  by (simp add: steady_def client_frame_def upd_ri_def ri_steady_def)

lemma steady_ti_same [simp]:
  "(\<And>t. ti_error (g t) = ti_error t) \<Longrightarrow> (\<And>t. eb_error (ti_buffer (g t)) = eb_error (ti_buffer t)) \<Longrightarrow>
     steady f c (upd_ti g s) = steady f c s"
  by (simp add: steady_def client_frame_def upd_ti_def ti_steady_def)

lemma steady_fail: "steady f c s \<Longrightarrow> e \<noteq> ERROR_CLOSED \<Longrightarrow> steady f c (rx_buffer_fail e os s)"
  using steady_internal(1) [of f c s] unfolding rx_buffer_fail_def by (intro steady_upd_ri) (simp_all add: ri_steady_def)

lemma steady_tx_fail: "steady f c s \<Longrightarrow> e \<noteq> ERROR_CLOSED \<Longrightarrow> steady f c (tx_buffer_fail e os s)"
  using steady_internal(2) [of f c s] unfolding tx_buffer_fail_def by (intro steady_upd_ti) (simp_all add: ti_steady_def)

lemma steady_reset: "steady f c s \<Longrightarrow> steady f c (lmqtt_rx_buffer_reset s)" "steady f c s \<Longrightarrow> steady f c (lmqtt_tx_buffer_reset s)"
  by (simp_all add: steady_def client_frame_def lmqtt_rx_buffer_reset_def lmqtt_tx_buffer_reset_def upd_ri_def rx_internal_zero_def
      tx_internal_zero_def encode_buffer_zero_def ri_steady_def ti_steady_def fixed_header_zero_def)

lemma steady_set_store:
  "steady f c s \<Longrightarrow> queue_steady st \<Longrightarrow> st_capacity st = st_capacity (get_store r s) \<Longrightarrow> steady f c (set_store r st s)"
  by (cases r) (auto simp: steady_def client_frame_def set_store_def get_store_def)

lemma steady_main_store: "steady f c s \<Longrightarrow> queue_steady st \<Longrightarrow> steady f c (s\<lparr>cl_main_store := st\<rparr>)"
  by (auto simp: steady_def client_frame_def)

lemma steady_connect_store:
  "steady f c s \<Longrightarrow> queue_steady st \<Longrightarrow> st_capacity st = st_capacity (cl_connect_store s) \<Longrightarrow>
     steady f c (s\<lparr>cl_connect_store := st\<rparr>)"
  by (auto simp: steady_def client_frame_def)

lemma steady_stores:
  assumes "steady f c s"
  shows "queue_steady (get_store r s)" and "queue_steady (cl_main_store s)" and "queue_steady (cl_connect_store s)"
  using assms by (auto simp: steady_def get_store_def split: store_ref.split)

lemma steady_heap:
  "steady f c s \<Longrightarrow> objects_steady hp \<Longrightarrow> dom hp = dom (sy_heap s) \<Longrightarrow> steady f c (s\<lparr>sy_heap := hp\<rparr>)"
  by (simp add: steady_def client_frame_def)

lemma steady_weaken: "steady f c s \<Longrightarrow> (c' \<longrightarrow> cl_closed s) \<Longrightarrow> steady f c' s"
  by (simp add: steady_def)

subsection \<open>Queues\<close>

lemma set_arr_set: "arr_set xs i x = Some ys \<Longrightarrow> set ys \<subseteq> insert x (set xs)"
  by (auto simp: arr_set_def bind_eq_Some_conv dest: set_update_subset_insert [THEN subsetD] split: if_splits)

lemma set_arr_move:
  assumes "arr_move xs i j k = Some ys"
  shows "set ys \<subseteq> set xs"
proof -
  have "ys = take i xs @ take k (drop j xs) @ drop (i + k) xs"
    using assms by (auto simp: arr_move_def arr_slice_def arr_write_def bind_eq_Some_conv split: if_splits)
  then show ?thesis
    using set_take_subset [of k "drop j xs"] set_take_subset [of i xs] set_drop_subset [of j xs] set_drop_subset [of "i + k" xs]
    by (simp only: set_append) blast
qed

lemma queue_get: "queue_steady st \<Longrightarrow> lmqtt_store_get_at st p = Some (ok, k, v) \<Longrightarrow> callable v"
  by (auto simp: queue_steady_def lmqtt_store_get_at_def arr_get_def bind_eq_Some_conv split: if_splits)

lemma queue_append:
  assumes "lmqtt_store_append st k v = Some (b, st')" and "queue_steady st" and "\<forall>x. v = Some x \<longrightarrow> callable x"
  shows "queue_steady st' \<and> st_capacity st' = st_capacity st"
  using assms store_append_inv [OF assms(1)]
  by (auto simp: queue_steady_def lmqtt_store_append_def bind_eq_Some_conv Let_def simp del: arr_iffs split: if_splits option.splits
      dest!: set_arr_set)

lemma queue_pop_at:
  assumes "store_pop_at st p = Some (b, k, v, st')" and "queue_steady st"
  shows "queue_steady st' \<and> st_capacity st' = st_capacity st \<and> callable v"
proof -
  obtain ok k1 v1 where g: "lmqtt_store_get_at st p = Some (ok, k1, v1)"
    using assms(1) by (auto simp: store_pop_at_def bind_eq_Some_conv)
  note call = queue_get [OF assms(2) g]
  show ?thesis
    using assms g call store_pop_at_inv [OF assms(1)]
    by (auto simp: queue_steady_def store_pop_at_def bind_eq_Some_conv Let_def simp del: arr_iffs split: if_splits
        dest!: set_arr_move)
qed

lemma queue_pop_marked:
  assumes "lmqtt_store_pop_marked_by st k pid = Some (b, v, st')" and "queue_steady st"
  shows "queue_steady st' \<and> st_capacity st' = st_capacity st \<and> callable v"
  using assms by (auto simp: lmqtt_store_pop_marked_by_def bind_eq_Some_conv split: if_splits dest: queue_pop_at)

lemma queue_other:
  assumes "queue_steady st"
  shows "lmqtt_store_drop_current st = Some (b, st') \<Longrightarrow> queue_steady st' \<and> st_capacity st' = st_capacity st"
    and "lmqtt_store_delete_at st p = Some (b, st') \<Longrightarrow> queue_steady st' \<and> st_capacity st' = st_capacity st"
    and "lmqtt_store_shift st = Some (b, k, v, st') \<Longrightarrow> queue_steady st' \<and> st_capacity st' = st_capacity st \<and> callable v"
    and "lmqtt_store_touch gt st w = (st', w') \<Longrightarrow> queue_steady st' \<and> st_capacity st' = st_capacity st"
    and "queue_steady (snd (lmqtt_store_mark_current st)) \<and> st_capacity (snd (lmqtt_store_mark_current st)) = st_capacity st"
    and "queue_steady (lmqtt_store_unmark_all st)"
    and "queue_steady (st\<lparr>st_keep_alive := ka\<rparr>)" "queue_steady (st\<lparr>st_timeout := ka\<rparr>)"
  using assms store_unmark_inv [of st] store_mark_inv [of st]
  by (auto simp: lmqtt_store_drop_current_def lmqtt_store_delete_at_def lmqtt_store_shift_def bind_eq_Some_conv dest: queue_pop_at)
    (auto simp: queue_steady_def lmqtt_store_touch_def lmqtt_store_mark_current_def lmqtt_store_unmark_all_def store_inv_def
      split: prod.splits)

lemma queue_cleanup: "cleanup_loop n st i = Some st' \<Longrightarrow> queue_steady st \<Longrightarrow> queue_steady st' \<and> st_capacity st' = st_capacity st"
proof (induction n arbitrary: st i)
  case 0
  then show ?case by simp
next
  case (Suc n)
  obtain ok k v where g: "lmqtt_store_get_at st i = Some (ok, k, v)"
    using Suc.prems(1) by (auto simp: bind_eq_Some_conv)
  show ?case
  proof (cases "ok \<and> (k = KIND_PINGREQ \<or> k = KIND_DISCONNECT)")
    case True
    then obtain b st1 where d: "lmqtt_store_delete_at st i = Some (b, st1)" "cleanup_loop n st1 i = Some st'"
      using Suc.prems(1) g by (auto simp: bind_eq_Some_conv)
    show ?thesis using Suc.IH [OF d(2)] queue_other(2) [OF Suc.prems(2) d(1)] by simp
  next
    case False
    then show ?thesis using Suc g by (auto split: if_splits)
  qed
qed

section \<open>Encoders\<close>

text \<open>An encoder changes positions in strings, no lengths; the only error it reports is about a string.\<close>

definition encoder_steady :: "'w encoder \<Rightarrow> bool" where
  "encoder_steady encode \<longleftrightarrow> (\<forall>io v eb off room hp w res out eb' hp' w'.
     encode io v eb off room hp w = Some (res, out, eb', hp', w') \<longrightarrow> objects_steady hp \<longrightarrow> eb_error eb \<noteq> ERROR_CLOSED \<longrightarrow>
       objects_steady hp' \<and> dom hp' = dom hp \<and> eb_error eb' \<noteq> ERROR_CLOSED)"

definition builder_steady :: "builder \<Rightarrow> bool" where
  "builder_steady build \<longleftrightarrow> (\<forall>v hp eb eb'. build v hp eb = Some eb' \<longrightarrow> eb_error eb' = eb_error eb)"

lemma objects_connect:
  "objects_steady hp \<Longrightarrow> hp a = Some (OConnect c) \<Longrightarrow> lmqtt_connect_validate c \<and> cn_clean_session c = 0"
  by (fastforce simp: objects_steady_def)

lemma objects_other: "objects_steady hp \<Longrightarrow> hp a \<noteq> Some (OSubscribe x)" "objects_steady hp \<Longrightarrow> hp a \<noteq> Some (OPublish y)"
  by (fastforce simp: objects_steady_def)+

lemma objects_update:
  "objects_steady hp \<Longrightarrow> lmqtt_connect_validate c \<Longrightarrow> cn_clean_session c = 0 \<Longrightarrow> objects_steady (hp(a \<mapsto> OConnect c))"
  by (simp add: objects_steady_def)

lemma packet_id_builder: "encode_buffer_encode_packet_id eb ty len pid = Some eb' \<Longrightarrow> eb_error eb' = eb_error eb"
  by (auto simp: encode_buffer_encode_packet_id_def bind_eq_Some_conv Let_def simp del: arr_iffs)

lemma builders_steady:
  "builder_steady connect_build_fixed_header" "builder_steady connect_build_variable_header"
  "builder_steady subscribe_build_header_subscribe" "builder_steady subscribe_build_header_unsubscribe"
  "builder_steady subscribe_build_qos" "builder_steady publish_build_fixed_header" "builder_steady publish_build_packet_id"
  "builder_steady puback_build" "builder_steady pubrec_build" "builder_steady pubrel_build" "builder_steady pubcomp_build"
  "builder_steady pingreq_build" "builder_steady disconnect_build"
  by (auto simp: builder_steady_def connect_build_fixed_header_def connect_build_variable_header_def
      subscribe_build_header_subscribe_def subscribe_build_header_unsubscribe_def subscribe_build_qos_def
      publish_build_fixed_header_def publish_build_packet_id_def puback_build_def pubrec_build_def pubrel_build_def
      pubcomp_build_def pingreq_build_def disconnect_build_def bind_eq_Some_conv simp del: arr_iffs get_iffs
      dest: packet_id_builder)

lemma encode_built_steady: "builder_steady b \<Longrightarrow> encoder_steady (encode_built b)"
  by (auto simp: encoder_steady_def builder_steady_def encode_built_def encode_buffer_encode_def bind_eq_Some_conv Let_def
      encode_buffer_zero_def split: if_splits)

lemma string_read_len: "string_read io str k w = Some (r, bytes, e, str', w') \<Longrightarrow> str_len str' = str_len str"
  by (auto simp: string_read_def string_move_def bind_eq_Some_conv Let_def simp del: arr_iffs
      split: if_splits option.splits prod.splits)

lemma string_encode_steady:
  "string_encode io self str el ie off room eb w = Some (res, out, str', eb', w') \<Longrightarrow>
     str_len str' = str_len str \<and> (eb_error eb' = eb_error eb \<or> eb_error eb' = ERROR_ENCODE_STRING)"
  by (auto simp: string_encode_def bind_eq_Some_conv Let_def simp del: string_len_loop.simps
      split: if_splits sum.splits dest!: string_read_len)

lemma validate_strings:
  "str_len x = str_len (cn_client_id c) \<Longrightarrow> lmqtt_connect_validate (c\<lparr>cn_client_id := x\<rparr>) = lmqtt_connect_validate c"
  "str_len x = str_len (cn_will_topic c) \<Longrightarrow> lmqtt_connect_validate (c\<lparr>cn_will_topic := x\<rparr>) = lmqtt_connect_validate c"
  "str_len x = str_len (cn_will_message c) \<Longrightarrow> lmqtt_connect_validate (c\<lparr>cn_will_message := x\<rparr>) = lmqtt_connect_validate c"
  "str_len x = str_len (cn_user_name c) \<Longrightarrow> lmqtt_connect_validate (c\<lparr>cn_user_name := x\<rparr>) = lmqtt_connect_validate c"
  "str_len x = str_len (cn_password c) \<Longrightarrow> lmqtt_connect_validate (c\<lparr>cn_password := x\<rparr>) = lmqtt_connect_validate c"
  "lmqtt_connect_validate (c\<lparr>cn_session_present := b\<rparr>) = lmqtt_connect_validate c"
  by (simp_all add: lmqtt_connect_validate_def string_validate_field_length_def)

lemma connect_encoders_steady:
  "encoder_steady connect_encode_payload_client_id" "encoder_steady connect_encode_payload_will_topic"
  "encoder_steady connect_encode_payload_will_message" "encoder_steady connect_encode_payload_user_name"
  "encoder_steady connect_encode_payload_password"
  by (auto simp: encoder_steady_def string_encoder_defs bind_eq_Some_conv validate_strings
      intro!: objects_update dest!: string_encode_steady dest: objects_connect split: if_splits)

lemma other_encoders_steady:
  "encoder_steady subscribe_encode_topic" "encoder_steady publish_encode_topic" "encoder_steady publish_encode_payload"
  by (auto simp: encoder_steady_def string_encoder_defs bind_eq_Some_conv dest: objects_other)

lemmas encoders_steady = connect_encoders_steady other_encoders_steady

lemma finder_steady:
  assumes "tx_buffer_finder_by_kind k = Some finder" and "finder pos v hp = Some (e, hp')" and "objects_steady hp"
  shows "hp' = hp \<and> (\<forall>encode. e = Some encode \<longrightarrow> encoder_steady encode)"
  using assms objects_other [OF assms(3)]
  by (cases k) (auto simp: tx_buffer_finder_connect_def tx_buffer_finder_subscribe_def tx_buffer_finder_unsubscribe_def
      tx_buffer_finder_publish_def tx_buffer_finder_puback_def tx_buffer_finder_pubrec_def tx_buffer_finder_pubrel_def
      tx_buffer_finder_pubcomp_def tx_buffer_finder_pingreq_def tx_buffer_finder_disconnect_def built_encoder_defs
      encode_built_steady builders_steady encoders_steady bind_eq_Some_conv Let_def split: if_splits)

section \<open>A user that leaves the client alone\<close>

text \<open>The callbacks of the user may do what they like outside of the client; they return it unchanged.\<close>

locale passive_user =
  fixes env :: "'w env"
  assumes on_connect: "en_on_connect env f d v ok s = Some (b, s') \<Longrightarrow> \<exists>w. s' = s\<lparr>sy_world := w\<rparr>"
    and on_subscribe: "en_on_subscribe env f d v ok s = Some (b, s') \<Longrightarrow> \<exists>w. s' = s\<lparr>sy_world := w\<rparr>"
    and on_unsubscribe: "en_on_unsubscribe env f d v ok s = Some (b, s') \<Longrightarrow> \<exists>w. s' = s\<lparr>sy_world := w\<rparr>"
    and on_publish: "en_on_publish env f d v ok s = Some (b, s') \<Longrightarrow> \<exists>w. s' = s\<lparr>sy_world := w\<rparr>"
    and message: "en_message env f d s = Some (b, s') \<Longrightarrow> \<exists>w. s' = s\<lparr>sy_world := w\<rparr>"
begin

subsection \<open>Callbacks and stores\<close>

text \<open>A connected client was not closed, so it owes nothing to \<open>c\<close>.\<close>

lemma cleanup_stores_steady:
  assumes "client_cleanup_stores flush keep s = Some s'" and "steady f c s"
    and fl: "\<And>r s s'. flush r s = Some s' \<Longrightarrow> steady f c s \<Longrightarrow> steady f c s'"
  shows "steady f c s'"
proof (cases keep)
  case True
  then obtain st where "cleanup_loop (Suc (st_count (cl_main_store s))) (cl_main_store s) 0 = Some st"
      "flush CONNECT_STORE (s\<lparr>cl_main_store := st\<rparr>) = Some s'"
    using assms(1) by (auto simp: client_cleanup_stores_def bind_eq_Some_conv simp del: cleanup_loop.simps)
  then show ?thesis using fl steady_main_store [OF assms(2)] queue_cleanup steady_stores [OF assms(2)] by blast
next
  case False
  then show ?thesis
    using assms(1,2) by (auto simp: client_cleanup_stores_def bind_eq_Some_conv dest!: fl)
qed

lemma state_connected_steady:
  assumes "client_set_state_connected flush s = Some s'" and "steady f c s" and "\<not> cl_closed s"
    and fl: "\<And>r s s'. flush r s = Some s' \<Longrightarrow> steady f c s \<Longrightarrow> steady f c s'"
  shows "steady f c s'"
proof -
  let ?s1 = "s\<lparr>cl_error := NO_ERROR, cl_os_error := 0, cl_closed := False\<rparr>"
  have "steady f c ?s1" using assms(2,3) by (simp add: steady_def client_frame_def)
  then have s2: "steady f c (client_set_current_store MAIN_STORE ?s1)" by simp
  obtain s3 where s3: "client_cleanup_stores flush (cl_clean_session (client_set_current_store MAIN_STORE ?s1) = 0)
        (client_set_current_store MAIN_STORE ?s1) = Some s3"
      "s' = s3\<lparr>cl_main_store := lmqtt_store_unmark_all (cl_main_store s3),
      cl_op_subscribe := OP_DO, cl_op_unsubscribe := OP_DO, cl_op_publish := OP_DO, cl_op_pingreq := OP_DO, cl_op_disconnect := OP_DO\<rparr>"
    using assms(1) by (auto simp: client_set_state_connected_def bind_eq_Some_conv Let_def)
  have "steady f c s3" by (rule cleanup_stores_steady [OF s3(1) s2 fl])
  then show ?thesis unfolding s3(2) by (simp add: steady_main_store queue_other(6) steady_stores(2))
qed

lemma connack_callback_steady:
  assumes "client_on_connack flush env v s = Some (b, s')" and "steady f c s"
    and fl: "\<And>r s s'. flush r s = Some s' \<Longrightarrow> steady f c s \<Longrightarrow> steady f c s'"
  shows "steady f c s'"
proof (cases "cl_closed s")
  case True
  then show ?thesis using assms(1,2) by (auto simp: client_on_connack_def split: option.splits dest: on_connect)
next
  case False
  then obtain a cn where a: "get_connect (sy_heap s) v = Some (a, cn)"
    using assms(1) by (auto simp: client_on_connack_def bind_eq_Some_conv simp del: get_iffs)
  then have "cn_clean_session cn = 0" using assms(2) objects_connect by (auto simp: steady_def)
  then have "steady f c (s\<lparr>cl_clean_session := uint (cn_clean_session cn), cl_main_store := (cl_main_store s)\<lparr>st_keep_alive := cn_keep_alive cn\<rparr>\<rparr>)"
    using assms(2) queue_other(7) by (simp add: steady_def client_frame_def)
  then show ?thesis
    using assms(1) False a by (auto simp: client_on_connack_def bind_eq_Some_conv Let_def simp del: get_iffs
        split: option.splits dest!: on_connect state_connected_steady [OF _ _ _ fl])
qed

lemma value_callback_steady:
  assumes "value_callback flush env v s = Some (b, s')" and "steady f c s"
    and "\<And>r s s'. flush r s = Some s' \<Longrightarrow> steady f c s \<Longrightarrow> steady f c s'"
  shows "steady f c s'"
  using assms(1,2) connack_callback_steady [OF _ assms(2,3)]
  by (auto simp: value_callback_def entry_callback_call_def client_on_pingresp_def client_on_suback_def
      client_on_unsuback_def client_on_publish_def split: if_splits option.splits entry_callback.splits
      dest!: on_subscribe on_unsubscribe on_publish)

lemma flush_store_steady: "client_flush_store n env r s = Some s' \<Longrightarrow> steady f c s \<Longrightarrow> steady f c s'"
proof (induction n arbitrary: r s s')
  case 0
  then show ?case by simp
next
  case (Suc n)
  obtain ok k v st where sh: "lmqtt_store_shift (get_store r s) = Some (ok, k, v, st)"
    using Suc.prems(1) by (auto simp: bind_eq_Some_conv)
  have s1: "steady f c (set_store r st s)"
    using steady_set_store [OF Suc.prems(2)] queue_other(3) [OF steady_stores(1) [OF Suc.prems(2)] sh] by simp
  show ?case
  proof (cases ok)
    case False
    then show ?thesis using Suc.prems sh s1 by auto
  next
    case True
    then obtain b s2 where s2: "value_callback (client_flush_store n env) env v (set_store r st s) = Some (b, s2)"
        "client_flush_store n env r s2 = Some s'"
      using Suc.prems(1) sh by (auto simp: bind_eq_Some_conv)
    have "steady f c s2" by (rule value_callback_steady [OF s2(1) s1]) (rule Suc.IH)
    with Suc.IH [OF s2(2)] show ?thesis .
  qed
qed

lemmas callback_steady = value_callback_steady [OF _ _ flush_store_steady]

end

end
