(* ===== verification/Steady_Transfer.thy ===== *)
theory Steady_Transfer
  imports Steady_Client Result_Flags
begin

text \<open>
  A client whose user leaves it alone stays steady in the receive and the transmit buffer, the
  transfers and \<open>lmqtt_client_run_once\<close>; and when that reports an error or the end of the stream,
  the client is closed.
\<close>

section \<open>Small changes of the two buffers\<close>

lemma steady_rx [simp]: "rx_internal r = ri s \<Longrightarrow> steady f c (s\<lparr>cl_rx := r\<rparr>) = steady f c s"
  by (simp add: steady_def client_frame_def)

lemma set_store_rx: "set_store r st (s\<lparr>cl_rx := x\<rparr>) = set_store r st s\<lparr>cl_rx := x\<rparr>"
  by (cases r) (simp_all add: set_store_def)

lemmas steady_simps [simp] = steady_fail steady_tx_fail steady_reset

lemma steady_objects:
  assumes "steady f c s"
  shows "objects_steady (sy_heap s)" and "sy_heap s a \<noteq> Some (OSubscribe x)" and "sy_heap s a \<noteq> Some (OPublish y)"
    and "sy_heap s a = Some (OConnect cn) \<Longrightarrow> lmqtt_connect_validate cn \<and> cn_clean_session cn = 0"
  using assms objects_other objects_connect by (auto simp: steady_def)

lemma part_errors [simp]: "part_allocate_error part \<noteq> ERROR_CLOSED" "part_string_error part \<noteq> ERROR_CLOSED"
  by (cases part; simp)+

lemma header_error:
  assumes "fixed_header_decode h b = (h', r, e)" and "fh_error h \<noteq> ERROR_CLOSED"
  shows "e \<noteq> ERROR_CLOSED \<and> fh_error h' \<noteq> ERROR_CLOSED"
proof -
  have "fixed_header_first_byte h b = (x, y, z) \<Longrightarrow> z \<noteq> ERROR_CLOSED \<and> fh_error x = fh_error h" for x y z
    by (auto simp: fixed_header_first_byte_def Let_def split: if_splits)
  moreover have "fixed_header_length_byte h b = (x, y, z) \<Longrightarrow> z \<noteq> ERROR_CLOSED \<and> fh_error x = fh_error h" for x y z
    by (auto simp: fixed_header_length_byte_def Let_def split: if_splits)
  ultimately show ?thesis using assms by (fastforce simp: fixed_header_decode_def Let_def split: if_splits prod.splits)
qed

lemma connack_errors: "unat b \<le> connack_return_code_max \<Longrightarrow> b \<noteq> (0 :: byte) \<Longrightarrow> lmqtt_errors ! (error_connack_base + unat b) \<noteq> ERROR_CLOSED"
proof -
  assume "unat b \<le> connack_return_code_max" and "b \<noteq> 0"
  then have "unat b \<noteq> 0" and "unat b \<le> 5" by (simp_all add: connack_return_code_max_def unat_eq_0)
  then have "unat b = 1 \<or> unat b = 2 \<or> unat b = 3 \<or> unat b = 4 \<or> unat b = 5" by arith
  then show ?thesis by (auto simp: error_connack_base_def error_code_def lmqtt_errors_def)
qed

text \<open>The results on which a program gives up its connection.\<close>

definition res_ends :: "int \<Rightarrow> bool" where
  "res_ends res \<longleftrightarrow> res_is_error res \<or> res_is_eof_rd res \<or> res_is_eof_wr res"

context passive_user
begin

subsection \<open>Receiving\<close>

lemma rx_allocate_steady: "rx_buffer_allocate env when part len s = (ok, s') \<Longrightarrow> steady f c s \<Longrightarrow> steady f c s'"
  by (auto simp: rx_buffer_allocate_def Let_def split: option.splits if_splits prod.splits allocate_result.splits)

lemma rx_allocate_write_steady:
  "rx_buffer_allocate_write env when part len bytes s = Some (ok, cnt, s') \<Longrightarrow> steady f c s \<Longrightarrow> steady f c s'"
  by (auto simp: rx_buffer_allocate_write_def Let_def bind_eq_Some_conv split: if_splits prod.splits
      string_result.splits dest!: rx_allocate_steady) (metis string_result.exhaust)+

lemma rx_deallocate_steady: "steady f c s \<Longrightarrow> steady f c (rx_buffer_deallocate_publish env s)"
  by (auto simp: rx_buffer_deallocate_publish_def Let_def split: option.splits prod.splits)

lemma connack_steady: "rx_buffer_decode_connack bytes s = Some (r, cnt, s') \<Longrightarrow> steady f c s \<Longrightarrow> steady f c s'"
  by (auto simp: rx_buffer_decode_connack_def Let_def bind_eq_Some_conv validate_strings connack_errors split: if_splits
      intro!: steady_heap objects_update dest: steady_objects)

lemma suback_steady: "rx_buffer_decode_suback bytes s = Some (r, cnt, s') \<Longrightarrow> steady f c s \<Longrightarrow> steady f c s'"
  by (auto simp: rx_buffer_decode_suback_def Let_def bind_eq_Some_conv simp del: arr_iffs split: if_splits
      dest: steady_objects(2))

lemma publish_bytes_steady:
  "rx_buffer_publish_bytes env rem_len p_len bytes s = Some (ok, cnt, s') \<Longrightarrow> steady f c s \<Longrightarrow> steady f c s'"
  by (auto simp: rx_buffer_publish_bytes_def Let_def bind_eq_Some_conv split: if_splits
      dest!: rx_allocate_write_steady intro: rx_deallocate_steady)

lemma publish_deliver_steady:
  "rx_buffer_publish_deliver env qos s = Some (r, s') \<Longrightarrow> steady f c s \<Longrightarrow> steady f c s'"
  by (auto simp: rx_buffer_publish_deliver_def Let_def bind_eq_Some_conv split: if_splits option.splits
      dest!: message intro!: rx_deallocate_steady steady_fail)

lemma append_steady:
  assumes "lmqtt_store_append (get_store r s) k v = Some (b, st)" and "steady f c s" and "\<forall>x. v = Some x \<longrightarrow> callable x"
  shows "steady f c (set_store r st s)"
  using queue_append [OF assms(1) steady_stores(1) [OF assms(2)] assms(3)] steady_set_store [OF assms(2)] by simp

lemma publish_finish_steady:
  assumes "rx_buffer_publish_finish env qos s = Some (r, s')" and "steady f c s"
  shows "steady f c s'"
  using assms
  by (auto simp: rx_buffer_publish_finish_def Let_def bind_eq_Some_conv simp del: arr_iffs split: if_splits
      dest!: publish_deliver_steady append_steady intro!: rx_deallocate_steady steady_fail)

lemma decode_publish_steady:
  "rx_buffer_decode_publish env bytes s = Some (r, cnt, s') \<Longrightarrow> steady f c s \<Longrightarrow> steady f c s'"
  by (auto simp: rx_buffer_decode_publish_def Let_def bind_eq_Some_conv split: if_splits
      dest!: publish_bytes_steady dest: publish_finish_steady)

lemma pop_packet_steady:
  assumes "rx_buffer_pop_packet d pid s = Some (ok, s')" and "steady f c s"
  shows "steady f c s'"
proof -
  let ?r = "rx_store (cl_rx s)"
  obtain b v st where p: "lmqtt_store_pop_marked_by (get_store ?r s) (decoder_kind d) pid = Some (b, v, st)"
    using assms(1) by (auto simp: rx_buffer_pop_packet_def bind_eq_Some_conv Let_def)
  note q = queue_pop_marked [OF p steady_stores(1) [OF assms(2)]]
  then have "steady f c (set_store ?r st s)" using steady_set_store [OF assms(2)] by simp
  then have "steady f c (upd_ri (\<lambda>i. i\<lparr>ri_value := v\<rparr>) (set_store ?r st s))"
    using q steady_internal(1) [OF assms(2)] by (intro steady_upd_ri) (simp_all add: ri_steady_def)
  then show ?thesis using assms(1) p by (auto simp: rx_buffer_pop_packet_def bind_eq_Some_conv Let_def split: if_splits)
qed

lemma pubrel_steady: "rx_buffer_pubrel s = Some (ok, s') \<Longrightarrow> steady f c s \<Longrightarrow> steady f c s'"
  by (auto simp: rx_buffer_pubrel_def bind_eq_Some_conv Let_def set_store_rx split: if_splits dest!: append_steady intro!: steady_fail)

lemma rx_pop_steady: "rx_buffer_pop p d s = Some (ok, s') \<Longrightarrow> steady f c s \<Longrightarrow> steady f c s'"
  by (cases p) (auto simp: rx_buffer_pop_def dest: pop_packet_steady pubrel_steady)

lemma decode_type_steady:
  "rx_buffer_decode_type env d bytes s = Some (r, cnt, s') \<Longrightarrow> steady f c s \<Longrightarrow> steady f c s'"
  by (cases d) (auto simp: rx_buffer_decode_type_def dest: connack_steady suback_steady decode_publish_steady)

lemma without_id_steady:
  "rx_buffer_decode_remaining_without_id env d bytes s = Some (r, cnt, s') \<Longrightarrow> steady f c s \<Longrightarrow> steady f c s'"
  by (auto simp: rx_buffer_decode_remaining_without_id_def bind_eq_Some_conv Let_def split: if_splits
      dest: decode_type_steady)

lemma remaining_steady:
  "decoder_decode_remaining env d bytes s = Some (r, cnt, s') \<Longrightarrow> steady f c s \<Longrightarrow> steady f c s'"
  by (auto simp: decoder_decode_remaining_def rx_buffer_decode_remaining_with_id_def bind_eq_Some_conv Let_def
      split: if_splits dest: without_id_steady dest!: rx_pop_steady)

lemma header_byte_steady:
  assumes "rx_buffer_header_byte b s = Some (r, cnt, s')" and "steady f c s"
  shows "steady f c s'"
proof -
  obtain header res err where h: "fixed_header_decode (ri_header (ri s)) b = (header, res, err)"
    by (cases "fixed_header_decode (ri_header (ri s)) b") auto
  have e: "err \<noteq> ERROR_CLOSED" "fh_error header \<noteq> ERROR_CLOSED"
    using header_error [OF h] steady_internal(1) [OF assms(2)] by (simp_all add: ri_steady_def)
  let ?s1 = "upd_ri (\<lambda>i. i\<lparr>ri_header := header\<rparr>) s"
  have s1: "steady f c ?s1"
    using e(2) steady_internal(1) [OF assms(2)] assms(2) by (intro steady_upd_ri) (simp_all add: ri_steady_def)
  show ?thesis
  proof (cases "res = DECODE_FINISHED")
    case False
    then show ?thesis using assms h s1 e(1) by (auto simp: rx_buffer_header_byte_def Let_def split: if_splits)
  next
    case True
    then obtain decoder where d: "arr_get rx_buffer_decoders (nat (fh_type header)) = Some decoder"
      using assms h by (auto simp: rx_buffer_header_byte_def bind_eq_Some_conv Let_def simp del: arr_iffs)
    let ?s2 = "upd_ri (\<lambda>i. i\<lparr>ri_header_finished := True, ri_decoder := decoder\<rparr>) ?s1"
    have s2: "steady f c ?s2" by (subst steady_ri_same) (use s1 in simp_all)
    show ?thesis
      using assms(1) h True d s2
      by (cases decoder) (auto simp: rx_buffer_header_byte_def bind_eq_Some_conv Let_def simp del: arr_iffs steady_ri_same
        split: if_splits dest: rx_pop_steady)
  qed
qed

lemma rest_bytes_steady:
  "rx_buffer_rest_bytes env bytes s = Some (r, cnt, s') \<Longrightarrow> steady f c s \<Longrightarrow> steady f c s'"
  by (auto simp: rx_buffer_rest_bytes_def bind_eq_Some_conv split: if_splits dest!: remaining_steady)

lemma decoder_errors [simp]: "decoder_callback_error d \<noteq> ERROR_CLOSED"
  by (cases d) simp_all

lemma finish_packet_steady:
  assumes "rx_buffer_finish_packet n env s = Some (ok, s')" and "steady f c s"
  shows "steady f c s'"
  using assms steady_internal(1) [OF assms(2)]
  by (auto simp: rx_buffer_finish_packet_def rx_buffer_call_callback_def bind_eq_Some_conv Let_def ri_steady_def split: if_splits
      dest!: callback_steady append_steady)

lemma decode_loop_steady:
  "rx_buffer_decode_loop n env bytes cnt s = Some (ok, cnt', s') \<Longrightarrow> steady f c s \<Longrightarrow> steady f c s'"
proof (induction n arbitrary: bytes cnt s)
  case 0
  then show ?case by simp
next
  case (Suc n)
  then show ?case
    by (auto simp: rx_buffer_decode_loop.simps(2) bind_eq_Some_conv split: if_splits
        dest!: rest_bytes_steady header_byte_steady finish_packet_steady Suc.IH)
qed

lemma rx_decode_steady:
  "lmqtt_rx_buffer_decode n env bytes s = Some (r, cnt, s') \<Longrightarrow> steady f c s \<Longrightarrow> steady f c s'"
  by (auto simp: lmqtt_rx_buffer_decode_def bind_eq_Some_conv split: if_splits dest!: decode_loop_steady)

subsection \<open>Sending\<close>

lemma packet_done_steady:
  assumes "tx_buffer_packet_done n env k v s = Some (ok, s')" and "steady f c s"
  shows "steady f c s'"
proof -
  let ?r = "tx_store (cl_tx s)"
  have drop: "lmqtt_store_drop_current (get_store ?r s) = Some (b, st) \<Longrightarrow> steady f c (set_store ?r st s)" for b st
    using queue_other(1) [OF steady_stores(1) [OF assms(2)]] steady_set_store [OF assms(2)] by blast
  have mark: "steady f c (set_store ?r (snd (lmqtt_store_mark_current (get_store ?r s))) s)"
    using queue_other(5) [OF steady_stores(1) [OF assms(2)]] steady_set_store [OF assms(2)] by blast
  show ?thesis
    using assms(1) mark by (auto simp: tx_buffer_packet_done_def bind_eq_Some_conv Let_def split: if_splits
        dest!: drop dest: callback_steady intro!: steady_tx_fail steady_reset(2))
qed

lemma packet_loop_steady:
  assumes "tx_buffer_finder_by_kind k = Some finder"
  shows "tx_buffer_packet_loop n env k finder v len out s = Some r \<Longrightarrow> steady f c s \<Longrightarrow>
    (case r of Inl (res, out', s') \<Rightarrow> steady f c s' | Inr (out', s') \<Rightarrow> steady f c s')"
proof (induction n arbitrary: out s)
  case 0
  then show ?case by simp
next
  case (Suc n)
  obtain e hp where "finder (ti_pos (ti s)) v (sy_heap s) = Some (e, hp)"
    using Suc.prems(1) by (auto simp: bind_eq_Some_conv)
  with finder_steady [OF assms this] steady_objects(1) [OF Suc.prems(2)]
  have e: "finder (ti_pos (ti s)) v (sy_heap s) = Some (e, sy_heap s)" "\<And>encode. e = Some encode \<Longrightarrow> encoder_steady encode"
    by auto
  show ?case
  proof (cases e)
    case None
    then show ?thesis
      using Suc.prems e by (auto simp: bind_eq_Some_conv split: if_splits dest!: packet_done_steady)
  next
    case (Some encode)
    obtain res bytes eb hp' w' where r: "encode (en_io env) v (ti_buffer (ti s)) (ti_offset (ti s)) (len - length out) (sy_heap s)
        (sy_world s) = Some (res, bytes, eb, hp', w')"
      using Suc.prems(1) e Some by (auto simp: bind_eq_Some_conv Let_def)
    let ?s2 = "(upd_ti (\<lambda>t. t\<lparr>ti_buffer := eb\<rparr>) s)\<lparr>sy_heap := hp', sy_world := w'\<rparr>"
    have h: "objects_steady hp'" "dom hp' = dom (sy_heap s)" "eb_error eb \<noteq> ERROR_CLOSED"
      using e(2) [OF Some] r steady_objects(1) [OF Suc.prems(2)] steady_internal(2) [OF Suc.prems(2)]
      unfolding encoder_steady_def ti_steady_def by blast+
    have "steady f c (upd_ti (\<lambda>t. t\<lparr>ti_buffer := eb\<rparr>) s)"
      using h(3) steady_internal(2) [OF Suc.prems(2)] Suc.prems(2) by (intro steady_upd_ti) (simp_all add: ti_steady_def)
    then have s2: "steady f c ?s2" using h(1,2) steady_heap by (simp add: upd_ti_def steady_heap)
    have more: "steady f c (upd_ti g ?s2)" if "\<And>t. ti_error (g t) = ti_error t" "\<And>t. ti_buffer (g t) = ti_buffer t" for g
      using s2 that by (subst steady_ti_same) simp_all
    have fail: "steady f c (tx_buffer_fail (eb_error eb) os ?s2)" for os using steady_tx_fail [OF s2 h(3)] .
    show ?thesis
      using Suc.prems(1) e(1) Some r s2 fail more Suc.IH [OF _ more] by (cases res) (auto simp: Let_def simp del: steady_ti_same steady_simps)
  qed
qed

lemma encode_loop_steady:
  "tx_buffer_encode_loop n env len out s = Some (res, out', s') \<Longrightarrow> steady f c s \<Longrightarrow> steady f c s'"
proof (induction n arbitrary: out s)
  case 0
  then show ?case by simp
next
  case (Suc n)
  obtain ok k v where p: "(if tx_closed (cl_tx s) then Some (False, KIND_NONE, store_value_zero)
         else lmqtt_store_peek (get_store (tx_store (cl_tx s)) s)) = Some (ok, k, v)"
    using Suc.prems(1) by (auto simp: bind_eq_Some_conv)
  show ?case
  proof (cases ok)
    case False
    then show ?thesis using Suc.prems p by auto
  next
    case True
    then obtain finder r where r: "tx_buffer_finder_by_kind k = Some finder"
        "tx_buffer_packet_loop n env k finder v len out s = Some r"
        "(case r of Inl res \<Rightarrow> Some res | Inr (out', s') \<Rightarrow> tx_buffer_encode_loop n env len out' s') = Some (res, out', s')"
      using Suc.prems(1) p by (auto simp: bind_eq_Some_conv)
    show ?thesis
      using packet_loop_steady [OF r(1,2) Suc.prems(2)] r(3) Suc.IH by (cases r) auto
  qed
qed

lemma tx_encode_steady:
  "lmqtt_tx_buffer_encode n env len s = Some (res, out, s') \<Longrightarrow> steady f c s \<Longrightarrow> steady f c s'"
  by (auto simp: lmqtt_tx_buffer_encode_def split: if_splits dest: encode_loop_steady)

subsection \<open>The states of the client\<close>

lemma set_state_initial_steady:
  assumes "client_set_state_initial n env s = Some s'" and "steady f c s"
  shows "steady f True s'"
proof -
  let ?s1 = "s\<lparr>cl_error := NO_ERROR, cl_os_error := 0, cl_closed := True\<rparr>"
  obtain st w where t: "lmqtt_store_touch (en_get_time env) (cl_connect_store s) (sy_world s) = (st, w)"
    by (cases "lmqtt_store_touch (en_get_time env) (cl_connect_store s) (sy_world s)") auto
  have q: "queue_steady st" "st_capacity st = st_capacity (cl_connect_store s)"
    using queue_other(4) [OF steady_stores(3) [OF assms(2)] t] by simp_all
  have "steady f True ?s1" using assms(2) by (simp add: steady_def client_frame_def)
  then have "steady f True (?s1\<lparr>cl_connect_store := st\<rparr>)" using q by (intro steady_connect_store) simp_all
  then have s3: "steady f True (client_set_current_store CONNECT_STORE (?s1\<lparr>cl_connect_store := st, sy_world := w\<rparr>))" by simp
  obtain s4 where s4: "client_cleanup_stores (client_flush_store n env)
        (cl_clean_session (client_set_current_store CONNECT_STORE (?s1\<lparr>cl_connect_store := st, sy_world := w\<rparr>)) = 0)
        (client_set_current_store CONNECT_STORE (?s1\<lparr>cl_connect_store := st, sy_world := w\<rparr>)) = Some s4"
      "s' = set_ops_fail ((lmqtt_tx_buffer_finish s4)\<lparr>cl_op_connect := OP_DO\<rparr>)"
    using assms(1) t by (auto simp: client_set_state_initial_def bind_eq_Some_conv Let_def)
  have "steady f True s4" by (rule cleanup_stores_steady [OF s4(1) s3 flush_store_steady])
  then show ?thesis unfolding s4(2) by simp
qed

text \<open>The one moment when a client with an error is not closed is before \<open>client_set_state_failed\<close>.\<close>

lemma set_state_failed_steady:
  assumes "client_set_state_failed (s\<lparr>cl_error := e, cl_os_error := os\<rparr>) = Some s'" and "steady f c s" and "e \<noteq> ERROR_CLOSED"
  shows "steady f True s'"
  using assms by (auto simp: client_set_state_failed_def bind_eq_Some_conv steady_def client_frame_def set_ops_fail_def)

subsection \<open>Transfers\<close>

definition wrapper_steady :: "'w transfer_wrapper \<Rightarrow> bool" where
  "wrapper_steady wr \<longleftrightarrow> (\<forall>region s res bytes cnt err os s' f c.
     wr region s = Some (res, bytes, cnt, err, os, s') \<longrightarrow> steady f c s \<longrightarrow> steady f c s' \<and> err \<noteq> ERROR_CLOSED)"

lemma get_errors_steady:
  assumes "steady f c s"
  shows "fst (lmqtt_rx_buffer_get_error s) \<noteq> ERROR_CLOSED" and "fst (lmqtt_tx_buffer_get_error s) \<noteq> ERROR_CLOSED"
  using steady_internal [OF assms]
  by (simp_all add: lmqtt_rx_buffer_get_error_def lmqtt_tx_buffer_get_error_def ri_steady_def ti_steady_def)

lemma wrappers_steady:
  "wrapper_steady (client_wrapper_read env)" "wrapper_steady (client_wrapper_write env)"
  "wrapper_steady (client_wrapper_encode n env)" "wrapper_steady (client_wrapper_decode n env)"
proof -
  show "wrapper_steady (client_wrapper_read env)" "wrapper_steady (client_wrapper_write env)"
    by (auto simp: wrapper_steady_def client_wrapper_read_def client_wrapper_write_def bind_eq_Some_conv Let_def split: prod.split_asm)
  show "wrapper_steady (client_wrapper_encode n env)" "wrapper_steady (client_wrapper_decode n env)"
    unfolding wrapper_steady_def client_wrapper_encode_def client_wrapper_decode_def
    by (auto simp: bind_eq_Some_conv split: prod.split_asm dest: rx_decode_steady tx_encode_steady)
      (metis fst_conv get_errors_steady rx_decode_steady tx_encode_steady)+
qed

lemma after_steady:
  "transfer_append t b s = Some s' \<Longrightarrow> steady f c s' = steady f c s"
  "transfer_shift t b s = Some s' \<Longrightarrow> steady f c s' = steady f c s"
  by (auto simp: transfer_append_def transfer_shift_def bind_eq_Some_conv simp del: arr_iffs)

text \<open>A transfer that fails leaves a steady client but for the error, which is not yet acted on.\<close>

definition steady_but_error :: "client_frame \<Rightarrow> bool \<Rightarrow> 'w sys \<Rightarrow> bool" where
  "steady_but_error f c s \<longleftrightarrow> (\<exists>s1 e os. s = s1\<lparr>cl_error := e, cl_os_error := os\<rparr> \<and> steady f c s1 \<and> e \<noteq> ERROR_CLOSED)"

lemma exec_steady:
  assumes "transfer_exec t b after left right s = Some (ok, t', s')" and "steady f c s"
    and w: "wrapper_steady (tr_wrapper t)"
    and after: "\<And>t s s'. after t b s = Some s' \<Longrightarrow> steady f c s' = steady f c s"
  shows "(if ok then steady f c s' else steady_but_error f c s') \<and> tr_wrapper t' = tr_wrapper t \<and>
    tr_block_status t' = tr_block_status t"
proof (cases "tr_available t \<and> left < right")
  case False
  then show ?thesis
    using assms(1,2) by (auto simp: transfer_exec_def bind_eq_Some_conv Let_def steady_but_error_def split: if_splits)
next
  case True
  then obtain region res bytes cnt err os s1 buf s2 where r: "arr_slice (get_buf b s) left (right - left) = Some region"
      "tr_wrapper t region s = Some (res, bytes, cnt, err, os, s1)" "arr_write (get_buf b s1) left bytes = Some buf"
      "after (t\<lparr>tr_available := True, tr_result := res, tr_count := cnt\<rparr>) b (set_buf b buf s1) = Some s2"
    using assms(1) by (auto simp: transfer_exec_def bind_eq_Some_conv Let_def simp del: arr_iffs)
  have "steady f c s1" "err \<noteq> ERROR_CLOSED" using w r(2) assms(2) unfolding wrapper_steady_def by blast+
  moreover from this have "steady f c s2" using after [OF r(4)] by simp
  ultimately show ?thesis
    using assms(1) True r by (auto simp: transfer_exec_def bind_eq_Some_conv Let_def steady_but_error_def simp del: arr_iffs
        split: if_splits)
qed

lemma transfer_loop_steady:
  "transfer_loop n b tin tout s = Some (ok, tin', tout', s') \<Longrightarrow> steady f c s \<Longrightarrow>
     wrapper_steady (tr_wrapper tin) \<Longrightarrow> wrapper_steady (tr_wrapper tout) \<Longrightarrow>
     (if ok then steady f c s' else steady_but_error f c s') \<and> tr_block_status tin' = tr_block_status tin \<and>
       tr_block_status tout' = tr_block_status tout"
proof (induction n arbitrary: tin tout s)
  case 0
  then show ?case by simp
next
  case (Suc n)
  show ?case
  proof (cases "\<not> tr_available tin \<and> \<not> tr_available tout")
    case True
    then show ?thesis using Suc.prems by auto
  next
    case False
    then obtain ok1 tin1 s1 where s1: "transfer_exec tin b transfer_append (get_buf_pos b s) (get_buf_capacity b s) s =
        Some (ok1, tin1, s1)"
      using Suc.prems(1) by (auto simp: bind_eq_Some_conv split: if_splits)
    note k1 = exec_steady [OF s1 Suc.prems(2,3) after_steady(1)]
    show ?thesis
    proof (cases ok1)
      case no: False
      then show ?thesis using Suc.prems(1) False s1 k1 by (auto split: if_splits)
    next
      case True
      then have st1: "steady f c s1" using k1 by simp
      obtain ok2 tout1 s2 where s2: "transfer_exec tout b transfer_shift 0 (get_buf_pos b s1) s1 = Some (ok2, tout1, s2)"
        using Suc.prems(1) False s1 True by (auto simp: bind_eq_Some_conv split: if_splits)
      note k2 = exec_steady [OF s2 st1 Suc.prems(4) after_steady(2)]
      show ?thesis
        using Suc.prems False s1 s2 True k1 k2 Suc.IH [of tin1 tout1 s2] by (auto split: if_splits)
    qed
  qed
qed

lemma buffer_transfer_steady:
  assumes "client_buffer_transfer n env input output b s = Some (st, s')" and "steady f c s"
    and w: "wrapper_steady (tr_wrapper input)" "wrapper_steady (tr_wrapper output)"
    and block: "{tr_block_status input, tr_block_status output} \<subseteq> {STATUS_BLOCK_CONN, STATUS_BLOCK_DATA}"
  shows "steady f (c \<or> st = STATUS_READY \<or> st = STATUS_ERROR) s'"
proof (cases "cl_error s \<noteq> NO_ERROR")
  case True
  then show ?thesis using assms(1,2) by (auto simp: client_buffer_transfer_def steady_def)
next
  case False
  then obtain ok input1 output1 s1 where s1: "transfer_loop n b input output s = Some (ok, input1, output1, s1)"
    using assms(1) by (auto simp: client_buffer_transfer_def bind_eq_Some_conv)
  note k1 = transfer_loop_steady [OF s1 assms(2) w]
  show ?thesis
  proof (cases ok)
    case no: False
    then obtain s2 where s2: "client_set_state_failed s1 = Some s2" "s' = s2"
      using assms(1) False s1 by (auto simp: client_buffer_transfer_def bind_eq_Some_conv)
    have "steady f True s2" using k1 s2(1) no by (auto simp: steady_but_error_def dest: set_state_failed_steady)
    then show ?thesis using s2(2) by (auto simp: steady_def)
  next
    case yes: True
    let ?r = "cl_current_store s1"
    obtain st1 w1 where t: "lmqtt_store_touch (en_get_time env) (get_store ?r s1) (sy_world s1) = (st1, w1)"
      by (cases "lmqtt_store_touch (en_get_time env) (get_store ?r s1) (sy_world s1)") auto
    have k0: "steady f c s1" using k1 yes by simp
    have k: "steady f c (set_store ?r st1 s1)"
      using queue_other(4) [OF steady_stores(1) [OF k0] t] steady_set_store [OF k0] by simp
    have "client_set_state_initial n env x = Some y \<Longrightarrow> steady f c x \<Longrightarrow> steady f True y" for x y
      by (rule set_state_initial_steady)
    then show ?thesis
      using assms(1) False s1 yes k0 k t k1 block
      by (auto simp: client_buffer_transfer_def bind_eq_Some_conv Let_def split: if_splits)
  qed
qed

lemma process_steady:
  assumes "steady f c s"
  shows "client_process_input n env s = Some (st, s') \<Longrightarrow> steady f (c \<or> st = STATUS_READY \<or> st = STATUS_ERROR) s'"
    and "client_process_output n env s = Some (st, s') \<Longrightarrow> steady f (c \<or> st = STATUS_READY \<or> st = STATUS_ERROR) s'"
  unfolding client_process_input_def client_process_output_def
  by (erule buffer_transfer_steady; simp add: assms wrappers_steady transfer_initialize_def)+

subsection \<open>One step of the client\<close>

lemma pingreq_steady: "call_op p client_do_pingreq s = Some (b, s') \<Longrightarrow> steady f c s \<Longrightarrow> steady f c s'"
  by (auto simp: call_op_def client_do_pingreq_def bind_eq_Some_conv callable_def split: op_ptr.splits
      intro!: steady_main_store dest!: queue_append [OF _ steady_stores(2)])

lemma keep_alive_steady:
  assumes "client_keep_alive env s = Some (st, s')" and "steady f c s"
  shows "steady f (c \<or> st = STATUS_ERROR) s'"
proof (cases "cl_error s \<noteq> NO_ERROR")
  case True
  then show ?thesis using assms by (auto simp: client_keep_alive_def steady_def)
next
  case False
  then show ?thesis
    using assms by (auto simp: client_keep_alive_def bind_eq_Some_conv Let_def split: if_splits prod.splits
        dest!: pingreq_steady set_state_failed_steady intro: steady_weaken)
qed

lemma process_buffer_steady:
  assumes "client_process_buffer process conn data blocking rv blk s = Some (go, rv', blk', s')"
    and "\<And>st s'. process s = Some (st, s') \<Longrightarrow> steady f (c \<or> st = STATUS_READY \<or> st = STATUS_ERROR) s'"
  shows "steady f (c \<or> \<not> go) s'"
proof -
  obtain st s1 where st: "process s = Some (st, s1)"
    using assms(1) by (auto simp: client_process_buffer_def bind_eq_Some_conv)
  then show ?thesis
    using assms(1) assms(2) [OF st] by (cases st) (auto simp: client_process_buffer_def bind_eq_Some_conv)
qed

lemma run_once_loop_steady:
  "run_once_loop n env s = Some (res, rd, wr, s') \<Longrightarrow> steady f c s \<Longrightarrow> steady f (c \<or> res_ends res) s'"
proof (induction n arbitrary: s)
  case 0
  then show ?case by simp
next
  case (Suc n)
  obtain go r1 rd1 s1 where o: "client_process_buffer (client_process_output n env)
         RES_WOULD_BLOCK_CONN_WR RES_WOULD_BLOCK_DATA_RD lmqtt_tx_buffer_get_blocking_str 0 None s = Some (go, r1, rd1, s1)"
    using Suc.prems by (auto simp: bind_eq_Some_conv)
  have k1: "steady f (c \<or> \<not> go) s1" by (rule process_buffer_steady [OF o]) (rule process_steady(2) [OF Suc.prems(2)])
  note half1 = process_buffer_result [OF o]
  show ?case
  proof (cases go)
    case False
    then show ?thesis using Suc.prems(1) o k1 by (auto intro: steady_weaken simp: steady_def)
  next
    case True
    then obtain go' r2 wr1 s2 where i: "client_process_buffer (client_process_input n env)
           RES_WOULD_BLOCK_CONN_RD RES_WOULD_BLOCK_DATA_WR lmqtt_rx_buffer_get_blocking_str r1 None s1 = Some (go', r2, wr1, s2)"
      using Suc.prems o by (auto simp: bind_eq_Some_conv)
    have "steady f c s1" using k1 True by simp
    then have k2: "steady f (c \<or> \<not> go') s2"
      by (intro process_buffer_steady [OF i]) (rule process_steady(1))
    note half2 = process_buffer_result [OF i]
    show ?thesis
    proof (cases go')
      case no: False
      then show ?thesis using Suc.prems o i True k2 by (auto simp: bind_eq_Some_conv steady_def)
    next
      case yes: True
      then have goes_on: "\<not> res_ends (if q then r2 OR RES_QUEUEABLE else r2)" for q
        using half1 half2 True open_values [of r1 rd1 r2 wr1 q] by (simp add: open_result_def res_ends_def)
      have k: "steady f c s2" using k2 yes by simp
      show ?thesis
        using Suc.prems(1) o i True yes k goes_on [of True] goes_on [of False] Suc.IH [OF _ k]
        by (auto simp: bind_eq_Some_conv split: if_split_asm)
    qed
  qed
qed

lemma run_once_steady:
  assumes "lmqtt_client_run_once n env s = Some (res, rd, wr, s')" and "steady f c s"
  shows "steady f (c \<or> res_ends res) s'"
proof -
  obtain st s1 where st: "client_keep_alive env s = Some (st, s1)"
    using assms(1) by (auto simp: lmqtt_client_run_once_def bind_eq_Some_conv)
  note k = keep_alive_steady [OF st assms(2)]
  show ?thesis
  proof (cases "st = STATUS_ERROR")
    case True
    then show ?thesis using k assms(1) st by (auto simp: lmqtt_client_run_once_def bind_eq_Some_conv steady_def)
  next
    case False
    then show ?thesis using k assms(1) st run_once_loop_steady by (simp add: lmqtt_client_run_once_def bind_eq_Some_conv)
  qed
qed

end

end
