(* ===== verification/Reconnect_Recovery.thy ===== *)
theory Reconnect_Recovery
  imports Reconnect Client_States World_Keeping Steady_Transfer
begin

text \<open>
  What \<open>examples/reconnect.c\<close> relies on: a client without a connection, as it is after its
  initialization and after a failure, comes back with the next socket. It keeps its requests and
  sends a CONNECT first. That the client of the program is always steady, and closed whenever the
  program has no socket, is an invariant of its loop.
\<close>

section \<open>A client that is down\<close>

definition rc_frame :: client_frame where
  "rc_frame = ({CONNECT_DATA}, Some FN_ON_CONNECT, None, None, None, 1)"

text \<open>The invariant of the program: without a socket, the client is closed.\<close>

definition rc_steady :: "'o rc_world sys \<Rightarrow> bool" where
  "rc_steady s \<longleftrightarrow> steady rc_frame (rc_socket_fd (sy_world s) = -1) s"

lemma same_sys: "\<exists>w. s = s\<lparr>sy_world := w\<rparr>"
  by (rule exI [of _ "sy_world s"]) simp

interpretation rc_user: passive_user "rc_env os" for os :: "'o os"
  by unfold_locales (auto simp: rc_env_def rc_on_connect_def split: if_splits intro: same_sys)

interpretation rc_fd: world_keeper "rc_env os" "\<lambda>w. rc_socket_fd w = fd" for os :: "'o os" and fd
  by unfold_locales (auto simp: rc_env_def rc_on_connect_def split: prod.splits if_splits)

lemma rc_frameD:
  assumes "steady rc_frame c s"
  shows "cl_on_connect s = Some FN_ON_CONNECT" "cl_on_subscribe s = None" "cl_on_unsubscribe s = None" "cl_on_publish s = None"
    and "st_capacity (cl_connect_store s) = 1"
    and "\<exists>cn. sy_heap s CONNECT_DATA = Some (OConnect cn) \<and> lmqtt_connect_validate cn"
proof -
  have f: "client_frame s = rc_frame" using assms by (simp add: steady_def)
  then show "cl_on_connect s = Some FN_ON_CONNECT" "cl_on_subscribe s = None" "cl_on_unsubscribe s = None" "cl_on_publish s = None"
      "st_capacity (cl_connect_store s) = 1"
    by (simp_all add: client_frame_def rc_frame_def)
  from f have "CONNECT_DATA \<in> dom (sy_heap s)" by (simp add: client_frame_def rc_frame_def)
  then show "\<exists>cn. sy_heap s CONNECT_DATA = Some (OConnect cn) \<and> lmqtt_connect_validate cn"
    using steady_objects(1) [OF assms] unfolding objects_steady_def by blast
qed

text \<open>The requests for a connection that failed are dropped; \<open>on_connect\<close> hears of each CONNECT.\<close>

lemma closed_callback:
  assumes "callable v" and "cl_closed s" and "cl_on_connect s = Some FN_ON_CONNECT"
    and "cl_on_subscribe s = None" and "cl_on_unsubscribe s = None" and "cl_on_publish s = None"
  shows "value_callback flush (rc_env os) v s = Some (True, s)"
  using assms by (auto simp: callable_def value_callback_def entry_callback_call_def client_on_connack_def client_on_pingresp_def
      client_on_suback_def client_on_unsuback_def client_on_publish_def rc_env_def rc_on_connect_def
      split: option.split entry_callback.split)

lemma flush_connects:
  assumes "steady rc_frame True s" and "st_count (cl_connect_store s) < n"
  shows "\<exists>st. client_flush_store n (rc_env os) CONNECT_STORE s = Some (s\<lparr>cl_connect_store := st\<rparr>) \<and>
    store_inv st \<and> store_live st = [] \<and> store_settings st = store_settings (cl_connect_store s)"
  using assms
proof (induction n arbitrary: s)
  case 0
  then show ?case by simp
next
  case (Suc n)
  have q: "queue_steady (cl_connect_store s)" and inv: "store_inv (cl_connect_store s)"
    using steady_stores(3) [OF Suc.prems(1)] by (simp_all add: queue_steady_def)
  have gs: "get_store CONNECT_STORE x = cl_connect_store x" "set_store CONNECT_STORE st x = x\<lparr>cl_connect_store := st\<rparr>"
    for x :: "'a rc_world sys" and st
    by (simp_all add: get_store_def set_store_def)
  show ?case
  proof (cases "store_live (cl_connect_store s)")
    case Nil
    then show ?thesis
      using store_shift_spec(1) [OF inv] inv gs by (intro exI [of _ "cl_connect_store s"]) simp
  next
    case (Cons e es)
    obtain st1 where st1: "lmqtt_store_shift (cl_connect_store s) = Some (True, se_kind e, se_value e, st1)"
        "store_inv st1" "store_live st1 = es" "store_settings st1 = store_settings (cl_connect_store s)"
      using store_shift_spec(2) [OF inv Cons] by blast
    let ?s1 = "s\<lparr>cl_connect_store := st1\<rparr>"
    note sh = queue_other(3) [OF q st1(1)]
    then have s1: "steady rc_frame True ?s1" using steady_connect_store [OF Suc.prems(1)] by simp
    have cb: "value_callback (client_flush_store n (rc_env os)) (rc_env os) (se_value e) ?s1 = Some (True, ?s1)"
      by (rule closed_callback) (use sh rc_frameD [OF Suc.prems(1)] Suc.prems(1) in \<open>simp_all add: steady_def\<close>)
    have "length es = st_count st1" using st1(2,3) by auto
    moreover have "length (e # es) = st_count (cl_connect_store s)" using inv Cons by (metis length_store_live)
    ultimately have "st_count st1 < n" using Suc.prems(2) by simp
    with Suc.IH [OF s1]
    obtain st where "client_flush_store n (rc_env os) CONNECT_STORE ?s1 = Some (?s1\<lparr>cl_connect_store := st\<rparr>)"
        "store_inv st" "store_live st = []" "store_settings st = store_settings st1"
      by auto
    then show ?thesis using st1 cb gs by (intro exI [of _ st]) simp
  qed
qed

text \<open>What a reset keeps and what it changes.\<close>

definition same_queue_but :: "('w sys \<Rightarrow> store) \<Rightarrow> 'w sys \<Rightarrow> 'w sys \<Rightarrow> bool" where
  "same_queue_but q s s' \<longleftrightarrow> store_inv (q s') \<and>
     store_marked (q s') = filter outlives_connection (store_marked (q s)) \<and>
     store_pending (q s') = filter outlives_connection (store_pending (q s)) \<and>
     store_settings (q s') = store_settings (q s)"

lemma settings_capacity: "store_settings st = store_settings st' \<Longrightarrow> st_capacity st = st_capacity st'"
  by (simp add: store_settings_def)

lemma touched_store:
  "lmqtt_store_touch clock st w = (st', w') \<Longrightarrow> store_inv st' = store_inv st \<and> store_live st' = store_live st \<and>
     st_count st' = st_count st \<and> st_capacity st' = st_capacity st"
  by (auto simp: lmqtt_store_touch_def store_inv_def store_live_def split: prod.splits)

lemma env_time_socket: "en_get_time (rc_env os) w = (tm, w') \<Longrightarrow> rc_socket_fd w' = rc_socket_fd w"
  by (auto simp: rc_env_def split: prod.splits)

lemma rc_reset:
  assumes s: "steady rc_frame True s" and n: "st_count (cl_connect_store s) < n"
  shows "\<exists>s'. client_set_state_initial n (rc_env os) s = Some s' \<and>
    same_queue_but cl_main_store s s' \<and> store_inv (cl_connect_store s') \<and> store_live (cl_connect_store s') = [] \<and>
    cl_op_connect s' = OP_DO \<and> rx_id_set (cl_rx s') = rx_id_set (cl_rx s) \<and> cl_current_store s' = CONNECT_STORE"
proof -
  have main: "store_inv (cl_main_store s)" and keep: "cl_clean_session s = 0"
    using steady_stores(2) [OF s] s by (simp_all add: queue_steady_def steady_def)
  obtain st w where t: "lmqtt_store_touch (en_get_time (rc_env os)) (cl_connect_store s) (sy_world s) = (st, w)"
    by (cases "lmqtt_store_touch (en_get_time (rc_env os)) (cl_connect_store s) (sy_world s)") auto
  note touch = touched_store [OF t] queue_other(4) [OF steady_stores(3) [OF s] t]
  obtain stm where stm: "cleanup_loop (Suc (st_count (cl_main_store s))) (cl_main_store s) 0 = Some stm"
      "store_inv stm" "store_marked stm = filter outlives_connection (store_marked (cl_main_store s))"
      "store_pending stm = filter outlives_connection (store_pending (cl_main_store s))"
      "store_settings stm = store_settings (cl_main_store s)"
    using cleanup_loop_spec [of "cl_main_store s" 0 "Suc (st_count (cl_main_store s))"] main by auto
  define s3 where "s3 = (client_set_current_store CONNECT_STORE
    (s\<lparr>cl_error := NO_ERROR, cl_os_error := 0, cl_closed := True, cl_connect_store := st, sy_world := w\<rparr>))
      \<lparr>cl_main_store := stm\<rparr>"
  have s3: "cl_connect_store s3 = st" "cl_main_store s3 = stm" "rx_id_set (cl_rx s3) = rx_id_set (cl_rx s)"
      "cl_current_store s3 = CONNECT_STORE"
    by (simp_all add: s3_def client_set_current_store_def)
  have "queue_steady stm" using queue_cleanup [OF stm(1) steady_stores(2) [OF s]] by simp
  then have "steady rc_frame True s3"
    using s touch unfolding s3_def client_set_current_store_def Let_def by (simp add: steady_def client_frame_def)
  then obtain stc where stc: "client_flush_store n (rc_env os) CONNECT_STORE s3 = Some (s3\<lparr>cl_connect_store := stc\<rparr>)"
      "store_inv stc" "store_live stc = []"
    using flush_connects [of s3 n os] n touch by (auto simp: s3)
  have "client_set_state_initial n (rc_env os) s =
      Some (set_ops_fail ((lmqtt_tx_buffer_finish (s3\<lparr>cl_connect_store := stc\<rparr>))\<lparr>cl_op_connect := OP_DO\<rparr>))"
    using t stm(1) stc(1) keep by (simp add: client_set_state_initial_def client_cleanup_stores_def Let_def
        client_set_current_store_def s3_def del: cleanup_loop.simps)
  then show ?thesis
    using stm stc s3 by (simp add: same_queue_but_def set_ops_fail_def lmqtt_tx_buffer_finish_def)
qed

section \<open>Starting\<close>

lemma fresh_stores:
  "store_inv (fresh_store n)" "store_live (fresh_store n) = []" "st_capacity (fresh_store n) = n"
  by (simp_all add: fresh_store_def store_inv_def store_live_def)

lemma rc_connect_data_valid:
  assumes "0 < c_strlen (ro_id opts)" and "length (ro_id opts) = 256"
  shows "lmqtt_connect_validate (rc_connect_data opts)"
proof -
  have "c_strlen (ro_id opts) \<le> 256" using assms(2) length_takeWhile_le by (metis c_strlen_def)
  then show ?thesis
    using assms(1) by (simp add: lmqtt_connect_validate_def rc_connect_data_def array_string_def
        string_validate_field_length_def is_valid_qos_def lstring_zero_def)
qed

lemma fresh_steady: "queue_steady (fresh_store n)"
  by (auto simp: queue_steady_def fresh_stores) (simp add: fresh_store_def store_entry_zero_def)

lemma rc_setup_steady:
  assumes "0 < c_strlen (ro_id opts)" and "length (ro_id opts) = 256"
    and "rc_setup n os opts o1 = Some s"
  shows "rc_steady s" and "rc_socket_fd (sy_world s) = -1"
proof -
  let ?s0 = "client_setup rc_buffers [CONNECT_DATA \<mapsto> OConnect (rc_connect_data opts)] \<lparr>rc_socket_fd = -1, rc_os = o1\<rparr>"
  obtain s1 where s1: "client_set_state_initial n (rc_env os) ?s0 = Some s1"
      "s = lmqtt_client_set_default_timeout (ro_default_timeout opts) (lmqtt_client_set_on_connect (Some FN_ON_CONNECT) 0 s1)"
    using assms(3) by (auto simp: rc_setup_def lmqtt_client_initialize_def bind_eq_Some_conv Let_def)
  have "queue_steady (cl_main_store ?s0)" "queue_steady (cl_connect_store ?s0)"
    using fresh_steady by (auto simp: client_setup_def rc_buffers_def queue_steady_def fresh_store_def store_inv_def
        sizeof_store_entry_def store_entry_zero_def)
  moreover have "objects_steady (sy_heap ?s0)"
    using rc_connect_data_valid [OF assms(1,2)] by (simp add: client_setup_def objects_steady_def rc_connect_data_def)
  ultimately have s0: "steady ({CONNECT_DATA}, None, None, None, None, 1) False ?s0"
    by (simp add: steady_def) (simp add: client_frame_def client_setup_def ri_steady_def ti_steady_def
        rx_internal_zero_def tx_internal_zero_def encode_buffer_zero_def fixed_header_zero_def fresh_stores)
  have "steady rc_frame True s"
    using rc_user.set_state_initial_steady [OF s1(1) s0] queue_other(8) unfolding s1(2)
    by (simp add: steady_def client_frame_def rc_frame_def lmqtt_client_set_on_connect_def lmqtt_client_set_default_timeout_def)
  moreover have "rc_socket_fd (sy_world s1) = -1"
    using rc_fd.set_state_initial_keeps [OF s1(1)] by (simp add: client_setup_def)
  ultimately show "rc_steady s" "rc_socket_fd (sy_world s) = -1"
    unfolding rc_steady_def s1(2) by (simp_all add: lmqtt_client_set_on_connect_def lmqtt_client_set_default_timeout_def)
qed

section \<open>The invariant of the loop\<close>

lemma connect_entry_callable: "callable (se_value (connect_entry a))"
  by (simp add: connect_entry_def callable_def)

lemma connect_steady:
  assumes "lmqtt_client_connect CONNECT_DATA s = Some (b, s')" and "steady f c s"
  shows "steady f False s'"
proof -
  have "client_do_connect CONNECT_DATA s = Some (b, s') \<Longrightarrow> steady f False s'"
  proof -
    assume "client_do_connect CONNECT_DATA s = Some (b, s')"
    then consider "s' = s" | st b' where "lmqtt_store_append (cl_connect_store s) KIND_CONNECT (Some (se_value (connect_entry CONNECT_DATA))) = Some (b', st)"
        "s' = s\<lparr>cl_connect_store := st\<rparr> \<or> s' = client_set_state_connecting (s\<lparr>cl_connect_store := st\<rparr>)"
      by (auto simp: client_do_connect_def bind_eq_Some_conv connect_entry_def Let_def split: if_splits)
    then show "steady f False s'"
    proof cases
      case 1
      then show ?thesis using assms(2) by (simp add: steady_weaken)
    next
      case 2
      have "steady f c (s\<lparr>cl_connect_store := st\<rparr>)"
        using queue_append [OF 2(1) steady_stores(3) [OF assms(2)]] steady_connect_store [OF assms(2)] connect_entry_callable by simp
      then have "steady f False (s\<lparr>cl_connect_store := st\<rparr>)" by (simp add: steady_weaken)
      moreover from this have "steady f False (client_set_state_connecting (s\<lparr>cl_connect_store := st\<rparr>))"
        unfolding client_set_state_connecting_def Let_def
        by (simp add: steady_def client_frame_def lmqtt_rx_buffer_reset_def lmqtt_tx_buffer_reset_def ri_steady_def ti_steady_def
            rx_internal_zero_def tx_internal_zero_def encode_buffer_zero_def fixed_header_zero_def upd_ri_def)
      ultimately show ?thesis using 2(2) by blast
    qed
  qed
  then show ?thesis
    using assms by (auto simp: lmqtt_client_connect_def call_op_def steady_weaken split: op_ptr.splits)
qed

lemma rc_open_steady:
  assumes "rc_open n os address port s = Some (ex, s')" and "rc_steady s"
  shows "rc_steady s'" and "ex = None \<Longrightarrow> rc_socket_fd (sy_world s') \<noteq> -1"
proof -
  obtain fd o1 where so: "socket_open os address port (rc_os (sy_world s)) = (fd, o1)"
    by (cases "socket_open os address port (rc_os (sy_world s))") auto
  let ?s1 = "s\<lparr>sy_world := \<lparr>rc_socket_fd = fd, rc_os = o1\<rparr>\<rparr>"
  have "rc_steady s' \<and> (ex = None \<longrightarrow> rc_socket_fd (sy_world s') \<noteq> -1)"
  proof (cases "rc_socket_fd (sy_world s) = -1 \<and> fd \<noteq> -1")
    case False
    then show ?thesis
      using assms so by (auto simp: rc_open_def rc_steady_def Let_def split: if_splits)
  next
    case True
    then have s1: "steady rc_frame True ?s1" using assms(2) by (simp add: rc_steady_def)
    obtain s2 b s3 where r: "lmqtt_client_reset n (rc_env os) ?s1 = Some s2" "lmqtt_client_connect CONNECT_DATA s2 = Some (b, s3)"
        "s' = s3" "ex = None"
      using assms(1) so True by (auto simp: rc_open_def bind_eq_Some_conv Let_def)
    have "steady rc_frame True s2"
      using r(1) s1 rc_user.set_state_initial_steady [OF _ s1] by (auto simp: lmqtt_client_reset_def split: if_splits)
    then have "steady rc_frame False s3" by (rule connect_steady [OF r(2)])
    moreover have "sy_world s3 = sy_world s2" using rc_fd.operations_keep(1) [OF r(2)] .
    moreover have "rc_socket_fd (sy_world s2) = fd" by (rule rc_fd.reset_keeps [OF r(1)]) simp
    ultimately show ?thesis using r(3,4) True by (simp add: rc_steady_def)
  qed
  then show "rc_steady s'" "ex = None \<Longrightarrow> rc_socket_fd (sy_world s') \<noteq> -1" by auto
qed

lemma rc_round_steady:
  assumes "rc_round n os address port s = Some (ex, s')" and "rc_steady s"
  shows "rc_steady s'"
proof -
  obtain ex1 s1 where o: "rc_open n os address port s = Some (ex1, s1)"
    using assms(1) by (auto simp: rc_round_def bind_eq_Some_conv)
  note s1 = rc_open_steady [OF o assms(2)]
  show ?thesis
  proof (cases ex1)
    case (Some i)
    then show ?thesis using assms(1) o s1(1) by (auto simp: rc_round_def bind_eq_Some_conv)
  next
    case None
    then obtain res rd wr s2 where r: "lmqtt_client_run_once n (rc_env os) s1 = Some (res, rd, wr, s2)"
      using assms(1) o by (auto simp: rc_round_def bind_eq_Some_conv)
    have fd: "rc_socket_fd (sy_world s2) = rc_socket_fd (sy_world s1)" by (rule rc_fd.run_once_keeps [OF r refl])
    have "steady rc_frame False s1" using s1 None by (simp add: rc_steady_def)
    from rc_user.run_once_steady [OF r this] have s2: "steady rc_frame (res_ends res) s2" by simp
    have ends: "steady rc_frame (rc_socket_fd w = -1) (s2\<lparr>sy_world := w\<rparr>)" if "res_ends res" for w
      using s2 that by (auto simp: steady_def client_frame_def)
    have s2': "rc_steady s2" using s2 fd s1(2) None by (auto simp: rc_steady_def steady_weaken)
    have sel: "rc_steady (snd (rc_select os res s2))"
      using s2' fd rc_fd.timeout_keeps [of os] by (auto simp: rc_select_def rc_steady_def lmqtt_client_get_timeout_def Let_def
          split: prod.splits)
    show ?thesis
      using assms(1) o None r ends s2' sel
      by (auto simp: rc_round_def bind_eq_Some_conv res_ends_def rc_steady_def split: if_splits)
  qed
qed

lemma rc_loop_steady: "rc_loop k n os address port s = Some (ex, s') \<Longrightarrow> rc_steady s \<Longrightarrow> rc_steady s'"
  by (induction k arbitrary: s) (auto simp: bind_eq_Some_conv split: if_splits dest: rc_round_steady)

section \<open>Coming back\<close>

lemma connect_after_reset:
  assumes "cl_op_connect s = OP_DO" and "sy_heap s CONNECT_DATA = Some (OConnect c)" and "lmqtt_connect_validate c"
    and "store_inv (cl_connect_store s)" and "store_live (cl_connect_store s) = []" and "0 < st_capacity (cl_connect_store s)"
  shows "\<exists>st. lmqtt_client_connect CONNECT_DATA s = Some (True, client_set_state_connecting (s\<lparr>cl_connect_store := st\<rparr>)) \<and>
    store_marked st = [] \<and> store_pending st = [connect_entry CONNECT_DATA]"
proof -
  have "st_count (cl_connect_store s) = 0" using length_store_live [OF assms(4)] assms(5) by simp
  then obtain st where "lmqtt_store_append (cl_connect_store s) KIND_CONNECT (Some (se_value (connect_entry CONNECT_DATA))) = Some (True, st)"
      "store_marked st = store_marked (cl_connect_store s)"
      "store_pending st = store_pending (cl_connect_store s) @ [connect_entry CONNECT_DATA]"
    using store_append_room [OF assms(4), of KIND_CONNECT "se_value (connect_entry CONNECT_DATA)"] assms(6)
    by (auto simp: connect_entry_def)
  then show ?thesis
    using assms by (intro exI [of _ st]) (simp add: lmqtt_client_connect_def call_op_def client_do_connect_def connect_entry_def
        get_connect_def store_marked_def store_pending_def)
qed

lemma down_recovers:
  assumes "steady rc_frame True s" and "rc_socket_fd (sy_world s) = -1"
    and "socket_open os address port (rc_os (sy_world s)) = (fd, o2)" and "fd \<noteq> -1" and "2 \<le> n"
  shows "\<exists>s'. rc_open n os address port s = Some (None, s') \<and> rc_socket_fd (sy_world s') = fd \<and>
    store_marked (cl_main_store s') = filter outlives_connection (store_marked (cl_main_store s)) \<and>
    store_pending (cl_main_store s') = filter outlives_connection (store_pending (cl_main_store s)) \<and>
    rx_id_set (cl_rx s') = rx_id_set (cl_rx s) \<and>
    store_marked (cl_connect_store s') = [] \<and> store_pending (cl_connect_store s') = [connect_entry CONNECT_DATA] \<and>
    cl_current_store s' = CONNECT_STORE \<and> \<not> cl_closed s' \<and> cl_error s' = NO_ERROR \<and>
    ri s' = rx_internal_zero \<and> ti s' = tx_internal_zero \<and> \<not> tx_closed (cl_tx s') \<and>
    cl_read_buf_pos s' = 0 \<and> cl_write_buf_pos s' = 0"
proof -
  let ?s1 = "s\<lparr>sy_world := \<lparr>rc_socket_fd = fd, rc_os = o2\<rparr>\<rparr>"
  have s1: "steady rc_frame True ?s1" using assms(1) by simp
  have "store_inv (cl_connect_store s)" using steady_stores(3) [OF assms(1)] by (simp add: queue_steady_def)
  then have "st_count (cl_connect_store s) \<le> 1" using rc_frameD(5) [OF assms(1)] by (simp add: store_inv_def)
  then obtain s2 where s2: "client_set_state_initial n (rc_env os) ?s1 = Some s2" "same_queue_but cl_main_store ?s1 s2"
      "store_inv (cl_connect_store s2)" "store_live (cl_connect_store s2) = []" "cl_op_connect s2 = OP_DO"
      "rx_id_set (cl_rx s2) = rx_id_set (cl_rx ?s1)" "cl_current_store s2 = CONNECT_STORE"
    using rc_reset [OF s1, of n os] assms(5) by auto
  note steady2 = rc_user.set_state_initial_steady [OF s2(1) s1]
  have fd: "rc_socket_fd (sy_world s2) = fd" by (rule rc_fd.set_state_initial_keeps [OF s2(1)]) simp
  obtain c where c: "sy_heap s2 CONNECT_DATA = Some (OConnect c)" "lmqtt_connect_validate c" using rc_frameD(6) [OF steady2] by blast
  obtain st where st: "lmqtt_client_connect CONNECT_DATA s2 = Some (True, client_set_state_connecting (s2\<lparr>cl_connect_store := st\<rparr>))"
      "store_marked st = []" "store_pending st = [connect_entry CONNECT_DATA]"
    using connect_after_reset [OF s2(5) c s2(3,4)] rc_frameD(5) [OF steady2] by auto
  have "lmqtt_client_reset n (rc_env os) ?s1 = Some s2"
    using s2(1) assms(1) by (simp add: lmqtt_client_reset_def steady_def)
  then have "rc_open n os address port s = Some (None, client_set_state_connecting (s2\<lparr>cl_connect_store := st\<rparr>))"
    using assms(2-4) st(1) by (simp add: rc_open_def)
  then show ?thesis
    using s2 st fd by (simp add: client_set_state_connecting_def Let_def lmqtt_rx_buffer_reset_def lmqtt_tx_buffer_reset_def
        same_queue_but_def)
qed

text \<open>
  C11. The program always comes back. However many rounds it has run, and whatever the server, the
  connection and the system did in them: when it has no socket, the next one that opens brings its
  client back. The client is reset, its requests are kept in order, sent or not, except PINGREQ and
  DISCONNECT, the identifiers of QoS 2 messages are kept, and a CONNECT is the one request on the
  connection. Nothing of the old connection is left in the buffers.
\<close>

theorem reconnect_recovers:
  assumes "rc_run k m os opts address port o1 = Some (None, s)" and "rc_socket_fd (sy_world s) = -1"
    and "0 < c_strlen (ro_id opts)" and "length (ro_id opts) = 256"
    and "socket_open os address port (rc_os (sy_world s)) = (fd, o2)" and "fd \<noteq> -1" and "2 \<le> n"
  shows "\<exists>s'. rc_open n os address port s = Some (None, s') \<and> rc_socket_fd (sy_world s') = fd \<and>
    store_marked (cl_main_store s') = filter outlives_connection (store_marked (cl_main_store s)) \<and>
    store_pending (cl_main_store s') = filter outlives_connection (store_pending (cl_main_store s)) \<and>
    rx_id_set (cl_rx s') = rx_id_set (cl_rx s) \<and>
    store_marked (cl_connect_store s') = [] \<and> store_pending (cl_connect_store s') = [connect_entry CONNECT_DATA] \<and>
    cl_current_store s' = CONNECT_STORE \<and> \<not> cl_closed s' \<and> cl_error s' = NO_ERROR \<and>
    ri s' = rx_internal_zero \<and> ti s' = tx_internal_zero \<and> \<not> tx_closed (cl_tx s') \<and>
    cl_read_buf_pos s' = 0 \<and> cl_write_buf_pos s' = 0"
proof -
  obtain s0 where s0: "rc_setup m os opts o1 = Some s0" "rc_loop k m os address port s0 = Some (None, s)"
    using assms(1) by (auto simp: rc_run_def bind_eq_Some_conv)
  have "rc_steady s" using rc_loop_steady [OF s0(2)] rc_setup_steady(1) [OF assms(3,4) s0(1)] by blast
  then have "steady rc_frame True s" using assms(2) by (simp add: rc_steady_def)
  then show ?thesis by (rule down_recovers) (rule assms(2,5-7))+
qed

text \<open>A system on which connecting works but every transfer fails.\<close>

definition broken_os :: "nat os" where
  "broken_os = \<lparr>os_clock_gettime = \<lambda>w. (Some \<lparr>tm_secs = 1, tm_nsecs = 0\<rparr>, w),
     os_read = \<lambda>fd k w. (Inl 104, w), os_write = \<lambda>fd bytes w. (Inl 104, w), os_close = \<lambda>fd w. w,
     os_socket = \<lambda>w. (int w + 3, Suc w), os_fcntl_nonblock = \<lambda>fd w. w,
     os_inet_pton = \<lambda>a. Some [127, 0, 0, 1], os_connect = \<lambda>fd sin w. (Some EINPROGRESS, w),
     os_select = \<lambda>n rs ws t w. (True, w), os_sleep = \<lambda>secs w. w,
     os_open_nonblock = \<lambda>p w. (-1, w), os_lseek = \<lambda>fd off wh w. (-1, w), os_mkostemp = \<lambda>p w. (-1, w)\<rparr>"

text \<open>A system that is so slow that 100 seconds pass from one look at the clock to the next.\<close>

definition slow_os :: "nat os" where
  "slow_os = broken_os\<lparr>os_clock_gettime := \<lambda>w. (Some \<lparr>tm_secs = 100 * int w + 1, tm_nsecs = 0\<rparr>, Suc w)\<rparr>"

definition example_options :: rc_options where
  "example_options = rc_default_options\<lparr>ro_id := 97 # replicate 255 0\<rparr>"

lemma example_options_simps [simp]: "0 < c_strlen (ro_id example_options)" "length (ro_id example_options) = 256"
  by (simp_all add: example_options_def c_strlen_def)

lemma slow_round:
  "map_option (map_prod id (\<lambda>s. (rc_socket_fd (sy_world s), rc_os (sy_world s))))
     (rc_run 1 2 slow_os example_options [] 1883 0) = Some (None, -1, 4)"
  by code_simp

theorem reconnect_recovers_witness:
  "\<exists>s s'. rc_run 1 2 slow_os example_options [] 1883 0 = Some (None, s) \<and> rc_socket_fd (sy_world s) = -1 \<and>
    rc_open 2 slow_os [] 1883 s = Some (None, s') \<and> 0 \<le> rc_socket_fd (sy_world s') \<and>
    store_pending (cl_connect_store s') = [connect_entry CONNECT_DATA]"
proof -
  obtain s where s: "rc_run 1 2 slow_os example_options [] 1883 0 = Some (None, s)" "rc_socket_fd (sy_world s) = -1"
    using slow_round by (auto simp: map_prod_def)
  have "socket_open slow_os [] 1883 (rc_os (sy_world s)) = (int (rc_os (sy_world s)) + 3, Suc (rc_os (sy_world s)))"
    by (simp add: socket_open_def slow_os_def broken_os_def)
  from reconnect_recovers [OF s _ _ this, of 2] s show ?thesis by auto
qed

end
