(* ===== verification/Reconnect_Sockets.thy ===== *)
theory Reconnect_Sockets
  imports Reconnect_Recovery World_Keeping
begin

text \<open>
  The sockets of \<open>examples/reconnect.c\<close>. An operating system that keeps, beside its own state, the
  list of the sockets it has given away and not got back shows that the program never holds more
  than one, whatever the system answers and however often the connection fails.
\<close>

section \<open>Keeping track of sockets\<close>

text \<open>The same system, with the list of open sockets as a second component of its state.\<close>

definition beside :: "('o \<Rightarrow> 'r \<times> 'o) \<Rightarrow> 'o \<times> 'l \<Rightarrow> 'r \<times> 'o \<times> 'l" where
  "beside f w = (case f (fst w) of (r, o1) \<Rightarrow> (r, o1, snd w))"

lemma snd_beside: "beside f w = (r, w') \<Longrightarrow> snd w' = snd w"
  by (auto simp: beside_def split: prod.splits)

definition tracking :: "'o os \<Rightarrow> ('o \<times> int list) os" where
  "tracking os = \<lparr>
     os_clock_gettime = beside (os_clock_gettime os),
     os_read = \<lambda>fd k. beside (os_read os fd k),
     os_write = \<lambda>fd bytes. beside (os_write os fd bytes),
     os_close = \<lambda>fd w. (os_close os fd (fst w), remove1 fd (snd w)),
     os_socket = \<lambda>w. (case os_socket os (fst w) of
       (fd, o1) \<Rightarrow> (fd, o1, if fd = -1 then snd w else fd # snd w)),
     os_fcntl_nonblock = \<lambda>fd w. (os_fcntl_nonblock os fd (fst w), snd w),
     os_inet_pton = os_inet_pton os,
     os_connect = \<lambda>fd sin. beside (os_connect os fd sin),
     os_select = \<lambda>n rs ws t. beside (os_select os n rs ws t),
     os_sleep = \<lambda>secs w. (os_sleep os secs (fst w), snd w),
     os_open_nonblock = \<lambda>path. beside (os_open_nonblock os path),
     os_lseek = \<lambda>fd off wh. beside (os_lseek os fd off wh),
     os_mkostemp = \<lambda>path. beside (os_mkostemp os path)\<rparr>"

lemma file_read_tracks: "file_read (tracking os) fd k w = (res, bytes, e, w') \<Longrightarrow> snd w' = snd w"
  by (auto simp: file_read_def tracking_def split: prod.splits sum.splits if_splits dest: snd_beside)

lemma file_write_tracks: "file_write (tracking os) fd bytes w = (res, cnt, e, w') \<Longrightarrow> snd w' = snd w"
  by (auto simp: file_write_def tracking_def split: prod.splits sum.splits if_splits dest: snd_beside)

lemma get_time_tracks: "get_time (tracking os) tm w = (res, tm', w') \<Longrightarrow> snd w' = snd w"
  by (auto simp: get_time_def tracking_def split: prod.splits option.splits dest: snd_beside)

text \<open>Only the socket that \<open>socket_open\<close> returns stays open.\<close>

lemma socket_open_tracks:
  "socket_open (tracking os) address port w = (fd, w') \<Longrightarrow> snd w = [] \<Longrightarrow>
     snd w' = (if fd = -1 then [] else [fd])"
  by (auto simp: socket_open_def Let_def tracking_def split: prod.splits option.splits if_splits dest!: snd_beside)

section \<open>One socket at a time\<close>

definition one_socket :: "('o \<times> int list) rc_world \<Rightarrow> bool" where
  "one_socket w \<longleftrightarrow> snd (rc_os w) = (if rc_socket_fd w = -1 then [] else [rc_socket_fd w])"

interpretation rc: world_keeper "rc_env (tracking os)" one_socket
  by unfold_locales
    (auto simp: rc_env_def one_socket_def rc_on_connect_def split: prod.splits if_splits
      dest: file_read_tracks file_write_tracks get_time_tracks)

lemma rc_setup_sockets: "rc_setup n (tracking os) opts (o1, []) = Some s \<Longrightarrow> one_socket (sy_world s)"
  by (auto simp: rc_setup_def bind_eq_Some_conv Let_def lmqtt_client_set_on_connect_def
      lmqtt_client_set_default_timeout_def one_socket_def dest!: rc.initialize_keeps)

lemma rc_open_sockets:
  "rc_open n (tracking os) address port s = Some (ex, s') \<Longrightarrow> one_socket (sy_world s) \<Longrightarrow> one_socket (sy_world s')"
  by (auto simp: rc_open_def bind_eq_Some_conv Let_def rc.operations_keep one_socket_def
      split: if_splits prod.splits dest!: socket_open_tracks rc.reset_keeps)

lemma fail_connection_sockets: "one_socket w \<Longrightarrow> one_socket (fail_connection (tracking os) secs w)"
  by (simp add: one_socket_def fail_connection_def socket_close_def tracking_def)

lemma rc_select_sockets:
  assumes "rc_select (tracking os) res s = (ex, s')" and "one_socket (sy_world s)"
  shows "one_socket (sy_world s')"
proof -
  obtain r secs ns w1 where t: "lmqtt_client_get_timeout (rc_env (tracking os)) s = (r, secs, ns, w1)"
    by (cases "lmqtt_client_get_timeout (rc_env (tracking os)) s") auto
  have "one_socket w1"
    using t assms(2) by (auto simp: lmqtt_client_get_timeout_def split: prod.splits dest: rc.timeout_keeps)
  then show ?thesis
    using assms(1) t
    by (auto simp: rc_select_def Let_def one_socket_def tracking_def split: prod.splits dest!: snd_beside)
qed

lemma rc_round_sockets:
  "rc_round n (tracking os) address port s = Some (ex, s') \<Longrightarrow> one_socket (sy_world s) \<Longrightarrow> one_socket (sy_world s')"
  by (auto simp: rc_round_def bind_eq_Some_conv split: if_splits
      dest!: rc_open_sockets rc.run_once_keeps intro: fail_connection_sockets dest: rc_select_sockets)

lemma rc_loop_sockets:
  "rc_loop k n (tracking os) address port s = Some (ex, s') \<Longrightarrow> one_socket (sy_world s) \<Longrightarrow> one_socket (sy_world s')"
  by (induction k arbitrary: s) (auto simp: bind_eq_Some_conv split: if_splits dest: rc_round_sockets)

text \<open>
  C10. However often the program reconnects, and whatever the calls of the operating system return,
  the sockets that it has opened and not closed are the one in \<open>socket_fd\<close>, or none when that is
  \<open>-1\<close>: every other one, of a failed connection or a failed attempt to connect, has been closed.
\<close>

theorem reconnect_one_socket:
  assumes "rc_run k n (tracking os) opts address port (o1, []) = Some (ex, s)"
  shows "snd (rc_os (sy_world s)) = (if rc_socket_fd (sy_world s) = -1 then [] else [rc_socket_fd (sy_world s)])"
proof -
  obtain s0 where "rc_setup n (tracking os) opts (o1, []) = Some s0" "rc_loop k n (tracking os) address port s0 = Some (ex, s)"
    using assms by (auto simp: rc_run_def bind_eq_Some_conv)
  then have "one_socket (sy_world s)" by (blast intro: rc_setup_sockets rc_loop_sockets)
  then show ?thesis by (simp add: one_socket_def)
qed

text \<open>A system that refuses every connection: the program gives up, and has closed its socket.\<close>

definition refusing_os :: "nat os" where
  "refusing_os = broken_os\<lparr>os_connect := \<lambda>fd sin w. (Some 111, w)\<rparr>"

lemma refused_run:
  "map_option (map_prod id (\<lambda>s. rc_socket_fd (sy_world s))) (rc_run 5 1 (tracking refusing_os) example_options [] 1883 (0, [])) =
     Some (Some 1, -1)"
  by code_simp

theorem reconnect_one_socket_witness:
  "\<exists>s. rc_run 5 1 (tracking refusing_os) example_options [] 1883 (0, []) = Some (Some 1, s) \<and> snd (rc_os (sy_world s)) = []"
proof -
  obtain s where r: "rc_run 5 1 (tracking refusing_os) example_options [] 1883 (0, []) = Some (Some 1, s)"
      "rc_socket_fd (sy_world s) = -1"
    using refused_run by (auto simp: map_prod_def)
  show ?thesis using reconnect_one_socket [OF r(1)] r by simp
qed

end
