(* ===== verification/Pingpong.thy ===== *)
theory Pingpong
  imports Reconnect
begin

text \<open>
  \<open>examples/pingpong.c\<close>: a program that subscribes to a topic of its own and answers every message
  that arrives there with the same payload on the topic of another program. Payloads are kept in
  an array when they fit, and in a file otherwise.

  The world of its client holds the variables that its callbacks change (\<open>message_fd\<close>, the array
  \<open>payload\<close>), the socket and the operating system; the options of the command line do not
  change once they are read. The static objects \<open>subscribe\<close> and \<open>publish\<close> live in the heap.

  A string of the model holds its buffer by value. So the array \<open>message_payload\<close> is part of the
  PUBLISH that is received, and of the answer from then on, while in the code both point to the
  one array. The counter \<open>count\<close>, which is only printed, is left out.
\<close>

record 'o pp_world =
  pp_socket_fd :: int
  pp_message_fd :: int
  pp_payload :: "byte list"
  pp_os :: 'o

text \<open>The options of the command line; the last four are the arrays \<open>id\<close>, \<open>to\<close>, \<open>msg\<close>, \<open>f_msg\<close>.\<close>

record pp_options =
  po_address :: "byte list option"
  po_port :: ushort
  po_id :: "byte list"
  po_to :: "byte list"
  po_msg :: "byte list"
  po_f_msg :: "byte list"

text \<open>The addresses of the static objects, the address of \<open>message_fd\<close>, and the functions.\<close>

definition PP_SUBSCRIBE :: addr where "PP_SUBSCRIBE = 2"
definition PP_PUBLISH :: addr where "PP_PUBLISH = 3"
definition PP_MESSAGE_FD :: nat where "PP_MESSAGE_FD = 1"

definition FN_ON_SUBSCRIBE :: fnptr where "FN_ON_SUBSCRIBE = 2"
definition FN_ON_PUBLISH :: fnptr where "FN_ON_PUBLISH = 3"
definition FN_ON_MESSAGE :: fnptr where "FN_ON_MESSAGE = 4"
definition FN_ALLOCATE_TOPIC :: fnptr where "FN_ALLOCATE_TOPIC = 5"
definition FN_ALLOCATE_PAYLOAD :: fnptr where "FN_ALLOCATE_PAYLOAD = 6"
definition FN_FILE_READ :: fnptr where "FN_FILE_READ = 7"
definition FN_FILE_WRITE :: fnptr where "FN_FILE_WRITE = 8"

section \<open>The callbacks of the client\<close>

definition pp_subscribe :: "pp_options \<Rightarrow> subscribe" where
  "pp_subscribe opts = \<lparr>sb_count = 1,
     sb_subscriptions = Some [\<lparr>sn_requested_qos = QOS_2, sn_topic = array_string (po_id opts),
       sn_return_code = 0\<rparr>], sb_current = None\<rparr>"

definition pp_on_connect ::
    "pp_options \<Rightarrow> addr option \<Rightarrow> bool \<Rightarrow> 'o pp_world sys \<Rightarrow> (bool \<times> 'o pp_world sys) option" where
  "pp_on_connect opts connect succeeded s =
     (if \<not> succeeded then Some (True, s)
      else do {
        (_, s1) \<leftarrow> lmqtt_client_subscribe PP_SUBSCRIBE
          (s\<lparr>sy_heap := (sy_heap s)(PP_SUBSCRIBE \<mapsto> OSubscribe (pp_subscribe opts))\<rparr>);
        Some (True, s1)
      })"

text \<open>What \<open>on_subscribe\<close> and \<open>on_message\<close> store in \<open>publish\<close> first.\<close>

definition pp_publish :: "pp_options \<Rightarrow> publish" where
  "pp_publish opts = publish_zero\<lparr>pb_qos := QOS_2, pb_topic := array_string (po_to opts)\<rparr>"

definition set_publish :: "publish \<Rightarrow> 'w sys \<Rightarrow> 'w sys" where
  "set_publish m s = s\<lparr>sy_heap := (sy_heap s)(PP_PUBLISH \<mapsto> OPublish m)\<rparr>"

definition pp_on_subscribe ::
    "'o os \<Rightarrow> pp_options \<Rightarrow> addr option \<Rightarrow> bool \<Rightarrow> 'o pp_world sys \<Rightarrow> (bool \<times> 'o pp_world sys) option"
  where
  "pp_on_subscribe os opts sub succeeded s =
     (if \<not> succeeded then Some (True, s)
      else if c_strlen (po_msg opts) \<noteq> 0
      then do {
        bytes \<leftarrow> arr_slice (po_msg opts) 0 (c_strlen (po_msg opts));
        buf \<leftarrow> arr_write (pp_payload (sy_world s)) 0 bytes;
        let m = (pp_publish opts)\<lparr>pb_payload := lstring_zero
          \<lparr>str_len := int (c_strlen (po_msg opts)), str_buf := Some buf\<rparr>\<rparr>;
        (_, s1) \<leftarrow> lmqtt_client_publish PP_PUBLISH
          (set_publish m (s\<lparr>sy_world := (sy_world s)\<lparr>pp_payload := buf\<rparr>\<rparr>));
        Some (True, s1)
      }
      else if c_strlen (po_f_msg opts) \<noteq> 0
      then
        (let w = sy_world s;
             (fd, o1) = os_open_nonblock os (take (c_strlen (po_f_msg opts)) (po_f_msg opts)) (pp_os w)
         in if fd = -1 then Some (False, set_publish (pp_publish opts) (s\<lparr>sy_world := w\<lparr>pp_os := o1\<rparr>\<rparr>))
            else
              (let (len, o2) = os_lseek os fd 0 SEEK_END o1;
                   m = (pp_publish opts)\<lparr>pb_payload := lstring_zero
                     \<lparr>str_len := len, str_data := PP_MESSAGE_FD, str_read := Some FN_FILE_READ\<rparr>\<rparr>;
                   (r, o3) = os_lseek os fd 0 SEEK_SET o2;
                   s1 = set_publish m (s\<lparr>sy_world := w\<lparr>pp_message_fd := fd, pp_os := o3\<rparr>\<rparr>)
               in if r = -1 then Some (False, s1)
                  else do { (_, s2) \<leftarrow> lmqtt_client_publish PP_PUBLISH s1; Some (True, s2) }))
      else Some (True, set_publish (pp_publish opts) s))"

definition pp_on_publish ::
    "'o os \<Rightarrow> addr option \<Rightarrow> bool \<Rightarrow> 'o pp_world sys \<Rightarrow> (bool \<times> 'o pp_world sys) option" where
  "pp_on_publish os v succeeded s =
     do {
       (_, message) \<leftarrow> get_publish (sy_heap s) v;
       if str_data (pb_payload message) \<noteq> 0
       then (let w = sy_world s in
         Some (True, s\<lparr>sy_world := w\<lparr>pp_message_fd := -1, pp_os := os_close os (pp_message_fd w) (pp_os w)\<rparr>\<rparr>))
       else Some (True, s)
     }"

section \<open>The callbacks of messages\<close>

definition pp_on_message :: "'o os \<Rightarrow> pp_options \<Rightarrow> 'o pp_world sys \<Rightarrow> (bool \<times> 'o pp_world sys) option" where
  "pp_on_message os opts s =
     (let message = ri_publish (ri s);
          len = str_len (pb_payload message);
          w = sy_world s
      in case str_buf (pb_payload message) of
           Some buf \<Rightarrow> do {
             bytes \<leftarrow> arr_slice buf 0 (size_of_long len);
             copy \<leftarrow> arr_write (pp_payload w) 0 bytes;
             let m = (pp_publish opts)\<lparr>pb_payload := lstring_zero\<lparr>str_len := len, str_buf := Some buf\<rparr>\<rparr>;
             (_, s1) \<leftarrow> lmqtt_client_publish PP_PUBLISH
               (set_publish m (s\<lparr>sy_world := w\<lparr>pp_payload := copy\<rparr>\<rparr>));
             Some (True, s1)
           }
         | None \<Rightarrow>
             if str_data (pb_payload message) \<noteq> PP_MESSAGE_FD then None
             else
               (let m = (pp_publish opts)\<lparr>pb_payload := lstring_zero
                      \<lparr>str_len := len, str_data := PP_MESSAGE_FD, str_read := Some FN_FILE_READ\<rparr>\<rparr>;
                    (r, o1) = os_lseek os (pp_message_fd w) 0 SEEK_SET (pp_os w);
                    s1 = set_publish m (s\<lparr>sy_world := w\<lparr>pp_os := o1\<rparr>\<rparr>)
                in if r = -1 then Some (False, s1)
                   else do { (_, s2) \<leftarrow> lmqtt_client_publish PP_PUBLISH s1; Some (True, s2) }))"

text \<open>
  The array of a topic or payload holds what the last message left there; all of it is written
  before the message is delivered, and it is zero here.
\<close>

definition pp_on_message_allocate_topic ::
    "publish \<Rightarrow> nat \<Rightarrow> 'o pp_world \<Rightarrow> allocate_result \<times> publish \<times> 'o pp_world" where
  "pp_on_message_allocate_topic m size1 w =
     (ALLOCATE_SUCCESS, m\<lparr>pb_topic := (pb_topic m)
        \<lparr>str_buf := Some (replicate 256 0), str_len := int size1\<rparr>\<rparr>, w)"

definition pp_tmp_template :: "byte list" where
  "pp_tmp_template = option_name ''/tmp/pingpong.tmp.XXXXXX''"

definition pp_on_message_allocate_payload ::
    "'o os \<Rightarrow> publish \<Rightarrow> nat \<Rightarrow> 'o pp_world \<Rightarrow> allocate_result \<times> publish \<times> 'o pp_world" where
  "pp_on_message_allocate_payload os m size1 w =
     (if size1 \<le> 256
      then (ALLOCATE_SUCCESS, m\<lparr>pb_payload := (pb_payload m)
        \<lparr>str_buf := Some (replicate 256 0), str_len := int size1\<rparr>\<rparr>, w)
      else
        (let (fd, o1) = os_mkostemp os pp_tmp_template (pp_os w)
         in if fd = -1 then (ALLOCATE_ERROR, m, w\<lparr>pp_os := o1\<rparr>)
            else (ALLOCATE_SUCCESS, m\<lparr>pb_payload := (pb_payload m)
              \<lparr>str_data := PP_MESSAGE_FD, str_write := Some FN_FILE_WRITE, str_len := int size1\<rparr>\<rparr>,
              w\<lparr>pp_message_fd := fd, pp_os := o1\<rparr>)))"

section \<open>The environment of the client\<close>

text \<open>A string callback gets \<open>&message_fd\<close>, the only address the program gives; no other occurs.\<close>

definition pp_env :: "'o os \<Rightarrow> pp_options \<Rightarrow> 'o pp_world env" where
  "pp_env os opts = \<lparr>
     en_io = \<lparr>cb_read = \<lambda>f d k w. (case file_read os (pp_message_fd w) k (pp_os w) of
           (res, bytes, err, o1) \<Rightarrow> (res, bytes, err, w\<lparr>pp_os := o1\<rparr>)),
         cb_write = \<lambda>f d bs w. (case file_write os (pp_message_fd w) bs (pp_os w) of
           (res, cnt, err, o1) \<Rightarrow> (res, cnt, err, w\<lparr>pp_os := o1\<rparr>))\<rparr>,
     en_get_time = \<lambda>w. (case get_time os \<lparr>tm_secs = 0, tm_nsecs = 0\<rparr> (pp_os w) of
         (_, tm, o1) \<Rightarrow> (tm, w\<lparr>pp_os := o1\<rparr>)),
     en_net_read = \<lambda>k w. (case file_read os (pp_socket_fd w) k (pp_os w) of
         (res, bytes, err, o1) \<Rightarrow> (res, bytes, err, w\<lparr>pp_os := o1\<rparr>)),
     en_net_write = \<lambda>bs w. (case file_write os (pp_socket_fd w) bs (pp_os w) of
         (res, cnt, err, o1) \<Rightarrow> (res, cnt, err, w\<lparr>pp_os := o1\<rparr>)),
     en_on_connect = \<lambda>f d v ok s. if f = FN_ON_CONNECT then pp_on_connect opts v ok s else None,
     en_on_subscribe = \<lambda>f d v ok s. if f = FN_ON_SUBSCRIBE then pp_on_subscribe os opts v ok s else None,
     en_on_unsubscribe = \<lambda>f d v ok s. None,
     en_on_publish = \<lambda>f d v ok s. if f = FN_ON_PUBLISH then pp_on_publish os v ok s else None,
     en_message = \<lambda>f d s. if f = FN_ON_MESSAGE then pp_on_message os opts s else None,
     en_allocate = \<lambda>f d m len w. if f = FN_ALLOCATE_TOPIC then pp_on_message_allocate_topic m len w
       else pp_on_message_allocate_payload os m len w,
     en_deallocate = \<lambda>f d m w. (m, w)\<rparr>"

section \<open>Setting up\<close>

definition pp_default_options :: pp_options where
  "pp_default_options = \<lparr>po_address = None, po_port = 1883, po_id = replicate 256 0,
     po_to = replicate 256 0, po_msg = replicate 256 0, po_f_msg = replicate 256 0\<rparr>"

definition pp_buffers :: client_buffers where
  "pp_buffers = \<lparr>cb_store_size = 16 * sizeof_store_entry, cb_store = replicate 16 store_entry_zero,
     cb_rx_buffer_size = 65536, cb_rx_buffer = replicate 65536 0,
     cb_tx_buffer_size = 65536, cb_tx_buffer = replicate 65536 0,
     cb_id_set_size = 32 * 2, cb_id_set = replicate 32 0\<rparr>"

definition pp_connect_data :: "pp_options \<Rightarrow> connect" where
  "pp_connect_data opts = \<lparr>cn_keep_alive = 20, cn_clean_session = 1, cn_will_qos = 0,
     cn_will_retain = 0, cn_client_id = array_string (po_id opts), cn_will_topic = lstring_zero,
     cn_will_message = lstring_zero, cn_user_name = lstring_zero, cn_password = lstring_zero,
     cn_session_present = 0\<rparr>"

definition pp_message_callbacks :: message_callbacks where
  "pp_message_callbacks = \<lparr>mc_on_publish = Some FN_ON_MESSAGE,
     mc_on_publish_allocate_topic = Some FN_ALLOCATE_TOPIC,
     mc_on_publish_allocate_payload = Some FN_ALLOCATE_PAYLOAD, mc_on_publish_deallocate = None,
     mc_on_publish_data = 0\<rparr>"

text \<open>From the socket to the CONNECT; \<open>exit(1)\<close> without a socket.\<close>

definition pp_setup ::
    "nat \<Rightarrow> 'o os \<Rightarrow> pp_options \<Rightarrow> byte list \<Rightarrow> ushort \<Rightarrow> 'o \<Rightarrow> ('o + 'o pp_world sys) option" where
  "pp_setup n os opts address port o1 =
     (let (fd, o2) = socket_open os address port o1
      in if fd = -1 then Some (Inl o2)
         else do {
           s \<leftarrow> lmqtt_client_initialize n (pp_env os opts) pp_buffers
             [CONNECT_DATA \<mapsto> OConnect (pp_connect_data opts)]
             \<lparr>pp_socket_fd = fd, pp_message_fd = -1, pp_payload = replicate 256 0, pp_os = o2\<rparr>;
           let s1 = lmqtt_client_set_on_connect (Some FN_ON_CONNECT) 0 s;
           let s2 = lmqtt_client_set_on_subscribe (Some FN_ON_SUBSCRIBE) 0 s1;
           let s3 = lmqtt_client_set_on_publish (Some FN_ON_PUBLISH) 0 s2;
           let s4 = lmqtt_client_set_message_callbacks pp_message_callbacks s3;
           let s5 = lmqtt_client_set_default_timeout 10 s4;
           (_, s6) \<leftarrow> lmqtt_client_connect CONNECT_DATA s5;
           Some (Inr s6)
         })"

section \<open>The loop\<close>

text \<open>The first descriptor that \<open>select\<close> does not look at is one above the socket.\<close>

definition pp_select ::
    "'o os \<Rightarrow> pp_options \<Rightarrow> int \<Rightarrow> 'o pp_world sys \<Rightarrow> int option \<times> 'o pp_world sys" where
  "pp_select os opts res s =
     (let fd = pp_socket_fd (sy_world s);
          message_fd = pp_message_fd (sy_world s);
          read_set = (if res_would_block_conn_rd res then [fd] else []) @
            (if res_would_block_data_rd res then [message_fd] else []);
          write_set = (if res_would_block_conn_wr res then [fd] else []) @
            (if res_would_block_data_wr res then [message_fd] else []);
          (r, secs, nsecs, w1) = lmqtt_client_get_timeout (pp_env os opts) s;
          timeout = (if r then Some (secs, nsecs sdiv 1000) else None);
          (ok, o1) = os_select os (fd + 1) read_set write_set timeout (pp_os w1)
      in (if ok then None else Some 1, s\<lparr>sy_world := w1\<lparr>pp_os := o1\<rparr>\<rparr>))"

definition pp_round ::
    "nat \<Rightarrow> 'o os \<Rightarrow> pp_options \<Rightarrow> 'o pp_world sys \<Rightarrow> (int option \<times> 'o pp_world sys) option" where
  "pp_round n os opts s =
     do {
       (res, str_rd, str_wr, s1) \<leftarrow> lmqtt_client_run_once n (pp_env os opts) s;
       Some (if res_is_error res then (Some 1, s1)
         else if res_is_eof_rd res then (Some 0, s1)
         else if res_is_eof_wr res then (Some 0, s1)
         else pp_select os opts res s1)
     }"

primrec pp_loop ::
    "nat \<Rightarrow> nat \<Rightarrow> 'o os \<Rightarrow> pp_options \<Rightarrow> 'o pp_world sys \<Rightarrow> (int option \<times> 'o pp_world sys) option" where
  "pp_loop 0 n os opts s = Some (None, s)"
| "pp_loop (Suc k) n os opts s =
     do {
       (ex, s1) \<leftarrow> pp_round n os opts s;
       if ex \<noteq> None then Some (ex, s1) else pp_loop k n os opts s1
     }"

definition pp_run ::
    "nat \<Rightarrow> nat \<Rightarrow> 'o os \<Rightarrow> pp_options \<Rightarrow> byte list \<Rightarrow> ushort \<Rightarrow> 'o \<Rightarrow> (int option \<times> 'o) option" where
  "pp_run k n os opts address port o1 =
     do {
       start \<leftarrow> pp_setup n os opts address port o1;
       case start of
         Inl o2 \<Rightarrow> Some (Some 1, o2)
       | Inr s \<Rightarrow> do { (ex, s1) \<leftarrow> pp_loop k n os opts s; Some (ex, pp_os (sy_world s1)) }
     }"

section \<open>The command line\<close>

fun pp_parse :: "byte list list \<Rightarrow> pp_options \<Rightarrow> (bool \<times> pp_options) option" where
  "pp_parse [] opts = Some (False, opts)"
| "pp_parse [x] opts = Some (True, opts)"
| "pp_parse (x # y # argv) opts =
     (if x = option_name ''-h'' then pp_parse argv (opts\<lparr>po_address := Some y\<rparr>)
      else if x = option_name ''-p''
      then do { v \<leftarrow> c_atoi y; pp_parse argv (opts\<lparr>po_port := word_of_int v\<rparr>) }
      else if x = option_name ''-i''
      then do { a \<leftarrow> c_strcpy (po_id opts) y; pp_parse argv (opts\<lparr>po_id := a\<rparr>) }
      else if x = option_name ''-t''
      then do { a \<leftarrow> c_strcpy (po_to opts) y; pp_parse argv (opts\<lparr>po_to := a\<rparr>) }
      else if x = option_name ''-m''
      then do { a \<leftarrow> c_strcpy (po_msg opts) y; pp_parse argv (opts\<lparr>po_msg := a\<rparr>) }
      else if x = option_name ''-f''
      then do { a \<leftarrow> c_strcpy (po_f_msg opts) y; pp_parse argv (opts\<lparr>po_f_msg := a\<rparr>) }
      else Some (True, opts))"

definition pp_main :: "nat \<Rightarrow> nat \<Rightarrow> 'o os \<Rightarrow> byte list list \<Rightarrow> 'o \<Rightarrow> (int option \<times> 'o) option" where
  "pp_main k n os argv o1 =
     do {
       (opt_error, opts) \<leftarrow> pp_parse argv pp_default_options;
       case po_address opts of
         None \<Rightarrow> Some (Some 1, o1)
       | Some address \<Rightarrow>
           if opt_error \<or> c_strlen (po_id opts) = 0 \<or> c_strlen (po_to opts) = 0 \<or>
              c_strlen (po_msg opts) \<noteq> 0 \<and> c_strlen (po_f_msg opts) \<noteq> 0
           then Some (Some 1, o1)
           else pp_run k n os opts address (po_port opts) o1
     }"

section \<open>A system and options for examples\<close>

text \<open>A \<open>select\<close> that fails exactly when it has nothing to look at.\<close>

definition counting_os :: "unit os" where
  "counting_os = \<lparr>os_clock_gettime = \<lambda>w. (None, w), os_read = \<lambda>fd k w. (Inl 11, w), os_write = \<lambda>fd bytes w. (Inl 11, w),
     os_close = \<lambda>fd w. w, os_socket = \<lambda>w. (-1, w), os_fcntl_nonblock = \<lambda>fd w. w, os_inet_pton = \<lambda>a. None,
     os_connect = \<lambda>fd sin w. (None, w),
     os_select = \<lambda>n rs ws t w. (filter (\<lambda>fd. fd < n) rs \<noteq> [] \<or> filter (\<lambda>fd. fd < n) ws \<noteq> [], w),
     os_sleep = \<lambda>secs w. w, os_open_nonblock = \<lambda>p w. (-1, w), os_lseek = \<lambda>fd off wh w. (-1, w), os_mkostemp = \<lambda>p w. (-1, w)\<rparr>"

text \<open>Answers go to the topic \<open>a\<close>.\<close>

definition example_pp_options :: pp_options where
  "example_pp_options = pp_default_options\<lparr>po_to := 97 # replicate 255 0\<rparr>"

end
