(* ===== verification/Pingpong_Replies.thy ===== *)
theory Pingpong_Replies
  imports Pingpong Queued_Requests Publish_Delivery Client_Invariant
begin

text \<open>
  What \<open>examples/pingpong.c\<close> is for: a message that fits into memory is acknowledged and sent back
  on the other topic, with the same payload, through the stream of bytes of its own client. And
  where it falls short: every answer uses the one static object \<open>publish\<close>.
\<close>

section \<open>Changing one object of the heap\<close>

text \<open>Requests that read an object when they are encoded.\<close>

definition reads_object :: "addr \<Rightarrow> store_entry \<Rightarrow> bool" where
  "reads_object a e \<longleftrightarrow> sv_value (se_value e) = Some a \<and>
     se_kind e \<in> {KIND_CONNECT, KIND_SUBSCRIBE, KIND_UNSUBSCRIBE, KIND_PUBLISH_0, KIND_PUBLISH_1, KIND_PUBLISH_2}"

lemma get_other:
  assumes "v \<noteq> Some a"
  shows "get_connect (hp(a \<mapsto> x)) v = get_connect hp v" "get_subscribe (hp(a \<mapsto> x)) v = get_subscribe hp v"
    "get_publish (hp(a \<mapsto> x)) v = get_publish hp v"
  using assms by (cases v; simp add: get_connect_def get_subscribe_def get_publish_def)+

lemma other_object:
  assumes "\<not> reads_object a e"
  shows "entry_parts (hp(a \<mapsto> x)) e = entry_parts hp e"
    and "request_valid (hp(a \<mapsto> x)) (se_kind e) (se_value e) = request_valid hp (se_kind e) (se_value e)"
    and "request_string (hp(a \<mapsto> x)) (se_kind e) (se_value e) i = request_string hp (se_kind e) (se_value e) i"
  using assms by (cases "se_kind e"; simp add: reads_object_def get_other del: get_iffs)+

lemma other_objects:
  assumes "\<forall>e \<in> set es. \<not> reads_object a e"
  shows "entries_bytes (hp(a \<mapsto> x)) es = entries_bytes hp es" and "entries_good (hp(a \<mapsto> x)) es = entries_good hp es"
    and "packets_rest (hp(a \<mapsto> x)) i off es = packets_rest hp i off es"
    and "current_ready (hp(a \<mapsto> x)) t es = current_ready hp t es"
proof -
  have b: "entries_bytes (hp(a \<mapsto> x)) es = entries_bytes hp es" if "\<forall>e \<in> set es. \<not> reads_object a e" for es
    using that by (induction es) (simp_all add: other_object)
  show "entries_bytes (hp(a \<mapsto> x)) es = entries_bytes hp es" by (rule b [OF assms])
  show "entries_good (hp(a \<mapsto> x)) es = entries_good hp es"
    using assms by (induction es) (simp_all add: other_object)
  show "packets_rest (hp(a \<mapsto> x)) i off es = packets_rest hp i off es"
    using assms b [of "tl es"] by (cases es) (simp_all add: other_object)
  show "current_ready (hp(a \<mapsto> x)) t es = current_ready hp t es"
    using assms by (cases es) (simp_all add: other_object request_ready_def cong: option.case_cong)
qed

definition stream_ok :: "'w sys \<Rightarrow> bool" where
  "stream_ok s \<longleftrightarrow> tx_good s \<and> connected s \<and> all_before_disconnect s"

lemma stream_ignores:
  "tx_stream (s\<lparr>cl_rx := r\<rparr>) = tx_stream s" "tx_pending (s\<lparr>cl_rx := r\<rparr>) = tx_pending s" "stream_ok (s\<lparr>cl_rx := r\<rparr>) = stream_ok s"
  "tx_stream (s\<lparr>sy_world := w\<rparr>) = tx_stream s" "tx_pending (s\<lparr>sy_world := w\<rparr>) = tx_pending s"
  "stream_ok (s\<lparr>sy_world := w\<rparr>) = stream_ok s"
  by (simp_all add: tx_stream_def tx_pending_def stream_ok_def tx_good_def connected_def all_before_disconnect_def)

lemma stream_other_object:
  assumes "\<forall>e \<in> set (tx_pending s). \<not> reads_object a e"
  shows "tx_stream (s\<lparr>sy_heap := (sy_heap s)(a \<mapsto> x)\<rparr>) = tx_stream s"
    and "tx_pending (s\<lparr>sy_heap := (sy_heap s)(a \<mapsto> x)\<rparr>) = tx_pending s"
    and "stream_ok (s\<lparr>sy_heap := (sy_heap s)(a \<mapsto> x)\<rparr>) = stream_ok s"
proof -
  show p: "tx_pending (s\<lparr>sy_heap := (sy_heap s)(a \<mapsto> x)\<rparr>) = tx_pending s" by (simp add: tx_pending_def)
  show t: "tx_stream (s\<lparr>sy_heap := (sy_heap s)(a \<mapsto> x)\<rparr>) = tx_stream s"
    using assms by (simp add: tx_stream_def p other_objects)
  show "stream_ok (s\<lparr>sy_heap := (sy_heap s)(a \<mapsto> x)\<rparr>) = stream_ok s"
    using assms by (simp add: stream_ok_def tx_good_def connected_def all_before_disconnect_def p t other_objects)
qed

section \<open>The answer\<close>

text \<open>The object that \<open>on_message\<close> publishes for a payload in memory.\<close>

definition pp_reply :: "pp_options \<Rightarrow> int \<Rightarrow> byte list \<Rightarrow> publish" where
  "pp_reply opts len buf = (pp_publish opts)\<lparr>pb_payload := lstring_zero\<lparr>str_len := len, str_buf := Some buf\<rparr>\<rparr>"

lemma c_strlen_le: "c_strlen a \<le> length a"
  by (simp add: c_strlen_def length_takeWhile_le)

definition to_ok :: "pp_options \<Rightarrow> bool" where
  "to_ok opts \<longleftrightarrow> 0 < c_strlen (po_to opts) \<and> length (po_to opts) = 256"

lemma reply_sendable:
  assumes "to_ok opts" and "0 \<le> len" and "len \<le> 256" and "len \<le> int (length buf)"
  shows "publish_sendable (pp_reply opts len buf)"
  using assms c_strlen_le [of "po_to opts"]
  by (simp add: publish_sendable_def pp_reply_def pp_publish_def to_ok_def lmqtt_publish_validate_def own_buffer_def sendable_def
      array_string_def lstring_zero_def publish_zero_def publish_calc_remaining_length_def string_validate_field_length_def
      is_valid_qos_def)

lemma reply_message:
  assumes "0 \<le> len" and "len \<le> int (length buf)"
  shows "message_of (pp_reply opts len buf) = (takeWhile (\<lambda>b. b \<noteq> 0) (po_to opts), take (nat len) buf, QOS_2, False)"
  using assms
  by (auto simp: message_of_def pp_reply_def pp_publish_def array_string_def lstring_zero_def publish_zero_def string_part_def
      string_bytes_def c_strlen_def takeWhile_eq_take [symmetric])

text \<open>\<open>lmqtt_client_publish\<close> of the static object, from inside a callback.\<close>

definition next_id :: "'w sys \<Rightarrow> packet_id" where
  "next_id s = st_next_packet_id (cl_main_store s)"

lemma publish_keeps_tx: "lmqtt_client_publish a s = Some (b, s') \<Longrightarrow>
    cl_tx s' = cl_tx s \<and> cl_message_callbacks s' = cl_message_callbacks s \<and> sy_heap s' = sy_heap s"
  by (auto simp: op_defs call_op_def bind_eq_Some_conv simp del: get_iffs split: op_ptr.splits if_splits prod.splits)

lemma publish_static:
  assumes ok: "stream_ok s" and room: "lmqtt_store_is_queueable (cl_main_store s)"
    and free: "\<forall>e \<in> set (tx_pending s). \<not> reads_object PP_PUBLISH e" and m: "publish_sendable m" "pb_qos m = QOS_2"
  shows "\<exists>s'. lmqtt_client_publish PP_PUBLISH (set_publish m s) = Some (True, s') \<and> stream_ok s' \<and>
    cl_message_callbacks s' = cl_message_callbacks s \<and> tx_stream s' = tx_stream s @ concat (publish_parts (next_id s) m)"
proof -
  let ?s = "set_publish m s"
  have s: "tx_stream ?s = tx_stream s" "tx_pending ?s = tx_pending s" "stream_ok ?s" "cl_main_store ?s = cl_main_store s"
    using stream_other_object [OF free] ok by (simp_all add: set_publish_def)
  have hp: "sy_heap ?s PP_PUBLISH = Some (OPublish m)" by (simp add: set_publish_def)
  have "askable (ASK_PUBLISH PP_PUBLISH) (sy_heap ?s) (tx_pending ?s)"
    using free m(1) hp s(2) by (auto simp: get_publish_def reads_object_def entry_object_def publish_kind_def)
  then have "asked (ASK_PUBLISH PP_PUBLISH) ?s"
    using asked_publish s(3) unfolding stream_ok_def by blast
  then obtain ok s' e has_id where r: "lmqtt_client_publish PP_PUBLISH ?s = Some (ok, s')"
      "ok \<longleftrightarrow> lmqtt_store_is_queueable (cl_main_store ?s)" "if ok then queued e ?s s' else unqueued ?s s'"
      "asks_for (ASK_PUBLISH PP_PUBLISH) (sy_heap ?s) = (se_kind e, sv_value (se_value e), has_id)"
      "sv_packet_id (se_value e) = (if has_id then st_next_packet_id (cl_main_store ?s) else 0)"
    unfolding asked_def by auto
  have e: "se_kind e = KIND_PUBLISH_2" "sv_value (se_value e) = Some PP_PUBLISH" "sv_packet_id (se_value e) = next_id s"
    using r(4,5) hp m(2) s(4) by (auto simp: get_publish_def next_id_def)
  have q: "queued e ?s s'" "ok" using r(2,3) room s(4) by auto
  have "stream_ok s'"
    using q(1) s(2,3) e(1) publish_keeps_tx [OF r(1)] by (auto simp: stream_ok_def queued_def all_before_disconnect_def)
  moreover have "cl_message_callbacks s' = cl_message_callbacks s"
    using publish_keeps_tx [OF r(1)] by (simp add: set_publish_def)
  ultimately show ?thesis
    using r(1) q s(1) e hp by (intro exI [of _ s']) (auto simp: queued_def get_publish_def)
qed

lemma on_message_replies:
  assumes ok: "stream_ok s" and room: "lmqtt_store_is_queueable (cl_main_store s)"
    and free: "\<forall>e \<in> set (tx_pending s). \<not> reads_object PP_PUBLISH e" and opts: "to_ok opts"
    and m: "str_buf (pb_payload (ri_publish (ri s))) = Some buf" "str_len (pb_payload (ri_publish (ri s))) = len"
      "0 \<le> len" "len \<le> 256" "len \<le> int (length buf)"
    and copy: "length (pp_payload (sy_world s)) = 256"
  shows "\<exists>s'. pp_on_message os opts s = Some (True, s') \<and> stream_ok s' \<and>
    cl_message_callbacks s' = cl_message_callbacks s \<and> tx_stream s' = tx_stream s @ concat (publish_parts (next_id s) (pp_reply opts len buf))"
proof -
  have l: "size_of_long len = nat len" using m(3,4) by simp
  obtain bytes where b: "arr_slice buf 0 (nat len) = Some bytes" "length bytes = nat len"
    using m(3,5) by (intro that [of "take (nat len) buf"]) simp_all
  obtain c where c: "arr_write (pp_payload (sy_world s)) 0 bytes = Some c"
    using b(2) m(3,4) copy by (intro that [of "bytes @ drop (nat len) (pp_payload (sy_world s))"]) simp
  let ?s = "s\<lparr>sy_world := (sy_world s)\<lparr>pp_payload := c\<rparr>\<rparr>"
  have "stream_ok ?s" "lmqtt_store_is_queueable (cl_main_store ?s)" "\<forall>e \<in> set (tx_pending ?s). \<not> reads_object PP_PUBLISH e"
    using ok room free by (simp_all add: stream_ignores)
  from publish_static [OF this reply_sendable [OF opts m(3-5)]]
  obtain s' where "lmqtt_client_publish PP_PUBLISH (set_publish (pp_reply opts len buf) ?s) = Some (True, s')" "stream_ok s'"
      "cl_message_callbacks s' = cl_message_callbacks s" "tx_stream s' = tx_stream s @ concat (publish_parts (next_id s) (pp_reply opts len buf))"
    by (auto simp: pp_reply_def pp_publish_def stream_ignores next_id_def)
  then show ?thesis
    using m(1,2) b(1) c l by (simp add: pp_on_message_def Let_def pp_reply_def del: arr_iffs)
qed

section \<open>The end of a message\<close>

text \<open>A client of the program that has just received the last byte of a PUBLISH with a payload in memory.\<close>

definition pp_received :: "qos \<Rightarrow> packet_id \<Rightarrow> int \<Rightarrow> byte list \<Rightarrow> 'o pp_world sys \<Rightarrow> bool" where
  "pp_received q pid len buf s \<longleftrightarrow> stream_ok s \<and> rx_store (cl_rx s) = MAIN_STORE \<and>
     cl_message_callbacks s = pp_message_callbacks \<and> \<not> ri_ignore_publish (ri s) \<and> ri_packet_id (ri s) = pid \<and>
     str_buf (pb_payload (ri_publish (ri s))) = Some buf \<and> str_len (pb_payload (ri_publish (ri s))) = len \<and>
     0 \<le> len \<and> len \<le> 256 \<and> len \<le> int (length buf) \<and> length (pp_payload (sy_world s)) = 256 \<and>
     st_count (cl_main_store s) + 2 \<le> st_capacity (cl_main_store s) \<and>
     (\<forall>e \<in> set (tx_pending s). \<not> reads_object PP_PUBLISH e) \<and>
     (q = QOS_2 \<longrightarrow> id_set_inv (rx_id_set (cl_rx s)) \<and> pid \<notin> known_ids s \<and>
        ids_count (rx_id_set (cl_rx s)) < ids_capacity (rx_id_set (cl_rx s)) \<and>
        ids_count (rx_id_set (cl_rx s)) < length (ids_items (rx_id_set (cl_rx s))))"

definition acknowledgement_bytes :: "qos \<Rightarrow> packet_id \<Rightarrow> byte list" where
  "acknowledgement_bytes q pid = (if q = QOS_0 then [] else (if q = QOS_2 then [0x50, 2] else [0x40, 2]) @ be16 (uint pid))"

lemma append_keeps_id: "lmqtt_store_append st k v = Some (b, st') \<Longrightarrow> st_next_packet_id st' = st_next_packet_id st \<and>
    st_capacity st' = st_capacity st \<and> st_count st' \<le> Suc (st_count st)"
  by (auto simp: lmqtt_store_append_def bind_eq_Some_conv Let_def simp del: arr_iffs split: if_splits)

lemma queue_acknowledgement:
  assumes ok: "stream_ok s" and room: "st_count (cl_main_store s) < st_capacity (cl_main_store s)" and k: "k = KIND_PUBREC \<or> k = KIND_PUBACK"
    and free: "\<forall>e \<in> set (tx_pending s). \<not> reads_object a e"
  shows "\<exists>st. lmqtt_store_append (cl_main_store s) k (Some (store_value_zero\<lparr>sv_packet_id := pid\<rparr>)) = Some (True, st) \<and>
    stream_ok (s\<lparr>cl_main_store := st\<rparr>) \<and> next_id (s\<lparr>cl_main_store := st\<rparr>) = next_id s \<and>
    st_capacity st = st_capacity (cl_main_store s) \<and> st_count st \<le> Suc (st_count (cl_main_store s)) \<and>
    (\<forall>e \<in> set (tx_pending (s\<lparr>cl_main_store := st\<rparr>)). \<not> reads_object a e) \<and>
    tx_stream (s\<lparr>cl_main_store := st\<rparr>) = tx_stream s @ (if k = KIND_PUBREC then [0x50, 2] else [0x40, 2]) @ be16 (uint pid)"
proof -
  let ?v = "store_value_zero\<lparr>sv_packet_id := pid\<rparr>" and ?e = "\<lparr>se_kind = k, se_value = store_value_zero\<lparr>sv_packet_id := pid\<rparr>\<rparr>"
  have good: "tx_good s" "connected s" "all_before_disconnect s" using ok by (simp_all add: stream_ok_def)
  then have st0: "store_inv (cl_main_store s)" "store_pending (cl_main_store s) = tx_pending s" "store_marked (cl_main_store s) = tx_marked s"
    using main_store_stream(4,5) [OF good(2)] by (auto simp: tx_good_def connected_def get_store_def)
  have new: "new_entry (sy_heap s) (tx_pending s) ?e"
    using k by (auto simp: new_entry_def entry_quiet_def store_value_zero_def)
  obtain ok' st where r: "lmqtt_store_append (cl_main_store s) k (Some ?v) = Some (ok', st)"
      "ok' \<longleftrightarrow> lmqtt_store_is_queueable (cl_main_store s)"
      "if ok' then queued ?e s (s\<lparr>cl_main_store := st\<rparr>) else unqueued s (s\<lparr>cl_main_store := st\<rparr>)"
    using append_request [OF good, of k "Some ?v" "cl_main_store s", unfolded option.case] new st0 by auto
  have q: "ok'" "queued ?e s (s\<lparr>cl_main_store := st\<rparr>)" using r(2,3) room by (auto simp: lmqtt_store_is_queueable_def)
  have "stream_ok (s\<lparr>cl_main_store := st\<rparr>)"
    using q(2) good(3) k by (auto simp: stream_ok_def queued_def all_before_disconnect_def)
  then show ?thesis
    using r(1) q k free append_keeps_id [OF r(1)]
    by (intro exI [of _ st]) (auto simp: queued_def next_id_def reads_object_def)
qed

lemma deliver_replies:
  assumes ok: "stream_ok s" and room: "lmqtt_store_is_queueable (cl_main_store s)"
    and free: "\<forall>e \<in> set (tx_pending s). \<not> reads_object PP_PUBLISH e" and opts: "to_ok opts"
    and cb: "cl_message_callbacks s = pp_message_callbacks" "\<not> ri_ignore_publish (ri s)"
    and m: "str_buf (pb_payload (ri_publish (ri s))) = Some buf" "str_len (pb_payload (ri_publish (ri s))) = len"
      "0 \<le> len" "len \<le> 256" "len \<le> int (length buf)"
    and copy: "length (pp_payload (sy_world s)) = 256"
  shows "\<exists>s'. rx_buffer_publish_deliver (pp_env os opts) q s = Some (DECODE_FINISHED, s') \<and> stream_ok s' \<and>
    tx_stream s' = tx_stream s @ concat (publish_parts (next_id s) (pp_reply opts len buf))"
proof -
  let ?s = "upd_ri (\<lambda>i. i\<lparr>ri_publish := (ri_publish i)\<lparr>pb_qos := q, pb_retain := word_of_int (fh_retain (ri_header i))\<rparr>\<rparr>) s"
  have same: "tx_stream ?s = tx_stream s" "tx_pending ?s = tx_pending s" "stream_ok ?s = stream_ok s" "next_id ?s = next_id s"
    by (simp_all add: upd_ri_def stream_ignores next_id_def)
  obtain s' where s': "pp_on_message os opts ?s = Some (True, s')" "stream_ok s'"
      "cl_message_callbacks s' = cl_message_callbacks s" "tx_stream s' = tx_stream s @ concat (publish_parts (next_id s) (pp_reply opts len buf))"
    using on_message_replies [of ?s opts buf len os] assms by (auto simp: same)
  show ?thesis
    using s' cb by (intro exI [of _ s']) (simp add: rx_buffer_publish_deliver_def pp_message_callbacks_def pp_env_def
        rx_buffer_deallocate_publish_def)
qed

text \<open>What the answer needs of the client: the state \<open>s1\<close> that the acknowledgement leaves.\<close>

definition answerable :: "'o pp_world sys \<Rightarrow> 'o pp_world sys \<Rightarrow> bool" where
  "answerable s s1 \<longleftrightarrow> stream_ok s1 \<and> lmqtt_store_is_queueable (cl_main_store s1) \<and>
     (\<forall>e \<in> set (tx_pending s1). \<not> reads_object PP_PUBLISH e) \<and> next_id s1 = next_id s \<and>
     cl_message_callbacks s1 = cl_message_callbacks s \<and> ri s1 = ri s \<and> sy_world s1 = sy_world s"

lemma acknowledgement_queued:
  assumes "pp_received q pid len buf s" and "q = QOS_1 \<or> q = QOS_2"
  shows "\<exists>st. lmqtt_store_append (cl_main_store s) (if q = QOS_2 then KIND_PUBREC else KIND_PUBACK)
      (Some (store_value_zero\<lparr>sv_packet_id := pid\<rparr>)) = Some (True, st) \<and>
    answerable s (s\<lparr>cl_main_store := st\<rparr>) \<and>
    tx_stream (s\<lparr>cl_main_store := st\<rparr>) = tx_stream s @ acknowledgement_bytes q pid"
proof -
  note r = assms(1) [unfolded pp_received_def]
  let ?k = "if q = QOS_2 then KIND_PUBREC else KIND_PUBACK"
  have ack: "(if ?k = KIND_PUBREC then [0x50, 2] else [0x40, 2]) @ be16 (uint pid) = acknowledgement_bytes q pid"
    using assms(2) by (auto simp: acknowledgement_bytes_def)
  have "\<exists>st. lmqtt_store_append (cl_main_store s) ?k (Some (store_value_zero\<lparr>sv_packet_id := pid\<rparr>)) = Some (True, st) \<and>
      stream_ok (s\<lparr>cl_main_store := st\<rparr>) \<and> next_id (s\<lparr>cl_main_store := st\<rparr>) = next_id s \<and>
      st_capacity st = st_capacity (cl_main_store s) \<and> st_count st \<le> Suc (st_count (cl_main_store s)) \<and>
      (\<forall>e \<in> set (tx_pending (s\<lparr>cl_main_store := st\<rparr>)). \<not> reads_object PP_PUBLISH e) \<and>
      tx_stream (s\<lparr>cl_main_store := st\<rparr>) = tx_stream s @ acknowledgement_bytes q pid"
    unfolding ack [symmetric] by (rule queue_acknowledgement) (use r in auto)
  then show ?thesis
    using r by (elim exE) (auto simp: answerable_def lmqtt_store_is_queueable_def)
qed

lemma finish_delivers:
  assumes "pp_received q pid len buf s" and "q = QOS_0 \<or> q = QOS_1 \<or> q = QOS_2"
  shows "\<exists>s1. rx_buffer_publish_finish env q s = rx_buffer_publish_deliver env q s1 \<and> answerable s s1 \<and>
    tx_stream s1 = tx_stream s @ acknowledgement_bytes q pid"
proof (cases "q = QOS_0")
  case True
  then show ?thesis
    using assms(1) by (auto simp: rx_buffer_publish_finish_def acknowledgement_bytes_def answerable_def pp_received_def
        lmqtt_store_is_queueable_def)
next
  case False
  note r = assms(1) [unfolded pp_received_def]
  obtain st where st: "lmqtt_store_append (cl_main_store s) (if q = QOS_2 then KIND_PUBREC else KIND_PUBACK)
        (Some (store_value_zero\<lparr>sv_packet_id := pid\<rparr>)) = Some (True, st)"
      "answerable s (s\<lparr>cl_main_store := st\<rparr>)" "tx_stream (s\<lparr>cl_main_store := st\<rparr>) = tx_stream s @ acknowledgement_bytes q pid"
    using acknowledgement_queued [OF assms(1)] assms(2) False by blast
  have main: "get_store MAIN_STORE s = cl_main_store s" "set_store MAIN_STORE st s = s\<lparr>cl_main_store := st\<rparr>"
    by (simp_all add: get_store_def set_store_def)
  show ?thesis
  proof (cases "q = QOS_2")
    case one: False
    then show ?thesis using False st r main by (auto simp: rx_buffer_publish_finish_def)
  next
    case two: True
    obtain ids where ids: "lmqtt_id_set_put (rx_id_set (cl_rx s)) pid = Some (True, ids)"
      using id_set_put_spec(2) [of "rx_id_set (cl_rx s)" pid] r two by auto
    have new: "lmqtt_id_set_contains (rx_id_set (cl_rx s)) pid = Some False"
      using id_set_contains_spec [of "rx_id_set (cl_rx s)" pid] r two by auto
    let ?s1 = "s\<lparr>cl_main_store := st, cl_rx := (cl_rx s)\<lparr>rx_id_set := ids\<rparr>\<rparr>"
    have "answerable s ?s1" "tx_stream ?s1 = tx_stream (s\<lparr>cl_main_store := st\<rparr>)"
      using st(2) by (auto simp: answerable_def next_id_def stream_ignores)
    then show ?thesis
      using st(1,3) two r main ids new by (auto simp: rx_buffer_publish_finish_def intro!: exI [of _ ?s1])
  qed
qed

text \<open>
  C12. When the last byte of a message with a payload in memory has come in, the message is
  acknowledged, and then answered: at the end of the bytes to be sent are its PUBACK or PUBREC (none
  for quality of service 0), and a QoS 2 PUBLISH on the topic of the other program, with the same
  payload and the next identifier.
\<close>

theorem pingpong_replies:
  assumes "pp_received q pid len buf s" and "to_ok opts" and "q = QOS_0 \<or> q = QOS_1 \<or> q = QOS_2"
  shows "\<exists>s' m. rx_buffer_publish_finish (pp_env os opts) q s = Some (DECODE_FINISHED, s') \<and>
    tx_stream s' = tx_stream s @ acknowledgement_bytes q pid @ concat (publish_parts (next_id s) m) \<and>
    message_of m = (takeWhile (\<lambda>b. b \<noteq> 0) (po_to opts), take (nat len) buf, QOS_2, False)"
proof -
  note r = assms(1) [unfolded pp_received_def]
  have m: "message_of (pp_reply opts len buf) = (takeWhile (\<lambda>b. b \<noteq> 0) (po_to opts), take (nat len) buf, QOS_2, False)"
    using r by (intro reply_message) simp_all
  obtain s1 where s1: "rx_buffer_publish_finish (pp_env os opts) q s = rx_buffer_publish_deliver (pp_env os opts) q s1"
      "answerable s s1" "tx_stream s1 = tx_stream s @ acknowledgement_bytes q pid"
    using finish_delivers [OF assms(1,3)] by blast
  have "\<exists>s'. rx_buffer_publish_deliver (pp_env os opts) q s1 = Some (DECODE_FINISHED, s') \<and> stream_ok s' \<and>
      tx_stream s' = tx_stream s1 @ concat (publish_parts (next_id s1) (pp_reply opts len buf))"
    by (rule deliver_replies) (use s1(2) r assms(2) in \<open>auto simp: answerable_def\<close>)
  then show ?thesis using s1 m by (auto simp: answerable_def)
qed

text \<open>A client that has received the two bytes \<open>hi\<close> with identifier 9, and answers on the topic \<open>a\<close>.\<close>

definition example_pong :: "unit pp_world sys" where
  "example_pong = (client_setup example_buffers Map.empty
      \<lparr>pp_socket_fd = 3, pp_message_fd = -1, pp_payload = replicate 256 0, pp_os = ()\<rparr>)
    \<lparr>cl_op_subscribe := OP_DO, cl_op_unsubscribe := OP_DO, cl_op_publish := OP_DO, cl_op_pingreq := OP_DO,
      cl_op_disconnect := OP_DO, cl_message_callbacks := pp_message_callbacks,
      cl_rx := \<lparr>rx_store = MAIN_STORE, rx_id_set = empty_id_set 16 4, rx_internal = rx_internal_zero\<lparr>ri_packet_id := 9,
        ri_publish := publish_zero\<lparr>pb_payload := lstring_zero\<lparr>str_len := 2, str_buf := Some [104, 105]\<rparr>\<rparr>\<rparr>\<rparr>\<rparr>"

lemma example_pong_received: "pp_received QOS_2 9 2 [104, 105] example_pong"
proof -
  have "tx_pending example_pong = []"
    by (simp add: tx_pending_def example_pong_def client_setup_def get_store_def store_pending_def store_live_def fresh_store_def)
  then have "stream_ok example_pong"
    by (simp add: stream_ok_def tx_good_def connected_def all_before_disconnect_def example_pong_def client_setup_def get_store_def
        fresh_store_def store_inv_def example_buffers_def sizeof_store_entry_def tx_internal_zero_def fresh_buffer_def encode_buffer_zero_def)
  then show ?thesis
    using \<open>tx_pending example_pong = []\<close>
    by (simp add: pp_received_def) (simp add: example_pong_def client_setup_def fresh_store_def example_buffers_def sizeof_store_entry_def
        rx_internal_zero_def empty_id_set_def id_set_inv_def ids_list_def ids_members_def)
qed

theorem pingpong_replies_witness:
  "\<exists>s' m. rx_buffer_publish_finish (pp_env counting_os example_pp_options) QOS_2 example_pong = Some (DECODE_FINISHED, s') \<and>
    tx_stream s' = [0x50, 2, 0, 9] @ concat (publish_parts 0 m) \<and> message_of m = ([97], [104, 105], QOS_2, False)"
proof -
  have "tx_stream example_pong = []" "next_id example_pong = 0"
    by (simp_all add: tx_stream_def tx_pending_def next_id_def example_pong_def client_setup_def get_store_def store_pending_def
        store_live_def fresh_store_def)
  then show ?thesis
    using pingpong_replies [OF example_pong_received, of example_pp_options counting_os]
    by (auto simp: to_ok_def example_pp_options_def pp_default_options_def c_strlen_def acknowledgement_bytes_def be16_def string_len_byte_def)
qed

section \<open>One object for every answer\<close>

text \<open>
  An answer that is still queued when the next message is answered is lost: both requests refer
  to the static object, and from then on each would be sent with the new payload.
\<close>

theorem pingpong_overwrites_reply:
  assumes "pp_on_message os opts s = Some (True, s')"
    and "str_buf (pb_payload (ri_publish (ri s))) = Some buf" and "str_len (pb_payload (ri_publish (ri s))) = int (length buf)"
    and "se_kind e = KIND_PUBLISH_2" and "sv_value (se_value e) = Some PP_PUBLISH"
  shows "\<exists>m. entry_parts (sy_heap s') e = publish_parts (sv_packet_id (se_value e)) m \<and>
    message_of m = (takeWhile (\<lambda>b. b \<noteq> 0) (po_to opts), buf, QOS_2, False)"
proof -
  obtain c b where p: "lmqtt_client_publish PP_PUBLISH
      (set_publish (pp_reply opts (int (length buf)) buf) (s\<lparr>sy_world := (sy_world s)\<lparr>pp_payload := c\<rparr>\<rparr>)) = Some (b, s')"
    using assms(1-3) by (auto simp: pp_on_message_def Let_def bind_eq_Some_conv pp_reply_def simp del: arr_iffs)
  have "sy_heap s' PP_PUBLISH = Some (OPublish (pp_reply opts (int (length buf)) buf))"
    using publish_keeps_tx [OF p] by (simp add: set_publish_def)
  then show ?thesis
    using assms(4,5) reply_message [of "int (length buf)" buf opts] by (auto simp: get_publish_def)
qed

theorem pingpong_overwrites_reply_witness:
  "\<exists>s' m. pp_on_message counting_os example_pp_options example_pong = Some (True, s') \<and>
    entry_parts (sy_heap s') \<lparr>se_kind = KIND_PUBLISH_2, se_value = store_value_zero\<lparr>sv_packet_id := 4, sv_value := Some PP_PUBLISH\<rparr>\<rparr> =
      publish_parts 4 m \<and> message_of m = ([97], [104, 105], QOS_2, False)"
proof -
  note r = example_pong_received [unfolded pp_received_def]
  have "to_ok example_pp_options" by (simp add: to_ok_def example_pp_options_def pp_default_options_def c_strlen_def)
  then obtain s' where "pp_on_message counting_os example_pp_options example_pong = Some (True, s')"
    using on_message_replies [of example_pong example_pp_options "[104, 105]" 2 counting_os] r
    by (auto simp: lmqtt_store_is_queueable_def)
  then show ?thesis
    using pingpong_overwrites_reply [of counting_os example_pp_options example_pong s' "[104, 105]"
        "\<lparr>se_kind = KIND_PUBLISH_2, se_value = store_value_zero\<lparr>sv_packet_id := 4, sv_value := Some PP_PUBLISH\<rparr>\<rparr>"] r
    by (auto simp: example_pp_options_def pp_default_options_def)
qed

end
