(* ===== verification/Example_Limits.thy ===== *)
theory Example_Limits
  imports Pingpong Ranges
begin

text \<open>
  Where the example programs use memory and descriptors beyond what they have: the set of
  identifiers, whose size they give in bytes; the array for the topic of a message; and the file
  that a message is kept in, which \<open>select\<close> is told not to look at.
\<close>

section \<open>The identifiers\<close>

primrec put_all :: "packet_id list \<Rightarrow> id_set \<Rightarrow> id_set option" where
  "put_all [] ids = Some ids"
| "put_all (x # xs) ids = do { (_, ids1) \<leftarrow> lmqtt_id_set_put ids x; put_all xs ids1 }"

lemma put_all_room:
  assumes "id_set_inv ids" and "distinct pids" and "set pids \<inter> ids_members ids = {}"
    and "length (ids_items ids) < ids_capacity ids"
  shows "put_all pids ids = None \<longleftrightarrow> length (ids_items ids) < ids_count ids + length pids"
  using assms
proof (induction pids arbitrary: ids)
  case Nil
  then show ?case by (simp add: id_set_inv_def)
next
  case (Cons x xs)
  show ?case
  proof (cases "ids_count ids < length (ids_items ids)")
    case False
    then have "lmqtt_id_set_put ids x = None"
      using Cons.prems by (intro id_set_put_beyond) (auto simp: id_set_inv_def)
    then show ?thesis using False by simp
  next
    case True
    then obtain ids1 where i: "lmqtt_id_set_put ids x = Some (True, ids1)" "id_set_inv ids1" "ids_list ids1 = ids_list ids @ [x]"
        "ids_capacity ids1 = ids_capacity ids" "length (ids_items ids1) = length (ids_items ids)"
      using id_set_put_spec(2) [OF Cons.prems(1), of x] Cons.prems by auto
    have "ids_count ids1 = Suc (ids_count ids)"
      using i(3) length_ids_list [OF i(2)] length_ids_list [OF Cons.prems(1)] by simp
    moreover have "set xs \<inter> ids_members ids1 = {}"
      using Cons.prems(2,3) i(3) by (auto simp: ids_members_def)
    ultimately show ?thesis using Cons.IH [OF i(2)] Cons.prems i by simp
  qed
qed

text \<open>
  C35. Both programs give the size of their array of identifiers in bytes where the library counts
  identifiers. So the set takes 64 of them and the array has 32: the set works for the first 32
  QoS 2 messages that wait for their release, and the 33rd is written behind the array.
\<close>

theorem example_id_set_overrun:
  assumes "bs = rc_buffers \<or> bs = pp_buffers" and "distinct pids"
  shows "(put_all pids (rx_id_set (cl_rx (client_setup bs hp w))) = None \<longleftrightarrow> 32 < length pids) \<and>
    ids_capacity (rx_id_set (cl_rx (client_setup bs hp w))) = 64"
proof -
  let ?ids = "\<lparr>ids_items = replicate 32 0, ids_capacity = 64, ids_count = 0\<rparr>"
  have e: "rx_id_set (cl_rx (client_setup bs hp w)) = ?ids"
    using assms(1) by (auto simp: client_setup_def rc_buffers_def pp_buffers_def)
  have "put_all pids ?ids = None \<longleftrightarrow> length (ids_items ?ids) < ids_count ?ids + length pids"
    by (rule put_all_room) (use assms(2) in \<open>simp_all add: id_set_inv_def ids_list_def ids_members_def\<close>)
  then show ?thesis unfolding e by simp
qed

theorem example_id_set_overrun_witness:
  "put_all (map of_nat [0..<33]) (rx_id_set (cl_rx (client_setup rc_buffers Map.empty ()))) = None"
proof -
  have "distinct (map of_nat [0..<33] :: packet_id list)" by code_simp
  from example_id_set_overrun [OF disjI1 [OF refl] this, of Map.empty "()"] show ?thesis by simp
qed

section \<open>The topic of a message\<close>

text \<open>
  C36. The callback for the topic of a message accepts every length, and the array behind it has 256
  bytes: the library reads a longer topic into memory behind the array. A topic fits exactly when it
  is at most 256 bytes long.
\<close>

theorem pingpong_topic_overrun:
  assumes "ri_publish (ri s) = publish_zero" and "ri_remain_buf_pos (ri s) = 2" and "\<not> ri_ignore_publish (ri s)"
    and "cl_message_callbacks s = pp_message_callbacks" and "0 < len" and "len \<le> 65535" and "len \<le> length bytes"
  shows "rx_buffer_allocate_write (pp_env os opts) 3 PART_TOPIC len bytes s = None \<longleftrightarrow> 256 < len"
proof -
  let ?str = "lstring_zero\<lparr>str_buf := Some (replicate 256 0), str_len := int len\<rparr>"
  have alloc: "rx_buffer_allocate (pp_env os opts) 3 PART_TOPIC len s =
      (True, upd_ri (\<lambda>i. i\<lparr>ri_publish := publish_zero\<lparr>pb_topic := ?str\<rparr>, ri_ignore_publish := False\<rparr>) s)"
    using assms(1-4) by (simp add: rx_buffer_allocate_def pp_message_callbacks_def pp_env_def pp_on_message_allocate_topic_def
        FN_ALLOCATE_TOPIC_def publish_zero_def Let_def) (simp add: upd_ri_def)
  have size: "size_of_long (int len) = len" using assms(6) by simp
  have w: "string_write io ?str (take len bytes) x = None \<longleftrightarrow> 256 < len" for io :: "'a pp_world io_env" and x
  proof (cases "256 < len")
    case True
    then have "arr_write (replicate 256 (0 :: byte)) 0 (take len bytes) = None"
      using assms(7) by (simp add: arr_write_def)
    then show ?thesis
      using True assms(5,7) by (simp add: string_write_def string_move_def lstring_zero_def)
  next
    case False
    then obtain b where "arr_write (replicate 256 (0 :: byte)) 0 (take len bytes) = Some b"
      using assms(7) by (auto simp: arr_write_def)
    then show ?thesis
      using False assms(5,7) by (simp add: string_write_def string_move_def lstring_zero_def del: arr_iffs)
  qed
  have whole: "(if len < length bytes then len else length bytes) = len" using assms(7) by simp
  show ?thesis
    using assms(2) alloc w [of "en_io (pp_env os opts)" "sy_world s"]
    by (cases "string_write (en_io (pp_env os opts)) ?str (take len bytes) (sy_world s)")
      (auto simp: rx_buffer_allocate_write_def size whole publish_zero_def Let_def split: string_result.split)
qed

definition example_listener :: "unit pp_world sys" where
  "example_listener = (client_setup pp_buffers Map.empty
      \<lparr>pp_socket_fd = 3, pp_message_fd = -1, pp_payload = replicate 256 0, pp_os = ()\<rparr>)
    \<lparr>cl_message_callbacks := pp_message_callbacks,
     cl_rx := \<lparr>rx_store = MAIN_STORE, rx_id_set = empty_id_set 32 64,
       rx_internal = rx_internal_zero\<lparr>ri_remain_buf_pos := 2\<rparr>\<rparr>\<rparr>"

theorem pingpong_topic_overrun_witness:
  "rx_buffer_allocate_write (pp_env counting_os example_pp_options) 3 PART_TOPIC 257 (replicate 300 97) example_listener = None"
  using pingpong_topic_overrun [of example_listener 257 "replicate 300 97" counting_os example_pp_options]
  by (simp add: example_listener_def rx_internal_zero_def)

section \<open>The file of a message\<close>

text \<open>What \<open>select\<close> documents: only the descriptors below its first argument count.\<close>

definition select_documented :: "'o os \<Rightarrow> bool" where
  "select_documented os \<longleftrightarrow> (\<forall>n rs ws rs' ws' t o1.
     filter (\<lambda>fd. fd < n) rs = filter (\<lambda>fd. fd < n) rs' \<longrightarrow> filter (\<lambda>fd. fd < n) ws = filter (\<lambda>fd. fd < n) ws' \<longrightarrow>
     os_select os n rs ws t o1 = os_select os n rs' ws' t o1)"

definition without_file :: "int \<Rightarrow> int" where
  "without_file res = res AND NOT (RES_WOULD_BLOCK_DATA_RD OR RES_WOULD_BLOCK_DATA_WR)"

lemma without_file_flags:
  "res_would_block_conn_rd (without_file res) = res_would_block_conn_rd res"
  "res_would_block_conn_wr (without_file res) = res_would_block_conn_wr res"
  "\<not> res_would_block_data_rd (without_file res)" "\<not> res_would_block_data_wr (without_file res)"
  by (simp_all add: without_file_def res_macro_defs res_defs and.assoc)

text \<open>
  C40. The program passes one more than its socket to \<open>select\<close>. A file that it opens while it is
  connected has a larger descriptor, so that waiting for the file has no effect: \<open>select\<close> does what
  it would do without the flags for it.
\<close>

theorem pingpong_ignores_file:
  assumes "select_documented os" and "pp_socket_fd (sy_world s) < pp_message_fd (sy_world s)"
  shows "pp_select os opts res s = pp_select os opts (without_file res) s"
proof -
  let ?fd = "pp_socket_fd (sy_world s)" and ?m = "pp_message_fd (sy_world s)"
  have cut: "filter (\<lambda>fd. fd < ?fd + 1) (xs @ (if b then [?m] else [])) = filter (\<lambda>fd. fd < ?fd + 1) (xs @ [])" for xs b
    using assms(2) by simp
  have "os_select os (?fd + 1) (xs @ (if b then [?m] else [])) (ys @ (if c then [?m] else [])) t o1 =
      os_select os (?fd + 1) (xs @ []) (ys @ []) t o1" for xs ys b c t o1
    using assms(1) cut unfolding select_documented_def by blast
  then show ?thesis by (simp add: pp_select_def without_file_flags)
qed

definition blocking_client :: "unit pp_world sys" where
  "blocking_client = (client_setup pp_buffers Map.empty
     \<lparr>pp_socket_fd = 3, pp_message_fd = 4, pp_payload = replicate 256 0, pp_os = ()\<rparr>)"

theorem pingpong_ignores_file_witness:
  "fst (pp_select counting_os example_pp_options RES_WOULD_BLOCK_DATA_RD blocking_client) = Some 1"
proof -
  have doc: "select_documented counting_os" by (simp add: select_documented_def counting_os_def)
  have fd: "pp_socket_fd (sy_world blocking_client) < pp_message_fd (sy_world blocking_client)"
    by (simp add: blocking_client_def client_setup_def)
  have none: "without_file RES_WOULD_BLOCK_DATA_RD = 0" by (simp add: without_file_def res_defs)
  have "fst (pp_select counting_os example_pp_options 0 blocking_client) = Some 1"
    by (simp add: pp_select_def blocking_client_def client_setup_def lmqtt_client_get_timeout_def lmqtt_store_get_timeout_def
        get_store_def fresh_store_def counting_os_def res_macro_defs res_defs)
  then show ?thesis using pingpong_ignores_file [OF doc fd, of example_pp_options RES_WOULD_BLOCK_DATA_RD] none by simp
qed

end
